(* ===== verification/WP_Prelude.thy ===== *)
theory WP_Prelude
  imports Complex_Main "HOL-Library.Word" "HOL-Library.List_Lexorder" "HOL-Library.Char_ord"
begin

text \<open>
  The types and lemmas every component of the development shares: errors as values and the
  sequencing of fallible steps, Go's \<open>uint64\<close>, \<open>float64\<close> and \<open>time.Time\<close>, the text form of
  a timestamp and the order SQLite puts on it, and generic facts on lists of rows.
\<close>

named_theorems step_simps \<open>equations that unfold one step of a handler\<close>
named_theorems constraint_simps \<open>equations that unfold the constraints of the schema\<close>

type_synonym u64 = "64 word"
type_synonym id = string
type_synonym time = int

section \<open>Errors as values\<close>

text \<open>
  Every error a Go function returns is one of these values. \<open>Err m\<close> is \<open>errors.New(m)\<close> (or
  \<open>fmt.Errorf\<close> with its fixed text), \<open>Invariant m\<close> is \<open>invariantf\<close> of the replicated state machine,
  \<open>Constraint\<close> is a statement SQLite refuses because of a key, foreign key or check,
  \<open>ErrNoRows\<close> is \<open>sql.ErrNoRows\<close>, \<open>IOFault\<close> any other failure of the database connection and
  \<open>ErrStandalonePath\<close> the sentinel of the mutation router.
\<close>

datatype err =
    Err string
  | Invariant string
  | Wrapped string err
  | Constraint
  | ErrNoRows
  | IOFault
  | ErrStandalonePath

text \<open>\<open>bindE m f\<close> runs \<open>f\<close> on the result of \<open>m\<close> and stops at its error: \<open>if err != nil { return err }\<close>.\<close>

definition bindE :: "'e + 'a \<Rightarrow> ('a \<Rightarrow> 'e + 'b) \<Rightarrow> 'e + 'b" where
  "bindE m f = (case m of Inl e \<Rightarrow> Inl e | Inr x \<Rightarrow> f x)"

definition ensure :: "bool \<Rightarrow> err \<Rightarrow> err + unit" where
  "ensure b e = (if b then Inr () else Inl e)"

primrec foldE :: "('a \<Rightarrow> 's \<Rightarrow> 'e + 's) \<Rightarrow> 'a list \<Rightarrow> 's \<Rightarrow> 'e + 's" where
  "foldE f [] s = Inr s"
| "foldE f (x # xs) s = bindE (f x s) (foldE f xs)"

definition isOK :: "'e + 'a \<Rightarrow> bool" where
  "isOK r = (case r of Inl e \<Rightarrow> False | Inr x \<Rightarrow> True)"

section \<open>float64\<close>

text \<open>
  The code compares \<open>float64\<close> values and never computes with them on the paths modelled here. Every
  finite double is a rational number, so a finite value is a \<^typ>\<open>rat\<close>; infinities and NaN are separate.
\<close>

datatype f64 = Num rat | PInf | NInf | NaN

fun f64_less :: "f64 \<Rightarrow> f64 \<Rightarrow> bool" where
  "f64_less (Num a) (Num b) = (a < b)"
| "f64_less (Num a) PInf = True"
| "f64_less NInf (Num b) = True"
| "f64_less NInf PInf = True"
| "f64_less _ _ = False"

definition f64_eq :: "f64 \<Rightarrow> f64 \<Rightarrow> bool" where
  "f64_eq a b = (a = b \<and> a \<noteq> NaN)"

definition f64_le :: "f64 \<Rightarrow> f64 \<Rightarrow> bool" where
  "f64_le a b = (f64_less a b \<or> f64_eq a b)"

definition is_finite :: "f64 \<Rightarrow> bool" where
  "is_finite v = (case v of Num q \<Rightarrow> True | _ \<Rightarrow> False)"

section \<open>Time\<close>

text \<open>
  \<open>time.Time\<close> is a number of nanoseconds since the Unix epoch. A TEXT column that holds
  \<open>t.UTC().Format(time.RFC3339Nano)\<close> is represented by \<open>t\<close> itself, and a comparison of two such
  columns in a statement by \<open>text_less\<close>: SQLite compares the two texts byte by byte. The texts of
  two instants agree up to the seconds exactly when the seconds do (the date and time fields have a
  fixed width), and RFC3339Nano writes the fraction of the second without trailing zeros and leaves
  it out when it is zero, so the rest is compared as text.
\<close>

definition nanosecond :: int where "nanosecond = 1"
definition second :: int where "second = 1000000000"
definition minute :: int where "minute = 60 * second"
definition hour :: int where "hour = 60 * minute"

definition seconds_of :: "time \<Rightarrow> int" where
  "seconds_of t = t div second"

fun digits_upto :: "nat \<Rightarrow> nat \<Rightarrow> string" where
  "digits_upto 0 n = []"
| "digits_upto (Suc k) n = digits_upto k (n div 10) @ [char_of (48 + n mod 10)]"

definition trim_zeros :: "string \<Rightarrow> string" where
  "trim_zeros s = rev (dropWhile (\<lambda>c. c = CHR ''0'') (rev s))"

definition fraction_text :: "time \<Rightarrow> string" where
  "fraction_text t =
     (let n = nat (t mod second)
      in (if n = 0 then [] else CHR ''.'' # trim_zeros (digits_upto 9 n)) @ ''Z'')"

definition text_less :: "time \<Rightarrow> time \<Rightarrow> bool" where
  "text_less a b =
     (seconds_of a < seconds_of b \<or> seconds_of a = seconds_of b \<and> fraction_text a < fraction_text b)"

definition text_le :: "time \<Rightarrow> time \<Rightarrow> bool" where
  "text_le a b = (\<not> text_less b a)"

section \<open>Rows\<close>

definition ids_max :: "nat list \<Rightarrow> nat" where
  "ids_max ns = foldr max ns 0"

text \<open>The id SQLite gives a new row of a table with an INTEGER PRIMARY KEY.\<close>

definition next_id :: "nat list \<Rightarrow> nat" where
  "next_id ns = Suc (ids_max ns)"

definition somes :: "('a \<Rightarrow> 'b option) \<Rightarrow> 'a list \<Rightarrow> 'b list" where
  "somes f xs = concat (map (\<lambda>x. case f x of None \<Rightarrow> [] | Some y \<Rightarrow> [y]) xs)"

text \<open>\<open>UPDATE t SET .. WHERE P\<close> and the number of rows it affects.\<close>

definition upd_where :: "('a \<Rightarrow> bool) \<Rightarrow> ('a \<Rightarrow> 'a) \<Rightarrow> 'a list \<Rightarrow> 'a list" where
  "upd_where P f xs = map (\<lambda>x. if P x then f x else x) xs"

definition count_where :: "('a \<Rightarrow> bool) \<Rightarrow> 'a list \<Rightarrow> nat" where
  "count_where P xs = length (filter P xs)"

definition del_where :: "('a \<Rightarrow> bool) \<Rightarrow> 'a list \<Rightarrow> 'a list" where
  "del_where P xs = filter (\<lambda>x. \<not> P x) xs"

section \<open>Lemmas on errors\<close>

lemma bindE_Inl [simp]: "bindE (Inl e) f = Inl e"
  by (simp add: bindE_def)

lemma bindE_Inr [simp]: "bindE (Inr x) f = f x"
  by (simp add: bindE_def)

lemma bindE_eq_Inr: "bindE m f = Inr y \<longleftrightarrow> (\<exists>x. m = Inr x \<and> f x = Inr y)"
  by (cases m) auto

lemma bindE_eq_Inl: "bindE m f = Inl e \<longleftrightarrow> m = Inl e \<or> (\<exists>x. m = Inr x \<and> f x = Inl e)"
  by (cases m) auto

lemma bindE_InrE [elim]:
  assumes "bindE m f = Inr y" obtains x where "m = Inr x" and "f x = Inr y"
  using assms by (auto simp: bindE_eq_Inr)

lemma ensure_eq_Inr [simp]: "ensure b e = Inr u \<longleftrightarrow> b"
  by (simp add: ensure_def)

lemma ensure_eq_Inl [simp]: "ensure b e = Inl e' \<longleftrightarrow> \<not> b \<and> e' = e"
  by (auto simp: ensure_def)

lemma ensure_True [simp]: "b \<Longrightarrow> ensure b e = Inr ()"
  by (simp add: ensure_def)

lemma ensure_False [simp]: "\<not> b \<Longrightarrow> ensure b e = Inl e"
  by (simp add: ensure_def)

lemma isOK_simps [simp]: "isOK (Inr x)" "\<not> isOK (Inl e)"
  by (simp_all add: isOK_def)

lemma foldE_invariant:
  assumes "foldE f xs s = Inr s'" and "P s"
    and "\<And>x s s'. x \<in> set xs \<Longrightarrow> P s \<Longrightarrow> f x s = Inr s' \<Longrightarrow> P s'"
  shows "P s'"
  using assms by (induction xs arbitrary: s) (auto simp: bindE_eq_Inr)

section \<open>Lemmas on rows\<close>

lemma ids_max_ge: "n \<in> set ns \<Longrightarrow> n \<le> ids_max ns"
  by (induction ns) (auto simp: ids_max_def)

lemma next_id_fresh [simp]: "next_id ns \<notin> set ns"
  using ids_max_ge [of "next_id ns" ns] by (auto simp: next_id_def)

lemma next_id_map_fresh [simp]: "next_id (map f xs) \<notin> f ` set xs"
  using next_id_fresh [of "map f xs"] by (simp del: next_id_fresh)

lemma next_id_pos [simp]: "0 < next_id ns" "next_id ns \<noteq> 0"
  by (simp_all add: next_id_def)

lemma set_somes [simp]: "set (somes f xs) = {y. \<exists>x \<in> set xs. f x = Some y}"
  by (force simp: somes_def split: option.splits)

lemma somes_append [simp]: "somes f (xs @ ys) = somes f xs @ somes f ys"
  by (simp add: somes_def)

lemma somes_simps [simp]:
  "somes f [] = []"
  "somes f (x # xs) = (case f x of None \<Rightarrow> somes f xs | Some y \<Rightarrow> y # somes f xs)"
  by (simp_all add: somes_def split: option.splits)

lemma set_del_where [simp]: "set (del_where P xs) = {x \<in> set xs. \<not> P x}"
  by (auto simp: del_where_def)

lemma del_where_simps [simp]:
  "del_where P [] = []"
  "del_where P (x # xs) = (if P x then del_where P xs else x # del_where P xs)"
  by (simp_all add: del_where_def)

lemma distinct_map_del_where [intro]: "distinct (map f xs) \<Longrightarrow> distinct (map f (del_where P xs))"
  by (simp add: del_where_def distinct_map_filter)

lemma del_where_none: "(\<And>x. x \<in> set xs \<Longrightarrow> \<not> P x) \<Longrightarrow> del_where P xs = xs"
  by (simp add: del_where_def)

lemma length_upd_where [simp]: "length (upd_where P f xs) = length xs"
  by (simp add: upd_where_def)

lemma map_upd_where [simp]:
  "(\<And>x. x \<in> set xs \<Longrightarrow> P x \<Longrightarrow> g (f x) = g x) \<Longrightarrow> map g (upd_where P f xs) = map g xs"
  by (induction xs) (auto simp: upd_where_def)

lemma set_upd_where: "set (upd_where P f xs) = (\<lambda>x. if P x then f x else x) ` set xs"
  by (simp add: upd_where_def)

lemma upd_where_simps [simp]:
  "upd_where P f [] = []"
  "upd_where P f (x # xs) = (if P x then f x else x) # upd_where P f xs"
  by (simp_all add: upd_where_def)

lemma count_where_simps [simp]:
  "count_where P [] = 0"
  "count_where P (x # xs) = (if P x then Suc (count_where P xs) else count_where P xs)"
  by (simp_all add: count_where_def)

lemma count_where_pos: "0 < count_where P xs \<longleftrightarrow> (\<exists>x \<in> set xs. P x)"
  by (auto simp: count_where_def filter_empty_conv)

lemma count_where_zero [simp]: "count_where P xs = 0 \<longleftrightarrow> (\<forall>x \<in> set xs. \<not> P x)"
  by (auto simp: count_where_def filter_empty_conv)

lemma count_where_key_le:
  "distinct (map f xs) \<Longrightarrow> (\<And>x. P x \<Longrightarrow> f x = k) \<Longrightarrow> count_where P xs \<le> 1"
proof (induction xs)
  case (Cons x xs)
  show ?case
  proof (cases "P x")
    case True
    with Cons.prems have "\<forall>y \<in> set xs. \<not> P y" by force
    with True show ?thesis by simp
  next
    case False
    with Cons show ?thesis by simp
  qed
qed simp

lemma count_where_key [simp]:
  "distinct (map f xs) \<Longrightarrow> count_where (\<lambda>x. f x = k) xs = (if k \<in> f ` set xs then 1 else 0)"
  using count_where_key_le [of f xs "\<lambda>x. f x = k" k] count_where_pos [of "\<lambda>x. f x = k" xs]
  by force

lemma find_key_unique:
  "distinct (map f xs) \<Longrightarrow> x \<in> set xs \<Longrightarrow> find (\<lambda>y. f y = f x) xs = Some x"
  by (induction xs) auto

lemma find_set: "find P xs = Some x \<Longrightarrow> x \<in> set xs \<and> P x"
  by (auto simp: find_Some_iff)

lemma sort_key_unique:
  fixes f :: "'a \<Rightarrow> 'b::linorder"
  assumes "distinct (map f xs)" and "distinct (map f ys)" and "set xs = set ys"
  shows "sort_key f xs = sort_key f ys"
proof (rule map_sorted_distinct_set_unique [where f = f])
  show "inj_on f (set (sort_key f xs) \<union> set (sort_key f ys))"
    using assms by (simp add: distinct_map)
  show "sorted (map f (sort_key f xs))" "sorted (map f (sort_key f ys))" by simp_all
  show "distinct (map f (sort_key f xs))"
    using assms(1) by (metis distinct_map distinct_sort set_sort)
  show "distinct (map f (sort_key f ys))"
    using assms(2) by (metis distinct_map distinct_sort set_sort)
qed (simp add: assms)

section \<open>Lemmas on time\<close>

lemmas time_units = nanosecond_def second_def minute_def hour_def

lemma text_less_seconds: "text_less a b \<Longrightarrow> seconds_of a \<le> seconds_of b"
  by (auto simp: text_less_def)

lemma seconds_text_less: "seconds_of a < seconds_of b \<Longrightarrow> text_less a b"
  by (simp add: text_less_def)

lemma text_less_irrefl [simp]: "\<not> text_less a a"
  by (simp add: text_less_def)

lemma text_less_trans: "text_less a b \<Longrightarrow> text_less b c \<Longrightarrow> text_less a c"
  by (auto simp: text_less_def)

lemma text_less_asym: "text_less a b \<Longrightarrow> \<not> text_less b a"
  using text_less_trans by fastforce

text \<open>The order of the texts can differ from the order of the instants by less than a second.\<close>

lemma text_less_second: "a + second \<le> b \<Longrightarrow> text_less a b"
proof (rule seconds_text_less)
  assume "a + second \<le> b"
  then have "(a + second) div second \<le> b div second"
    by (intro zdiv_mono1) (simp_all add: second_def)
  then show "seconds_of a < seconds_of b"
    by (simp add: seconds_of_def second_def)
qed

lemma text_less_bound: "text_less a b \<Longrightarrow> a < b + second"
  using text_less_second [of b a] text_less_asym [of a b] by force

end
