(* ===== verification/Store.thy ===== *)
theory Store
  imports WP_Prelude
begin

text \<open>
  The database of a node (\<open>internal/store/store.go\<close>): one record per table with the columns of the schema
  at version 22, the database as a record of tables, the keys, foreign keys and checks the schema
  declares, and the execution of a statement and of a transaction over them.

  A table is the list of its rows in rowid order. INTEGER columns that hold 0 or 1 are \<^typ>\<open>bool\<close>, a
  nullable column is an \<open>option\<close>, a BLOB that holds a SHA-256 digest is a \<open>string\<close>, a TEXT column that
  holds a JSON object of strings is a \<open>labels_text\<close>, and a TEXT column that holds the JSON of an arbitrary value is that value as a \<open>json\<close>: the code only ever writes the
  result of \<open>json.Marshal\<close> there and reads it with \<open>json.Unmarshal\<close>, which returns the values that were decoded from a request unchanged. A statement is refused, and leaves the database as it
  was, when the database it would produce breaks a constraint (foreign keys are on and are checked at
  the end of the statement). \<open>io_fault\<close> is set by the environment and stands for a connection
  that fails: every statement on it fails.
\<close>

section \<open>Rows\<close>

datatype json = JNull | JBool bool | JNum f64 | JStr string | JArr "json list" | JObj "(string \<times> json) list"

datatype labels_text = LObj "(string \<times> string) list" | LNull | LBad string

record post_row =
  po_id :: id
  po_name :: string
  po_kind :: string
  po_address :: string
  po_owner :: string
  po_labels :: labels_text
  po_maintenance :: bool
  po_archived :: bool
  po_version :: int
  po_created :: string
  po_updated :: string

type_synonym dep_row = "id \<times> id"

record rule_row =
  ru_id :: id
  ru_post :: id
  ru_signal :: string
  ru_operator :: string
  ru_threshold :: f64
  ru_duration :: int
  ru_recovery :: "f64 option"
  ru_missing :: string
  ru_severity :: string
  ru_enabled :: bool
  ru_version :: int

record alert_row =
  al_id :: nat
  al_rule :: id
  al_post :: id
  al_state :: string
  al_severity :: string
  al_opened :: time
  al_updated :: time
  al_acknowledged :: "time option"
  al_resolved :: "time option"
  al_value :: "f64 option"

record collector_key =
  ck_id :: id
  ck_post :: id
  ck_secret :: string
  ck_revoked :: "time option"
  ck_last_sequence :: int
  ck_last_seen :: "time option"
  ck_last_observed :: "time option"
  ck_last_sent :: "time option"
  ck_last_error :: string
  ck_last_rejected :: "time option"
  ck_rejected_count :: int
  ck_partial :: bool
  ck_kind :: string
  ck_pending_secret :: "string option"
  ck_pending_expires :: "time option"
  ck_last_batch :: "string option"

record observation_row =
  ob_id :: nat
  ob_post :: id
  ob_collector :: id
  ob_observed :: time
  ob_ingested :: time
  ob_sequence :: int
  ob_signal :: string
  ob_value :: "f64 option"
  ob_unit :: string
  ob_quality :: string
  ob_labels :: labels_text

record pairing_token =
  pt_hash :: string
  pt_post :: id
  pt_expires :: time
  pt_used :: "time option"

record pairing_request =
  pr_id :: id
  pr_secret :: string
  pr_installation :: id
  pr_hostname :: string
  pr_platform :: string
  pr_version :: string
  pr_phrase :: string
  pr_state :: string
  pr_post :: "id option"
  pr_expires :: time
  pr_created :: time
  pr_approved :: "time option"
  pr_terminal :: "time option"

record agent_connection =
  ac_installation :: id
  ac_post :: id
  ac_hostname :: string
  ac_platform :: string
  ac_version :: string
  ac_created :: time
  ac_last_seen :: "time option"
  ac_revoked :: "time option"

record conversation_row =
  cv_id :: nat
  cv_user :: nat
  cv_post :: "id option"
  cv_incident :: "nat option"
  cv_created :: time

record message_row =
  ms_id :: nat
  ms_conversation :: nat
  ms_at :: time
  ms_role :: string
  ms_body :: string
  ms_evidence :: json

record evidence_row =
  ev_id :: nat
  ev_conversation :: nat
  ev_message :: nat
  ev_kind :: string
  ev_evidence :: nat
  ev_summary :: string
  ev_cited :: time

record action_row =
  aq_id :: nat
  aq_type :: string
  aq_post :: "id option"
  aq_parameters :: json
  aq_state :: string
  aq_requested_by :: nat
  aq_approved_by :: "nat option"
  aq_requested :: time
  aq_updated :: time
  aq_key :: string
  aq_result :: json

record device_profile =
  dp_id :: id
  dp_post :: id
  dp_kind :: string
  dp_address :: string
  dp_port :: nat
  dp_username :: string
  dp_created :: time
  dp_auth :: "string option"
  dp_privacy :: "string option"
  dp_interval :: int
  dp_next_run :: "time option"
  dp_enabled :: bool

record profile_oid =
  oi_profile :: id
  oi_position :: nat
  oi_name :: string
  oi_oid :: string
  oi_unit :: string

record route_row =
  rt_id :: id
  rt_kind :: string
  rt_destination :: string
  rt_secret :: string
  rt_enabled :: bool

record delivery_row =
  dl_id :: nat
  dl_alert :: nat
  dl_route :: id
  dl_state :: string
  dl_attempts :: nat
  dl_next :: time
  dl_delivered :: "time option"
  dl_error :: string

record incident_row =
  in_id :: nat
  in_title :: string
  in_severity :: string
  in_status :: string
  in_owner :: string
  in_summary :: string
  in_created :: time
  in_updated :: time
  in_resolved :: "time option"

type_synonym incident_alert = "nat \<times> nat"

record timeline_row =
  tl_id :: nat
  tl_incident :: nat
  tl_at :: time
  tl_kind :: string
  tl_actor :: string
  tl_body :: string

record log_row =
  lg_id :: nat
  lg_post :: id
  lg_source :: string
  lg_observed :: time
  lg_ingested :: time
  lg_severity :: string
  lg_message :: string
  lg_fields :: labels_text
  lg_truncated :: bool

record change_row =
  ch_id :: nat
  ch_post :: "id option"
  ch_kind :: string
  ch_occurred :: time
  ch_actor :: string
  ch_summary :: string
  ch_detail :: json

record check_schedule =
  cs_id :: id
  cs_post :: id
  cs_kind :: string
  cs_address :: string
  cs_server :: string
  cs_interval :: int
  cs_enabled :: bool
  cs_next_run :: time
  cs_created :: time

record check_result =
  cr_id :: nat
  cr_schedule :: id
  cr_checked :: time
  cr_ok :: bool
  cr_latency :: rat
  cr_status :: int
  cr_expires :: "time option"
  cr_failure :: string

record user_row =
  us_id :: nat
  us_username :: string
  us_email :: string
  us_password :: string
  us_role :: string
  us_created :: time

record session_row =
  se_token :: string
  se_user :: nat
  se_csrf :: string
  se_expires :: time

record audit_row =
  au_id :: nat
  au_at :: time
  au_actor :: "nat option"
  au_action :: string
  au_type :: string
  au_object :: string
  au_detail :: string

record bootstrap_token =
  bt_hash :: string
  bt_expires :: time
  bt_consumed :: "time option"

record peer_row =
  pe_id :: id
  pe_secret :: string
  pe_state :: string
  pe_created :: time
  pe_revoked :: "time option"

record outbox_row =
  ox_id :: nat
  ox_peer :: id
  ox_event :: id
  ox_kind :: string
  ox_payload :: string
  ox_created :: time
  ox_delivered :: "time option"

record inbox_row =
  ib_peer :: id
  ib_event :: id
  ib_received :: time
  ib_payload :: string

record member_row =
  cm_node :: id
  cm_installation :: id
  cm_name :: string
  cm_endpoint :: string
  cm_public_key :: string
  cm_caps :: "string list option"
  cm_protocol :: int
  cm_product :: string
  cm_inbound :: string
  cm_outbound :: string
  cm_state :: string
  cm_created :: time
  cm_paired :: time
  cm_last_seen :: "time option"
  cm_latency :: "int option"
  cm_revoked :: "time option"
  cm_credential_version :: int
  cm_pending :: "string option"
  cm_pending_expires :: "time option"

record nonce_row =
  no_node :: id
  no_nonce :: string
  no_seen :: time

record identity_row =
  ir_node :: id
  ir_installation :: id
  ir_name :: string
  ir_endpoint :: string
  ir_public :: string
  ir_private :: string
  ir_caps :: "string list option"
  ir_protocol :: int
  ir_product :: string
  ir_created :: time
  ir_paired :: "time option"
  ir_seen :: "time option"
  ir_revoked :: "time option"

record invitation_row =
  iv_id :: id
  iv_token :: string
  iv_state :: string
  iv_expires :: time
  iv_created :: time
  iv_consumed :: "time option"

record join_row =
  jr_id :: id
  jr_secret :: string
  jr_invitation :: id
  jr_node :: id
  jr_installation :: id
  jr_name :: string
  jr_endpoint :: string
  jr_public :: string
  jr_caps :: "string list option"
  jr_protocol :: int
  jr_product :: string
  jr_credential :: string
  jr_state :: string
  jr_expires :: time
  jr_created :: time
  jr_decided :: "time option"
  jr_consumed :: "time option"

record outbound_row =
  oj_id :: id
  oj_url :: string
  oj_request :: id
  oj_secret :: string
  oj_credential :: string
  oj_state :: string
  oj_created :: time
  oj_updated :: time
  oj_error :: string

record propagation_profile =
  pp_id :: id
  pp_name :: string
  pp_selector :: json
  pp_kinds :: json
  pp_mode :: string
  pp_schedule :: string
  pp_window :: string
  pp_enabled :: bool
  pp_last_run :: "time option"
  pp_created :: time
  pp_updated :: time

record propagation_record =
  ph_id :: id
  ph_plan :: id
  ph_actor :: string
  ph_target :: string
  ph_status :: string
  ph_applied :: int
  ph_failed :: int
  ph_rolled_back :: int
  ph_detail :: string
  ph_created :: time

section \<open>The database\<close>

record db =
  io_fault :: bool
  replicated_meta :: "(string \<times> string) list option"
  posts :: "post_row list"
  post_dependencies :: "dep_row list"
  rules :: "rule_row list"
  alerts :: "alert_row list"
  collector_keys :: "collector_key list"
  observations :: "observation_row list"
  pairing_tokens :: "pairing_token list"
  pairing_requests :: "pairing_request list"
  agent_connections :: "agent_connection list"
  conversations :: "conversation_row list"
  conversation_messages :: "message_row list"
  conversation_evidence :: "evidence_row list"
  action_requests :: "action_row list"
  device_profiles :: "device_profile list"
  device_profile_oids :: "profile_oid list"
  notification_routes :: "route_row list"
  notification_deliveries :: "delivery_row list"
  incidents :: "incident_row list"
  incident_alerts :: "incident_alert list"
  incident_timeline :: "timeline_row list"
  logs :: "log_row list"
  changes :: "change_row list"
  check_schedules :: "check_schedule list"
  check_results :: "check_result list"
  users :: "user_row list"
  sessions :: "session_row list"
  audit_log :: "audit_row list"
  bootstrap_tokens :: "bootstrap_token list"
  peers :: "peer_row list"
  federation_outbox :: "outbox_row list"
  federation_inbox :: "inbox_row list"
  cluster_members :: "member_row list"
  cluster_nonces :: "nonce_row list"
  cluster_identity :: "identity_row option"
  cluster_invitations :: "invitation_row list"
  cluster_join_requests :: "join_row list"
  cluster_outbound_joins :: "outbound_row list"
  propagation_profiles :: "propagation_profile list"
  propagation_history :: "propagation_record list"

definition empty_db :: db where
  "empty_db = \<lparr> io_fault = False, replicated_meta = None, posts = [], post_dependencies = [], rules = [],
     alerts = [], collector_keys = [], observations = [], pairing_tokens = [], pairing_requests = [],
     agent_connections = [], conversations = [], conversation_messages = [], conversation_evidence = [],
     action_requests = [], device_profiles = [], device_profile_oids = [], notification_routes = [],
     notification_deliveries = [], incidents = [], incident_alerts = [], incident_timeline = [],
     logs = [], changes = [], check_schedules = [], check_results = [], users = [], sessions = [],
     audit_log = [], bootstrap_tokens = [], peers = [], federation_outbox = [], federation_inbox = [],
     cluster_members = [], cluster_nonces = [],
     cluster_identity = None, cluster_invitations = [], cluster_join_requests = [], cluster_outbound_joins = [],
     propagation_profiles = [], propagation_history = [] \<rparr>"

section \<open>The constraints of the schema\<close>

definition nocase :: "string \<Rightarrow> string" where
  "nocase s = map (\<lambda>c. if CHR ''A'' \<le> c \<and> c \<le> CHR ''Z'' then char_of (of_char c + (32 :: nat)) else c) s"

definition fk :: "'k list \<Rightarrow> 'k list \<Rightarrow> bool" where
  "fk children parents = list_all (\<lambda>k. List.member parents k) children"

text \<open>PRIMARY KEY and UNIQUE.\<close>

definition keys_ok :: "db \<Rightarrow> bool" where
  "keys_ok d \<longleftrightarrow>
     distinct (map po_id (posts d)) \<and>
     distinct (post_dependencies d) \<and>
     distinct (map ru_id (rules d)) \<and>
     distinct (map al_id (alerts d)) \<and>
     distinct (map ck_id (collector_keys d)) \<and>
     distinct (map ob_id (observations d)) \<and>
     distinct (map (\<lambda>o'. (ob_collector o', ob_sequence o', ob_signal o')) (observations d)) \<and>
     distinct (map pt_hash (pairing_tokens d)) \<and>
     distinct (map pr_id (pairing_requests d)) \<and>
     distinct (map ac_installation (agent_connections d)) \<and>
     distinct (map cv_id (conversations d)) \<and>
     distinct (map ms_id (conversation_messages d)) \<and>
     distinct (map ev_id (conversation_evidence d)) \<and>
     distinct (map aq_id (action_requests d)) \<and>
     distinct (map aq_key (action_requests d)) \<and>
     distinct (map dp_id (device_profiles d)) \<and>
     distinct (map (\<lambda>i. (oi_profile i, oi_position i)) (device_profile_oids d)) \<and>
     distinct (map rt_id (notification_routes d)) \<and>
     distinct (map dl_id (notification_deliveries d)) \<and>
     distinct (map (\<lambda>x. (dl_alert x, dl_route x)) (notification_deliveries d)) \<and>
     distinct (map in_id (incidents d)) \<and>
     distinct (incident_alerts d) \<and>
     distinct (map tl_id (incident_timeline d)) \<and>
     distinct (map lg_id (logs d)) \<and>
     distinct (map ch_id (changes d)) \<and>
     distinct (map cs_id (check_schedules d)) \<and>
     distinct (map cr_id (check_results d)) \<and>
     distinct (map us_id (users d)) \<and>
     distinct (map (\<lambda>u. nocase (us_email u)) (users d)) \<and>
     distinct (map se_token (sessions d)) \<and>
     distinct (map au_id (audit_log d)) \<and>
     distinct (map bt_hash (bootstrap_tokens d)) \<and>
     distinct (map pe_id (peers d)) \<and>
     distinct (map ox_id (federation_outbox d)) \<and>
     distinct (map (\<lambda>x. (ox_peer x, ox_event x)) (federation_outbox d)) \<and>
     distinct (map (\<lambda>x. (ib_peer x, ib_event x)) (federation_inbox d)) \<and>
     distinct (map cm_node (cluster_members d)) \<and>
     distinct (map cm_installation (cluster_members d)) \<and>
     distinct (map (\<lambda>n. (no_node n, no_nonce n)) (cluster_nonces d)) \<and>
     distinct (map iv_id (cluster_invitations d)) \<and>
     distinct (map iv_token (cluster_invitations d)) \<and>
     distinct (map jr_id (cluster_join_requests d)) \<and>
     distinct (map jr_secret (cluster_join_requests d)) \<and>
     distinct (map oj_id (cluster_outbound_joins d)) \<and>
     distinct (map pp_id (propagation_profiles d)) \<and>
     distinct (map ph_id (propagation_history d))"

text \<open>REFERENCES: the children of \<open>posts\<close>, then every other foreign key.\<close>

definition post_refs_ok :: "db \<Rightarrow> bool" where
  "post_refs_ok d \<longleftrightarrow>
     (let ps = map po_id (posts d) in
       fk (map fst (post_dependencies d)) ps \<and>
       fk (map snd (post_dependencies d)) ps \<and>
       fk (map ru_post (rules d)) ps \<and>
       fk (map al_post (alerts d)) ps \<and>
       fk (map ck_post (collector_keys d)) ps \<and>
       fk (map ob_post (observations d)) ps \<and>
       fk (map pt_post (pairing_tokens d)) ps \<and>
       fk (somes pr_post (pairing_requests d)) ps \<and>
       fk (map ac_post (agent_connections d)) ps \<and>
       fk (somes cv_post (conversations d)) ps \<and>
       fk (somes aq_post (action_requests d)) ps \<and>
       fk (map dp_post (device_profiles d)) ps \<and>
       fk (map lg_post (logs d)) ps \<and>
       fk (somes ch_post (changes d)) ps \<and>
       fk (map cs_post (check_schedules d)) ps)"

definition other_refs_ok :: "db \<Rightarrow> bool" where
  "other_refs_ok d \<longleftrightarrow>
     fk (map al_rule (alerts d)) (map ru_id (rules d)) \<and>
     fk (map ob_collector (observations d)) (map ck_id (collector_keys d)) \<and>
     fk (map ms_conversation (conversation_messages d)) (map cv_id (conversations d)) \<and>
     fk (map ev_conversation (conversation_evidence d)) (map cv_id (conversations d)) \<and>
     fk (map ev_message (conversation_evidence d)) (map ms_id (conversation_messages d)) \<and>
     fk (map cv_user (conversations d)) (map us_id (users d)) \<and>
     fk (somes cv_incident (conversations d)) (map in_id (incidents d)) \<and>
     fk (map aq_requested_by (action_requests d)) (map us_id (users d)) \<and>
     fk (somes aq_approved_by (action_requests d)) (map us_id (users d)) \<and>
     fk (map oi_profile (device_profile_oids d)) (map dp_id (device_profiles d)) \<and>
     fk (map dl_alert (notification_deliveries d)) (map al_id (alerts d)) \<and>
     fk (map dl_route (notification_deliveries d)) (map rt_id (notification_routes d)) \<and>
     fk (map fst (incident_alerts d)) (map in_id (incidents d)) \<and>
     fk (map snd (incident_alerts d)) (map al_id (alerts d)) \<and>
     fk (map tl_incident (incident_timeline d)) (map in_id (incidents d)) \<and>
     fk (map cr_schedule (check_results d)) (map cs_id (check_schedules d)) \<and>
     fk (map se_user (sessions d)) (map us_id (users d)) \<and>
     fk (somes au_actor (audit_log d)) (map us_id (users d)) \<and>
     fk (map ox_peer (federation_outbox d)) (map pe_id (peers d)) \<and>
     fk (map ib_peer (federation_inbox d)) (map pe_id (peers d)) \<and>
     fk (map no_node (cluster_nonces d)) (map cm_node (cluster_members d)) \<and>
     fk (map jr_invitation (cluster_join_requests d)) (map iv_id (cluster_invitations d))"

text \<open>CHECK.\<close>

definition checks_ok :: "db \<Rightarrow> bool" where
  "checks_ok d \<longleftrightarrow>
     list_all (\<lambda>(a, b). a \<noteq> b) (post_dependencies d) \<and>
     list_all (\<lambda>r. ru_operator r \<in> {''gt'', ''gte'', ''lt'', ''lte''}) (rules d) \<and>
     list_all (\<lambda>r. pr_state r \<in> {''pending'', ''approved'', ''rejected'', ''consumed''}) (pairing_requests d) \<and>
     list_all (\<lambda>e. ev_kind e \<in> {''log'', ''change'', ''alert'', ''incident''}) (conversation_evidence d) \<and>
     list_all (\<lambda>r. rt_kind r \<in> {''webhook'', ''email''}) (notification_routes d) \<and>
     list_all (\<lambda>u. us_role u \<in> {''admin'', ''operator'', ''viewer''}) (users d) \<and>
     list_all (\<lambda>m. cm_state m \<in> {''active'', ''disabled'', ''revoked''}) (cluster_members d) \<and>
     list_all (\<lambda>i. iv_state i \<in> {''pending'', ''consumed'', ''expired''}) (cluster_invitations d) \<and>
     list_all (\<lambda>r. jr_state r \<in> {''pending'', ''approved'', ''rejected'', ''consumed''}) (cluster_join_requests d) \<and>
     list_all (\<lambda>j. oj_state j \<in> {''pending'', ''approved'', ''rejected'', ''expired'', ''failed''}) (cluster_outbound_joins d)"

definition constraints :: "db \<Rightarrow> bool" where
  "constraints d \<longleftrightarrow> keys_ok d \<and> post_refs_ok d \<and> other_refs_ok d \<and> checks_ok d"

section \<open>Statements and transactions\<close>

text \<open>\<open>db.ExecContext\<close> of a statement whose effect on the tables is \<open>f\<close>; \<open>query\<close> is a SELECT.\<close>

definition exec :: "(db \<Rightarrow> db) \<Rightarrow> db \<Rightarrow> err + db" where
  "exec f d = (if io_fault d then Inl IOFault
     else if constraints (f d) then Inr (f d) else Inl Constraint)"

definition query :: "(db \<Rightarrow> 'a) \<Rightarrow> db \<Rightarrow> err + 'a" where
  "query f d = (if io_fault d then Inl IOFault else Inr (f d))"

text \<open>
  \<open>BeginTx\<close>, the statements of the body, and \<open>Commit\<close> on success; on an error the deferred
  \<open>Rollback\<close> leaves the database as it was before \<open>BeginTx\<close>.
\<close>

definition with_tx :: "(db \<Rightarrow> err + (db \<times> 'a)) \<Rightarrow> db \<Rightarrow> db \<times> (err + 'a)" where
  "with_tx body d = (if io_fault d then (d, Inl IOFault)
     else case body d of Inl e \<Rightarrow> (d, Inl e) | Inr (d', x) \<Rightarrow> (d', Inr x))"

text \<open>Deletes with the \<open>ON DELETE CASCADE\<close> of the schema.\<close>

definition del_check_schedules :: "(check_schedule \<Rightarrow> bool) \<Rightarrow> db \<Rightarrow> db" where
  "del_check_schedules P d =
     (let gone = map cs_id (filter P (check_schedules d))
      in d\<lparr> check_schedules := del_where P (check_schedules d),
            check_results := del_where (\<lambda>r. cr_schedule r \<in> set gone) (check_results d) \<rparr>)"

definition del_posts :: "(post_row \<Rightarrow> bool) \<Rightarrow> db \<Rightarrow> db" where
  "del_posts P d =
     (let gone = map po_id (filter P (posts d));
          d1 = del_check_schedules (\<lambda>s. cs_post s \<in> set gone) d
      in d1\<lparr> posts := del_where P (posts d1),
             pairing_requests := del_where (\<lambda>r. case pr_post r of None \<Rightarrow> False | Some p \<Rightarrow> p \<in> set gone) (pairing_requests d1),
             agent_connections := del_where (\<lambda>c. ac_post c \<in> set gone) (agent_connections d1) \<rparr>)"

definition del_messages :: "(message_row \<Rightarrow> bool) \<Rightarrow> db \<Rightarrow> db" where
  "del_messages P d =
     (let gone = map ms_id (filter P (conversation_messages d))
      in d\<lparr> conversation_messages := del_where P (conversation_messages d),
            conversation_evidence := del_where (\<lambda>e. ev_message e \<in> set gone) (conversation_evidence d) \<rparr>)"

definition del_conversations :: "(conversation_row \<Rightarrow> bool) \<Rightarrow> db \<Rightarrow> db" where
  "del_conversations P d =
     (let gone = map cv_id (filter P (conversations d))
      in d\<lparr> conversations := del_where P (conversations d),
            conversation_evidence := del_where (\<lambda>e. ev_conversation e \<in> set gone) (conversation_evidence d) \<rparr>)"

definition del_device_profiles :: "(device_profile \<Rightarrow> bool) \<Rightarrow> db \<Rightarrow> db" where
  "del_device_profiles P d =
     (let gone = map dp_id (filter P (device_profiles d))
      in d\<lparr> device_profiles := del_where P (device_profiles d),
            device_profile_oids := del_where (\<lambda>i. oi_profile i \<in> set gone) (device_profile_oids d) \<rparr>)"

section \<open>Lemmas\<close>

lemmas constraint_defs = constraints_def keys_ok_def post_refs_ok_def other_refs_ok_def checks_ok_def

lemma fk_iff: "fk cs ps \<longleftrightarrow> set cs \<subseteq> set ps"
  by (auto simp: fk_def list_all_iff)

lemma fk_simps [simp]: "fk [] ps" "fk (c # cs) ps \<longleftrightarrow> c \<in> set ps \<and> fk cs ps" "fk (cs @ cs') ps \<longleftrightarrow> fk cs ps \<and> fk cs' ps"
  by (auto simp: fk_iff)

lemma constraints_io [simp]: "constraints (d\<lparr>io_fault := b\<rparr>) = constraints d"
  by (simp add: constraint_defs)

lemma constraints_empty [simp]: "constraints empty_db"
  by (simp add: constraint_defs empty_db_def)

lemma exec_eq_Inr: "exec f d = Inr d' \<longleftrightarrow> \<not> io_fault d \<and> constraints d' \<and> d' = f d"
  by (auto simp: exec_def)

lemma exec_ok: "\<not> io_fault d \<Longrightarrow> constraints (f d) \<Longrightarrow> exec f d = Inr (f d)"
  by (simp add: exec_def)

lemma exec_error: "exec f d = Inl e \<Longrightarrow> e = IOFault \<or> e = Constraint"
  by (auto simp: exec_def split: if_splits)

lemma query_eq_Inr [simp]: "query f d = Inr x \<longleftrightarrow> \<not> io_fault d \<and> x = f d"
  by (auto simp: query_def)

lemma query_ok [simp]: "\<not> io_fault d \<Longrightarrow> query f d = Inr (f d)"
  by (simp add: query_def)

lemma with_tx_rollback: "with_tx body d = (d', Inl e) \<Longrightarrow> d' = d"
  by (auto simp: with_tx_def split: if_splits sum.splits)

lemma with_tx_commit: "with_tx body d = (d', Inr x) \<longleftrightarrow> \<not> io_fault d \<and> body d = Inr (d', x)"
  by (auto simp: with_tx_def split: if_splits sum.splits)

end
