(* ===== verification/Migrations.thy ===== *)
theory Migrations
  imports Store
begin

text \<open>
  The schema and its migrations (\<open>internal/store/store.go\<close>, \<open>migrate\<close>). A catalog holds the tables with their columns and constraints, the indexes, and of the rows only
  those of \<open>users\<close>, which the last migration edits. Statements fail as SQLite's do: a table, column or index that exists already, a table or column that is missing, and an
  added column that is a key or must not be null and has no default. Each migration is transcribed statement by statement; the whole run is one
  transaction. The direction of an index (\<open>DESC\<close>) is not kept.
\<close>

section \<open>The catalog\<close>

datatype column_type = TText | TInteger | TBlob | TReal

datatype column_constraint = PrimaryKey | NotNull | Unique | NoCase | DefaultText string | DefaultInt int | CheckIn "string list" | CheckThat string | References string string bool

record column =
  co_name :: string
  co_type :: column_type
  co_constraints :: "column_constraint list"

definition col :: "string \<Rightarrow> column_type \<Rightarrow> column_constraint list \<Rightarrow> column" where
  "col n t cs = \<lparr> co_name = n, co_type = t, co_constraints = cs \<rparr>"

datatype table_constraint = TablePrimaryKey "string list" | TableUnique "string list" | TableCheck string

record table =
  tb_name :: string
  tb_columns :: "column list"
  tb_constraints :: "table_constraint list"

record index =
  ix_name :: string
  ix_table :: string
  ix_columns :: "string list"

record user_name =
  un_email :: string
  un_username :: "string option"

record catalog =
  ca_tables :: "table list"
  ca_indexes :: "index list"
  ca_users :: "user_name list"

datatype statement = CreateTable string "column list" "table_constraint list" | AddColumn string column | CreateIndex string string "string list"

definition has_table :: "string \<Rightarrow> catalog \<Rightarrow> bool" where
  "has_table t c = list_ex (\<lambda>x. tb_name x = t) (ca_tables c)"

definition has_column :: "string \<Rightarrow> string \<Rightarrow> catalog \<Rightarrow> bool" where
  "has_column t n c = list_ex (\<lambda>x. tb_name x = t \<and> list_ex (\<lambda>k. co_name k = n) (tb_columns x)) (ca_tables c)"

definition is_default :: "column_constraint \<Rightarrow> bool" where
  "is_default k = (case k of DefaultText s \<Rightarrow> True | DefaultInt i \<Rightarrow> True | _ \<Rightarrow> False)"

definition addable :: "column \<Rightarrow> bool" where
  "addable k \<longleftrightarrow> \<not> List.member (co_constraints k) PrimaryKey \<and> \<not> List.member (co_constraints k) Unique \<and>
     (List.member (co_constraints k) NotNull \<longrightarrow> list_ex is_default (co_constraints k))"

fun exec_ddl :: "statement \<Rightarrow> catalog \<Rightarrow> err + catalog" where
  "exec_ddl (CreateTable t cs ks) c = (if has_table t c \<or> \<not> distinct (map co_name cs) then Inl (Err ''table already exists'')
     else Inr (c\<lparr> ca_tables := ca_tables c @ [\<lparr> tb_name = t, tb_columns = cs, tb_constraints = ks \<rparr>] \<rparr>))"
| "exec_ddl (AddColumn t k) c = (if \<not> has_table t c \<or> has_column t (co_name k) c \<or> \<not> addable k then Inl (Err ''cannot add column'')
     else Inr (c\<lparr> ca_tables := upd_where (\<lambda>x. tb_name x = t) (\<lambda>x. x\<lparr> tb_columns := tb_columns x @ [k] \<rparr>) (ca_tables c) \<rparr>))"
| "exec_ddl (CreateIndex i t ns) c = (if list_ex (\<lambda>x. ix_name x = i) (ca_indexes c) \<or> \<not> has_table t c \<or> \<not> list_all (\<lambda>n. has_column t n c) ns
     then Inl (Err ''cannot create index'')
     else Inr (c\<lparr> ca_indexes := ca_indexes c @ [\<lparr> ix_name = i, ix_table = t, ix_columns = ns \<rparr>] \<rparr>))"

section \<open>The migrations\<close>

definition migration_1 :: "statement list" where
  "migration_1 =
     [CreateTable ''users''
          [col ''id'' TInteger [PrimaryKey], col ''email'' TText [NotNull, Unique, NoCase], col ''password_hash'' TBlob [NotNull],
           col ''role'' TText [NotNull, CheckIn [''admin'', ''operator'', ''viewer'']], col ''created_at'' TText [NotNull]] [],
      CreateTable ''sessions''
          [col ''token_hash'' TBlob [PrimaryKey], col ''user_id'' TInteger [NotNull, References ''users'' ''id'' True],
           col ''csrf_token'' TText [NotNull], col ''expires_at'' TText [NotNull]] [],
      CreateTable ''audit''
          [col ''id'' TInteger [PrimaryKey], col ''at'' TText [NotNull],
           col ''actor_user_id'' TInteger [References ''users'' ''id'' False], col ''action'' TText [NotNull],
           col ''object_type'' TText [NotNull], col ''object_id'' TText [NotNull], col ''detail'' TText [NotNull]] [],
      CreateTable ''posts''
          [col ''id'' TText [PrimaryKey], col ''name'' TText [NotNull], col ''kind'' TText [NotNull],
           col ''owner'' TText [NotNull, DefaultText []], col ''labels_json'' TText [NotNull, DefaultText ''{}''],
           col ''maintenance'' TInteger [NotNull, DefaultInt 0], col ''archived'' TInteger [NotNull, DefaultInt 0],
           col ''version'' TInteger [NotNull, DefaultInt 1], col ''created_at'' TText [NotNull], col ''updated_at'' TText [NotNull]] [],
      CreateTable ''post_dependencies''
          [col ''post_id'' TText [NotNull, References ''posts'' ''id'' False],
           col ''depends_on_id'' TText [NotNull, References ''posts'' ''id'' False]] [TablePrimaryKey [''post_id'', ''depends_on_id''], TableCheck ''post_id<>depends_on_id''],
      CreateTable ''collector_keys''
          [col ''id'' TText [PrimaryKey], col ''post_id'' TText [NotNull, References ''posts'' ''id'' False],
           col ''secret_hash'' TBlob [NotNull], col ''revoked_at'' TText [], col ''last_sequence'' TInteger [NotNull, DefaultInt 0]] [],
      CreateTable ''observations''
          [col ''id'' TInteger [PrimaryKey], col ''post_id'' TText [NotNull, References ''posts'' ''id'' False],
           col ''collector_id'' TText [NotNull, References ''collector_keys'' ''id'' False], col ''observed_at'' TText [NotNull],
           col ''ingested_at'' TText [NotNull], col ''sequence'' TInteger [NotNull], col ''signal'' TText [NotNull],
           col ''value'' TReal [], col ''unit'' TText [NotNull], col ''quality'' TText [NotNull],
           col ''labels_json'' TText [NotNull]] [TableUnique [''collector_id'', ''sequence'', ''signal'']]]"

definition migration_2 :: "statement list" where
  "migration_2 =
     [CreateIndex ''observations_post_signal_time'' ''observations'' [''post_id'', ''signal'', ''observed_at''],
      CreateTable ''rules''
          [col ''id'' TText [PrimaryKey], col ''post_id'' TText [NotNull, References ''posts'' ''id'' False],
           col ''signal'' TText [NotNull], col ''operator'' TText [NotNull, CheckIn [''gt'', ''gte'', ''lt'', ''lte'']],
           col ''threshold'' TReal [NotNull], col ''duration_seconds'' TInteger [NotNull, DefaultInt 0],
           col ''recovery_threshold'' TReal [], col ''missing_policy'' TText [NotNull, DefaultText ''unknown''],
           col ''severity'' TText [NotNull], col ''enabled'' TInteger [NotNull, DefaultInt 1],
           col ''version'' TInteger [NotNull, DefaultInt 1]] [],
      CreateTable ''alerts''
          [col ''id'' TInteger [PrimaryKey], col ''rule_id'' TText [NotNull, References ''rules'' ''id'' False],
           col ''post_id'' TText [NotNull, References ''posts'' ''id'' False], col ''state'' TText [NotNull],
           col ''severity'' TText [NotNull], col ''opened_at'' TText [NotNull], col ''updated_at'' TText [NotNull],
           col ''acknowledged_at'' TText [], col ''resolved_at'' TText [], col ''value'' TReal []] [],
      CreateIndex ''alerts_active'' ''alerts'' [''rule_id'', ''post_id'', ''state''],
      CreateTable ''notification_routes''
          [col ''id'' TText [PrimaryKey], col ''kind'' TText [NotNull, CheckIn [''webhook'', ''email'']],
           col ''destination'' TText [NotNull], col ''secret'' TText [NotNull, DefaultText []],
           col ''enabled'' TInteger [NotNull, DefaultInt 1]] [],
      CreateTable ''notification_deliveries''
          [col ''id'' TInteger [PrimaryKey], col ''alert_id'' TInteger [NotNull, References ''alerts'' ''id'' False],
           col ''route_id'' TText [NotNull, References ''notification_routes'' ''id'' False], col ''state'' TText [NotNull],
           col ''attempts'' TInteger [NotNull, DefaultInt 0], col ''next_attempt_at'' TText [NotNull],
           col ''delivered_at'' TText [], col ''last_error'' TText [NotNull, DefaultText []]] [TableUnique [''alert_id'', ''route_id'']],
      CreateTable ''incidents''
          [col ''id'' TInteger [PrimaryKey], col ''title'' TText [NotNull], col ''severity'' TText [NotNull],
           col ''status'' TText [NotNull], col ''owner'' TText [NotNull, DefaultText []],
           col ''summary'' TText [NotNull, DefaultText []], col ''created_at'' TText [NotNull], col ''updated_at'' TText [NotNull],
           col ''resolved_at'' TText []] [],
      CreateTable ''incident_alerts''
          [col ''incident_id'' TInteger [NotNull, References ''incidents'' ''id'' False],
           col ''alert_id'' TInteger [NotNull, References ''alerts'' ''id'' False]] [TablePrimaryKey [''incident_id'', ''alert_id'']],
      CreateTable ''incident_timeline''
          [col ''id'' TInteger [PrimaryKey], col ''incident_id'' TInteger [NotNull, References ''incidents'' ''id'' False],
           col ''at'' TText [NotNull], col ''kind'' TText [NotNull], col ''actor'' TText [NotNull], col ''body'' TText [NotNull]] []]"

definition migration_3 :: "statement list" where
  "migration_3 =
     [CreateTable ''logs''
          [col ''id'' TInteger [PrimaryKey], col ''post_id'' TText [NotNull, References ''posts'' ''id'' False],
           col ''source'' TText [NotNull], col ''observed_at'' TText [NotNull], col ''ingested_at'' TText [NotNull],
           col ''severity'' TText [NotNull], col ''message'' TText [NotNull],
           col ''fields_json'' TText [NotNull, DefaultText ''{}''], col ''truncated'' TInteger [NotNull, DefaultInt 0]] [],
      CreateIndex ''logs_post_time'' ''logs'' [''post_id'', ''observed_at''],
      CreateTable ''changes''
          [col ''id'' TInteger [PrimaryKey], col ''post_id'' TText [References ''posts'' ''id'' False],
           col ''kind'' TText [NotNull], col ''occurred_at'' TText [NotNull], col ''actor'' TText [NotNull],
           col ''summary'' TText [NotNull], col ''detail_json'' TText [NotNull, DefaultText ''{}'']] [],
      CreateTable ''conversations''
          [col ''id'' TInteger [PrimaryKey], col ''user_id'' TInteger [NotNull, References ''users'' ''id'' False],
           col ''post_id'' TText [References ''posts'' ''id'' False],
           col ''incident_id'' TInteger [References ''incidents'' ''id'' False], col ''created_at'' TText [NotNull]] [],
      CreateTable ''conversation_messages''
          [col ''id'' TInteger [PrimaryKey], col ''conversation_id'' TInteger [NotNull, References ''conversations'' ''id'' False],
           col ''at'' TText [NotNull], col ''role'' TText [NotNull], col ''body'' TText [NotNull],
           col ''evidence_json'' TText [NotNull, DefaultText ''[]'']] [],
      CreateTable ''action_requests''
          [col ''id'' TInteger [PrimaryKey], col ''type'' TText [NotNull],
           col ''post_id'' TText [References ''posts'' ''id'' False], col ''parameters_json'' TText [NotNull],
           col ''state'' TText [NotNull], col ''requested_by'' TInteger [NotNull, References ''users'' ''id'' False],
           col ''approved_by'' TInteger [References ''users'' ''id'' False], col ''requested_at'' TText [NotNull],
           col ''updated_at'' TText [NotNull], col ''idempotency_key'' TText [NotNull, Unique],
           col ''result_json'' TText [NotNull, DefaultText ''{}'']] [],
      CreateTable ''peers''
          [col ''id'' TText [PrimaryKey], col ''secret_hash'' TBlob [NotNull], col ''state'' TText [NotNull],
           col ''created_at'' TText [NotNull], col ''revoked_at'' TText []] [],
      CreateTable ''federation_outbox''
          [col ''id'' TInteger [PrimaryKey], col ''peer_id'' TText [NotNull, References ''peers'' ''id'' False],
           col ''event_id'' TText [NotNull], col ''kind'' TText [NotNull], col ''payload_json'' TText [NotNull],
           col ''created_at'' TText [NotNull], col ''delivered_at'' TText []] [TableUnique [''peer_id'', ''event_id'']],
      CreateTable ''federation_inbox''
          [col ''peer_id'' TText [NotNull, References ''peers'' ''id'' False], col ''event_id'' TText [NotNull],
           col ''received_at'' TText [NotNull], col ''payload_hash'' TBlob [NotNull]] [TablePrimaryKey [''peer_id'', ''event_id'']]]"

definition migration_4 :: "statement list" where
  "migration_4 =
     [CreateTable ''collector_pairing_tokens''
          [col ''token_hash'' TBlob [PrimaryKey], col ''post_id'' TText [NotNull, References ''posts'' ''id'' False],
           col ''expires_at'' TText [NotNull], col ''used_at'' TText []] []]"

definition migration_5 :: "statement list" where
  "migration_5 =
     [AddColumn ''collector_keys'' (col ''last_seen_at'' TText []),
      AddColumn ''collector_keys'' (col ''last_observed_at'' TText []),
      AddColumn ''collector_keys'' (col ''last_sent_at'' TText []),
      AddColumn ''collector_keys'' (col ''last_error'' TText [NotNull, DefaultText []]),
      AddColumn ''collector_keys'' (col ''last_rejected_at'' TText []),
      AddColumn ''collector_keys'' (col ''rejected_count'' TInteger [NotNull, DefaultInt 0]),
      AddColumn ''collector_keys'' (col ''partial'' TInteger [NotNull, DefaultInt 0])]"

definition migration_6 :: "statement list" where
  "migration_6 =
     [CreateTable ''device_profiles''
          [col ''id'' TText [PrimaryKey], col ''post_id'' TText [NotNull, References ''posts'' ''id'' False],
           col ''kind'' TText [NotNull], col ''address'' TText [NotNull], col ''port'' TInteger [NotNull],
           col ''username'' TText [NotNull], col ''created_at'' TText [NotNull]] [],
      CreateTable ''device_profile_oids''
          [col ''profile_id'' TText [NotNull, References ''device_profiles'' ''id'' True], col ''position'' TInteger [NotNull],
           col ''name'' TText [NotNull], col ''oid'' TText [NotNull], col ''unit'' TText [NotNull]] [TablePrimaryKey [''profile_id'', ''position'']]]"

definition migration_7 :: "statement list" where
  "migration_7 =
     [AddColumn ''posts'' (col ''address'' TText [NotNull, DefaultText []])]"

definition migration_8 :: "statement list" where
  "migration_8 =
     [CreateTable ''agent_pairing_requests''
          [col ''id'' TText [PrimaryKey], col ''request_secret_hash'' TBlob [NotNull], col ''installation_id'' TText [NotNull],
           col ''hostname'' TText [NotNull], col ''platform'' TText [NotNull], col ''agent_version'' TText [NotNull],
           col ''phrase'' TText [NotNull],
           col ''state'' TText [NotNull, CheckIn [''pending'', ''approved'', ''rejected'', ''consumed'']],
           col ''post_id'' TText [References ''posts'' ''id'' True], col ''expires_at'' TText [NotNull],
           col ''created_at'' TText [NotNull], col ''approved_at'' TText []] [],
      CreateIndex ''agent_pairing_pending'' ''agent_pairing_requests'' [''state'', ''expires_at'', ''created_at''],
      CreateTable ''agent_connections''
          [col ''installation_id'' TText [PrimaryKey], col ''post_id'' TText [NotNull, References ''posts'' ''id'' True],
           col ''hostname'' TText [NotNull], col ''platform'' TText [NotNull], col ''agent_version'' TText [NotNull],
           col ''created_at'' TText [NotNull], col ''last_seen_at'' TText [], col ''revoked_at'' TText []] []]"

definition migration_9 :: "statement list" where
  "migration_9 =
     [CreateTable ''check_schedules''
          [col ''id'' TText [PrimaryKey], col ''post_id'' TText [NotNull, References ''posts'' ''id'' True],
           col ''kind'' TText [NotNull], col ''address'' TText [NotNull], col ''server_name'' TText [NotNull, DefaultText []],
           col ''interval_seconds'' TInteger [NotNull], col ''enabled'' TInteger [NotNull, DefaultInt 1],
           col ''next_run_at'' TText [NotNull], col ''created_at'' TText [NotNull]] [],
      CreateTable ''check_results''
          [col ''id'' TInteger [PrimaryKey], col ''schedule_id'' TText [NotNull, References ''check_schedules'' ''id'' True],
           col ''checked_at'' TText [NotNull], col ''ok'' TInteger [NotNull], col ''latency_ms'' TReal [NotNull],
           col ''status'' TInteger [NotNull, DefaultInt 0], col ''expires_at'' TText [],
           col ''failure'' TText [NotNull, DefaultText []]] [],
      CreateIndex ''check_schedules_due'' ''check_schedules'' [''enabled'', ''next_run_at''],
      CreateIndex ''check_results_schedule_time'' ''check_results'' [''schedule_id'', ''checked_at'']]"

definition migration_10 :: "statement list" where
  "migration_10 =
     [AddColumn ''agent_pairing_requests'' (col ''terminal_at'' TText []),
      CreateTable ''conversation_evidence''
          [col ''id'' TInteger [PrimaryKey], col ''conversation_id'' TInteger [NotNull, References ''conversations'' ''id'' True],
           col ''message_id'' TInteger [NotNull, References ''conversation_messages'' ''id'' True],
           col ''kind'' TText [NotNull, CheckIn [''log'', ''change'', ''alert'', ''incident'']],
           col ''evidence_id'' TInteger [NotNull], col ''summary'' TText [NotNull], col ''cited_at'' TText [NotNull]] [],
      CreateIndex ''conversation_evidence_lookup'' ''conversation_evidence'' [''kind'', ''evidence_id''],
      CreateIndex ''conversation_evidence_message'' ''conversation_evidence'' [''message_id''],
      CreateIndex ''observations_observed_at'' ''observations'' [''observed_at''],
      CreateIndex ''check_results_checked_at'' ''check_results'' [''checked_at''],
      CreateIndex ''logs_observed_at'' ''logs'' [''observed_at'']]"

definition migration_11 :: "statement list" where
  "migration_11 =
     [AddColumn ''collector_keys'' (col ''kind'' TText [NotNull, DefaultText ''collector''])]"

definition migration_12 :: "statement list" where
  "migration_12 =
     [CreateTable ''bootstrap_tokens''
          [col ''token_hash'' TBlob [PrimaryKey], col ''expires_at'' TText [NotNull], col ''consumed_at'' TText []] []]"

definition migration_13 :: "statement list" where
  "migration_13 =
     [AddColumn ''collector_keys'' (col ''pending_secret_hash'' TBlob []),
      AddColumn ''collector_keys'' (col ''pending_expires_at'' TText [])]"

definition migration_14 :: "statement list" where
  "migration_14 =
     [AddColumn ''device_profiles'' (col ''encrypted_auth'' TBlob []),
      AddColumn ''device_profiles'' (col ''encrypted_privacy'' TBlob []),
      AddColumn ''device_profiles'' (col ''interval_seconds'' TInteger [NotNull, DefaultInt 0]),
      AddColumn ''device_profiles'' (col ''next_run_at'' TText []),
      AddColumn ''device_profiles'' (col ''enabled'' TInteger [NotNull, DefaultInt 0]),
      CreateIndex ''device_profiles_due'' ''device_profiles'' [''enabled'', ''next_run_at'']]"

definition migration_15 :: "statement list" where
  "migration_15 =
     [CreateTable ''launcher_instances''
          [col ''id'' TText [PrimaryKey], col ''position'' TInteger [NotNull, Unique], col ''name'' TText [NotNull],
           col ''domain'' TText [NotNull], col ''port'' TInteger [CheckThat ''port BETWEEN 1 AND 65535'']] []]"

definition migration_16 :: "statement list" where
  "migration_16 =
     [CreateTable ''cluster_identity''
          [col ''singleton'' TInteger [PrimaryKey, CheckThat ''singleton=1''], col ''node_id'' TText [NotNull, Unique],
           col ''installation_id'' TText [NotNull, Unique], col ''display_name'' TText [NotNull, DefaultText []],
           col ''public_endpoint'' TText [NotNull, DefaultText []], col ''public_key'' TBlob [NotNull],
           col ''private_key'' TBlob [NotNull], col ''capabilities_json'' TText [NotNull, DefaultText ''[]''],
           col ''protocol_version'' TInteger [NotNull], col ''product_version'' TText [NotNull, DefaultText []],
           col ''created_at'' TText [NotNull], col ''paired_at'' TText [], col ''last_seen_at'' TText [],
           col ''revoked_at'' TText []] []]"

definition migration_17 :: "statement list" where
  "migration_17 =
     [CreateTable ''cluster_invitations''
          [col ''id'' TText [PrimaryKey], col ''token_hash'' TBlob [NotNull, Unique],
           col ''state'' TText [NotNull, CheckIn [''pending'', ''consumed'', ''expired'']], col ''expires_at'' TText [NotNull],
           col ''created_at'' TText [NotNull], col ''consumed_at'' TText []] [],
      CreateTable ''cluster_join_requests''
          [col ''id'' TText [PrimaryKey], col ''request_secret_hash'' TBlob [NotNull, Unique],
           col ''invitation_id'' TText [NotNull, References ''cluster_invitations'' ''id'' False], col ''node_id'' TText [NotNull],
           col ''installation_id'' TText [NotNull], col ''display_name'' TText [NotNull, DefaultText []],
           col ''public_endpoint'' TText [NotNull], col ''public_key'' TBlob [NotNull],
           col ''capabilities_json'' TText [NotNull, DefaultText ''[]''], col ''protocol_version'' TInteger [NotNull],
           col ''product_version'' TText [NotNull, DefaultText []], col ''credential_for_local'' TText [NotNull],
           col ''state'' TText [NotNull, CheckIn [''pending'', ''approved'', ''rejected'', ''consumed'']],
           col ''expires_at'' TText [NotNull], col ''created_at'' TText [NotNull], col ''decided_at'' TText [],
           col ''response_consumed_at'' TText []] [],
      CreateTable ''cluster_members''
          [col ''node_id'' TText [PrimaryKey], col ''installation_id'' TText [NotNull, Unique],
           col ''display_name'' TText [NotNull, DefaultText []], col ''public_endpoint'' TText [NotNull],
           col ''public_key'' TBlob [NotNull], col ''capabilities_json'' TText [NotNull, DefaultText ''[]''],
           col ''protocol_version'' TInteger [NotNull], col ''product_version'' TText [NotNull, DefaultText []],
           col ''inbound_secret_hash'' TBlob [NotNull], col ''outbound_secret'' TText [NotNull],
           col ''state'' TText [NotNull, CheckIn [''active'', ''disabled'', ''revoked'']], col ''created_at'' TText [NotNull],
           col ''paired_at'' TText [NotNull], col ''last_seen_at'' TText [], col ''last_latency_ms'' TInteger [],
           col ''revoked_at'' TText [], col ''credential_version'' TInteger [NotNull, DefaultInt 1],
           col ''pending_inbound_secret_hash'' TBlob [], col ''pending_inbound_expires_at'' TText []] []]"

definition migration_18 :: "statement list" where
  "migration_18 =
     [CreateTable ''cluster_nonces''
          [col ''node_id'' TText [NotNull, References ''cluster_members'' ''node_id'' True], col ''nonce'' TText [NotNull],
           col ''seen_at'' TText [NotNull]] [TablePrimaryKey [''node_id'', ''nonce'']],
      CreateIndex ''cluster_nonces_seen'' ''cluster_nonces'' [''seen_at'']]"

definition migration_19 :: "statement list" where
  "migration_19 =
     [CreateTable ''cluster_outbound_joins''
          [col ''id'' TText [PrimaryKey], col ''remote_url'' TText [NotNull], col ''request_id'' TText [NotNull],
           col ''request_secret'' TText [NotNull], col ''local_inbound_credential'' TText [NotNull],
           col ''state'' TText [NotNull, CheckIn [''pending'', ''approved'', ''rejected'', ''expired'', ''failed'']],
           col ''created_at'' TText [NotNull], col ''updated_at'' TText [NotNull],
           col ''last_error'' TText [NotNull, DefaultText []]] []]"

definition migration_20 :: "statement list" where
  "migration_20 =
     [CreateTable ''propagation_profiles''
          [col ''id'' TText [PrimaryKey], col ''name'' TText [NotNull], col ''selector_json'' TText [NotNull],
           col ''kinds_json'' TText [NotNull], col ''mode'' TText [NotNull], col ''schedule'' TText [NotNull, DefaultText []],
           col ''maintenance_window'' TText [NotNull, DefaultText []], col ''enabled'' TInteger [NotNull, DefaultInt 1],
           col ''last_run_at'' TText [], col ''created_at'' TText [NotNull], col ''updated_at'' TText [NotNull]] [],
      CreateTable ''propagation_history''
          [col ''id'' TText [PrimaryKey], col ''plan_id'' TText [NotNull], col ''actor'' TText [NotNull],
           col ''target'' TText [NotNull], col ''status'' TText [NotNull], col ''applied'' TInteger [NotNull, DefaultInt 0],
           col ''failed'' TInteger [NotNull, DefaultInt 0], col ''rolled_back'' TInteger [NotNull, DefaultInt 0],
           col ''detail'' TText [NotNull, DefaultText []], col ''created_at'' TText [NotNull]] [],
      CreateIndex ''propagation_history_created'' ''propagation_history'' [''created_at'']]"

definition run_statements :: "statement list \<Rightarrow> catalog \<Rightarrow> err + catalog" where
  "run_statements ss c = foldE exec_ddl ss c"

definition migration_21 :: "catalog \<Rightarrow> err + catalog" where
  "migration_21 c = (if has_column ''collector_keys'' ''last_batch_id'' c then Inr c else exec_ddl (AddColumn ''collector_keys'' (col ''last_batch_id'' TText [])) c)"

text \<open>\<open>substr(email, 1, instr(email, '@') - 1)\<close>: the part in front of the first at sign, nothing when there is none; \<open>trim\<close> removes spaces.\<close>

definition local_part :: "string \<Rightarrow> string" where
  "local_part e = (if CHR ''@'' \<in> set e then takeWhile (\<lambda>c. c \<noteq> CHR ''@'') e else [])"

definition unnamed_user :: "user_name \<Rightarrow> bool" where
  "unnamed_user u = (case un_username u of None \<Rightarrow> True | Some n \<Rightarrow> list_all (\<lambda>c. c = CHR '' '') n)"

definition migration_22 :: "catalog \<Rightarrow> err + catalog" where
  "migration_22 c = bindE (if has_column ''users'' ''username'' c then Inr c else exec_ddl (AddColumn ''users'' (col ''username'' TText [NoCase])) c)
     (\<lambda>c. Inr (c\<lparr> ca_users := upd_where unnamed_user (\<lambda>u. u\<lparr> un_username := Some (local_part (un_email u)) \<rparr>) (ca_users c) \<rparr>))"

definition migrations :: "(catalog \<Rightarrow> err + catalog) list" where
  "migrations = map run_statements [migration_1, migration_2, migration_3, migration_4, migration_5, migration_6, migration_7, migration_8, migration_9, migration_10,
     migration_11, migration_12, migration_13, migration_14, migration_15, migration_16, migration_17, migration_18, migration_19, migration_20] @ [migration_21, migration_22]"

definition SchemaVersion :: nat where
  "SchemaVersion = 22"

record store_file =
  sf_fault :: bool
  sf_history :: "(nat \<times> time) list option"
  sf_catalog :: catalog

definition schema_version :: "(nat \<times> time) list \<Rightarrow> nat" where
  "schema_version h = foldr max (map fst h) 0"

text \<open>The chain of \<open>if version == k\<close> blocks: the block of the current version runs and counts up, every other block is passed.\<close>

fun upgrade :: "time \<Rightarrow> (nat \<times> (catalog \<Rightarrow> err + catalog)) list \<Rightarrow> nat \<Rightarrow> (nat \<times> time) list \<Rightarrow> catalog \<Rightarrow> err + ((nat \<times> time) list \<times> catalog)" where
  "upgrade now [] version h c = Inr (h, c)"
| "upgrade now ((k, step) # steps) version h c = (if version = k
     then (case step c of Inl e \<Rightarrow> Inl (Wrapped ''migration'' e)
       | Inr c' \<Rightarrow> if Suc k \<in> fst ` set h then Inl Constraint else upgrade now steps (Suc k) (h @ [(Suc k, now)]) c')
     else upgrade now steps version h c)"

definition migrate :: "time \<Rightarrow> store_file \<Rightarrow> store_file \<times> (err + unit)" where
  "migrate now s = (if sf_fault s then (s, Inl IOFault)
     else let h = (case sf_history s of None \<Rightarrow> [] | Some h \<Rightarrow> h); v = schema_version h
       in if v > SchemaVersion then (s, Inl (Err ''database schema is newer than supported''))
          else case upgrade now (enumerate 0 migrations) v h (sf_catalog s) of
            Inl e \<Rightarrow> (s, Inl e)
          | Inr (h', c') \<Rightarrow> (s\<lparr> sf_history := Some h', sf_catalog := c' \<rparr>, Inr ()))"

section \<open>What the migrations lead to\<close>

text \<open>The schema of a database that has run the first \<open>v\<close> migrations.\<close>

definition schema_after :: "nat \<Rightarrow> err + catalog" where
  "schema_after v = foldE (\<lambda>m. m) (take v migrations) \<lparr> ca_tables = [], ca_indexes = [], ca_users = [] \<rparr>"

definition same_schema :: "catalog \<Rightarrow> catalog \<Rightarrow> bool" where
  "same_schema c d \<longleftrightarrow> ca_tables c = ca_tables d \<and> ca_indexes c = ca_indexes d"

lemma exec_ddl_schema:
  assumes "same_schema c d"
  shows "rel_sum (=) same_schema (exec_ddl s c) (exec_ddl s d)"
  using assms by (cases s) (auto simp: same_schema_def has_table_def has_column_def)

lemma foldE_schema:
  assumes "same_schema c d" and "\<And>x c d. x \<in> set xs \<Longrightarrow> same_schema c d \<Longrightarrow> rel_sum (=) same_schema (f x c) (f x d)"
  shows "rel_sum (=) same_schema (foldE f xs c) (foldE f xs d)"
  using assms
proof (induction xs arbitrary: c d)
  case (Cons x xs)
  then have "rel_sum (=) same_schema (f x c) (f x d)"
    by simp
  then show ?case
    using Cons by (cases rule: rel_sum.cases) auto
qed simp

lemma run_statements_schema: "same_schema c d \<Longrightarrow> rel_sum (=) same_schema (run_statements ss c) (run_statements ss d)"
  unfolding run_statements_def by (rule foldE_schema) (auto intro: exec_ddl_schema)

lemma add_missing_schema:
  assumes "same_schema c d"
  shows "rel_sum (=) same_schema (if has_column t n c then Inr c else exec_ddl s c) (if has_column t n d then Inr d else exec_ddl s d)"
proof -
  have "has_column t n c = has_column t n d"
    using assms by (simp add: has_column_def same_schema_def)
  then show ?thesis
    using assms exec_ddl_schema [OF assms] by simp
qed

lemma migration_21_schema: "same_schema c d \<Longrightarrow> rel_sum (=) same_schema (migration_21 c) (migration_21 d)"
  unfolding migration_21_def by (rule add_missing_schema)

lemma migration_22_schema:
  assumes "same_schema c d"
  shows "rel_sum (=) same_schema (migration_22 c) (migration_22 d)"
  using add_missing_schema [OF assms, of "''users''" "''username''" "AddColumn ''users'' (col ''username'' TText [NoCase])"]
  unfolding migration_22_def by (cases rule: rel_sum.cases) (auto simp: same_schema_def simp del: exec_ddl.simps)

lemma migrations_schema: "same_schema c d \<Longrightarrow> rel_sum (=) same_schema (foldE (\<lambda>m. m) (drop v migrations) c) (foldE (\<lambda>m. m) (drop v migrations) d)"
  by (rule foldE_schema) (auto simp: migrations_def dest!: in_set_dropD intro: run_statements_schema migration_21_schema migration_22_schema)

lemma foldE_append: "foldE f (xs @ ys) s = bindE (foldE f xs s) (foldE f ys)"
  by (induction xs arbitrary: s) (auto simp: bindE_def split: sum.splits)

lemma length_migrations: "length migrations = SchemaVersion"
  by (simp add: migrations_def SchemaVersion_def)

lemma schema_after_OK: "isOK (schema_after SchemaVersion)"
  by code_simp

lemma upgrade_skip: "k + length ms \<le> v \<Longrightarrow> upgrade now (enumerate k ms @ rest) v h c = upgrade now rest v h c"
  by (induction ms arbitrary: k) auto

lemma schema_version_ge: "x \<in> fst ` set h \<Longrightarrow> x \<le> schema_version h"
  by (induction h) (force simp: schema_version_def)+

lemma schema_version_append: "schema_version (h @ [(v, t)]) = max (schema_version h) v"
  by (induction h) (auto simp: schema_version_def)

lemma upgrade_run:
  assumes "foldE (\<lambda>m. m) ms c = Inr c'" and "schema_version h = k"
  shows "\<exists>h'. upgrade now (enumerate k ms) k h c = Inr (h', c') \<and> schema_version h' = k + length ms \<and>
     map fst h' = map fst h @ [Suc k..<Suc (k + length ms)]"
  using assms
proof (induction ms arbitrary: k h c)
  case (Cons m ms)
  then obtain d where d: "m c = Inr d" "foldE (\<lambda>m. m) ms d = Inr c'"
    by auto
  have "Suc k \<notin> fst ` set h"
    using schema_version_ge [of "Suc k" h] Cons.prems(2) by auto
  moreover have "schema_version (h @ [(Suc k, now)]) = Suc k"
    using Cons.prems(2) by (simp add: schema_version_append)
  ultimately show ?case
    using d Cons.IH [of d "h @ [(Suc k, now)]" "Suc k"] by (auto simp: upt_conv_Cons [of "Suc k"] simp del: upt_Suc)
qed simp

lemma foldE_last:
  assumes "foldE (\<lambda>m. m) (ms @ [m]) c = Inr c'"
  obtains d where "m d = Inr c'"
  using assms by (auto simp: foldE_append bindE_eq_Inr)

lemma migrations_last:
  assumes "v < SchemaVersion"
  obtains ms where "drop v migrations = ms @ [migration_22]"
proof -
  have "last (drop v migrations) = migration_22"
    using assms by (simp add: last_drop length_migrations) (simp add: migrations_def)
  moreover have "drop v migrations \<noteq> []"
    using assms by (simp add: length_migrations)
  ultimately show thesis
    using append_butlast_last_id that by metis
qed

lemma migration_22_names:
  assumes "migration_22 d = Inr c" and "u \<in> set (ca_users c)"
  shows "un_username u \<noteq> None"
  using assms unfolding migration_22_def by (auto simp: bindE_eq_Inr set_upd_where unnamed_user_def split: option.splits)

lemma run_from_version:
  assumes "v \<le> SchemaVersion" and "schema_after v = Inr d" and "same_schema c d"
  shows "\<exists>c' f. foldE (\<lambda>m. m) (drop v migrations) c = Inr c' \<and> schema_after SchemaVersion = Inr f \<and> same_schema c' f"
proof -
  have "schema_after SchemaVersion = foldE (\<lambda>m. m) (drop v migrations) d"
    using assms(2) foldE_append [of "\<lambda>m. m" "take v migrations" "drop v migrations"]
    by (simp add: schema_after_def length_migrations [symmetric])
  moreover obtain f where "schema_after SchemaVersion = Inr f"
    using schema_after_OK by (auto simp: isOK_def split: sum.splits)
  ultimately show ?thesis
    using migrations_schema [OF assms(3), of v] by (auto elim: rel_sum.cases)
qed

text \<open>
  C11: Every database reaches the same schema: from a database that has run the first migrations and has their
  tables and indexes, whatever its rows, the remaining migrations run without error, the tables and indexes are then those of a fresh database,
  one row of history is added per migration that ran, and an account table that was upgraded has a user name in every row.
\<close>

theorem upgraded_schema_is_current:
  assumes "\<not> sf_fault s" and "sf_history s = Some h" and "schema_version h \<le> SchemaVersion"
    and "schema_after (schema_version h) = Inr d" and "same_schema (sf_catalog s) d"
  shows "\<exists>h' c' f. migrate now s = (s\<lparr> sf_history := Some h', sf_catalog := c' \<rparr>, Inr ()) \<and>
     schema_after SchemaVersion = Inr f \<and> same_schema c' f \<and>
     map fst h' = map fst h @ [Suc (schema_version h)..<Suc SchemaVersion] \<and>
     (schema_version h < SchemaVersion \<longrightarrow> (\<forall>u\<in>set (ca_users c'). un_username u \<noteq> None))"
proof -
  let ?v = "schema_version h"
  obtain c' f where run: "foldE (\<lambda>m. m) (drop ?v migrations) (sf_catalog s) = Inr c'"
    and f: "schema_after SchemaVersion = Inr f" "same_schema c' f"
    using run_from_version assms(3-5) by blast
  obtain h' where h': "upgrade now (enumerate ?v (drop ?v migrations)) ?v h (sf_catalog s) = Inr (h', c')"
    "map fst h' = map fst h @ [Suc ?v..<Suc SchemaVersion]"
    using upgrade_run [OF run, of h ?v now] assms(3) by (auto simp: length_migrations)
  have "enumerate 0 migrations = enumerate 0 (take ?v migrations) @ enumerate ?v (drop ?v migrations)"
    using enumerate_append_eq [of 0 "take ?v migrations" "drop ?v migrations"] assms(3) by (simp add: length_migrations)
  then have "upgrade now (enumerate 0 migrations) ?v h (sf_catalog s) = Inr (h', c')"
    using upgrade_skip [of 0 "take ?v migrations" ?v now] h' assms(3) by (simp add: length_migrations)
  then have "migrate now s = (s\<lparr> sf_history := Some h', sf_catalog := c' \<rparr>, Inr ())"
    using assms(1-3) by (simp add: migrate_def)
  moreover have "\<forall>u\<in>set (ca_users c'). un_username u \<noteq> None" if "?v < SchemaVersion"
    using that run by (metis migrations_last foldE_last migration_22_names)
  ultimately show ?thesis
    using f h'(2) by blast
qed

theorem upgraded_schema_is_current_witness:
  "\<exists>h' c' f. migrate 5 \<lparr> sf_fault = False, sf_history = Some [], sf_catalog = \<lparr> ca_tables = [], ca_indexes = [], ca_users = [] \<rparr> \<rparr> =
       (\<lparr> sf_fault = False, sf_history = Some h', sf_catalog = c' \<rparr>, Inr ()) \<and> schema_after SchemaVersion = Inr f \<and> same_schema c' f \<and> map fst h' = [1..<23]"
  using upgraded_schema_is_current [of "\<lparr> sf_fault = False, sf_history = Some [], sf_catalog = \<lparr> ca_tables = [], ca_indexes = [], ca_users = [] \<rparr> \<rparr>" "[]" _ 5]
  by (simp add: schema_version_def schema_after_def same_schema_def SchemaVersion_def) blast

end
