(* ===== verification/Cleanup.thy ===== *)
theory Cleanup
  imports Store
begin

text \<open>
  The deletes that precede the removal of a replicated post: \<open>cleanupNodeLocal\<close> of
  \<open>internal/replicated/cleanup.go\<close>, which clears the node-local rows of one post, and the first loop of
  \<open>clearReplicated\<close> of \<open>internal/replicated/fsm.go\<close>, which clears them for every post before a snapshot
  is installed. Both loops run the same kinds of statement, so each statement is a function of the
  predicate that selects its posts; the two loops differ in that predicate and in the order of the statements.

  The lemmas show what the schema needs for each statement to be accepted and that the loops
  establish it: after \<open>cleanupNodeLocal\<close> nothing but edges, rules and cascading rows refers to the post.
\<close>

section \<open>The statements\<close>

definition posts_in :: "(id \<Rightarrow> bool) \<Rightarrow> id option \<Rightarrow> bool" where
  "posts_in S o' = (case o' of None \<Rightarrow> False | Some p \<Rightarrow> S p)"

definition del_post_messages :: "(id \<Rightarrow> bool) \<Rightarrow> db \<Rightarrow> db" where
  "del_post_messages S d =
     (let cs = map cv_id (filter (\<lambda>c. posts_in S (cv_post c)) (conversations d))
      in del_messages (\<lambda>m. ms_conversation m \<in> set cs) d)"

definition del_post_conversations :: "(id \<Rightarrow> bool) \<Rightarrow> db \<Rightarrow> db" where
  "del_post_conversations S d = del_conversations (\<lambda>c. posts_in S (cv_post c)) d"

definition del_post_actions :: "(id \<Rightarrow> bool) \<Rightarrow> db \<Rightarrow> db" where
  "del_post_actions S d = d\<lparr> action_requests := del_where (\<lambda>a. posts_in S (aq_post a)) (action_requests d) \<rparr>"

definition del_post_oids :: "(id \<Rightarrow> bool) \<Rightarrow> db \<Rightarrow> db" where
  "del_post_oids S d =
     (let ps = map dp_id (filter (\<lambda>p. S (dp_post p)) (device_profiles d))
      in d\<lparr> device_profile_oids := del_where (\<lambda>i. oi_profile i \<in> set ps) (device_profile_oids d) \<rparr>)"

definition del_post_profiles :: "(id \<Rightarrow> bool) \<Rightarrow> db \<Rightarrow> db" where
  "del_post_profiles S d = del_device_profiles (\<lambda>p. S (dp_post p)) d"

definition post_alerts :: "(id \<Rightarrow> bool) \<Rightarrow> db \<Rightarrow> nat list" where
  "post_alerts S d = map al_id (filter (\<lambda>a. S (al_post a)) (alerts d))"

definition del_post_deliveries :: "(id \<Rightarrow> bool) \<Rightarrow> db \<Rightarrow> db" where
  "del_post_deliveries S d = d\<lparr> notification_deliveries :=
     del_where (\<lambda>x. dl_alert x \<in> set (post_alerts S d)) (notification_deliveries d) \<rparr>"

definition del_post_incident_alerts :: "(id \<Rightarrow> bool) \<Rightarrow> db \<Rightarrow> db" where
  "del_post_incident_alerts S d = d\<lparr> incident_alerts :=
     del_where (\<lambda>x. snd x \<in> set (post_alerts S d)) (incident_alerts d) \<rparr>"

definition del_post_alerts :: "(id \<Rightarrow> bool) \<Rightarrow> db \<Rightarrow> db" where
  "del_post_alerts S d = d\<lparr> alerts := del_where (\<lambda>a. S (al_post a)) (alerts d) \<rparr>"

definition del_post_observations :: "(id \<Rightarrow> bool) \<Rightarrow> db \<Rightarrow> db" where
  "del_post_observations S d = d\<lparr> observations := del_where (\<lambda>x. S (ob_post x)) (observations d) \<rparr>"

definition del_post_tokens :: "(id \<Rightarrow> bool) \<Rightarrow> db \<Rightarrow> db" where
  "del_post_tokens S d = d\<lparr> pairing_tokens := del_where (\<lambda>x. S (pt_post x)) (pairing_tokens d) \<rparr>"

definition del_post_keys :: "(id \<Rightarrow> bool) \<Rightarrow> db \<Rightarrow> db" where
  "del_post_keys S d = d\<lparr> collector_keys := del_where (\<lambda>x. S (ck_post x)) (collector_keys d) \<rparr>"

definition del_post_logs :: "(id \<Rightarrow> bool) \<Rightarrow> db \<Rightarrow> db" where
  "del_post_logs S d = d\<lparr> logs := del_where (\<lambda>x. S (lg_post x)) (logs d) \<rparr>"

definition del_post_changes :: "(id \<Rightarrow> bool) \<Rightarrow> db \<Rightarrow> db" where
  "del_post_changes S d = d\<lparr> changes := del_where (\<lambda>x. posts_in S (ch_post x)) (changes d) \<rparr>"

section \<open>The two loops\<close>

definition cleanup_statements :: "((id \<Rightarrow> bool) \<Rightarrow> db \<Rightarrow> db) list" where
  "cleanup_statements =
     [del_post_messages, del_post_conversations, del_post_actions, del_post_oids, del_post_profiles,
      del_post_deliveries, del_post_incident_alerts, del_post_alerts, del_post_observations,
      del_post_tokens, del_post_keys, del_post_logs, del_post_changes]"

definition cleanupNodeLocal :: "id \<Rightarrow> db \<Rightarrow> err + db" where
  "cleanupNodeLocal postID d = foldE (\<lambda>stmt. exec (stmt (\<lambda>p. p = postID))) cleanup_statements d"

definition clear_statements :: "((id \<Rightarrow> bool) \<Rightarrow> db \<Rightarrow> db) list" where
  "clear_statements =
     [del_post_deliveries, del_post_incident_alerts, del_post_alerts, del_post_observations,
      del_post_messages, del_post_conversations, del_post_actions, del_post_oids, del_post_profiles,
      del_post_tokens, del_post_keys, del_post_logs, del_post_changes]"

definition is_post :: "db \<Rightarrow> id \<Rightarrow> bool" where
  "is_post d p \<longleftrightarrow> p \<in> po_id ` set (posts d)"

definition clearReplicated :: "db \<Rightarrow> err + db" where
  "clearReplicated d =
     bindE (foldE (\<lambda>stmt. exec (\<lambda>d. stmt (is_post d) d)) clear_statements d) (\<lambda>d.
     bindE (exec (\<lambda>d. d\<lparr> post_dependencies := del_where (\<lambda>e. is_post d (fst e) \<or> is_post d (snd e)) (post_dependencies d) \<rparr>) d) (\<lambda>d.
     bindE (exec (\<lambda>d. d\<lparr> rules := [] \<rparr>) d) (\<lambda>d.
     exec (\<lambda>d. del_posts (\<lambda>p. True) d) d)))"

section \<open>Each statement keeps the constraints\<close>

lemma fk_map_del_where [simp]: "fk (map f xs) ps \<Longrightarrow> fk (map f (del_where P xs)) ps"
  by (auto simp: fk_iff)

lemma fk_somes_del_where [simp]: "fk (somes f xs) ps \<Longrightarrow> fk (somes f (del_where P xs)) ps"
  by (auto simp: fk_iff)

lemma distinct_del_where [simp]: "distinct xs \<Longrightarrow> distinct (del_where P xs)"
  by (simp add: del_where_def)

lemma list_all_del_where [simp]: "list_all Q xs \<Longrightarrow> list_all Q (del_where P xs)"
  by (auto simp: list_all_iff)

lemma fk_cascade [simp]:
  "fk (map f cs) (map k ps) \<Longrightarrow> fk (map f (del_where (\<lambda>c. f c \<in> k ` {x \<in> set ps. P x}) cs)) (map k (del_where P ps))"
  by (force simp: fk_iff)

text \<open>Rows of a parent table may go when no child names them.\<close>

definition unnamed :: "('r \<Rightarrow> bool) \<Rightarrow> ('r \<Rightarrow> 'k) \<Rightarrow> 'r list \<Rightarrow> 'k list \<Rightarrow> bool" where
  "unnamed P k ps cs \<longleftrightarrow> (\<forall>x \<in> set ps. P x \<longrightarrow> k x \<notin> set cs)"

lemma fk_unnamed: "fk cs (map k ps) \<Longrightarrow> unnamed P k ps cs \<Longrightarrow> fk cs (map k (del_where P ps))"
  by (force simp: fk_iff unnamed_def)

lemmas del_simps = distinct_map_del_where constraint_defs Let_def fk_unnamed

lemma constraints_del_messages: "constraints d \<Longrightarrow> constraints (del_messages P d)"
  unfolding del_messages_def by (simp add: del_simps)

lemma constraints_del_conversations:
  "constraints d \<Longrightarrow> unnamed P cv_id (conversations d) (map ms_conversation (conversation_messages d)) \<Longrightarrow>
   constraints (del_conversations P d)"
  unfolding del_conversations_def by (simp add: del_simps)

lemma constraints_del_profiles: "constraints d \<Longrightarrow> constraints (del_device_profiles P d)"
  unfolding del_device_profiles_def by (simp add: del_simps)

lemma constraints_del_leaf:
  assumes "constraints d"
  shows "constraints (d\<lparr> action_requests := del_where Pa (action_requests d) \<rparr>)"
    and "constraints (d\<lparr> device_profile_oids := del_where Po (device_profile_oids d) \<rparr>)"
    and "constraints (d\<lparr> notification_deliveries := del_where Pn (notification_deliveries d) \<rparr>)"
    and "constraints (d\<lparr> incident_alerts := del_where Pi (incident_alerts d) \<rparr>)"
    and "constraints (d\<lparr> observations := del_where Pb (observations d) \<rparr>)"
    and "constraints (d\<lparr> pairing_tokens := del_where Pt (pairing_tokens d) \<rparr>)"
    and "constraints (d\<lparr> logs := del_where Pl (logs d) \<rparr>)"
    and "constraints (d\<lparr> changes := del_where Pc (changes d) \<rparr>)"
    and "constraints (d\<lparr> post_dependencies := del_where Pd (post_dependencies d) \<rparr>)"
  using assms by (simp_all add: del_simps)

lemma constraints_del_alerts:
  "constraints d \<Longrightarrow> unnamed P al_id (alerts d) (map dl_alert (notification_deliveries d)) \<Longrightarrow>
   unnamed P al_id (alerts d) (map snd (incident_alerts d)) \<Longrightarrow>
   constraints (d\<lparr> alerts := del_where P (alerts d) \<rparr>)"
  by (simp add: del_simps)

lemma constraints_del_keys:
  "constraints d \<Longrightarrow> unnamed P ck_id (collector_keys d) (map ob_collector (observations d)) \<Longrightarrow>
   constraints (d\<lparr> collector_keys := del_where P (collector_keys d) \<rparr>)"
  by (simp add: del_simps)

lemma constraints_del_rules:
  "constraints d \<Longrightarrow> unnamed P ru_id (rules d) (map al_rule (alerts d)) \<Longrightarrow>
   constraints (d\<lparr> rules := del_where P (rules d) \<rparr>)"
  by (simp add: del_simps)

text \<open>The tables that keep a row of a post they name when the post is deleted.\<close>

definition post_unnamed :: "(post_row \<Rightarrow> bool) \<Rightarrow> db \<Rightarrow> bool" where
  "post_unnamed P d \<longleftrightarrow>
     unnamed P po_id (posts d)
       (map fst (post_dependencies d) @ map snd (post_dependencies d) @ map ru_post (rules d) @
        map al_post (alerts d) @ map ck_post (collector_keys d) @ map ob_post (observations d) @
        map pt_post (pairing_tokens d) @ somes cv_post (conversations d) @ somes aq_post (action_requests d) @
        map dp_post (device_profiles d) @ map lg_post (logs d) @ somes ch_post (changes d))"

lemma fk_cascade_somes [simp]:
  "fk (somes f cs) (map k ps) \<Longrightarrow>
   fk (somes f (del_where (\<lambda>c. case f c of None \<Rightarrow> False | Some y \<Rightarrow> y \<in> set (map k (filter P ps))) cs)) (map k (del_where P ps))"
  by (force simp: fk_iff split: option.splits)

lemma constraints_del_posts:
  assumes c: "constraints d" and u: "post_unnamed P d"
  shows "constraints (del_posts P d)"
proof -
  have sub: "unnamed P k ps (as @ bs) \<longleftrightarrow> unnamed P k ps as \<and> unnamed P k ps bs" for k ps as bs
    by (auto simp: unnamed_def)
  show ?thesis
    using c u unfolding del_posts_def del_check_schedules_def post_unnamed_def sub
    by (simp add: del_simps)
qed

section \<open>The loops succeed\<close>

text \<open>
  What the statements of a loop do together, as one update of the database: the node-local rows of
  the posts in \<open>S\<close> are gone, with the rows that hang on them, and every other row is as it was.
\<close>

definition purge_local :: "(id \<Rightarrow> bool) \<Rightarrow> db \<Rightarrow> db" where
  "purge_local S d =
     (let cs = cv_id ` {c \<in> set (conversations d). posts_in S (cv_post c)};
          ms = ms_id ` {m \<in> set (conversation_messages d). ms_conversation m \<in> cs};
          as = al_id ` {a \<in> set (alerts d). S (al_post a)};
          dps = dp_id ` {p \<in> set (device_profiles d). S (dp_post p)}
      in d\<lparr> conversation_messages := del_where (\<lambda>m. ms_conversation m \<in> cs) (conversation_messages d),
            conversations := del_where (\<lambda>c. posts_in S (cv_post c)) (conversations d),
            conversation_evidence := del_where (\<lambda>e. ev_message e \<in> ms \<or> ev_conversation e \<in> cs) (conversation_evidence d),
            action_requests := del_where (\<lambda>a. posts_in S (aq_post a)) (action_requests d),
            device_profile_oids := del_where (\<lambda>i. oi_profile i \<in> dps) (device_profile_oids d),
            device_profiles := del_where (\<lambda>p. S (dp_post p)) (device_profiles d),
            notification_deliveries := del_where (\<lambda>x. dl_alert x \<in> as) (notification_deliveries d),
            incident_alerts := del_where (\<lambda>x. snd x \<in> as) (incident_alerts d),
            alerts := del_where (\<lambda>a. S (al_post a)) (alerts d),
            observations := del_where (\<lambda>x. S (ob_post x)) (observations d),
            pairing_tokens := del_where (\<lambda>x. S (pt_post x)) (pairing_tokens d),
            collector_keys := del_where (\<lambda>x. S (ck_post x)) (collector_keys d),
            logs := del_where (\<lambda>x. S (lg_post x)) (logs d),
            changes := del_where (\<lambda>x. posts_in S (ch_post x)) (changes d) \<rparr>)"

text \<open>
  The consistency the writers of alerts and observations keep: an alert is an alert of its rule's post,
  and an observation is one of its collector's post.
\<close>

definition alerts_consistent :: "db \<Rightarrow> bool" where
  "alerts_consistent d = list_all (\<lambda>a. list_all (\<lambda>r. al_rule a = ru_id r \<longrightarrow> al_post a = ru_post r) (rules d)) (alerts d)"

definition observations_consistent :: "db \<Rightarrow> bool" where
  "observations_consistent d =
     list_all (\<lambda>x. list_all (\<lambda>k. ob_collector x = ck_id k \<longrightarrow> ob_post x = ck_post k) (collector_keys d)) (observations d)"

lemmas statement_defs =
  del_post_messages_def del_post_conversations_def del_post_actions_def del_post_oids_def
  del_post_profiles_def del_post_deliveries_def del_post_incident_alerts_def del_post_alerts_def
  del_post_observations_def del_post_tokens_def del_post_keys_def del_post_logs_def del_post_changes_def
  post_alerts_def del_messages_def del_conversations_def del_device_profiles_def Let_def

lemma del_where_del_where: "del_where P (del_where Q xs) = del_where (\<lambda>x. Q x \<or> P x) xs"
  by (simp add: del_where_def conj_commute)

lemma del_where_again [simp]: "del_where P (del_where P xs) = del_where P xs"
  by (simp add: del_where_del_where)

lemma foldE_exec_step:
  "\<not> io_fault d \<Longrightarrow> constraints (f s d) \<Longrightarrow> foldE (\<lambda>s. exec (f s)) (s # ss) d = foldE (\<lambda>s. exec (f s)) ss (f s d)"
  by (simp add: exec_ok)

lemma unnamed_messages:
  "unnamed (\<lambda>c. posts_in S (cv_post c)) cv_id (conversations (del_post_messages S d))
     (map ms_conversation (conversation_messages (del_post_messages S d)))"
  by (force simp: unnamed_def statement_defs image_iff)

lemma constraints_conversations:
  "constraints d \<Longrightarrow> constraints (del_post_messages S d)"
  "constraints d \<Longrightarrow> constraints (del_post_conversations S (del_post_messages S d))"
  using constraints_del_messages constraints_del_conversations unnamed_messages
  by (metis del_post_messages_def del_post_conversations_def)+

lemma constraints_alerts:
  assumes "constraints d"
  shows "constraints (del_post_deliveries S d)"
    and "constraints (del_post_incident_alerts S (del_post_deliveries S d))"
    and "constraints (del_post_alerts S (del_post_incident_alerts S (del_post_deliveries S d)))"
proof -
  show 1: "constraints (del_post_deliveries S d)"
    unfolding del_post_deliveries_def by (rule constraints_del_leaf [OF assms])
  show 2: "constraints (del_post_incident_alerts S (del_post_deliveries S d))"
    unfolding del_post_incident_alerts_def by (rule constraints_del_leaf [OF 1])
  show "constraints (del_post_alerts S (del_post_incident_alerts S (del_post_deliveries S d)))"
    unfolding del_post_alerts_def
    by (rule constraints_del_alerts [OF 2]) (force simp: unnamed_def statement_defs image_iff)+
qed

lemma constraints_leaf_statements:
  assumes "constraints d"
  shows "constraints (del_post_actions S d)" and "constraints (del_post_oids S d)"
    and "constraints (del_post_profiles S d)" and "constraints (del_post_observations S d)"
    and "constraints (del_post_tokens S d)" and "constraints (del_post_logs S d)" and "constraints (del_post_changes S d)"
  using assms constraints_del_profiles [OF assms]
  by (simp_all add: del_post_actions_def del_post_oids_def del_post_profiles_def del_post_observations_def
      del_post_tokens_def del_post_logs_def del_post_changes_def Let_def constraints_del_leaf del: set_map set_filter)

lemma constraints_keys:
  "constraints d \<Longrightarrow> unnamed (\<lambda>k. S (ck_post k)) ck_id (collector_keys d) (map ob_collector (observations d)) \<Longrightarrow>
   constraints (del_post_keys S d)"
  unfolding del_post_keys_def by (rule constraints_del_keys)

lemma unnamed_keys:
  assumes "observations_consistent d" and "list_all (\<lambda>x. \<not> S (ob_post x)) (observations d)"
  shows "unnamed (\<lambda>k. S (ck_post k)) ck_id (collector_keys d) (map ob_collector (observations d))"
  using assms by (force simp: unnamed_def observations_consistent_def list_all_iff)

lemma io_fault_statements [simp]:
  "s \<in> set cleanup_statements \<Longrightarrow> io_fault (s S d) = io_fault d"
  by (auto simp: cleanup_statements_def statement_defs)

lemma fold_cleanup: "fold (\<lambda>s. s S) cleanup_statements d = purge_local S d"
  by (simp add: cleanup_statements_def statement_defs purge_local_def del_where_del_where disj_commute)

lemma cleanup_keys_ok:
  assumes "observations_consistent d"
    and "collector_keys e = collector_keys d" and "observations e = observations d"
  shows "unnamed (\<lambda>k. S (ck_post k)) ck_id
    (collector_keys (del_post_tokens S (del_post_observations S (del_post_alerts S e))))
    (map ob_collector (observations (del_post_tokens S (del_post_observations S (del_post_alerts S e)))))"
  using assms by (intro unnamed_keys) (auto simp: observations_consistent_def statement_defs list_all_iff)

lemma cleanupNodeLocal_ok:
  assumes io: "\<not> io_fault d" and c: "constraints d" and lc: "observations_consistent d"
  shows "cleanupNodeLocal p d = Inr (purge_local (\<lambda>q. q = p) d)"
proof -
  let ?S = "\<lambda>q. q = p"
  let ?d2 = "del_post_conversations ?S (del_post_messages ?S d)"
  let ?d5 = "del_post_profiles ?S (del_post_oids ?S (del_post_actions ?S ?d2))"
  let ?d8 = "del_post_alerts ?S (del_post_incident_alerts ?S (del_post_deliveries ?S ?d5))"
  let ?d10 = "del_post_tokens ?S (del_post_observations ?S ?d8)"
  note leaf = constraints_leaf_statements
  have c2: "constraints ?d2" by (rule constraints_conversations [OF c])
  have c5: "constraints ?d5" by (intro leaf c2)
  have c8: "constraints ?d8" by (rule constraints_alerts [OF c5])
  have c10: "constraints ?d10" by (intro leaf c8)
  have c11: "constraints (del_post_keys ?S ?d10)"
    by (rule constraints_keys [OF c10], rule cleanup_keys_ok [OF lc]) (simp_all add: statement_defs)
  have io': "\<not> io_fault (s ?S e)" if "\<not> io_fault e" "s \<in> set cleanup_statements" for s e
    using that by simp
  have "cleanupNodeLocal p d = Inr (fold (\<lambda>s. s ?S) cleanup_statements d)"
    using io io' c2 c5 c8 c10 c11 unfolding cleanupNodeLocal_def cleanup_statements_def
    by (simp add: exec_ok constraints_conversations [OF c] leaf constraints_alerts)
  then show ?thesis by (simp only: fold_cleanup)
qed

lemma purge_local_frame [simp]:
  "io_fault (purge_local S d) = io_fault d" "replicated_meta (purge_local S d) = replicated_meta d"
  "posts (purge_local S d) = posts d" "post_dependencies (purge_local S d) = post_dependencies d"
  "rules (purge_local S d) = rules d"
  by (simp_all add: purge_local_def Let_def)

lemma purge_local_alerts: "alerts (purge_local S d) = del_where (\<lambda>a. S (al_post a)) (alerts d)"
  by (simp add: purge_local_def Let_def)

lemma cleanupNodeLocal_constraints: "cleanupNodeLocal p d = Inr d' \<Longrightarrow> constraints d'"
  by (simp add: cleanupNodeLocal_def cleanup_statements_def bindE_eq_Inr exec_eq_Inr) auto

text \<open>After the loop the post is named only by edges, rules and the rows that cascade with it.\<close>

lemma purge_local_unnamed:
  assumes "\<And>e. e \<in> set (post_dependencies d) \<Longrightarrow> \<not> S (fst e) \<and> \<not> S (snd e)"
    and "\<And>r. r \<in> set (rules d) \<Longrightarrow> \<not> S (ru_post r)"
  shows "post_unnamed (\<lambda>q. S (po_id q)) (purge_local S d)"
  using assms by (auto simp: post_unnamed_def unnamed_def purge_local_def Let_def posts_in_def)

section \<open>Clearing every post\<close>

lemma is_post_frame: "posts d' = posts d \<Longrightarrow> is_post d' = is_post d"
  by (simp add: is_post_def fun_eq_iff)

lemma posts_statements [simp]:
  "s \<in> set clear_statements \<Longrightarrow> posts (s S d) = posts d"
  "s \<in> set clear_statements \<Longrightarrow> io_fault (s S d) = io_fault d"
  by (auto simp: clear_statements_def statement_defs)

lemma fold_clear: "fold (\<lambda>s. s S) clear_statements d = purge_local S d"
  by (simp add: clear_statements_def statement_defs purge_local_def del_where_del_where disj_commute)

lemma no_observations:
  assumes "constraints d"
  shows "observations (del_post_observations (is_post d) d) = []"
proof -
  have "\<forall>x \<in> set (observations d). is_post d (ob_post x)"
    using assms by (auto simp: constraints_def post_refs_ok_def Let_def fk_iff is_post_def)
  then show ?thesis
    by (simp add: del_post_observations_def del_where_def filter_empty_conv)
qed

lemma foldE_is_post:
  "set ss \<subseteq> set clear_statements \<Longrightarrow> posts e = posts d \<Longrightarrow>
   foldE (\<lambda>stmt. exec (\<lambda>d. stmt (is_post d) d)) ss e = foldE (\<lambda>stmt. exec (stmt (is_post d))) ss e"
proof (induction ss arbitrary: e)
  case (Cons s ss)
  have same: "exec (\<lambda>d. s (is_post d) d) e = exec (s (is_post d)) e"
    using Cons.prems is_post_frame [of e d] by (simp add: exec_def)
  show ?case
  proof (cases "exec (s (is_post d)) e")
    case (Inr e')
    then have "posts e' = posts d" using Cons.prems by (auto simp: exec_eq_Inr)
    then show ?thesis using Cons same Inr by simp
  qed (simp add: same)
qed simp

lemma clear_loop_ok:
  assumes io: "\<not> io_fault d" and c: "constraints d"
  shows "foldE (\<lambda>stmt. exec (\<lambda>d. stmt (is_post d) d)) clear_statements d = Inr (purge_local (is_post d) d)"
    and "constraints (purge_local (is_post d) d)"
proof -
  let ?S = "is_post d"
  let ?d3 = "del_post_alerts ?S (del_post_incident_alerts ?S (del_post_deliveries ?S d))"
  let ?d4 = "del_post_observations ?S ?d3"
  let ?d6 = "del_post_conversations ?S (del_post_messages ?S ?d4)"
  let ?d10 = "del_post_tokens ?S (del_post_profiles ?S (del_post_oids ?S (del_post_actions ?S ?d6)))"
  note leaf = constraints_leaf_statements
  have c3: "constraints ?d3" by (rule constraints_alerts [OF c])
  have p3: "is_post ?d3 = ?S" by (rule is_post_frame) (simp add: statement_defs)
  have o4: "observations ?d4 = []" using no_observations [OF c3] by (simp only: p3)
  have c4: "constraints ?d4" by (rule leaf [OF c3])
  have c6: "constraints ?d6" by (rule constraints_conversations [OF c4])
  have c10: "constraints ?d10" by (intro leaf c6)
  have "observations ?d10 = []" using o4 by (simp add: statement_defs)
  then have c11: "constraints (del_post_keys ?S ?d10)"
    by (intro constraints_keys [OF c10]) (simp add: unnamed_def)
  have io': "\<not> io_fault (s ?S e)" if "\<not> io_fault e" "s \<in> set clear_statements" for s e
    using that by simp
  have "foldE (\<lambda>stmt. exec (stmt ?S)) clear_statements d = Inr (fold (\<lambda>s. s ?S) clear_statements d)"
    using io io' c3 c4 c6 c10 c11 unfolding clear_statements_def
    by (simp add: exec_ok constraints_conversations leaf constraints_alerts [OF c])
  then show "foldE (\<lambda>stmt. exec (\<lambda>d. stmt (is_post d) d)) clear_statements d = Inr (purge_local (is_post d) d)"
    by (simp add: foldE_is_post [OF subset_refl refl] fold_clear)
  have "constraints (fold (\<lambda>s. s ?S) clear_statements d)"
    using c11 unfolding clear_statements_def by (simp add: leaf)
  then show "constraints (purge_local (is_post d) d)" by (simp only: fold_clear)
qed

text \<open>The database without a replicated definition and without a row that names one.\<close>

definition wiped :: "db \<Rightarrow> db" where
  "wiped d = del_posts (\<lambda>p. True) ((purge_local (is_post d) d)\<lparr> post_dependencies := [], rules := [] \<rparr>)"

lemma clearReplicated_ok:
  assumes io: "\<not> io_fault d" and c: "constraints d"
  shows "clearReplicated d = Inr (wiped d) \<and> constraints (wiped d)"
proof -
  let ?d1 = "purge_local (is_post d) d"
  note c1 = clear_loop_ok(2) [OF assms]
  let ?d2 = "?d1\<lparr> post_dependencies := [] \<rparr>"
  let ?d3 = "?d2\<lparr> rules := [] \<rparr>"
  have deps: "del_where (\<lambda>e. is_post ?d1 (fst e) \<or> is_post ?d1 (snd e)) (post_dependencies ?d1) = []"
    using c1 by (auto simp: constraints_def post_refs_ok_def Let_def fk_iff is_post_def del_where_def filter_empty_conv)
  have c2: "constraints ?d2"
    using constraints_del_leaf(9) [OF c1, of "\<lambda>e. is_post ?d1 (fst e) \<or> is_post ?d1 (snd e)"] by (simp only: deps)
  have "alerts ?d1 = []"
    using c by (auto simp: purge_local_alerts del_where_def filter_empty_conv constraints_def post_refs_ok_def Let_def fk_iff is_post_def)
  then have c3: "constraints ?d3"
    using constraints_del_rules [OF c2, of "\<lambda>r. True"] by (simp add: unnamed_def del_where_def)
  have "post_unnamed (\<lambda>q. is_post d (po_id q)) (purge_local (is_post d) (d\<lparr> post_dependencies := [], rules := [] \<rparr>))"
    by (rule purge_local_unnamed) simp_all
  then have "post_unnamed (\<lambda>q. True) ?d3"
    by (simp add: post_unnamed_def unnamed_def purge_local_def Let_def is_post_def)
  then have c4: "constraints (wiped d)"
    using constraints_del_posts [OF c3] by (simp add: wiped_def)
  have "exec (\<lambda>d. d\<lparr> post_dependencies := del_where (\<lambda>e. is_post d (fst e) \<or> is_post d (snd e)) (post_dependencies d) \<rparr>) ?d1 = Inr ?d2"
    using io c2 unfolding exec_def deps by simp
  then have "clearReplicated d = Inr (wiped d)"
    using io c3 c4 unfolding clearReplicated_def clear_loop_ok(1) [OF assms] wiped_def
    by (simp add: exec_ok)
  with c4 show ?thesis by simp
qed

end
