(* ===== verification/Replicated_Meta.thy ===== *)
theory Replicated_Meta
  imports Cleanup "HOL-Library.AList"
begin

text \<open>
  The durable position of the replicated state machine (\<open>internal/replicated/fsm.go\<close>): the table
  \<open>_replicated_meta\<close>, \<open>writeMeta\<close>, which prints the applied index, term and graph revision in decimal,
  and \<open>metaGet\<close>, which reads them back with \<open>fmt.Sscanf\<close>. The main lemma is that what \<open>writeMeta\<close>
  stores \<open>metaGet\<close> returns, for every 64-bit value.
\<close>

section \<open>Decimal text of a uint64\<close>

text \<open>\<open>fmt.Sprintf("%d", v)\<close>\<close>

fun show_nat :: "nat \<Rightarrow> string" where
  "show_nat n = (if n < 10 then [char_of (48 + n)] else show_nat (n div 10) @ [char_of (48 + n mod 10)])"

declare show_nat.simps [simp del]

definition show_u64 :: "u64 \<Rightarrow> string" where
  "show_u64 v = show_nat (unat v)"

text \<open>
  \<open>fmt.Sscanf(s, "%d", &v)\<close> into a \<open>uint64\<close>: leading blanks are skipped, then the longest run of digits is
  taken; no digit at all, or a value that does not fit in 64 bits, is an error, and what follows the
  digits is not looked at.
\<close>

definition is_blank :: "char \<Rightarrow> bool" where
  "is_blank c \<longleftrightarrow> c = CHR '' '' \<or> of_char c \<in> {9, 11, 12, 13 :: nat}"

definition is_digit :: "char \<Rightarrow> bool" where
  "is_digit c \<longleftrightarrow> 48 \<le> (of_char c :: nat) \<and> (of_char c :: nat) \<le> 57"

definition digits_value :: "string \<Rightarrow> nat" where
  "digits_value ds = foldl (\<lambda>v c. 10 * v + (of_char c - 48)) 0 ds"

definition scan_u64 :: "string \<Rightarrow> u64 option" where
  "scan_u64 s =
     (let ds = takeWhile is_digit (dropWhile is_blank s)
      in if ds = [] then None
         else if digits_value ds < 2 ^ 64 then Some (word_of_nat (digits_value ds)) else None)"

section \<open>The table\<close>

definition meta_upsert :: "string \<Rightarrow> u64 \<Rightarrow> db \<Rightarrow> err + db" where
  "meta_upsert k v d =
     (case replicated_meta d of
        None \<Rightarrow> Inl (Err ''no such table: _replicated_meta'')
      | Some m \<Rightarrow> exec (\<lambda>d. d\<lparr> replicated_meta := Some (AList.update k (show_u64 v) m) \<rparr>) d)"

definition writeMeta :: "u64 \<Rightarrow> u64 \<Rightarrow> u64 \<Rightarrow> db \<Rightarrow> err + db" where
  "writeMeta index trm graphRev d =
     foldE (\<lambda>(k, v). meta_upsert k v)
       [(''applied_index'', index), (''applied_term'', trm), (''graph_revision'', graphRev)] d"

definition metaGet :: "string \<Rightarrow> db \<Rightarrow> err + (u64 \<times> bool)" where
  "metaGet k d =
     (if io_fault d then Inl IOFault
      else case replicated_meta d of
        None \<Rightarrow> Inl (Err ''no such table: _replicated_meta'')
      | Some m \<Rightarrow>
          (case map_of m k of
             None \<Rightarrow> Inr (0, False)
           | Some s \<Rightarrow>
               (case scan_u64 s of
                  None \<Rightarrow> Inl (Err ''corrupt replication metadata'')
                | Some v \<Rightarrow> Inr (v, True))))"

text \<open>\<open>SELECT COUNT(*) FROM posts\<close>\<close>

definition materializationCount :: "db \<Rightarrow> err + nat" where
  "materializationCount d = query (\<lambda>d. length (posts d)) d"

section \<open>Printing and reading a number\<close>

lemma digit_char [simp]: "n < 10 \<Longrightarrow> of_char (char_of (48 + n) :: char) = (48 + n :: nat)"
  by (simp add: of_char_of)

lemma is_digit_char [simp]: "n < 10 \<Longrightarrow> is_digit (char_of (48 + n :: nat))"
  by (simp add: is_digit_def)

lemma show_nat_digits: "list_all is_digit (show_nat n) \<and> show_nat n \<noteq> []"
proof (induction n rule: show_nat.induct)
  case (1 n)
  then show ?case by (subst (1 2) show_nat.simps) simp
qed

lemma digits_value_show: "digits_value (show_nat n) = n"
proof (induction n rule: show_nat.induct)
  case (1 n)
  show ?case
  proof (cases "n < 10")
    case True
    then show ?thesis by (subst show_nat.simps) (simp add: digits_value_def)
  next
    case False
    then show ?thesis using 1 by (subst show_nat.simps) (simp add: digits_value_def)
  qed
qed

lemma digit_not_blank: "is_digit c \<Longrightarrow> \<not> is_blank c"
  by (auto simp: is_digit_def is_blank_def)

lemma unat_lt_2_64: "unat (v :: u64) < 2 ^ 64"
  using unsigned_less [where 'b = 64 and 'a = nat and w = v] by simp

lemma scan_show_u64 [simp]: "scan_u64 (show_u64 v) = Some v"
proof -
  have d: "list_all is_digit (show_u64 v)" "show_u64 v \<noteq> []"
    using show_nat_digits by (simp_all add: show_u64_def)
  then have "dropWhile is_blank (show_u64 v) = show_u64 v"
    by (cases "show_u64 v") (auto simp: digit_not_blank)
  moreover have "takeWhile is_digit (show_u64 v) = show_u64 v"
    using d(1) by (simp add: list_all_iff)
  moreover have "digits_value (show_u64 v) = unat v"
    by (simp add: show_u64_def digits_value_show)
  ultimately show ?thesis
    using d(2) unat_lt_2_64 [of v] by (simp add: scan_u64_def Let_def del: takeWhile_eq_all_conv)
qed

section \<open>The position read is the position written\<close>

text \<open>No constraint of the schema is about the metadata.\<close>

lemma constraints_meta [simp]: "constraints (d\<lparr> replicated_meta := m \<rparr>) = constraints d"
  by (simp add: constraint_defs)

definition with_position :: "u64 \<Rightarrow> u64 \<Rightarrow> u64 \<Rightarrow> (string \<times> string) list \<Rightarrow> (string \<times> string) list" where
  "with_position index trm graphRev m =
     AList.update ''graph_revision'' (show_u64 graphRev)
       (AList.update ''applied_term'' (show_u64 trm) (AList.update ''applied_index'' (show_u64 index) m))"

lemma writeMeta_ok:
  assumes "\<not> io_fault d" and "constraints d" and "replicated_meta d = Some m"
  shows "writeMeta i t g d = Inr (d\<lparr> replicated_meta := Some (with_position i t g m) \<rparr>)"
  using assms by (simp add: writeMeta_def meta_upsert_def exec_ok with_position_def)

lemma writeMeta_Inr:
  "writeMeta i t g d = Inr d' \<longleftrightarrow> \<not> io_fault d \<and> constraints d \<and>
     (\<exists>m. replicated_meta d = Some m \<and> d' = d\<lparr> replicated_meta := Some (with_position i t g m) \<rparr>)"
proof
  assume "writeMeta i t g d = Inr d'"
  then show "\<not> io_fault d \<and> constraints d \<and>
     (\<exists>m. replicated_meta d = Some m \<and> d' = d\<lparr> replicated_meta := Some (with_position i t g m) \<rparr>)"
    by (auto simp: writeMeta_def meta_upsert_def bindE_eq_Inr exec_eq_Inr with_position_def split: option.splits)
next
  assume "\<not> io_fault d \<and> constraints d \<and>
     (\<exists>m. replicated_meta d = Some m \<and> d' = d\<lparr> replicated_meta := Some (with_position i t g m) \<rparr>)"
  then show "writeMeta i t g d = Inr d'" using writeMeta_ok by blast
qed

lemma map_of_position:
  "map_of (with_position i t g m) ''applied_index'' = Some (show_u64 i)"
  "map_of (with_position i t g m) ''applied_term'' = Some (show_u64 t)"
  "map_of (with_position i t g m) ''graph_revision'' = Some (show_u64 g)"
  by (simp_all add: with_position_def update_conv)

lemma metaGet_position:
  assumes "\<not> io_fault d" and "replicated_meta d = Some (with_position i t g m)"
  shows "metaGet ''applied_index'' d = Inr (i, True)"
    and "metaGet ''applied_term'' d = Inr (t, True)"
    and "metaGet ''graph_revision'' d = Inr (g, True)"
  using assms by (simp_all add: metaGet_def map_of_position)

end
