(* ===== verification/Depgraph.thy ===== *)
theory Depgraph
  imports Store
begin

text \<open>
  The recursive query that looks for a cycle before a dependency is added. It occurs three times in
  the code (\<open>internal/posts/posts.go\<close>, \<open>internal/replicated/fsm.go\<close> and \<open>cycleCTE\<close> of
  \<open>internal/replicated/ops.go\<close>), each time as
  \<^verbatim>\<open>WITH RECURSIVE reach(id) AS (SELECT depends_on_id FROM post_dependencies WHERE post_id=?
    UNION SELECT d.depends_on_id FROM post_dependencies d JOIN reach r ON d.post_id=r.id)
    SELECT COUNT(*) FROM reach WHERE id=?\<close>.
  The query is evaluated the way SQLite evaluates it: a queue of rows still to be joined, and a set
  of rows already produced against which UNION removes duplicates. The queue empties because every
  row it ever takes is a new one, and the rows produced are exactly the posts reachable over one or
  more dependencies.
\<close>

definition successors :: "dep_row list \<Rightarrow> id \<Rightarrow> id list" where
  "successors E x = map snd (filter (\<lambda>e. fst e = x) E)"

definition fresh_successors :: "dep_row list \<Rightarrow> id list \<Rightarrow> id \<Rightarrow> id list" where
  "fresh_successors E seen x = remdups (filter (\<lambda>y. y \<notin> set seen) (successors E x))"

function reach_loop :: "dep_row list \<Rightarrow> id list \<Rightarrow> id list \<Rightarrow> id list" where
  "reach_loop E [] seen = seen"
| "reach_loop E (x # queue) seen =
     (let new = fresh_successors E seen x
      in reach_loop E (queue @ new) (seen @ new))"
  by pat_completeness auto
termination
proof (relation "measures [\<lambda>(E, queue, seen). card (snd ` set E - set seen), \<lambda>(E, queue, seen). length queue]")
  fix E :: "dep_row list" and x :: id and queue seen new :: "id list"
  assume new: "new = fresh_successors E seen x"
  show "((E, queue @ new, seen @ new), E, x # queue, seen)
    \<in> measures [\<lambda>(E, queue, seen). card (snd ` set E - set seen), \<lambda>(E, queue, seen). length queue]"
  proof (cases new)
    case Nil
    then show ?thesis by simp
  next
    case (Cons y ys)
    then have "y \<in> set new" by simp
    then have "y \<in> set (fresh_successors E seen x)" by (simp only: new)
    then have "y \<in> snd ` set E - set seen"
      by (auto simp: fresh_successors_def successors_def)
    moreover have "y \<in> set new" using Cons by simp
    ultimately have "card (snd ` set E - set (seen @ new)) < card (snd ` set E - set seen)"
      by (intro psubset_card_mono) auto
    then show ?thesis by simp
  qed
qed simp

definition cte_reach :: "dep_row list \<Rightarrow> id \<Rightarrow> id list" where
  "cte_reach E source = (let init = remdups (successors E source) in reach_loop E init init)"

text \<open>\<open>SELECT COUNT(*) FROM reach WHERE id=?\<close>\<close>

definition cycle_count :: "dep_row list \<Rightarrow> id \<Rightarrow> id \<Rightarrow> nat" where
  "cycle_count E source target = count_where (\<lambda>x. x = target) (cte_reach E source)"

definition acyclic_deps :: "dep_row list \<Rightarrow> bool" where
  "acyclic_deps E = acyclic (set E)"

section \<open>The query computes reachability\<close>

lemma set_successors: "set (successors E x) = {y. (x, y) \<in> set E}"
  by (force simp: successors_def)

lemma set_fresh_successors: "set (fresh_successors E seen x) = {y. (x, y) \<in> set E} - set seen"
  by (auto simp: fresh_successors_def set_successors)

declare reach_loop.simps [simp del]

lemma reach_loop_sound:
  "set queue \<subseteq> set seen \<Longrightarrow> (\<And>y. y \<in> set seen \<Longrightarrow> (s, y) \<in> (set E)\<^sup>+) \<Longrightarrow>
   y \<in> set (reach_loop E queue seen) \<Longrightarrow> (s, y) \<in> (set E)\<^sup>+"
proof (induction E queue seen rule: reach_loop.induct)
  case (1 E seen)
  then show ?case by (simp add: reach_loop.simps)
next
  case (2 E x queue seen)
  let ?new = "fresh_successors E seen x"
  have "(s, x) \<in> (set E)\<^sup>+" using "2.prems"(1,2) by simp
  then have new: "\<And>z. z \<in> set ?new \<Longrightarrow> (s, z) \<in> (set E)\<^sup>+"
    by (auto simp: set_fresh_successors intro: trancl_into_trancl)
  show ?case
  proof (rule "2.IH" [OF refl])
    show "set (queue @ ?new) \<subseteq> set (seen @ ?new)" using "2.prems"(1) by auto
    show "(s, z) \<in> (set E)\<^sup>+" if "z \<in> set (seen @ ?new)" for z
      using that "2.prems"(2) new by auto
    show "y \<in> set (reach_loop E (queue @ ?new) (seen @ ?new))"
      using "2.prems"(3) by (simp add: reach_loop.simps Let_def)
  qed
qed

lemma reach_loop_closed:
  "(\<And>a b. a \<in> set seen \<Longrightarrow> a \<notin> set queue \<Longrightarrow> (a, b) \<in> set E \<Longrightarrow> b \<in> set seen) \<Longrightarrow>
   set seen \<subseteq> set (reach_loop E queue seen) \<and>
   (\<forall>a b. a \<in> set (reach_loop E queue seen) \<longrightarrow> (a, b) \<in> set E \<longrightarrow> b \<in> set (reach_loop E queue seen))"
proof (induction E queue seen rule: reach_loop.induct)
  case (1 E seen)
  then show ?case by (simp add: reach_loop.simps)
next
  case (2 E x queue seen)
  let ?new = "fresh_successors E seen x"
  have "b \<in> set (seen @ ?new)"
    if "a \<in> set (seen @ ?new)" and "a \<notin> set (queue @ ?new)" and "(a, b) \<in> set E" for a b
    using that "2.prems" [of a b] by (cases "a = x") (auto simp: set_fresh_successors)
  then have "set (seen @ ?new) \<subseteq> set (reach_loop E (queue @ ?new) (seen @ ?new)) \<and>
     (\<forall>a b. a \<in> set (reach_loop E (queue @ ?new) (seen @ ?new)) \<longrightarrow> (a, b) \<in> set E \<longrightarrow>
       b \<in> set (reach_loop E (queue @ ?new) (seen @ ?new)))"
    by (rule "2.IH" [OF refl])
  then show ?case by (simp add: reach_loop.simps Let_def)
qed

lemma reach_loop_distinct:
  "distinct seen \<Longrightarrow> distinct (reach_loop E queue seen)"
proof (induction E queue seen rule: reach_loop.induct)
  case (1 E seen)
  then show ?case by (simp add: reach_loop.simps)
next
  case (2 E x queue seen)
  then have "distinct (seen @ fresh_successors E seen x)"
    by (auto simp: fresh_successors_def)
  then show ?case using "2.IH" [OF refl] by (simp add: reach_loop.simps Let_def)
qed

lemma set_cte_reach: "set (cte_reach E s) = {y. (s, y) \<in> (set E)\<^sup>+}"
proof (intro equalityI subsetI CollectI)
  fix y assume "y \<in> set (cte_reach E s)"
  then show "(s, y) \<in> (set E)\<^sup>+"
    using reach_loop_sound [of "remdups (successors E s)" "remdups (successors E s)" s E y]
    by (auto simp: cte_reach_def Let_def set_successors)
next
  fix y assume "y \<in> {y. (s, y) \<in> (set E)\<^sup>+}"
  then have "(s, y) \<in> (set E)\<^sup>+" by simp
  then show "y \<in> set (cte_reach E s)"
  proof (induction rule: trancl_induct)
    case (base y)
    then show ?case
      using reach_loop_closed [of "remdups (successors E s)" "remdups (successors E s)" E]
      by (auto simp: cte_reach_def Let_def set_successors)
  next
    case (step y z)
    then show ?case
      using reach_loop_closed [of "remdups (successors E s)" "remdups (successors E s)" E]
      by (auto simp: cte_reach_def Let_def)
  qed
qed

lemma distinct_cte_reach: "distinct (cte_reach E s)"
  by (simp add: cte_reach_def Let_def reach_loop_distinct)

lemma cycle_count_pos: "0 < cycle_count E s t \<longleftrightarrow> (s, t) \<in> (set E)\<^sup>+"
  by (simp add: cycle_count_def count_where_pos set_cte_reach)

section \<open>The check keeps the graph acyclic\<close>

lemma acyclic_deps_add:
  assumes "acyclic_deps E" and "a \<noteq> b" and "cycle_count E b a = 0"
  shows "acyclic_deps (E @ [(a, b)])"
proof -
  have "(b, a) \<notin> (set E)\<^sup>+"
    using assms(3) cycle_count_pos [of E b a] by simp
  then have "(b, a) \<notin> (set E)\<^sup>*"
    using assms(2) by (auto simp: rtrancl_eq_or_trancl)
  then show ?thesis
    using assms(1) by (simp add: acyclic_deps_def acyclic_insert)
qed

lemma acyclic_deps_add_iff:
  assumes "acyclic_deps E"
  shows "acyclic_deps (E @ [(a, b)]) \<longleftrightarrow> a \<noteq> b \<and> cycle_count E b a = 0"
proof
  assume "acyclic_deps (E @ [(a, b)])"
  then have "(b, a) \<notin> (set E)\<^sup>*"
    by (simp add: acyclic_deps_def acyclic_insert)
  then show "a \<noteq> b \<and> cycle_count E b a = 0"
    using cycle_count_pos [of E b a] by (auto simp: rtrancl_eq_or_trancl)
next
  assume "a \<noteq> b \<and> cycle_count E b a = 0"
  then show "acyclic_deps (E @ [(a, b)])"
    using acyclic_deps_add [OF assms] by blast
qed

lemma acyclic_deps_subset: "acyclic_deps E \<Longrightarrow> set F \<subseteq> set E \<Longrightarrow> acyclic_deps F"
  by (auto simp: acyclic_deps_def intro: acyclic_subset)

lemma acyclic_deps_del [intro]: "acyclic_deps E \<Longrightarrow> acyclic_deps (del_where P E)"
  by (rule acyclic_deps_subset) auto

lemma acyclic_deps_Nil [simp]: "acyclic_deps []"
  by (simp add: acyclic_deps_def acyclic_def)

end
