(* ===== verification/Replicated_FSM.thy ===== *)
theory Replicated_FSM
  imports Replicated_Meta Depgraph "HOL-Library.Product_Lexorder"
begin

text \<open>
  The replicated state machine (\<open>internal/replicated/fsm.go\<close>): committed operations applied to the tables
  \<open>posts\<close>, \<open>post_dependencies\<close> and \<open>rules\<close>, with the fence after a failed apply, the replay of entries
  already materialised, the snapshot and its restoration.

  The record \<open>FSM\<close> has the fields of the Go struct; \<open>int64\<close> and \<open>uint64\<close> positions are 64-bit words, so the
  conversions between them are the identity. \<open>replication.Operation\<close> and
  \<open>replication.ApplyResult\<close> belong to gantry-core and have the fields this code reads or sets. Code of
  gantry-core is a parameter: \<open>digest\<close> for \<open>Operation.Digest\<close>, \<open>decode\<close> for \<open>DecodeOperation\<close>, \<open>seal\<close> for the
  hexadecimal SHA-256 of an envelope's JSON, and the version number \<open>replication.Version\<close>.
  A payload is what its JSON text decodes to: the three payload structs have no field name in common,
  so decoding the text of one as another gives the zero struct and no error. The mutex serialises the
  operations, so each of them is one function of the state.
\<close>

section \<open>Operations and payloads\<close>

record PostPayload =
  pp_name :: string
  pp_kind :: string
  pp_address :: string
  pp_owner :: string
  pp_labels :: labels_text
  pp_maintenance :: bool
  pp_archived :: bool
  pp_created :: string
  pp_updated :: string

record RulePayload =
  rp_post :: id
  rp_signal :: string
  rp_operator :: string
  rp_threshold :: f64
  rp_duration :: int
  rp_recovery :: "f64 option"
  rp_missing :: string
  rp_severity :: string
  rp_enabled :: bool

datatype payload = NoBytes | BadJSON | NullJSON | PostJSON PostPayload | DepJSON id | RuleJSON RulePayload

definition zero_post :: PostPayload where
  "zero_post = \<lparr> pp_name = [], pp_kind = [], pp_address = [], pp_owner = [], pp_labels = LBad [],
     pp_maintenance = False, pp_archived = False, pp_created = [], pp_updated = [] \<rparr>"

definition zero_rule :: RulePayload where
  "zero_rule = \<lparr> rp_post = [], rp_signal = [], rp_operator = [], rp_threshold = Num 0, rp_duration = 0,
     rp_recovery = None, rp_missing = [], rp_severity = [], rp_enabled = False \<rparr>"

text \<open>JSON has no text for an infinity or NaN: such a rule is neither written nor read.\<close>

definition finite_rule :: "RulePayload \<Rightarrow> bool" where
  "finite_rule r \<longleftrightarrow> is_finite (rp_threshold r) \<and> (case rp_recovery r of None \<Rightarrow> True | Some v \<Rightarrow> is_finite v)"

fun unmarshalPost :: "payload \<Rightarrow> err + PostPayload" where
  "unmarshalPost (PostJSON p) = Inr p"
| "unmarshalPost NoBytes = Inl (Err ''unexpected end of JSON input'')"
| "unmarshalPost BadJSON = Inl (Err ''invalid JSON'')"
| "unmarshalPost _ = Inr zero_post"

fun unmarshalDep :: "payload \<Rightarrow> err + id" where
  "unmarshalDep (DepJSON d) = Inr d"
| "unmarshalDep NoBytes = Inl (Err ''unexpected end of JSON input'')"
| "unmarshalDep BadJSON = Inl (Err ''invalid JSON'')"
| "unmarshalDep _ = Inr []"

fun unmarshalRule :: "payload \<Rightarrow> err + RulePayload" where
  "unmarshalRule (RuleJSON r) = (if finite_rule r then Inr r else Inl (Err ''invalid JSON''))"
| "unmarshalRule NoBytes = Inl (Err ''unexpected end of JSON input'')"
| "unmarshalRule BadJSON = Inl (Err ''invalid JSON'')"
| "unmarshalRule _ = Inr zero_rule"

definition KindPostCreate :: string where "KindPostCreate = ''watchpost.post.create''"
definition KindPostUpdate :: string where "KindPostUpdate = ''watchpost.post.update''"
definition KindPostDelete :: string where "KindPostDelete = ''watchpost.post.delete''"
definition KindDependencyAdd :: string where "KindDependencyAdd = ''watchpost.post_dependency.add''"
definition KindRuleCreate :: string where "KindRuleCreate = ''watchpost.rule.create''"
definition KindRuleSetEnable :: string where "KindRuleSetEnable = ''watchpost.rule.set_enabled''"

definition kinds :: "string list" where
  "kinds = [KindPostCreate, KindPostUpdate, KindPostDelete, KindDependencyAdd, KindRuleCreate, KindRuleSetEnable]"

definition validateKind :: "string \<Rightarrow> err + unit" where
  "validateKind kind = ensure (kind \<in> set kinds) (Err ''unsupported replicated operation kind'')"

record Operation =
  op_ID :: string
  op_Product :: string
  op_Version :: int
  op_Kind :: string
  op_ObjectKind :: string
  op_ObjectID :: id
  op_Revision :: int
  op_DomainRevision :: u64
  op_Payload :: payload
  op_OriginNode :: string

record ApplyResult =
  res_Index :: u64
  res_Term :: u64
  res_OpID :: string
  res_ObjectID :: id
  res_Kind :: string
  res_Version :: int
  res_Revision :: int

definition result_of :: "Operation \<Rightarrow> u64 \<Rightarrow> u64 \<Rightarrow> int \<Rightarrow> ApplyResult" where
  "result_of opn index trm revision =
     \<lparr> res_Index = index, res_Term = trm, res_OpID = op_ID opn, res_ObjectID = op_ObjectID opn,
       res_Kind = op_Kind opn, res_Version = op_Version opn, res_Revision = revision \<rparr>"

section \<open>The state\<close>

record appliedOp =
  ao_digest :: string
  ao_result :: "ApplyResult option"
  ao_payload :: payload
  ao_revision :: int

record injectApplyFailure =
  inj_MatchOpID :: string
  inj_Err :: err

record FSM =
  fs_db :: db
  fs_supported :: int
  fs_product :: string
  fs_graphRev :: u64
  fs_applied :: "string \<rightharpoonup> appliedOp"
  fs_appliedIndex :: u64
  fs_appliedTerm :: u64
  fs_persistedIndex :: u64
  fs_applyFailure :: "err option"
  fs_injectFail :: "injectApplyFailure option"

text \<open>\<open>CREATE TABLE IF NOT EXISTS _replicated_meta\<close>\<close>

definition create_meta :: "db \<Rightarrow> err + db" where
  "create_meta d = (if io_fault d then Inl IOFault
     else case replicated_meta d of None \<Rightarrow> Inr (d\<lparr> replicated_meta := Some [] \<rparr>) | Some m \<Rightarrow> Inr d)"

definition NewFSM :: "int \<Rightarrow> db \<Rightarrow> err + FSM" where
  "NewFSM version d =
     bindE (create_meta d) (\<lambda>d.
     bindE (metaGet ''applied_index'' d) (\<lambda>(idxVal, idxPresent).
     bindE (if idxPresent then Inr ()
            else bindE (materializationCount d) (\<lambda>n.
              ensure (n = 0) (Err ''replicated materialization exists without replication metadata; recovery required''))) (\<lambda>_.
     bindE (metaGet ''applied_term'' d) (\<lambda>(trm, _).
     bindE (metaGet ''graph_revision'' d) (\<lambda>(gr, _).
     Inr \<lparr> fs_db = d, fs_supported = version, fs_product = [], fs_graphRev = gr, fs_applied = Map.empty,
           fs_appliedIndex = (if idxPresent then idxVal else 0), fs_appliedTerm = trm,
           fs_persistedIndex = (if idxPresent then idxVal else 0),
           fs_applyFailure = None, fs_injectFail = None \<rparr>)))))"

definition GraphRevision :: "FSM \<Rightarrow> u64" where
  "GraphRevision f = fs_graphRev f"

definition AppliedOp :: "string \<Rightarrow> FSM \<Rightarrow> appliedOp option" where
  "AppliedOp i f = fs_applied f i"

definition OpKnown :: "string \<Rightarrow> FSM \<Rightarrow> string \<times> bool" where
  "OpKnown i f = (case fs_applied f i of None \<Rightarrow> ([], False) | Some p \<Rightarrow> (ao_digest p, True))"

definition AppliedIndex :: "FSM \<Rightarrow> u64 \<times> u64" where
  "AppliedIndex f = (fs_appliedIndex f, fs_appliedTerm f)"

definition setApplyFailure :: "err \<Rightarrow> FSM \<Rightarrow> FSM" where
  "setApplyFailure e f = (if fs_applyFailure f = None then f\<lparr> fs_applyFailure := Some e \<rparr> else f)"

definition ApplyFailure :: "FSM \<Rightarrow> err option" where
  "ApplyFailure f = fs_applyFailure f"

definition ClearApplyFailure :: "FSM \<Rightarrow> FSM" where
  "ClearApplyFailure f = f\<lparr> fs_applyFailure := None \<rparr>"

definition InjectApplyFailure :: "string \<Rightarrow> err \<Rightarrow> FSM \<Rightarrow> FSM" where
  "InjectApplyFailure opID e f = f\<lparr> fs_injectFail := Some \<lparr> inj_MatchOpID = opID, inj_Err = e \<rparr> \<rparr>"

definition InjectNextApplyFailure :: "err \<Rightarrow> FSM \<Rightarrow> FSM" where
  "InjectNextApplyFailure e f = f\<lparr> fs_injectFail := Some \<lparr> inj_MatchOpID = [], inj_Err = e \<rparr> \<rparr>"

section \<open>Applying one operation\<close>

text \<open>
  Each \<open>apply\<close> function opens a transaction on the FSM's database; the graph revision of the FSM changes
  only after the commit. \<open>mapE\<close> replaces the error of a step, as \<open>invariantf\<close> around a driver error does.
\<close>

definition mapE :: "err \<Rightarrow> err + 'a \<Rightarrow> err + 'a" where
  "mapE e m = (case m of Inl _ \<Rightarrow> Inl e | Inr x \<Rightarrow> Inr x)"

definition in_tx :: "FSM \<Rightarrow> (db \<Rightarrow> err + (db \<times> 'a)) \<Rightarrow> FSM \<times> (err + 'a)" where
  "in_tx f body = (case with_tx body (fs_db f) of (d, r) \<Rightarrow> (f\<lparr> fs_db := d \<rparr>, r))"

definition new_post :: "id \<Rightarrow> PostPayload \<Rightarrow> post_row" where
  "new_post i p = \<lparr> po_id = i, po_name = pp_name p, po_kind = pp_kind p, po_address = pp_address p,
     po_owner = pp_owner p, po_labels = pp_labels p, po_maintenance = pp_maintenance p,
     po_archived = pp_archived p, po_version = 1, po_created = pp_created p, po_updated = pp_updated p \<rparr>"

definition edit_post :: "PostPayload \<Rightarrow> post_row \<Rightarrow> post_row" where
  "edit_post p r = r\<lparr> po_name := pp_name p, po_address := pp_address p, po_owner := pp_owner p,
     po_labels := pp_labels p, po_maintenance := pp_maintenance p, po_archived := pp_archived p,
     po_version := po_version r + 1, po_updated := pp_updated p \<rparr>"

definition new_rule :: "id \<Rightarrow> RulePayload \<Rightarrow> rule_row" where
  "new_rule i p = \<lparr> ru_id = i, ru_post = rp_post p, ru_signal = rp_signal p, ru_operator = rp_operator p,
     ru_threshold = rp_threshold p, ru_duration = rp_duration p, ru_recovery = rp_recovery p,
     ru_missing = rp_missing p, ru_severity = rp_severity p, ru_enabled = rp_enabled p, ru_version = 1 \<rparr>"

definition enable_rule :: "bool \<Rightarrow> rule_row \<Rightarrow> rule_row" where
  "enable_rule b r = r\<lparr> ru_enabled := b, ru_version := ru_version r + 1 \<rparr>"

definition applyPostCreate :: "Operation \<Rightarrow> u64 \<Rightarrow> u64 \<Rightarrow> FSM \<Rightarrow> FSM \<times> (err + ApplyResult)" where
  "applyPostCreate opn index trm f =
     (case unmarshalPost (op_Payload opn) of
        Inl e \<Rightarrow> (f, Inl e)
      | Inr p \<Rightarrow> in_tx f (\<lambda>d.
          bindE (mapE (Invariant ''post.create duplicate or invalid'')
            (exec (\<lambda>d. d\<lparr> posts := posts d @ [new_post (op_ObjectID opn) p] \<rparr>) d)) (\<lambda>d.
          bindE (writeMeta index trm (fs_graphRev f) d) (\<lambda>d.
          Inr (d, result_of opn index trm 1)))))"

definition applyPostUpdate :: "Operation \<Rightarrow> u64 \<Rightarrow> u64 \<Rightarrow> FSM \<Rightarrow> FSM \<times> (err + ApplyResult)" where
  "applyPostUpdate opn index trm f =
     (case unmarshalPost (op_Payload opn) of
        Inl e \<Rightarrow> (f, Inl e)
      | Inr p \<Rightarrow> in_tx f (\<lambda>d.
          let hit = (\<lambda>r. po_id r = op_ObjectID opn \<and> po_version r = op_Revision opn);
              n = count_where hit (posts d) in
          bindE (exec (\<lambda>d. d\<lparr> posts := upd_where hit (edit_post p) (posts d) \<rparr>) d) (\<lambda>d.
          bindE (ensure (n = 1) (Invariant ''post.update stale revision'')) (\<lambda>_.
          bindE (writeMeta index trm (fs_graphRev f) d) (\<lambda>d.
          Inr (d, result_of opn index trm (op_Revision opn + 1)))))))"

text \<open>\<open>f.graphRev = newRev\<close> after the commit.\<close>

definition bump_graph :: "FSM \<times> (err + ApplyResult) \<Rightarrow> FSM \<times> (err + ApplyResult)" where
  "bump_graph fr = (case fr of (f, Inl e) \<Rightarrow> (f, Inl e) | (f, Inr r) \<Rightarrow> (f\<lparr> fs_graphRev := fs_graphRev f + 1 \<rparr>, Inr r))"

definition applyPostDelete :: "Operation \<Rightarrow> u64 \<Rightarrow> u64 \<Rightarrow> FSM \<Rightarrow> FSM \<times> (err + ApplyResult)" where
  "applyPostDelete opn index trm f =
     (if op_DomainRevision opn \<noteq> fs_graphRev f
      then (f, Inl (Invariant ''post.delete was validated against another dependency graph revision''))
      else bump_graph (in_tx f (\<lambda>d.
        let i = op_ObjectID opn in
        bindE (cleanupNodeLocal i d) (\<lambda>d.
        bindE (exec (\<lambda>d. d\<lparr> post_dependencies := del_where (\<lambda>e. fst e = i \<or> snd e = i) (post_dependencies d) \<rparr>) d) (\<lambda>d.
        bindE (exec (\<lambda>d. d\<lparr> rules := del_where (\<lambda>r. ru_post r = i) (rules d) \<rparr>) d) (\<lambda>d.
        let n = count_where (\<lambda>p. po_id p = i) (posts d) in
        bindE (exec (del_posts (\<lambda>p. po_id p = i)) d) (\<lambda>d.
        bindE (ensure (n = 1) (Invariant ''post.delete target missing'')) (\<lambda>_.
        bindE (writeMeta index trm (fs_graphRev f + 1) d) (\<lambda>d.
        Inr (d, result_of opn index trm 0))))))))))"

definition applyDependencyAdd :: "Operation \<Rightarrow> u64 \<Rightarrow> u64 \<Rightarrow> FSM \<Rightarrow> FSM \<times> (err + ApplyResult)" where
  "applyDependencyAdd opn index trm f =
     (if op_DomainRevision opn \<noteq> fs_graphRev f
      then (f, Inl (Invariant ''post_dependency.add was validated against another graph revision''))
      else if op_ObjectID opn = [] then (f, Inl (Invariant ''dependency source is empty''))
      else case unmarshalDep (op_Payload opn) of
        Inl e \<Rightarrow> (f, Inl e)
      | Inr depends \<Rightarrow>
          if op_ObjectID opn = depends then (f, Inl (Invariant ''self dependency''))
          else bump_graph (in_tx f (\<lambda>d.
            let src = op_ObjectID opn in
            bindE (query (\<lambda>d. count_where (\<lambda>p. po_id p \<in> {src, depends}) (posts d)) d) (\<lambda>existing.
            bindE (ensure (existing = 2) (Invariant ''dependency endpoints missing'')) (\<lambda>_.
            bindE (query (\<lambda>d. count_where (\<lambda>e. e = (src, depends)) (post_dependencies d)) d) (\<lambda>dup.
            bindE (ensure (dup = 0) (Invariant ''duplicate dependency'')) (\<lambda>_.
            bindE (query (\<lambda>d. cycle_count (post_dependencies d) depends src) d) (\<lambda>cycle.
            bindE (ensure (cycle = 0) (Invariant ''dependency cycle would be created'')) (\<lambda>_.
            bindE (mapE (Invariant ''dependency insert failed'')
              (exec (\<lambda>d. d\<lparr> post_dependencies := post_dependencies d @ [(src, depends)] \<rparr>) d)) (\<lambda>d.
            bindE (writeMeta index trm (fs_graphRev f + 1) d) (\<lambda>d.
            Inr (d, result_of opn index trm 0))))))))))))"

definition applyRuleCreate :: "Operation \<Rightarrow> u64 \<Rightarrow> u64 \<Rightarrow> FSM \<Rightarrow> FSM \<times> (err + ApplyResult)" where
  "applyRuleCreate opn index trm f =
     (case unmarshalRule (op_Payload opn) of
        Inl e \<Rightarrow> (f, Inl e)
      | Inr p \<Rightarrow> in_tx f (\<lambda>d.
          bindE (mapE (Invariant ''rule.create duplicate or invalid'')
            (exec (\<lambda>d. d\<lparr> rules := rules d @ [new_rule (op_ObjectID opn) p] \<rparr>) d)) (\<lambda>d.
          bindE (writeMeta index trm (fs_graphRev f) d) (\<lambda>d.
          Inr (d, result_of opn index trm 1)))))"

definition applyRuleSetEnabled :: "Operation \<Rightarrow> u64 \<Rightarrow> u64 \<Rightarrow> FSM \<Rightarrow> FSM \<times> (err + ApplyResult)" where
  "applyRuleSetEnabled opn index trm f =
     (case unmarshalRule (op_Payload opn) of
        Inl e \<Rightarrow> (f, Inl e)
      | Inr p \<Rightarrow> in_tx f (\<lambda>d.
          let hit = (\<lambda>r. ru_id r = op_ObjectID opn \<and> ru_version r = op_Revision opn);
              n = count_where hit (rules d) in
          bindE (exec (\<lambda>d. d\<lparr> rules := upd_where hit (enable_rule (rp_enabled p)) (rules d) \<rparr>) d) (\<lambda>d.
          bindE (ensure (n = 1) (Invariant ''rule.set_enabled stale revision'')) (\<lambda>_.
          bindE (writeMeta index trm (fs_graphRev f) d) (\<lambda>d.
          Inr (d, result_of opn index trm (op_Revision opn + 1)))))))"

text \<open>The switch over the kind; \<open>validateKind\<close> has already refused every other kind.\<close>

definition apply_kind :: "Operation \<Rightarrow> u64 \<Rightarrow> u64 \<Rightarrow> FSM \<Rightarrow> FSM \<times> (err + ApplyResult)" where
  "apply_kind opn index trm f =
     (if op_Kind opn = KindPostCreate then applyPostCreate opn index trm f
      else if op_Kind opn = KindPostUpdate then applyPostUpdate opn index trm f
      else if op_Kind opn = KindPostDelete then applyPostDelete opn index trm f
      else if op_Kind opn = KindDependencyAdd then applyDependencyAdd opn index trm f
      else if op_Kind opn = KindRuleCreate then applyRuleCreate opn index trm f
      else if op_Kind opn = KindRuleSetEnable then applyRuleSetEnabled opn index trm f
      else (f, Inl (Err ''unsupported operation kind'')))"

text \<open>The answer of \<open>Apply\<close>: an error, or a pointer to a result, which may be nil.\<close>

type_synonym reply = "err + ApplyResult option"

definition poison :: "err \<Rightarrow> FSM \<Rightarrow> FSM \<times> reply" where
  "poison e f = (setApplyFailure e f, Inl e)"

definition record_applied :: "string \<Rightarrow> Operation \<Rightarrow> ApplyResult \<Rightarrow> FSM \<Rightarrow> FSM" where
  "record_applied dg opn res f = f\<lparr> fs_applied := (fs_applied f)(op_ID opn \<mapsto>
     \<lparr> ao_digest = dg, ao_result = Some res, ao_payload = op_Payload opn, ao_revision = op_Revision opn \<rparr>),
     fs_appliedIndex := res_Index res, fs_appliedTerm := res_Term res \<rparr>"

definition injected :: "Operation \<Rightarrow> FSM \<Rightarrow> err option" where
  "injected opn f = (case fs_injectFail f of None \<Rightarrow> None
     | Some j \<Rightarrow> if inj_MatchOpID j = [] \<or> inj_MatchOpID j = op_ID opn then Some (inj_Err j) else None)"

definition applyLocked :: "(Operation \<Rightarrow> err + string) \<Rightarrow> Operation \<Rightarrow> u64 \<Rightarrow> u64 \<Rightarrow> FSM \<Rightarrow> FSM \<times> reply" where
  "applyLocked digest opn index trm f =
     (case fs_applyFailure f of
        Some e \<Rightarrow> (f, Inl e)
      | None \<Rightarrow>
        if op_Version opn > fs_supported f
        then poison (Err ''node does not support replication operation version'') f
        else case validateKind (op_Kind opn) of
          Inl e \<Rightarrow> poison e f
        | Inr _ \<Rightarrow>
          (case digest opn of
             Inl e \<Rightarrow> poison e f
           | Inr dg \<Rightarrow>
             (case fs_applied f (op_ID opn) of
                Some prior \<Rightarrow>
                  if ao_digest prior \<noteq> dg
                  then (f, Inl (Err ''operation id retried with a different payload; refusing''))
                  else (f, Inr (ao_result prior))
              | None \<Rightarrow>
                if index \<le> fs_persistedIndex f
                then (let res = result_of opn index trm (op_Revision opn)
                      in (record_applied dg opn res f, Inr (Some res)))
                else (case injected opn f of
                    Some e \<Rightarrow> poison e (f\<lparr> fs_injectFail := None \<rparr>)
                  | None \<Rightarrow>
                    (case apply_kind opn index trm f of
                       (f', Inl e) \<Rightarrow> poison e f'
                     | (f', Inr res) \<Rightarrow>
                         (let f'' = record_applied dg opn res f'
                          in (if fs_product f'' = [] then f''\<lparr> fs_product := op_Product opn \<rparr> else f'',
                              Inr (Some res))))))))"

record log_entry =
  le_Index :: u64
  le_Term :: u64
  le_Data :: string

definition Apply :: "(string \<Rightarrow> err + Operation) \<Rightarrow> (Operation \<Rightarrow> err + string) \<Rightarrow> log_entry \<Rightarrow> FSM \<Rightarrow> FSM \<times> reply" where
  "Apply decode digest l f =
     (case decode (le_Data l) of
        Inl e \<Rightarrow> (setApplyFailure (Wrapped ''corrupt committed entry'' e) f, Inl e)
      | Inr opn \<Rightarrow> applyLocked digest opn (le_Index l) (le_Term l) f)"

section \<open>Snapshots\<close>

record snapshotEnvelope =
  env_FormatVersion :: int
  env_ReplicationVersion :: int
  env_Product :: string
  env_GraphRevision :: u64
  env_AppliedIndex :: u64
  env_AppliedTerm :: u64
  env_Posts :: "post_row list"
  env_Dependencies :: "dep_row list"
  env_Rules :: "rule_row list"
  env_AppliedOps :: "string \<rightharpoonup> appliedOp"
  env_Integrity :: string

definition snapshotFormatVersion :: int where
  "snapshotFormatVersion = 1"

text \<open>\<open>ORDER BY id\<close> and \<open>ORDER BY post_id,depends_on_id\<close>\<close>

definition posts_by_id :: "db \<Rightarrow> post_row list" where
  "posts_by_id d = sort_key po_id (posts d)"

definition deps_by_id :: "db \<Rightarrow> dep_row list" where
  "deps_by_id d = sort (post_dependencies d)"

definition rules_by_id :: "db \<Rightarrow> rule_row list" where
  "rules_by_id d = sort_key ru_id (rules d)"

definition Snapshot :: "FSM \<Rightarrow> err + snapshotEnvelope" where
  "Snapshot f =
     bindE (query posts_by_id (fs_db f)) (\<lambda>ps.
     bindE (query deps_by_id (fs_db f)) (\<lambda>ds.
     bindE (query rules_by_id (fs_db f)) (\<lambda>rs.
     Inr \<lparr> env_FormatVersion = snapshotFormatVersion, env_ReplicationVersion = fs_supported f,
           env_Product = fs_product f, env_GraphRevision = fs_graphRev f,
           env_AppliedIndex = fs_appliedIndex f, env_AppliedTerm = fs_appliedTerm f,
           env_Posts = ps, env_Dependencies = ds, env_Rules = rs,
           env_AppliedOps = fs_applied f, env_Integrity = [] \<rparr>)))"

text \<open>\<open>json.Marshal\<close> of an envelope fails on a threshold that is not a number.\<close>

definition finite_row :: "rule_row \<Rightarrow> bool" where
  "finite_row r \<longleftrightarrow> is_finite (ru_threshold r) \<and> (case ru_recovery r of None \<Rightarrow> True | Some v \<Rightarrow> is_finite v)"

definition marshal_sum :: "(snapshotEnvelope \<Rightarrow> string) \<Rightarrow> snapshotEnvelope \<Rightarrow> err + string" where
  "marshal_sum seal env = (if list_all finite_row (env_Rules env) then Inr (seal env) else Inl (Err ''json: unsupported value''))"

text \<open>What a sink receives and a reader yields: bytes that are the JSON of an envelope, or other bytes.\<close>

datatype snapshot_bytes = Envelope snapshotEnvelope | OtherBytes

definition Persist :: "(snapshotEnvelope \<Rightarrow> string) \<Rightarrow> snapshotEnvelope \<Rightarrow> err + snapshot_bytes" where
  "Persist seal env =
     bindE (marshal_sum seal (env\<lparr> env_Integrity := [] \<rparr>)) (\<lambda>hash.
     Inr (Envelope (env\<lparr> env_Integrity := hash \<rparr>)))"

definition insert_posts :: "post_row list \<Rightarrow> db \<Rightarrow> err + db" where
  "insert_posts ps d = foldE (\<lambda>p. exec (\<lambda>d. d\<lparr> posts := posts d @ [p] \<rparr>)) ps d"

definition insert_deps :: "dep_row list \<Rightarrow> db \<Rightarrow> err + db" where
  "insert_deps es d = foldE (\<lambda>e. exec (\<lambda>d. d\<lparr> post_dependencies := post_dependencies d @ [e] \<rparr>)) es d"

definition insert_rules :: "rule_row list \<Rightarrow> db \<Rightarrow> err + db" where
  "insert_rules rs d = foldE (\<lambda>r. exec (\<lambda>d. d\<lparr> rules := rules d @ [r] \<rparr>)) rs d"

definition install :: "snapshotEnvelope \<Rightarrow> db \<Rightarrow> err + (db \<times> unit)" where
  "install env d =
     bindE (clearReplicated d) (\<lambda>d.
     bindE (insert_posts (env_Posts env) d) (\<lambda>d.
     bindE (insert_deps (env_Dependencies env) d) (\<lambda>d.
     bindE (insert_rules (env_Rules env) d) (\<lambda>d.
     bindE (writeMeta (env_AppliedIndex env) (env_AppliedTerm env) (env_GraphRevision env) d) (\<lambda>d.
     Inr (d, ()))))))"

definition Restore :: "int \<Rightarrow> (snapshotEnvelope \<Rightarrow> string) \<Rightarrow> snapshot_bytes \<Rightarrow> FSM \<Rightarrow> FSM \<times> (err + unit)" where
  "Restore version seal b f =
     (case b of
        OtherBytes \<Rightarrow> (f, Inl (Err ''invalid JSON''))
      | Envelope env \<Rightarrow>
        if env_FormatVersion env \<noteq> snapshotFormatVersion then (f, Inl (Err ''unsupported snapshot format version''))
        else if env_ReplicationVersion env > version then (f, Inl (Err ''unsupported snapshot replication version''))
        else case marshal_sum seal (env\<lparr> env_Integrity := [] \<rparr>) of
          Inl e \<Rightarrow> (f, Inl e)
        | Inr hash \<Rightarrow>
          if env_Integrity env \<noteq> hash then (f, Inl (Err ''snapshot integrity mismatch''))
          else if env_AppliedIndex env \<le> fs_persistedIndex f
          then (f\<lparr> fs_applied := env_AppliedOps env ++ fs_applied f \<rparr>, Inr ())
          else (case in_tx f (install env) of
              (f', Inl e) \<Rightarrow> (f', Inl e)
            | (f', Inr _) \<Rightarrow>
                (f'\<lparr> fs_product := env_Product env, fs_graphRev := env_GraphRevision env,
                     fs_appliedIndex := env_AppliedIndex env, fs_persistedIndex := env_AppliedIndex env,
                     fs_appliedTerm := env_AppliedTerm env, fs_applied := env_AppliedOps env \<rparr>, Inr ())))"

end
