(* ===== verification/Replicated_Spec.thy ===== *)
theory Replicated_Spec
  imports Replicated_FSM
begin

text \<open>
  The contract of the replicated state machine and the proof that \<open>fsm.go\<close> implements it. The contract
  speaks of the replicated definitions only: posts, dependency edges, rules and the graph revision. A
  node's alerts, observations, keys, conversations and the other node-local tables do not occur in it, so two
  replicas that start from the same definitions and apply the same operations have the same
  definitions, whatever their node-local rows are.
\<close>

section \<open>The contract\<close>

record rview =
  rv_posts :: "post_row list"
  rv_deps :: "dep_row list"
  rv_rules :: "rule_row list"
  rv_graph :: u64

definition view :: "FSM \<Rightarrow> rview" where
  "view f = \<lparr> rv_posts = posts (fs_db f), rv_deps = post_dependencies (fs_db f),
     rv_rules = rules (fs_db f), rv_graph = fs_graphRev f \<rparr>"

definition spec_post_create :: "Operation \<Rightarrow> rview \<Rightarrow> err + (rview \<times> int)" where
  "spec_post_create opn v = bindE (unmarshalPost (op_Payload opn)) (\<lambda>p.
     if op_ObjectID opn \<in> po_id ` set (rv_posts v) then Inl (Invariant ''post.create duplicate or invalid'')
     else Inr (v\<lparr> rv_posts := rv_posts v @ [new_post (op_ObjectID opn) p] \<rparr>, 1))"

definition spec_post_update :: "Operation \<Rightarrow> rview \<Rightarrow> err + (rview \<times> int)" where
  "spec_post_update opn v = bindE (unmarshalPost (op_Payload opn)) (\<lambda>p.
     let hit = (\<lambda>r. po_id r = op_ObjectID opn \<and> po_version r = op_Revision opn) in
     if \<exists>r \<in> set (rv_posts v). hit r
     then Inr (v\<lparr> rv_posts := upd_where hit (edit_post p) (rv_posts v) \<rparr>, op_Revision opn + 1)
     else Inl (Invariant ''post.update stale revision''))"

definition spec_post_delete :: "Operation \<Rightarrow> rview \<Rightarrow> err + (rview \<times> int)" where
  "spec_post_delete opn v =
     (let i = op_ObjectID opn in
      if op_DomainRevision opn \<noteq> rv_graph v
      then Inl (Invariant ''post.delete was validated against another dependency graph revision'')
      else if i \<notin> po_id ` set (rv_posts v) then Inl (Invariant ''post.delete target missing'')
      else Inr (\<lparr> rv_posts = del_where (\<lambda>p. po_id p = i) (rv_posts v),
                  rv_deps = del_where (\<lambda>e. fst e = i \<or> snd e = i) (rv_deps v),
                  rv_rules = del_where (\<lambda>r. ru_post r = i) (rv_rules v),
                  rv_graph = rv_graph v + 1 \<rparr>, 0))"

definition spec_dep_add :: "Operation \<Rightarrow> rview \<Rightarrow> err + (rview \<times> int)" where
  "spec_dep_add opn v =
     (let src = op_ObjectID opn; ids = po_id ` set (rv_posts v) in
      if op_DomainRevision opn \<noteq> rv_graph v
      then Inl (Invariant ''post_dependency.add was validated against another graph revision'')
      else if src = [] then Inl (Invariant ''dependency source is empty'')
      else bindE (unmarshalDep (op_Payload opn)) (\<lambda>depends.
        if src = depends then Inl (Invariant ''self dependency'')
        else if \<not> {src, depends} \<subseteq> ids then Inl (Invariant ''dependency endpoints missing'')
        else if (src, depends) \<in> set (rv_deps v) then Inl (Invariant ''duplicate dependency'')
        else if \<not> acyclic_deps (rv_deps v @ [(src, depends)]) then Inl (Invariant ''dependency cycle would be created'')
        else Inr (v\<lparr> rv_deps := rv_deps v @ [(src, depends)], rv_graph := rv_graph v + 1 \<rparr>, 0)))"

definition spec_rule_create :: "Operation \<Rightarrow> rview \<Rightarrow> err + (rview \<times> int)" where
  "spec_rule_create opn v = bindE (unmarshalRule (op_Payload opn)) (\<lambda>p.
     if op_ObjectID opn \<notin> ru_id ` set (rv_rules v) \<and> rp_post p \<in> po_id ` set (rv_posts v) \<and>
        rp_operator p \<in> {''gt'', ''gte'', ''lt'', ''lte''}
     then Inr (v\<lparr> rv_rules := rv_rules v @ [new_rule (op_ObjectID opn) p] \<rparr>, 1)
     else Inl (Invariant ''rule.create duplicate or invalid''))"

definition spec_rule_set_enabled :: "Operation \<Rightarrow> rview \<Rightarrow> err + (rview \<times> int)" where
  "spec_rule_set_enabled opn v = bindE (unmarshalRule (op_Payload opn)) (\<lambda>p.
     let hit = (\<lambda>r. ru_id r = op_ObjectID opn \<and> ru_version r = op_Revision opn) in
     if \<exists>r \<in> set (rv_rules v). hit r
     then Inr (v\<lparr> rv_rules := upd_where hit (enable_rule (rp_enabled p)) (rv_rules v) \<rparr>, op_Revision opn + 1)
     else Inl (Invariant ''rule.set_enabled stale revision''))"

definition spec_step :: "Operation \<Rightarrow> rview \<Rightarrow> err + (rview \<times> int)" where
  "spec_step opn v =
     (if op_Kind opn = KindPostCreate then spec_post_create opn v
      else if op_Kind opn = KindPostUpdate then spec_post_update opn v
      else if op_Kind opn = KindPostDelete then spec_post_delete opn v
      else if op_Kind opn = KindDependencyAdd then spec_dep_add opn v
      else if op_Kind opn = KindRuleCreate then spec_rule_create opn v
      else if op_Kind opn = KindRuleSetEnable then spec_rule_set_enabled opn v
      else Inl (Err ''unsupported operation kind''))"

text \<open>
  The invariant of a replica's database: it satisfies the schema, the dependency graph has no cycle, the
  metadata table exists, and alerts and observations agree with their rule and collector.
\<close>

definition tables_ok :: "db \<Rightarrow> bool" where
  "tables_ok d \<longleftrightarrow> \<not> io_fault d \<and> constraints d \<and> alerts_consistent d \<and> observations_consistent d"

definition db_ok :: "db \<Rightarrow> bool" where
  "db_ok d \<longleftrightarrow> \<not> io_fault d \<and> constraints d \<and> alerts_consistent d \<and> observations_consistent d \<and>
     acyclic_deps (post_dependencies d) \<and> replicated_meta d \<noteq> None"

text \<open>The position stored in the database.\<close>

definition stored_position :: "u64 \<Rightarrow> u64 \<Rightarrow> u64 \<Rightarrow> db \<Rightarrow> bool" where
  "stored_position i t g d \<longleftrightarrow>
     metaGet ''applied_index'' d = Inr (i, True) \<and> metaGet ''applied_term'' d = Inr (t, True) \<and>
     metaGet ''graph_revision'' d = Inr (g, True)"

text \<open>One apply function agrees with its contract.\<close>

definition implements :: "Operation \<Rightarrow> u64 \<Rightarrow> u64 \<Rightarrow> FSM \<Rightarrow> FSM \<times> (err + ApplyResult) \<Rightarrow> err + (rview \<times> int) \<Rightarrow> bool" where
  "implements opn i t f out spec =
     (case spec of
        Inl e \<Rightarrow> out = (f, Inl e)
      | Inr (v, n) \<Rightarrow> \<exists>d. out = (f\<lparr> fs_db := d, fs_graphRev := rv_graph v \<rparr>, Inr (result_of opn i t n)) \<and>
          posts d = rv_posts v \<and> post_dependencies d = rv_deps v \<and> rules d = rv_rules v \<and>
          db_ok d \<and> stored_position i t (rv_graph v) d)"

section \<open>Inserting a definition\<close>

lemma fk_extend [simp]: "fk cs ps \<Longrightarrow> fk cs (ps @ [x])"
  by (auto simp: fk_iff)

lemma constraints_add_post:
  "constraints d \<Longrightarrow> constraints (d\<lparr> posts := posts d @ [r] \<rparr>) \<longleftrightarrow> po_id r \<notin> po_id ` set (posts d)"
  by (simp add: constraint_defs Let_def)

lemma constraints_edit_posts:
  "constraints d \<Longrightarrow> (\<And>r. po_id (g r) = po_id r) \<Longrightarrow> constraints (d\<lparr> posts := upd_where hit g (posts d) \<rparr>)"
  by (simp add: constraint_defs Let_def)

lemma constraints_add_dep:
  "constraints d \<Longrightarrow> constraints (d\<lparr> post_dependencies := post_dependencies d @ [(a, b)] \<rparr>) \<longleftrightarrow>
   (a, b) \<notin> set (post_dependencies d) \<and> a \<in> po_id ` set (posts d) \<and> b \<in> po_id ` set (posts d) \<and> a \<noteq> b"
  by (simp add: constraint_defs Let_def)

lemma constraints_add_rule:
  "constraints d \<Longrightarrow> constraints (d\<lparr> rules := rules d @ [r] \<rparr>) \<longleftrightarrow>
   ru_id r \<notin> ru_id ` set (rules d) \<and> ru_post r \<in> po_id ` set (posts d) \<and>
   ru_operator r \<in> {''gt'', ''gte'', ''lt'', ''lte''}"
  by (simp add: constraint_defs Let_def)

lemma constraints_edit_rules:
  assumes "constraints d" and "\<And>r. ru_id (g r) = ru_id r" and "\<And>r. ru_post (g r) = ru_post r"
    and "\<And>r. ru_operator (g r) = ru_operator r"
  shows "constraints (d\<lparr> rules := upd_where hit g (rules d) \<rparr>)"
proof -
  have "list_all (\<lambda>r. ru_operator r \<in> {''gt'', ''gte'', ''lt'', ''lte''}) (upd_where hit g (rules d))"
    using assms by (auto simp: constraint_defs list_all_iff set_upd_where)
  then show ?thesis using assms by (simp add: constraint_defs Let_def)
qed

lemma db_ok_add_post:
  "db_ok d \<Longrightarrow> po_id r \<notin> po_id ` set (posts d) \<Longrightarrow> db_ok (d\<lparr> posts := posts d @ [r] \<rparr>)"
  by (simp add: db_ok_def constraints_add_post alerts_consistent_def observations_consistent_def)

lemma db_ok_edit_posts:
  "db_ok d \<Longrightarrow> (\<And>r. po_id (g r) = po_id r) \<Longrightarrow> db_ok (d\<lparr> posts := upd_where hit g (posts d) \<rparr>)"
  by (simp add: db_ok_def constraints_edit_posts alerts_consistent_def observations_consistent_def)

lemma db_ok_add_dep:
  assumes "db_ok d" and "acyclic_deps (post_dependencies d @ [(a, b)])"
    and "(a, b) \<notin> set (post_dependencies d)" and "a \<in> po_id ` set (posts d)" and "b \<in> po_id ` set (posts d)" and "a \<noteq> b"
  shows "db_ok (d\<lparr> post_dependencies := post_dependencies d @ [(a, b)] \<rparr>)"
  using assms by (simp add: db_ok_def constraints_add_dep alerts_consistent_def observations_consistent_def)

lemma db_ok_add_rule:
  assumes ok: "db_ok d" and new: "ru_id r \<notin> ru_id ` set (rules d)" and post: "ru_post r \<in> po_id ` set (posts d)"
    and opr: "ru_operator r \<in> {''gt'', ''gte'', ''lt'', ''lte''}"
  shows "db_ok (d\<lparr> rules := rules d @ [r] \<rparr>)"
proof -
  have "fk (map al_rule (alerts d)) (map ru_id (rules d))"
    using ok by (simp add: db_ok_def constraints_def other_refs_ok_def)
  then have "\<forall>a \<in> set (alerts d). al_rule a \<noteq> ru_id r"
    using new by (auto simp: fk_iff image_subset_iff) (metis)
  then have "alerts_consistent (d\<lparr> rules := rules d @ [r] \<rparr>)"
    using ok by (simp add: db_ok_def alerts_consistent_def list_all_iff)
  moreover have "constraints (d\<lparr> rules := rules d @ [r] \<rparr>)"
    using ok new post opr constraints_add_rule [of d r] by (simp add: db_ok_def)
  ultimately show ?thesis
    using ok by (simp add: db_ok_def observations_consistent_def)
qed

lemma db_ok_edit_rules:
  assumes "db_ok d" and g: "\<And>r. ru_id (g r) = ru_id r" "\<And>r. ru_post (g r) = ru_post r"
    "\<And>r. ru_operator (g r) = ru_operator r"
  shows "db_ok (d\<lparr> rules := upd_where hit g (rules d) \<rparr>)"
  using assms constraints_edit_rules [OF _ g, of d hit]
  by (auto simp: db_ok_def alerts_consistent_def observations_consistent_def list_all_iff set_upd_where)

lemma db_ok_meta: "db_ok (d\<lparr> replicated_meta := Some m \<rparr>) \<longleftrightarrow> \<not> io_fault d \<and> constraints d \<and>
    alerts_consistent d \<and> observations_consistent d \<and> acyclic_deps (post_dependencies d)"
  by (simp add: db_ok_def alerts_consistent_def observations_consistent_def)

lemma db_ok_write:
  assumes "db_ok d"
  shows "\<exists>m. writeMeta i t g d = Inr (d\<lparr> replicated_meta := Some m \<rparr>) \<and>
    db_ok (d\<lparr> replicated_meta := Some m \<rparr>) \<and> stored_position i t g (d\<lparr> replicated_meta := Some m \<rparr>)"
proof -
  obtain m where m: "replicated_meta d = Some m" using assms by (auto simp: db_ok_def)
  let ?d = "d\<lparr> replicated_meta := Some (with_position i t g m) \<rparr>"
  have "\<not> io_fault ?d" using assms by (simp add: db_ok_def)
  then have "stored_position i t g ?d"
    using metaGet_position [of ?d i t g m] by (simp add: stored_position_def)
  then show ?thesis
    using assms writeMeta_ok [OF _ _ m, of i t g] by (auto simp: db_ok_meta) (auto simp: db_ok_def)
qed

section \<open>Each apply function implements its contract\<close>

lemma mapE_simps [simp]: "mapE e (Inr x) = Inr x" "mapE e (Inl e') = Inl e"
  by (simp_all add: mapE_def)

lemma in_tx_Inl: "body (fs_db f) = Inl e \<Longrightarrow> \<not> io_fault (fs_db f) \<Longrightarrow> in_tx f body = (f, Inl e)"
  by (simp add: in_tx_def with_tx_def)

lemma in_tx_Inr: "body (fs_db f) = Inr (d, x) \<Longrightarrow> \<not> io_fault (fs_db f) \<Longrightarrow> in_tx f body = (f\<lparr> fs_db := d \<rparr>, Inr x)"
  by (simp add: in_tx_def with_tx_def)

lemma exec_refused: "\<not> io_fault d \<Longrightarrow> \<not> constraints (g d) \<Longrightarrow> exec g d = Inl Constraint"
  by (simp add: exec_def)

lemma db_okD: "db_ok d \<Longrightarrow> \<not> io_fault d" "db_ok d \<Longrightarrow> constraints d"
  by (simp_all add: db_ok_def)

lemma exec_ok_db: "\<not> io_fault d \<Longrightarrow> db_ok (g d) \<Longrightarrow> exec g d = Inr (g d)"
  by (simp add: exec_ok db_okD)

lemma count_where_hit:
  "distinct (map k xs) \<Longrightarrow> count_where (\<lambda>x. k x = i \<and> Q x) xs = 1 \<longleftrightarrow> (\<exists>x \<in> set xs. k x = i \<and> Q x)"
  using count_where_key_le [of k xs "\<lambda>x. k x = i \<and> Q x" i] count_where_pos [of "\<lambda>x. k x = i \<and> Q x" xs]
  by fastforce

lemma count_where_disj:
  "(\<And>x. \<not> (P x \<and> Q x)) \<Longrightarrow> count_where (\<lambda>x. P x \<or> Q x) xs = count_where P xs + count_where Q xs"
  by (induction xs) auto

lemma count_two:
  assumes "distinct (map k xs)" and "a \<noteq> b"
  shows "count_where (\<lambda>x. k x = a \<or> k x = b) xs = 2 \<longleftrightarrow> a \<in> k ` set xs \<and> b \<in> k ` set xs"
  using assms by (subst count_where_disj) auto

lemma count_where_is: "count_where (\<lambda>x. x = k) xs = 0 \<longleftrightarrow> k \<notin> set xs"
  by auto

lemma distinct_posts: "db_ok d \<Longrightarrow> distinct (map po_id (posts d))"
  by (simp add: db_ok_def constraints_def keys_ok_def)

lemma distinct_rules: "db_ok d \<Longrightarrow> distinct (map ru_id (rules d))"
  by (simp add: db_ok_def constraints_def keys_ok_def)

text \<open>A body that makes one change to the tables and stores the position.\<close>

lemma implements_tx:
  assumes ok: "db_ok (fs_db f)" and body: "body (fs_db f) = bindE (writeMeta i t (rv_graph v) e) (\<lambda>d. Inr (d, result_of opn i t n))"
    and g: "db_ok e"
    and v: "posts e = rv_posts v" "post_dependencies e = rv_deps v" "rules e = rv_rules v"
    and out: "out = (case in_tx f body of (f', Inl x) \<Rightarrow> (f', Inl x) | (f', Inr r) \<Rightarrow> (f'\<lparr> fs_graphRev := rv_graph v \<rparr>, Inr r))"
  shows "implements opn i t f out (Inr (v, n))"
proof -
  obtain m where w: "writeMeta i t (rv_graph v) e = Inr (e\<lparr> replicated_meta := Some m \<rparr>)"
    and ok': "db_ok (e\<lparr> replicated_meta := Some m \<rparr>)"
    and pos: "stored_position i t (rv_graph v) (e\<lparr> replicated_meta := Some m \<rparr>)"
    using db_ok_write [OF g] by blast
  have "in_tx f body = (f\<lparr> fs_db := e\<lparr> replicated_meta := Some m \<rparr> \<rparr>, Inr (result_of opn i t n))"
    using ok by (intro in_tx_Inr) (simp_all add: body w db_okD)
  then show ?thesis
    using ok' pos v out by (auto simp: implements_def)
qed

lemma no_bump: "rv_graph v = fs_graphRev f \<Longrightarrow>
  in_tx f body = (case in_tx f body of (f', Inl e) \<Rightarrow> (f', Inl e) | (f', Inr r) \<Rightarrow> (f'\<lparr> fs_graphRev := rv_graph v \<rparr>, Inr r))"
  by (auto simp: in_tx_def split: prod.splits sum.splits)

lemma bump: "rv_graph v = fs_graphRev f + 1 \<Longrightarrow>
  bump_graph (in_tx f body) = (case in_tx f body of (f', Inl e) \<Rightarrow> (f', Inl e) | (f', Inr r) \<Rightarrow> (f'\<lparr> fs_graphRev := rv_graph v \<rparr>, Inr r))"
  by (auto simp: in_tx_def bump_graph_def split: prod.splits sum.splits)

lemma implements_plain:
  assumes "db_ok (fs_db f)" and "db_ok e"
    and "body (fs_db f) = bindE (writeMeta i t (rv_graph v) e) (\<lambda>d. Inr (d, result_of opn i t n))"
    and "posts e = rv_posts v" and "post_dependencies e = rv_deps v" and "rules e = rv_rules v"
    and "rv_graph v = fs_graphRev f"
  shows "implements opn i t f (in_tx f body) (Inr (v, n))"
  by (rule implements_tx [where body = body, OF assms(1,3,2,4-6)], rule no_bump [OF assms(7)])

lemma implements_graph:
  assumes "db_ok (fs_db f)" and "db_ok e"
    and "body (fs_db f) = bindE (writeMeta i t (rv_graph v) e) (\<lambda>d. Inr (d, result_of opn i t n))"
    and "posts e = rv_posts v" and "post_dependencies e = rv_deps v" and "rules e = rv_rules v"
    and "rv_graph v = fs_graphRev f + 1"
  shows "implements opn i t f (bump_graph (in_tx f body)) (Inr (v, n))"
  by (rule implements_tx [where body = body, OF assms(1,3,2,4-6)], rule bump [OF assms(7)])

lemma implements_Inl [simp]: "implements opn i t f out (Inl e) \<longleftrightarrow> out = (f, Inl e)"
  by (simp add: implements_def)

lemma bump_graph_Inl [simp]: "bump_graph (f, Inl e) = (f, Inl e)"
  by (simp add: bump_graph_def)

lemmas tx_simps = view_def exec_ok_db db_okD in_tx_Inl Let_def

lemma implements_post_create:
  assumes ok: "db_ok (fs_db f)"
  shows "implements opn i t f (applyPostCreate opn i t f) (spec_post_create opn (view f))"
proof (cases "unmarshalPost (op_Payload opn)")
  case (Inl e)
  then show ?thesis by (simp add: applyPostCreate_def spec_post_create_def)
next
  case (Inr p)
  let ?e = "(fs_db f)\<lparr> posts := posts (fs_db f) @ [new_post (op_ObjectID opn) p] \<rparr>"
  have new: "po_id (new_post (op_ObjectID opn) p) = op_ObjectID opn" by (simp add: new_post_def)
  show ?thesis
  proof (cases "op_ObjectID opn \<in> po_id ` set (posts (fs_db f))")
    case True
    then have "\<not> constraints ?e" using ok by (simp add: db_okD constraints_add_post new)
    then show ?thesis
      using True Inr ok by (simp add: applyPostCreate_def spec_post_create_def tx_simps exec_refused)
  next
    case False
    then have "db_ok ?e" using ok db_ok_add_post [of "fs_db f" "new_post (op_ObjectID opn) p"] by (simp add: new)
    then show ?thesis
      using False Inr ok unfolding applyPostCreate_def spec_post_create_def
      by (simp add: view_def) (rule implements_plain [of f ?e]; simp add: tx_simps)
  qed
qed

lemma implements_post_update:
  assumes ok: "db_ok (fs_db f)"
  shows "implements opn i t f (applyPostUpdate opn i t f) (spec_post_update opn (view f))"
proof (cases "unmarshalPost (op_Payload opn)")
  case (Inl e)
  then show ?thesis by (simp add: applyPostUpdate_def spec_post_update_def)
next
  case (Inr p)
  let ?hit = "\<lambda>r. po_id r = op_ObjectID opn \<and> po_version r = op_Revision opn"
  let ?e = "(fs_db f)\<lparr> posts := upd_where ?hit (edit_post p) (posts (fs_db f)) \<rparr>"
  have e: "db_ok ?e" using ok by (intro db_ok_edit_posts) (simp_all add: edit_post_def)
  note n = count_where_hit [OF distinct_posts [OF ok], of "op_ObjectID opn" "\<lambda>r. po_version r = op_Revision opn"]
  show ?thesis
  proof (cases "\<exists>r \<in> set (posts (fs_db f)). ?hit r")
    case True
    then show ?thesis
      using e Inr ok n unfolding applyPostUpdate_def spec_post_update_def Let_def
      by (simp add: view_def) (rule implements_plain [of f ?e]; simp add: tx_simps)
  next
    case False
    then show ?thesis
      using e Inr ok n unfolding applyPostUpdate_def spec_post_update_def
      by (auto simp: tx_simps)
  qed
qed

lemma implements_rule_create:
  assumes ok: "db_ok (fs_db f)"
  shows "implements opn i t f (applyRuleCreate opn i t f) (spec_rule_create opn (view f))"
proof (cases "unmarshalRule (op_Payload opn)")
  case (Inl e)
  then show ?thesis by (simp add: applyRuleCreate_def spec_rule_create_def)
next
  case (Inr p)
  let ?e = "(fs_db f)\<lparr> rules := rules (fs_db f) @ [new_rule (op_ObjectID opn) p] \<rparr>"
  let ?valid = "op_ObjectID opn \<notin> ru_id ` set (rules (fs_db f)) \<and> rp_post p \<in> po_id ` set (posts (fs_db f)) \<and>
        rp_operator p \<in> {''gt'', ''gte'', ''lt'', ''lte''}"
  have new: "ru_id (new_rule (op_ObjectID opn) p) = op_ObjectID opn" "ru_post (new_rule (op_ObjectID opn) p) = rp_post p"
    "ru_operator (new_rule (op_ObjectID opn) p) = rp_operator p" by (simp_all add: new_rule_def)
  show ?thesis
  proof (cases ?valid)
    case False
    then have "\<not> constraints ?e"
      using ok constraints_add_rule [of "fs_db f" "new_rule (op_ObjectID opn) p"] by (simp only: new db_okD simp_thms)
    then show ?thesis
      using False Inr ok unfolding spec_rule_create_def
      by (auto simp: applyRuleCreate_def tx_simps exec_refused)
  next
    case True
    then have "db_ok ?e"
      using ok db_ok_add_rule [of "fs_db f" "new_rule (op_ObjectID opn) p"] by (simp only: new simp_thms)
    then show ?thesis
      using True Inr ok unfolding applyRuleCreate_def spec_rule_create_def
      by (simp add: view_def) (rule implements_plain [of f ?e]; simp add: tx_simps)
  qed
qed

lemma implements_rule_set_enabled:
  assumes ok: "db_ok (fs_db f)"
  shows "implements opn i t f (applyRuleSetEnabled opn i t f) (spec_rule_set_enabled opn (view f))"
proof (cases "unmarshalRule (op_Payload opn)")
  case (Inl e)
  then show ?thesis by (simp add: applyRuleSetEnabled_def spec_rule_set_enabled_def)
next
  case (Inr p)
  let ?hit = "\<lambda>r. ru_id r = op_ObjectID opn \<and> ru_version r = op_Revision opn"
  let ?e = "(fs_db f)\<lparr> rules := upd_where ?hit (enable_rule (rp_enabled p)) (rules (fs_db f)) \<rparr>"
  have e: "db_ok ?e" using ok by (intro db_ok_edit_rules) (simp_all add: enable_rule_def)
  note n = count_where_hit [OF distinct_rules [OF ok], of "op_ObjectID opn" "\<lambda>r. ru_version r = op_Revision opn"]
  show ?thesis
  proof (cases "\<exists>r \<in> set (rules (fs_db f)). ?hit r")
    case True
    then show ?thesis
      using e Inr ok n unfolding applyRuleSetEnabled_def spec_rule_set_enabled_def Let_def
      by (simp add: view_def) (rule implements_plain [of f ?e]; simp add: tx_simps)
  next
    case False
    then show ?thesis
      using e Inr ok n unfolding applyRuleSetEnabled_def spec_rule_set_enabled_def
      by (auto simp: tx_simps)
  qed
qed

text \<open>The guards of a new edge, in the order of the code, say what the contract says.\<close>

lemma dep_guards:
  assumes ok: "db_ok d" and "a \<noteq> b"
  shows "count_where (\<lambda>p. po_id p \<in> {a, b}) (posts d) = 2 \<longleftrightarrow> {a, b} \<subseteq> po_id ` set (posts d)"
    and "cycle_count (post_dependencies d) b a = 0 \<longleftrightarrow> acyclic_deps (post_dependencies d @ [(a, b)])"
proof -
  show "count_where (\<lambda>p. po_id p \<in> {a, b}) (posts d) = 2 \<longleftrightarrow> {a, b} \<subseteq> po_id ` set (posts d)"
    using count_two [OF distinct_posts [OF ok] assms(2)] by simp
  show "cycle_count (post_dependencies d) b a = 0 \<longleftrightarrow> acyclic_deps (post_dependencies d @ [(a, b)])"
    using acyclic_deps_add_iff [of "post_dependencies d" a b] ok assms(2) by (simp add: db_ok_def)
qed

lemma implements_dep_add:
  assumes ok: "db_ok (fs_db f)"
  shows "implements opn i t f (applyDependencyAdd opn i t f) (spec_dep_add opn (view f))"
proof (cases "op_DomainRevision opn = fs_graphRev f \<and> op_ObjectID opn \<noteq> [] \<and>
    (\<exists>b. unmarshalDep (op_Payload opn) = Inr b \<and> op_ObjectID opn \<noteq> b)")
  case False
  then show ?thesis
    by (auto simp: applyDependencyAdd_def spec_dep_add_def view_def Let_def split: sum.splits)
next
  case True
  then obtain b where b: "unmarshalDep (op_Payload opn) = Inr b" and ne: "op_ObjectID opn \<noteq> b"
    and pre: "op_DomainRevision opn = fs_graphRev f" "op_ObjectID opn \<noteq> []" by blast
  let ?a = "op_ObjectID opn" and ?d = "fs_db f"
  let ?e = "?d\<lparr> post_dependencies := post_dependencies ?d @ [(?a, b)] \<rparr>"
  note guards = dep_guards [OF ok ne]
  have ids: "{?a, b} \<subseteq> po_id ` set (posts ?d) \<longleftrightarrow> count_where (\<lambda>p. po_id p = ?a \<or> po_id p = b) (posts ?d) = 2"
    using guards(1) by simp
  show ?thesis
  proof (cases "{?a, b} \<subseteq> po_id ` set (posts ?d) \<and> (?a, b) \<notin> set (post_dependencies ?d) \<and>
      acyclic_deps (post_dependencies ?d @ [(?a, b)])")
    case False
    then show ?thesis
      using ok b ne pre unfolding applyDependencyAdd_def spec_dep_add_def Let_def
      by (auto simp: view_def in_tx_Inl db_okD ids guards(2) count_where_is simp del: insert_subset count_where_zero)
  next
    case all: True
    then have "db_ok ?e" using ok ne by (intro db_ok_add_dep) auto
    then show ?thesis
      using ok b ne pre all unfolding applyDependencyAdd_def spec_dep_add_def Let_def
      by (simp add: view_def del: insert_subset)
        (rule implements_graph [of f ?e]; simp add: view_def db_okD exec_ok_db ids guards(2) count_where_is del: insert_subset count_where_zero)
  qed
qed

section \<open>Deleting a post\<close>

text \<open>The tables after the deletes of \<open>post.delete\<close>.\<close>

definition without_edges :: "id \<Rightarrow> db \<Rightarrow> db" where
  "without_edges i d = (purge_local (\<lambda>q. q = i) d)\<lparr> post_dependencies := del_where (\<lambda>e. fst e = i \<or> snd e = i) (post_dependencies d) \<rparr>"

definition without_rules :: "id \<Rightarrow> db \<Rightarrow> db" where
  "without_rules i d = (without_edges i d)\<lparr> rules := del_where (\<lambda>r. ru_post r = i) (rules d) \<rparr>"

definition without_post :: "id \<Rightarrow> db \<Rightarrow> db" where
  "without_post i d = del_posts (\<lambda>p. po_id p = i) (without_rules i d)"

lemma without_frame [simp]:
  "posts (without_edges i d) = posts d" "rules (without_edges i d) = rules d" "io_fault (without_edges i d) = io_fault d"
  "posts (without_rules i d) = posts d" "io_fault (without_rules i d) = io_fault d"
  "posts (without_post i d) = del_where (\<lambda>p. po_id p = i) (posts d)"
  "post_dependencies (without_post i d) = del_where (\<lambda>e. fst e = i \<or> snd e = i) (post_dependencies d)"
  "rules (without_post i d) = del_where (\<lambda>r. ru_post r = i) (rules d)"
  "io_fault (without_post i d) = io_fault d" "replicated_meta (without_post i d) = replicated_meta d"
  "alerts (without_post i d) = del_where (\<lambda>a. al_post a = i) (alerts d)"
  "observations (without_post i d) = del_where (\<lambda>x. ob_post x = i) (observations d)"
  "collector_keys (without_post i d) = del_where (\<lambda>x. ck_post x = i) (collector_keys d)"
  by (simp_all add: without_post_def without_rules_def without_edges_def del_posts_def del_check_schedules_def Let_def purge_local_def)

lemma db_ok_tables: "db_ok d \<Longrightarrow> tables_ok d"
  by (simp add: db_ok_def tables_ok_def)

lemma constraints_without:
  assumes ok: "tables_ok d"
  shows "constraints (purge_local (\<lambda>q. q = i) d)" and "constraints (without_edges i d)"
    and "constraints (without_rules i d)" and "constraints (without_post i d)"
proof -
  have "cleanupNodeLocal i d = Inr (purge_local (\<lambda>q. q = i) d)"
    using ok by (intro cleanupNodeLocal_ok) (simp_all add: tables_ok_def)
  then show c0: "constraints (purge_local (\<lambda>q. q = i) d)" by (rule cleanupNodeLocal_constraints)
  show c1: "constraints (without_edges i d)"
    using constraints_del_leaf(9) [OF c0, of "\<lambda>e. fst e = i \<or> snd e = i"] by (simp add: without_edges_def)
  have "unnamed (\<lambda>r. ru_post r = i) ru_id (rules (without_edges i d)) (map al_rule (alerts (without_edges i d)))"
    using ok by (auto simp: tables_ok_def alerts_consistent_def list_all_iff unnamed_def without_edges_def purge_local_alerts)
  then show c2: "constraints (without_rules i d)"
    using constraints_del_rules [OF c1] by (simp add: without_rules_def)
  have "post_unnamed (\<lambda>p. po_id p = i) (purge_local (\<lambda>q. q = i)
      (d\<lparr> post_dependencies := del_where (\<lambda>e. fst e = i \<or> snd e = i) (post_dependencies d),
         rules := del_where (\<lambda>r. ru_post r = i) (rules d) \<rparr>))"
    by (rule purge_local_unnamed) auto
  then have "post_unnamed (\<lambda>p. po_id p = i) (without_rules i d)"
    by (simp add: post_unnamed_def without_rules_def without_edges_def purge_local_def Let_def)
  then show "constraints (without_post i d)"
    using constraints_del_posts [OF c2] by (simp add: without_post_def)
qed

lemma db_ok_without_post:
  assumes "db_ok d"
  shows "db_ok (without_post i d)"
  using assms constraints_without(4) [OF db_ok_tables [OF assms]]
  by (auto simp: db_ok_def alerts_consistent_def observations_consistent_def list_all_iff)

lemma delete_body:
  assumes ok: "tables_ok d"
  shows "cleanupNodeLocal i d = Inr (purge_local (\<lambda>q. q = i) d)"
    and "exec (\<lambda>d. d\<lparr> post_dependencies := del_where (\<lambda>e. fst e = i \<or> snd e = i) (post_dependencies d) \<rparr>)
          (purge_local (\<lambda>q. q = i) d) = Inr (without_edges i d)"
    and "exec (\<lambda>d. d\<lparr> rules := del_where (\<lambda>r. ru_post r = i) (rules d) \<rparr>) (without_edges i d) = Inr (without_rules i d)"
    and "exec (del_posts (\<lambda>p. po_id p = i)) (without_rules i d) = Inr (without_post i d)"
proof -
  note c = constraints_without [OF ok, of i] and io = ok [unfolded tables_ok_def, THEN conjunct1]
  show "cleanupNodeLocal i d = Inr (purge_local (\<lambda>q. q = i) d)"
    using ok by (intro cleanupNodeLocal_ok) (simp_all add: tables_ok_def)
  show "exec (\<lambda>d. d\<lparr> post_dependencies := del_where (\<lambda>e. fst e = i \<or> snd e = i) (post_dependencies d) \<rparr>)
      (purge_local (\<lambda>q. q = i) d) = Inr (without_edges i d)"
    using io c(2) by (simp add: exec_def without_edges_def)
  show "exec (\<lambda>d. d\<lparr> rules := del_where (\<lambda>r. ru_post r = i) (rules d) \<rparr>) (without_edges i d) = Inr (without_rules i d)"
    using io c(3) by (simp add: exec_def without_rules_def)
  show "exec (del_posts (\<lambda>p. po_id p = i)) (without_rules i d) = Inr (without_post i d)"
    using io c(4) by (simp add: exec_def without_post_def)
qed

lemma implements_post_delete:
  assumes ok: "db_ok (fs_db f)"
  shows "implements opn i t f (applyPostDelete opn i t f) (spec_post_delete opn (view f))"
proof -
  let ?i = "op_ObjectID opn" and ?d = "fs_db f"
  note simps = delete_body [OF db_ok_tables [OF ok]] Let_def view_def db_okD [OF ok] count_where_key [OF distinct_posts [OF ok]]
  consider "op_DomainRevision opn \<noteq> fs_graphRev f"
    | "op_DomainRevision opn = fs_graphRev f" "?i \<notin> po_id ` set (posts ?d)"
    | "op_DomainRevision opn = fs_graphRev f" "?i \<in> po_id ` set (posts ?d)" by blast
  then show ?thesis
  proof cases
    case 1
    then show ?thesis by (simp add: applyPostDelete_def spec_post_delete_def view_def)
  next
    case 2
    then show ?thesis by (simp add: applyPostDelete_def spec_post_delete_def simps in_tx_Inl del: count_where_zero)
  next
    case 3
    then show ?thesis
      unfolding applyPostDelete_def spec_post_delete_def
      by (simp add: Let_def view_def)
        (rule implements_graph [of f "without_post ?i ?d"]; simp add: simps ok db_ok_without_post del: count_where_zero)
  qed
qed

section \<open>The state machine implements the contract\<close>

lemma implements_kind:
  assumes "db_ok (fs_db f)"
  shows "implements opn i t f (apply_kind opn i t f) (spec_step opn (view f))"
  using assms implements_post_create implements_post_update implements_post_delete implements_dep_add
    implements_rule_create implements_rule_set_enabled
  unfolding apply_kind_def spec_step_def by simp

end
