(* ===== verification/Machines.thy ===== *)
theory Machines
  imports WP_Prelude
begin

text \<open>
  Interfaces several components offer. \<open>machine\<close> is a component whose steps keep an invariant;
  \<open>replica\<close> adds a relation between two copies of the component that every step preserves while both answer alike,
  from which it follows that copies fed with the same log stay related; \<open>fenced\<close> is a component that refuses every step
  once it has failed.
\<close>

section \<open>Running a log\<close>

primrec run :: "('e \<Rightarrow> 's \<Rightarrow> 's \<times> 'r) \<Rightarrow> 'e list \<Rightarrow> 's \<Rightarrow> 's \<times> 'r list" where
  "run step [] s = (s, [])"
| "run step (x # xs) s = (case step x s of (s', r) \<Rightarrow> case run step xs s' of (s'', rs) \<Rightarrow> (s'', r # rs))"

lemma run_Cons: "fst (run step (x # xs) s) = fst (run step xs (fst (step x s)))"
  by (simp split: prod.splits)

lemma run_append: "fst (run step (xs @ ys) s) = fst (run step ys (fst (run step xs s)))"
  by (induction xs arbitrary: s) (simp_all split: prod.splits, metis fst_conv)

locale machine =
  fixes step :: "'e \<Rightarrow> 's \<Rightarrow> 's \<times> 'r" and inv :: "'s \<Rightarrow> bool"
  assumes step_inv: "inv s \<Longrightarrow> inv (fst (step x s))"
begin

lemma run_inv: "inv s \<Longrightarrow> inv (fst (run step xs s))"
  by (induction xs arbitrary: s) (simp_all add: run_Cons step_inv del: run.simps(2))

end

locale replica = machine +
  fixes same :: "'b \<Rightarrow> 'b \<Rightarrow> bool"
  assumes step_same: "inv s \<Longrightarrow> inv s' \<Longrightarrow> same s s' \<Longrightarrow>
      same (fst (step x s)) (fst (step x s')) \<and> snd (step x s) = snd (step x s')"
begin

lemma run_same:
  "inv s \<Longrightarrow> inv s' \<Longrightarrow> same s s' \<Longrightarrow>
   same (fst (run step xs s)) (fst (run step xs s')) \<and> snd (run step xs s) = snd (run step xs s')"
proof (induction xs arbitrary: s s')
  case (Cons x xs)
  note one = step_same [OF Cons.prems, of x]
  have "same (fst (run step xs (fst (step x s)))) (fst (run step xs (fst (step x s')))) \<and>
      snd (run step xs (fst (step x s))) = snd (run step xs (fst (step x s')))"
    using Cons.prems one by (intro Cons.IH) (simp_all add: step_inv)
  then show ?case using one by (simp add: case_prod_beta)
qed simp

end

locale fenced =
  fixes step :: "'e \<Rightarrow> 's \<Rightarrow> 's \<times> ('err + 'r)" and failure :: "'s \<Rightarrow> 'err option"
  assumes fence: "failure s \<noteq> None \<Longrightarrow> fst (step x s) = s \<and> isl (snd (step x s))"
begin

lemma run_fenced:
  "failure s \<noteq> None \<Longrightarrow> fst (run step xs s) = s \<and> length (snd (run step xs s)) = length xs \<and> list_all isl (snd (run step xs s))"
proof (induction xs)
  case (Cons x xs)
  then show ?case using fence [OF Cons.prems, of x] by (simp add: case_prod_beta)
qed simp

text \<open>If a run ends without a failure, no prefix of it had one.\<close>

lemma healthy_prefix: "failure (fst (run step xs s)) = None \<Longrightarrow> failure s = None"
  using run_fenced [of s xs] by fastforce

end

end
