(* ===== verification/Replicated_Log.thy ===== *)
theory Replicated_Log
  imports Replicated_Spec Machines
begin

text \<open>
  The replicated state machine over a whole log of committed entries: the fence after a failed apply, the
  answer to a repeated operation, the invariant of the database, the refinement of the contract, the
  agreement of replicas and the restart of a node on its own database.
\<close>

section \<open>Definitions\<close>

text \<open>Two replicas that differ in nothing but node-local rows and metadata text.\<close>

definition same_replica :: "FSM \<Rightarrow> FSM \<Rightarrow> bool" where
  "same_replica f g \<longleftrightarrow> view f = view g \<and> f\<lparr> fs_db := fs_db g \<rparr> = g"

definition replica_ok :: "FSM \<Rightarrow> bool" where
  "replica_ok f \<longleftrightarrow> db_ok (fs_db f)"

definition digests :: "FSM \<Rightarrow> string \<rightharpoonup> string" where
  "digests f k = map_option ao_digest (fs_applied f k)"

text \<open>What \<open>applyLocked\<close> does with an operation it has not seen, in terms of the contract.\<close>

definition realize :: "string \<Rightarrow> Operation \<Rightarrow> u64 \<Rightarrow> u64 \<Rightarrow> FSM \<Rightarrow> FSM \<times> reply" where
  "realize dg opn i t f =
     (case apply_kind opn i t f of
        (f', Inl e) \<Rightarrow> poison e f'
      | (f', Inr res) \<Rightarrow>
          (let f'' = record_applied dg opn res f'
           in (if fs_product f'' = [] then f''\<lparr> fs_product := op_Product opn \<rparr> else f'', Inr (Some res))))"

text \<open>The guards before the lookup of the operation's identity; they yield the digest.\<close>

definition guards :: "(Operation \<Rightarrow> err + string) \<Rightarrow> Operation \<Rightarrow> FSM \<Rightarrow> err + string" where
  "guards digest opn f =
     bindE (ensure (op_Version opn \<le> fs_supported f) (Err ''node does not support replication operation version'')) (\<lambda>_.
     bindE (validateKind (op_Kind opn)) (\<lambda>_. digest opn))"

definition acceptable :: "(Operation \<Rightarrow> err + string) \<Rightarrow> Operation \<Rightarrow> FSM \<Rightarrow> string \<Rightarrow> bool" where
  "acceptable digest opn f dg \<longleftrightarrow> fs_applyFailure f = None \<and> guards digest opn f = Inr dg"

text \<open>The state and answer after a new operation whose effect is \<open>d\<close> and \<open>v\<close>.\<close>

definition realized :: "string \<Rightarrow> Operation \<Rightarrow> ApplyResult \<Rightarrow> u64 \<Rightarrow> db \<Rightarrow> FSM \<Rightarrow> FSM" where
  "realized dg opn res gr d f =
     (record_applied dg opn res f)\<lparr> fs_db := d, fs_graphRev := gr,
        fs_product := if fs_product f = [] then op_Product opn else fs_product f \<rparr>"

text \<open>The entries of a log that decode, with strictly increasing indices above a given one.\<close>

primrec increasing_from :: "u64 \<Rightarrow> log_entry list \<Rightarrow> bool" where
  "increasing_from i [] = True"
| "increasing_from i (l # ls) = (i < le_Index l \<and> increasing_from (le_Index l) ls)"

section \<open>A sample replica\<close>

text \<open>A replica on a fresh database, one that differs in a node-local row, and the creation of a post.\<close>

definition sample_fsm :: FSM where
  "sample_fsm = \<lparr> fs_db = empty_db\<lparr> replicated_meta := Some [] \<rparr>, fs_supported = 1, fs_product = [], fs_graphRev = 0,
     fs_applied = Map.empty, fs_appliedIndex = 0, fs_appliedTerm = 0, fs_persistedIndex = 0,
     fs_applyFailure = None, fs_injectFail = None \<rparr>"

definition sample_change :: change_row where
  "sample_change = \<lparr> ch_id = 1, ch_post = None, ch_kind = ''deploy'', ch_occurred = 0, ch_actor = [], ch_summary = [], ch_detail = JNull \<rparr>"

definition sample_peer :: FSM where
  "sample_peer = sample_fsm\<lparr> fs_db := (fs_db sample_fsm)\<lparr> changes := [sample_change] \<rparr> \<rparr>"

definition sample_op :: Operation where
  "sample_op = \<lparr> op_ID = ''op-1'', op_Product = ''watchpost'', op_Version = 1, op_Kind = KindPostCreate, op_ObjectKind = ''post'',
     op_ObjectID = ''p1'', op_Revision = 0, op_DomainRevision = 0, op_Payload = PostJSON zero_post, op_OriginNode = ''watchpost'' \<rparr>"

definition sample_decode :: "string \<Rightarrow> err + Operation" where
  "sample_decode s = (if s = ''op-1'' then Inr sample_op else Inl (Err ''invalid operation''))"

definition sample_digest :: "Operation \<Rightarrow> err + string" where
  "sample_digest opn = Inr (op_ID opn @ op_Kind opn)"

definition sample_log :: "log_entry list" where
  "sample_log = [\<lparr> le_Index = 1, le_Term = 1, le_Data = ''op-1'' \<rparr>]"

section \<open>The branches of applyLocked\<close>

lemma applyLocked_fenced: "fs_applyFailure f = Some e \<Longrightarrow> applyLocked digest opn i t f = (f, Inl e)"
  by (simp add: applyLocked_def)

lemma applyLocked_refused:
  "fs_applyFailure f = None \<Longrightarrow> guards digest opn f = Inl e \<Longrightarrow> applyLocked digest opn i t f = poison e f"
  by (auto simp: applyLocked_def guards_def validateKind_def ensure_def bindE_def split: if_splits sum.splits)

lemma applyLocked_accepted:
  assumes "acceptable digest opn f dg"
  shows "applyLocked digest opn i t f =
    (case fs_applied f (op_ID opn) of
       Some prior \<Rightarrow> (f, if ao_digest prior = dg then Inr (ao_result prior)
          else Inl (Err ''operation id retried with a different payload; refusing''))
     | None \<Rightarrow>
         if i \<le> fs_persistedIndex f
         then (record_applied dg opn (result_of opn i t (op_Revision opn)) f, Inr (Some (result_of opn i t (op_Revision opn))))
         else case injected opn f of
           Some e \<Rightarrow> poison e (f\<lparr> fs_injectFail := None \<rparr>)
         | None \<Rightarrow> realize dg opn i t f)"
  using assms
  by (auto simp: applyLocked_def acceptable_def guards_def validateKind_def ensure_def bindE_def realize_def Let_def
      split: if_splits sum.splits option.splits)

lemma applyLocked_cases:
  obtains (fenced) e where "fs_applyFailure f = Some e"
  | (refused) e where "fs_applyFailure f = None" "guards digest opn f = Inl e"
  | (known) dg prior where "acceptable digest opn f dg" "fs_applied f (op_ID opn) = Some prior"
  | (replay) dg where "acceptable digest opn f dg" "fs_applied f (op_ID opn) = None" "i \<le> fs_persistedIndex f"
  | (injected) dg e where "acceptable digest opn f dg" "fs_applied f (op_ID opn) = None" "\<not> i \<le> fs_persistedIndex f"
      "injected opn f = Some e"
  | (new) dg where "acceptable digest opn f dg" "fs_applied f (op_ID opn) = None" "\<not> i \<le> fs_persistedIndex f"
      "injected opn f = None"
  by (cases "fs_applyFailure f"; cases "guards digest opn f"; cases "fs_applied f (op_ID opn)"; cases "injected opn f")
    (auto simp: acceptable_def)

lemmas applyLocked_branches = applyLocked_fenced applyLocked_refused applyLocked_accepted

section \<open>Realizing a new operation\<close>

lemma setApplyFailure_frame [simp]:
  "fs_db (setApplyFailure e f) = fs_db f" "view (setApplyFailure e f) = view f"
  "fs_applied (setApplyFailure e f) = fs_applied f" "fs_graphRev (setApplyFailure e f) = fs_graphRev f"
  "fs_appliedIndex (setApplyFailure e f) = fs_appliedIndex f" "fs_appliedTerm (setApplyFailure e f) = fs_appliedTerm f"
  "fs_persistedIndex (setApplyFailure e f) = fs_persistedIndex f"
  by (simp_all add: setApplyFailure_def view_def)

lemma realize_Inl:
  assumes "replica_ok f" and "spec_step opn (view f) = Inl e"
  shows "realize dg opn i t f = poison e f"
  using assms implements_kind [of f opn i t] by (simp add: replica_ok_def realize_def)

lemma realize_Inr:
  assumes "replica_ok f" and "spec_step opn (view f) = Inr (v, n)"
  shows "\<exists>d. realize dg opn i t f =
      (realized dg opn (result_of opn i t n) (rv_graph v) d f, Inr (Some (result_of opn i t n))) \<and>
    posts d = rv_posts v \<and> post_dependencies d = rv_deps v \<and> rules d = rv_rules v \<and>
    db_ok d \<and> stored_position i t (rv_graph v) d"
proof -
  obtain d where "apply_kind opn i t f = (f\<lparr> fs_db := d, fs_graphRev := rv_graph v \<rparr>, Inr (result_of opn i t n))"
    and "posts d = rv_posts v \<and> post_dependencies d = rv_deps v \<and> rules d = rv_rules v \<and>
      db_ok d \<and> stored_position i t (rv_graph v) d"
    using assms implements_kind [of f opn i t] by (auto simp: replica_ok_def implements_def)
  then show ?thesis
    by (intro exI [of _ d]) (simp add: realize_def realized_def record_applied_def Let_def)
qed

lemma realized_frame [simp]:
  "fs_db (realized dg opn res gr d f) = d" "fs_graphRev (realized dg opn res gr d f) = gr"
  "fs_applyFailure (realized dg opn res gr d f) = fs_applyFailure f"
  "fs_persistedIndex (realized dg opn res gr d f) = fs_persistedIndex f"
  "fs_supported (realized dg opn res gr d f) = fs_supported f"
  "fs_injectFail (realized dg opn res gr d f) = fs_injectFail f"
  "fs_appliedIndex (realized dg opn res gr d f) = res_Index res"
  "fs_appliedTerm (realized dg opn res gr d f) = res_Term res"
  "fs_applied (realized dg opn res gr d f) = fs_applied (record_applied dg opn res f)"
  by (simp_all add: realized_def record_applied_def)

lemma record_applied_frame [simp]:
  "fs_db (record_applied dg opn res f) = fs_db f" "fs_graphRev (record_applied dg opn res f) = fs_graphRev f"
  "fs_product (record_applied dg opn res f) = fs_product f" "view (record_applied dg opn res f) = view f"
  "fs_applyFailure (record_applied dg opn res f) = fs_applyFailure f"
  "fs_persistedIndex (record_applied dg opn res f) = fs_persistedIndex f"
  "fs_supported (record_applied dg opn res f) = fs_supported f"
  "fs_injectFail (record_applied dg opn res f) = fs_injectFail f"
  "fs_appliedIndex (record_applied dg opn res f) = res_Index res"
  "fs_appliedTerm (record_applied dg opn res f) = res_Term res"
  by (simp_all add: record_applied_def view_def)

lemma realize_ok:
  assumes ok: "replica_ok f"
  shows "replica_ok (fst (realize dg opn i t f))"
proof (cases "spec_step opn (view f)")
  case (Inl e)
  then show ?thesis using ok by (simp add: realize_Inl poison_def replica_ok_def)
next
  case (Inr vn)
  then show ?thesis using realize_Inr [OF ok, of opn "fst vn" "snd vn" dg i t] by (auto simp: replica_ok_def)
qed

lemma applyLocked_ok:
  assumes ok: "replica_ok f"
  shows "replica_ok (fst (applyLocked digest opn i t f))"
  using realize_ok [OF ok] ok
  by (cases rule: applyLocked_cases [where f = f and digest = digest and opn = opn and i = i])
    (simp_all add: applyLocked_branches poison_def replica_ok_def)

section \<open>Replicas\<close>

lemma same_replica_iff:
  "same_replica f g \<longleftrightarrow> (\<exists>e. g = f\<lparr> fs_db := e \<rparr> \<and> posts e = posts (fs_db f) \<and>
     post_dependencies e = post_dependencies (fs_db f) \<and> rules e = rules (fs_db f))"
proof
  assume s: "same_replica f g"
  then have g: "g = f\<lparr> fs_db := fs_db g \<rparr>" by (simp add: same_replica_def)
  have "view g = view f" using s by (simp add: same_replica_def)
  then show "\<exists>e. g = f\<lparr> fs_db := e \<rparr> \<and> posts e = posts (fs_db f) \<and>
     post_dependencies e = post_dependencies (fs_db f) \<and> rules e = rules (fs_db f)"
    using g by (intro exI [of _ "fs_db g"]) (simp add: view_def)
qed (auto simp: same_replica_def view_def)

lemma same_replica_frame:
  assumes "same_replica f g"
  shows "same_replica (setApplyFailure e f) (setApplyFailure e g)"
    and "same_replica (f\<lparr> fs_injectFail := j \<rparr>) (g\<lparr> fs_injectFail := j \<rparr>)"
    and "same_replica (record_applied dg opn res f) (record_applied dg opn res g)"
    and "posts d = posts d' \<Longrightarrow> post_dependencies d = post_dependencies d' \<Longrightarrow> rules d = rules d' \<Longrightarrow>
      same_replica (realized dg opn res gr d f) (realized dg opn res gr d' g)"
proof -
  obtain e' where e: "g = f\<lparr> fs_db := e' \<rparr>" and t: "posts e' = posts (fs_db f)"
     "post_dependencies e' = post_dependencies (fs_db f)" "rules e' = rules (fs_db f)"
    using assms by (auto simp: same_replica_iff)
  show "same_replica (setApplyFailure e f) (setApplyFailure e g)"
    and "same_replica (f\<lparr> fs_injectFail := j \<rparr>) (g\<lparr> fs_injectFail := j \<rparr>)"
    and "same_replica (record_applied dg opn res f) (record_applied dg opn res g)"
    and "posts d = posts d' \<Longrightarrow> post_dependencies d = post_dependencies d' \<Longrightarrow> rules d = rules d' \<Longrightarrow>
      same_replica (realized dg opn res gr d f) (realized dg opn res gr d' g)"
    by (simp_all add: e t same_replica_def setApplyFailure_def view_def record_applied_def realized_def)
qed

lemma realize_same:
  assumes f: "replica_ok f" and g: "replica_ok g" and same: "same_replica f g"
  shows "same_replica (fst (realize dg opn i t f)) (fst (realize dg opn i t g)) \<and>
    snd (realize dg opn i t f) = snd (realize dg opn i t g)"
proof -
  have v: "view g = view f" using same by (simp add: same_replica_def)
  show ?thesis
  proof (cases "spec_step opn (view f)")
    case (Inl x)
    then show ?thesis
      using f g v same by (simp add: realize_Inl poison_def same_replica_frame)
  next
    case (Inr vn)
    then show ?thesis
      using realize_Inr [OF f, of opn "fst vn" "snd vn" dg i t] realize_Inr [OF g, of opn "fst vn" "snd vn" dg i t] v
      by (auto intro!: same_replica_frame(4) [OF same])
  qed
qed

lemma applyLocked_same:
  assumes f: "replica_ok f" and g: "replica_ok g" and same: "same_replica f g"
  shows "same_replica (fst (applyLocked digest opn i t f)) (fst (applyLocked digest opn i t g)) \<and>
    snd (applyLocked digest opn i t f) = snd (applyLocked digest opn i t g)"
proof -
  obtain e where e: "g = f\<lparr> fs_db := e \<rparr>" using same by (auto simp: same_replica_iff)
  have acc: "acceptable digest opn g dg = acceptable digest opn f dg" "injected opn g = injected opn f"
    "fs_applied g = fs_applied f" "fs_applyFailure g = fs_applyFailure f" "guards digest opn g = guards digest opn f"
    "fs_persistedIndex g = fs_persistedIndex f" for dg
    by (simp_all add: e acceptable_def injected_def guards_def)
  show ?thesis
    using realize_same [OF assms] same
    by (cases rule: applyLocked_cases [where f = f and digest = digest and opn = opn and i = i])
      (simp_all add: applyLocked_branches acc poison_def same_replica_frame)
qed

section \<open>The interfaces the state machine offers\<close>

lemma Apply_ok: "replica_ok f \<Longrightarrow> replica_ok (fst (Apply decode digest l f))"
  using applyLocked_ok by (simp add: Apply_def replica_ok_def split: sum.splits)

lemma Apply_same:
  "replica_ok f \<Longrightarrow> replica_ok g \<Longrightarrow> same_replica f g \<Longrightarrow>
   same_replica (fst (Apply decode digest l f)) (fst (Apply decode digest l g)) \<and>
   snd (Apply decode digest l f) = snd (Apply decode digest l g)"
  by (cases "decode (le_Data l)") (simp_all add: Apply_def applyLocked_same same_replica_frame)

lemma Apply_fenced:
  "fs_applyFailure f \<noteq> None \<Longrightarrow> fst (Apply decode digest l f) = f \<and> isl (snd (Apply decode digest l f))"
  by (cases "decode (le_Data l)") (auto simp: Apply_def applyLocked_fenced setApplyFailure_def)

interpretation fsm: replica "Apply decode digest" replica_ok same_replica for decode digest
  by unfold_locales (simp_all add: Apply_ok Apply_same)

interpretation fsm: fenced "Apply decode digest" fs_applyFailure for decode digest
  by unfold_locales (rule Apply_fenced)

section \<open>A failed apply changes nothing but the failure\<close>

lemma in_tx_rollback: "in_tx f body = (f', Inl e) \<Longrightarrow> f' = f"
  by (auto simp: in_tx_def with_tx_def split: prod.splits if_splits sum.splits)

lemma bump_rollback: "bump_graph (in_tx f body) = (f', Inl e) \<Longrightarrow> f' = f"
  by (auto simp: bump_graph_def split: prod.splits sum.splits dest: in_tx_rollback)

lemma apply_kind_rollback: "apply_kind opn i t f = (f', Inl e) \<Longrightarrow> f' = f"
  by (auto simp: apply_kind_def applyPostCreate_def applyPostUpdate_def applyPostDelete_def applyDependencyAdd_def
      applyRuleCreate_def applyRuleSetEnabled_def split: if_splits sum.splits dest: in_tx_rollback bump_rollback)

lemma in_tx_commit: "in_tx f body = (f', Inr x) \<Longrightarrow> f' = f\<lparr> fs_db := fs_db f' \<rparr>"
  by (auto simp: in_tx_def split: prod.splits)

lemma bump_commit: "bump_graph (in_tx f body) = (f', Inr x) \<Longrightarrow> f' = f\<lparr> fs_db := fs_db f', fs_graphRev := fs_graphRev f' \<rparr>"
  by (auto simp: bump_graph_def in_tx_def split: prod.splits sum.splits)

lemma plain_commit: "in_tx f body = (f', Inr x) \<Longrightarrow> f' = f\<lparr> fs_db := fs_db f', fs_graphRev := fs_graphRev f' \<rparr>"
  by (auto simp: in_tx_def split: prod.splits)

lemma apply_kind_commit:
  "apply_kind opn i t f = (f', Inr res) \<Longrightarrow> f' = f\<lparr> fs_db := fs_db f', fs_graphRev := fs_graphRev f' \<rparr>"
  unfolding apply_kind_def applyPostCreate_def applyPostUpdate_def applyPostDelete_def applyDependencyAdd_def
      applyRuleCreate_def applyRuleSetEnabled_def
  by (split if_splits sum.splits | erule conjE | drule bump_commit plain_commit | simp only: prod.inject sum.distinct simp_thms | assumption)+

lemma realize_failed: "realize dg opn i t f = (f', Inl e) \<Longrightarrow> f' = setApplyFailure e f"
  by (auto simp: realize_def poison_def Let_def split: prod.splits sum.splits dest: apply_kind_rollback)

lemma realize_done:
  assumes "realize dg opn i t f = (f', Inr r)"
  obtains res where "r = Some res" "apply_kind opn i t f = (f\<lparr> fs_db := fs_db f', fs_graphRev := fs_graphRev f' \<rparr>, Inr res)"
    "fs_applied f' = (fs_applied f)(op_ID opn \<mapsto> \<lparr> ao_digest = dg, ao_result = Some res, ao_payload = op_Payload opn, ao_revision = op_Revision opn \<rparr>)"
    "fs_applyFailure f' = fs_applyFailure f" "fs_supported f' = fs_supported f"
proof (cases "apply_kind opn i t f")
  case (Pair g r')
  then obtain res where r': "r' = Inr res"
    using assms by (cases r') (simp_all add: realize_def poison_def)
  obtain d gr where g: "g = f\<lparr> fs_db := d, fs_graphRev := gr \<rparr>"
    using apply_kind_commit [of opn i t f g res] Pair r' by blast
  have f': "f' = (if fs_product f = [] then (record_applied dg opn res g)\<lparr> fs_product := op_Product opn \<rparr> else record_applied dg opn res g)"
    "r = Some res"
    using assms Pair r' by (auto simp: realize_def Let_def g)
  show thesis
    using f'(2) Pair r' by (intro that) (simp_all add: f'(1) g, simp_all add: record_applied_def)
qed

section \<open>The sample replica is one\<close>

lemma sample_ok [simp]: "replica_ok sample_fsm"
  by (simp add: replica_ok_def sample_fsm_def db_ok_def alerts_consistent_def observations_consistent_def empty_db_def constraint_defs)

lemma sample_peer_ok: "replica_ok sample_peer"
  by (simp add: replica_ok_def sample_peer_def sample_change_def sample_fsm_def db_ok_def alerts_consistent_def observations_consistent_def
      empty_db_def constraint_defs)

lemma sample_same: "same_replica sample_fsm sample_peer"
  by (simp add: same_replica_def sample_peer_def view_def)

lemma sample_apply:
  "apply_kind sample_op 1 1 sample_fsm =
     (sample_fsm\<lparr> fs_db := empty_db\<lparr> posts := [new_post ''p1'' zero_post], replicated_meta := Some (with_position 1 1 0 []) \<rparr> \<rparr>,
      Inr (result_of sample_op 1 1 1))"
  by (simp add: apply_kind_def sample_op_def sample_fsm_def applyPostCreate_def in_tx_def with_tx_def exec_def
      empty_db_def constraint_defs new_post_def writeMeta_def meta_upsert_def with_position_def)

lemma sample_locked:
  "applyLocked sample_digest sample_op 1 1 sample_fsm =
     (realized ''op-1watchpost.post.create'' sample_op (result_of sample_op 1 1 1) 0
        (empty_db\<lparr> posts := [new_post ''p1'' zero_post], replicated_meta := Some (with_position 1 1 0 []) \<rparr>) sample_fsm,
      Inr (Some (result_of sample_op 1 1 1)))"
proof -
  have acc: "acceptable sample_digest sample_op sample_fsm ''op-1watchpost.post.create''"
    by (simp add: acceptable_def guards_def validateKind_def kinds_def sample_fsm_def sample_op_def sample_digest_def KindPostCreate_def)
  have fields: "fs_applied sample_fsm k = None" "\<not> 1 \<le> fs_persistedIndex sample_fsm" "injected sample_op sample_fsm = None"
    "fs_product sample_fsm = []" for k
    by (simp_all add: sample_fsm_def injected_def)
  have "fs_graphRev sample_fsm = 0" by (simp add: sample_fsm_def)
  then have "realize ''op-1watchpost.post.create'' sample_op 1 1 sample_fsm =
     (realized ''op-1watchpost.post.create'' sample_op (result_of sample_op 1 1 1) 0
        (empty_db\<lparr> posts := [new_post ''p1'' zero_post], replicated_meta := Some (with_position 1 1 0 []) \<rparr>) sample_fsm,
      Inr (Some (result_of sample_op 1 1 1)))"
    by (simp add: realize_def sample_apply Let_def realized_def record_applied_def fields)
  then show ?thesis
    unfolding applyLocked_accepted [OF acc] by (simp add: fields del: not_le)
qed

section \<open>Properties\<close>





text \<open>
  C5: no log can break the database of a replica: keys, foreign keys and checks of the schema hold, the
  dependency graph has no cycle, and alerts and observations agree with their rule and collector.
\<close>

theorem log_keeps_replica_ok:
  assumes "replica_ok f"
  shows "replica_ok (fst (run (Apply decode digest) entries f))"
  using assms by (rule fsm.run_inv)

theorem log_keeps_replica_ok_witness:
  "replica_ok (fst (run (Apply sample_decode sample_digest) sample_log sample_peer))"
  by (rule log_keeps_replica_ok [OF sample_peer_ok])

text \<open>
  C6: once a committed entry has failed to apply, every later entry is refused and changes nothing: the
  database, the position, the graph revision and the known identities stay at the last success.
\<close>

theorem failure_fences_log:
  assumes "fs_applyFailure f \<noteq> None"
  shows "fst (run (Apply decode digest) entries f) = f \<and> list_all isl (snd (run (Apply decode digest) entries f))"
  using fsm.run_fenced [OF assms] by blast

theorem failure_fences_log_witness:
  "fst (run (Apply sample_decode sample_digest) sample_log (setApplyFailure (Err ''disk'') sample_fsm)) = setApplyFailure (Err ''disk'') sample_fsm \<and>
   list_all isl (snd (run (Apply sample_decode sample_digest) sample_log (setApplyFailure (Err ''disk'') sample_fsm)))"
  by (rule failure_fences_log) (simp add: setApplyFailure_def sample_fsm_def)

text \<open>
  An apply that returns an error leaves the database, the position, the graph revision and the known
  identities as they were, even when the database connection fails half way; it marks the replica as failed,
  except for an identity that is retried with another payload, which is refused without a mark.
\<close>

theorem failed_apply_is_atomic:
  assumes "applyLocked digest opn i t f = (f', Inl e)"
  shows "f' = f\<lparr> fs_applyFailure := fs_applyFailure f', fs_injectFail := fs_injectFail f' \<rparr> \<and>
    (fs_applyFailure f' = None \<longrightarrow> f' = f \<and> (\<exists>prior. fs_applied f (op_ID opn) = Some prior \<and> digest opn \<noteq> Inr (ao_digest prior)))"
  using assms
  by (cases rule: applyLocked_cases [where f = f and digest = digest and opn = opn and i = i])
    (auto simp: applyLocked_branches poison_def setApplyFailure_def acceptable_def guards_def bindE_eq_Inr
      split: if_splits dest: realize_failed)

theorem failed_apply_is_atomic_witness:
  "applyLocked sample_digest (sample_op\<lparr> op_Kind := ''watchpost.post.rename'' \<rparr>) 1 1 sample_fsm =
     (setApplyFailure (Err ''unsupported replicated operation kind'') sample_fsm, Inl (Err ''unsupported replicated operation kind'')) \<and>
   fs_applied (setApplyFailure (Err ''unsupported replicated operation kind'') sample_fsm) = Map.empty"
proof -
  have run: "applyLocked sample_digest (sample_op\<lparr> op_Kind := ''watchpost.post.rename'' \<rparr>) 1 1 sample_fsm =
     (setApplyFailure (Err ''unsupported replicated operation kind'') sample_fsm, Inl (Err ''unsupported replicated operation kind''))"
    by (simp add: applyLocked_def sample_fsm_def sample_op_def validateKind_def kinds_def poison_def KindPostCreate_def KindPostUpdate_def
        KindPostDelete_def KindDependencyAdd_def KindRuleCreate_def KindRuleSetEnable_def)
  then show ?thesis using failed_apply_is_atomic [OF run] by (simp add: sample_fsm_def)
qed

text \<open>
  An operation that has been applied can be retried any number of times, at any later index: the answer is
  the one of the first time and the state does not change.
\<close>

theorem applied_operation_is_idempotent:
  assumes "applyLocked digest opn i t f = (f', Inr r)"
  shows "applyLocked digest opn i' t' f' = (f', Inr r)"
  using assms
proof (cases rule: applyLocked_cases [where f = f and digest = digest and opn = opn and i = i])
  case (new dg)
  have "realize dg opn i t f = (f', Inr r)" using assms new by (simp add: applyLocked_branches)
  then show ?thesis
  proof (rule realize_done)
    fix res
    assume "fs_applyFailure f' = fs_applyFailure f" "fs_supported f' = fs_supported f" and r: "r = Some res"
      and a: "fs_applied f' = (fs_applied f)(op_ID opn \<mapsto> \<lparr> ao_digest = dg, ao_result = Some res,
        ao_payload = op_Payload opn, ao_revision = op_Revision opn \<rparr>)"
    then have "acceptable digest opn f' dg" using new by (simp add: acceptable_def guards_def)
    then show ?thesis using a r by (simp add: applyLocked_accepted)
  qed
next
  case (replay dg)
  then have f': "f' = record_applied dg opn (result_of opn i t (op_Revision opn)) f"
    "r = Some (result_of opn i t (op_Revision opn))" using assms by (simp_all add: applyLocked_branches)
  then have "acceptable digest opn f' dg" using replay by (simp add: acceptable_def guards_def)
  then show ?thesis using f' by (simp add: applyLocked_accepted) (simp add: record_applied_def)
qed (auto simp: applyLocked_branches poison_def split: if_splits)

theorem applied_operation_is_idempotent_witness:
  "snd (applyLocked sample_digest sample_op 7 2 (fst (applyLocked sample_digest sample_op 1 1 sample_fsm))) =
     Inr (Some (result_of sample_op 1 1 1))"
  using applied_operation_is_idempotent [OF sample_locked, of 7 2] by (simp add: sample_locked)

end
