(* ===== verification/Replicated_Restart.thy ===== *)
theory Replicated_Restart
  imports Replicated_Log
begin

text \<open>
  The restart of a node: \<open>NewFSM\<close> reads the position from the database and raft replays the whole log.
  The theorem is that the replay changes no row: it only learns the identities of the operations again, and
  the node stands where it stood before. A restart may follow another restart, so the run before the
  crash may itself begin with entries that are replayed.
\<close>

section \<open>Definitions\<close>

text \<open>A restart on the database of \<open>f\<close> succeeds, keeps the database and takes up at index \<open>p\<close>.\<close>

definition restart_at :: "int \<Rightarrow> FSM \<Rightarrow> u64 \<Rightarrow> bool" where
  "restart_at version f p \<longleftrightarrow> (\<exists>g. NewFSM version (fs_db f) = Inr g \<and> fs_db g = fs_db f \<and>
     fs_graphRev g = fs_graphRev f \<and> fs_persistedIndex g = p)"

text \<open>What a run that stays healthy does with one entry.\<close>

definition learns :: "(string \<Rightarrow> err + Operation) \<Rightarrow> (Operation \<Rightarrow> err + string) \<Rightarrow> log_entry \<Rightarrow> u64 \<Rightarrow> FSM \<Rightarrow> FSM \<Rightarrow> bool" where
  "learns decode digest l p f f' \<longleftrightarrow>
     (\<exists>opn dg. decode (le_Data l) = Inr opn \<and> guards digest opn f = Inr dg \<and>
        (digests f (op_ID opn) \<noteq> None \<and> f' = f \<or>
         digests f (op_ID opn) = None \<and> digests f' = (digests f)(op_ID opn \<mapsto> dg) \<and> le_Index l \<le> p))"

section \<open>One entry\<close>

lemma create_meta_ok: "db_ok d \<Longrightarrow> create_meta d = Inr d"
  by (auto simp: create_meta_def db_ok_def)

lemma NewFSM_position:
  assumes "db_ok d" and "stored_position i t g d"
  shows "NewFSM version d = Inr \<lparr> fs_db = d, fs_supported = version, fs_product = [], fs_graphRev = g,
     fs_applied = Map.empty, fs_appliedIndex = i, fs_appliedTerm = t, fs_persistedIndex = i,
     fs_applyFailure = None, fs_injectFail = None \<rparr>"
  using assms by (simp add: NewFSM_def create_meta_ok stored_position_def)

lemma NewFSM_fields:
  assumes "NewFSM version d = Inr g"
  shows "fs_supported g = version" "fs_applied g = Map.empty" "fs_applyFailure g = None" "fs_injectFail g = None"
    "fs_appliedIndex g = fs_persistedIndex g"
  using assms by (auto simp: NewFSM_def bindE_eq_Inr split: prod.splits)

lemma restart_at_new:
  assumes "db_ok (fs_db f)" and "stored_position i t (fs_graphRev f) (fs_db f)"
  shows "restart_at version f i"
  using NewFSM_position [OF assms] by (simp add: restart_at_def)

lemma restart_at_frame:
  "fs_db f' = fs_db f \<Longrightarrow> fs_graphRev f' = fs_graphRev f \<Longrightarrow> restart_at version f' p = restart_at version f p"
  by (simp add: restart_at_def)

lemma digests_record [simp]: "digests (record_applied dg opn res f) = (digests f)(op_ID opn \<mapsto> dg)"
  by (simp add: digests_def record_applied_def fun_eq_iff)

lemma digests_realized [simp]: "digests (realized dg opn res gr d f) = (digests f)(op_ID opn \<mapsto> dg)"
  by (simp add: digests_def realized_def record_applied_def fun_eq_iff)

lemma digests_None: "digests f k = None \<longleftrightarrow> fs_applied f k = None"
  by (simp add: digests_def)

lemma realize_healthy:
  assumes ok: "replica_ok f" and "fs_applyFailure f = None" and h: "fs_applyFailure (fst (realize dg opn i t f)) = None"
  obtains d n gr where "fst (realize dg opn i t f) = realized dg opn (result_of opn i t n) gr d f"
    "db_ok d" "stored_position i t gr d"
proof (cases "spec_step opn (view f)")
  case (Inl e)
  then show thesis using h ok assms(2) by (simp add: realize_Inl poison_def setApplyFailure_def)
next
  case (Inr vn)
  then show thesis using realize_Inr [OF ok, of opn "fst vn" "snd vn" dg i t] that by auto
qed

lemma healthy_step:
  assumes ok: "replica_ok f" and r: "restart_at version f p" and lo: "fs_persistedIndex f \<le> p" and hi: "p \<le> max (fs_persistedIndex f) a"
    and a: "a < le_Index l" and inj: "fs_injectFail f = None" and f': "f' = fst (Apply decode digest l f)"
    and h: "fs_applyFailure f' = None"
  shows "\<exists>p'. restart_at version f' p' \<and> p \<le> p' \<and> p' \<le> max (fs_persistedIndex f') (le_Index l) \<and>
     fs_persistedIndex f' = fs_persistedIndex f \<and> fs_injectFail f' = None \<and> fs_supported f' = fs_supported f \<and>
     learns decode digest l p' f f'"
proof -
  have hf: "fs_applyFailure f = None"
    using h f' Apply_fenced [of f decode digest l] by (cases "fs_applyFailure f") auto
  obtain opn where opn: "decode (le_Data l) = Inr opn"
    using h f' hf by (cases "decode (le_Data l)") (auto simp: Apply_def setApplyFailure_def)
  have f'': "f' = fst (applyLocked digest opn (le_Index l) (le_Term l) f)" using f' opn by (simp add: Apply_def)
  have hi': "p \<le> max (fs_persistedIndex f) (le_Index l)" using hi a by (auto simp: max_def split: if_splits)
  show ?thesis
  proof (cases rule: applyLocked_cases [where f = f and digest = digest and opn = opn and i = "le_Index l"])
    case (known dg prior)
    then have "f' = f" "guards digest opn f = Inr dg" "digests f (op_ID opn) \<noteq> None"
      using f'' by (auto simp: applyLocked_branches acceptable_def digests_def)
    then have "learns decode digest l p f f'" using opn by (auto simp: learns_def)
    then show ?thesis using \<open>f' = f\<close> r hi' inj by (intro exI [of _ p]) auto
  next
    case (replay dg)
    then have f3: "f' = record_applied dg opn (result_of opn (le_Index l) (le_Term l) (op_Revision opn)) f"
      using f'' by (simp add: applyLocked_branches)
    have "learns decode digest l p f f'"
      using replay opn lo f3 by (auto simp: learns_def digests_None acceptable_def)
    then show ?thesis
      using r hi' inj restart_at_frame [of f' f version p] by (intro exI [of _ p]) (auto simp: f3)
  next
    case (new dg)
    have real: "f' = fst (realize dg opn (le_Index l) (le_Term l) f)" using new f'' by (simp add: applyLocked_branches)
    show ?thesis
    proof (rule realize_healthy [OF ok hf h [unfolded real]])
      fix d n gr
      assume f3: "fst (realize dg opn (le_Index l) (le_Term l) f) = realized dg opn (result_of opn (le_Index l) (le_Term l) n) gr d f"
        and d: "db_ok d" "stored_position (le_Index l) (le_Term l) gr d"
      have "restart_at version f' (le_Index l)" using d by (intro restart_at_new) (simp_all add: real f3)
      moreover have "learns decode digest l (le_Index l) f f'"
        using new opn by (auto simp: learns_def digests_None acceptable_def real f3)
      ultimately show ?thesis
        using hi' new inj by (intro exI [of _ "le_Index l"]) (auto simp: real f3 max_def split: if_splits)
    qed
  qed (use hf h f'' inj in \<open>auto simp: applyLocked_branches poison_def setApplyFailure_def injected_def\<close>)
qed

text \<open>The restarted node follows the same entry without touching its database.\<close>

lemma replay_step:
  assumes l: "learns decode digest l p f f'" and p: "p \<le> fs_persistedIndex g" and g: "fs_applyFailure g = None"
    and d: "digests g = digests f" and s: "fs_supported g = fs_supported f" and g': "g' = fst (Apply decode digest l g)"
  shows "fs_db g' = fs_db g \<and> fs_graphRev g' = fs_graphRev g \<and> digests g' = digests f' \<and> fs_applyFailure g' = None \<and>
     fs_persistedIndex g' = fs_persistedIndex g \<and> fs_supported g' = fs_supported g"
proof -
  obtain opn dg where opn: "decode (le_Data l) = Inr opn" and gd: "guards digest opn f = Inr dg"
    and c: "digests f (op_ID opn) \<noteq> None \<and> f' = f \<or>
         digests f (op_ID opn) = None \<and> digests f' = (digests f)(op_ID opn \<mapsto> dg) \<and> le_Index l \<le> p"
    using l by (auto simp: learns_def)
  have acc: "acceptable digest opn g dg" using gd g s by (simp add: acceptable_def guards_def)
  have g'': "g' = fst (applyLocked digest opn (le_Index l) (le_Term l) g)" using g' opn by (simp add: Apply_def)
  show ?thesis
  proof (cases "digests f (op_ID opn)")
    case None
    then have "fs_applied g (op_ID opn) = None" using d digests_None by metis
    moreover have "le_Index l \<le> fs_persistedIndex g" using None c p order_trans by auto
    ultimately show ?thesis using None c d g by (simp add: g'' applyLocked_accepted [OF acc])
  next
    case (Some x)
    then obtain prior where "fs_applied g (op_ID opn) = Some prior" using d digests_None [of g "op_ID opn"] by auto
    then show ?thesis using Some c d g by (simp add: g'' applyLocked_accepted [OF acc])
  qed
qed

lemma replay_run:
  assumes "replica_ok f" and "restart_at version f p" and "fs_persistedIndex f \<le> p" and "p \<le> max (fs_persistedIndex f) a"
    and "increasing_from a entries" and "fs_injectFail f = None"
    and "fs_applyFailure (fst (run (Apply decode digest) entries f)) = None"
  shows "\<exists>q. restart_at version (fst (run (Apply decode digest) entries f)) q \<and> p \<le> q \<and>
     (\<forall>g. q \<le> fs_persistedIndex g \<and> fs_applyFailure g = None \<and> digests g = digests f \<and> fs_supported g = fs_supported f \<longrightarrow>
        (let g' = fst (run (Apply decode digest) entries g) in
          fs_db g' = fs_db g \<and> fs_graphRev g' = fs_graphRev g \<and> fs_applyFailure g' = None \<and>
          digests g' = digests (fst (run (Apply decode digest) entries f))))"
  using assms
proof (induction entries arbitrary: f p a)
  case Nil
  then show ?case by auto
next
  case (Cons l ls)
  let ?f' = "fst (Apply decode digest l f)"
  have h: "fs_applyFailure (fst (run (Apply decode digest) ls ?f')) = None"
    using Cons.prems(7) by (simp only: run_Cons)
  have h': "fs_applyFailure ?f' = None" by (rule fsm.healthy_prefix [OF h])
  obtain p' where p': "restart_at version ?f' p'" "p \<le> p'" "p' \<le> max (fs_persistedIndex ?f') (le_Index l)"
    "fs_persistedIndex ?f' = fs_persistedIndex f" "fs_injectFail ?f' = None" "fs_supported ?f' = fs_supported f"
    "learns decode digest l p' f ?f'"
    using healthy_step [OF Cons.prems(1-4) _ Cons.prems(6) refl h'] Cons.prems(5) by auto
  have lo: "fs_persistedIndex ?f' \<le> p'" using Cons.prems(3) p'(2,4) by simp
  have inc: "increasing_from (le_Index l) ls" using Cons.prems(5) by simp
  obtain q where q: "restart_at version (fst (run (Apply decode digest) ls ?f')) q" "p' \<le> q"
    and rest: "\<And>g. q \<le> fs_persistedIndex g \<and> fs_applyFailure g = None \<and> digests g = digests ?f' \<and> fs_supported g = fs_supported ?f' \<Longrightarrow>
        (let g' = fst (run (Apply decode digest) ls g) in
          fs_db g' = fs_db g \<and> fs_graphRev g' = fs_graphRev g \<and> fs_applyFailure g' = None \<and>
          digests g' = digests (fst (run (Apply decode digest) ls ?f')))"
    using Cons.IH [OF Apply_ok [OF Cons.prems(1)] p'(1) lo p'(3) inc p'(5) h] by blast
  show ?case
  proof (intro exI [of _ q] conjI allI impI)
    show "restart_at version (fst (run (Apply decode digest) (l # ls) f)) q" using q(1) by (simp only: run_Cons)
    show "p \<le> q" by (rule order_trans [OF p'(2) q(2)])
    fix g
    assume g: "q \<le> fs_persistedIndex g \<and> fs_applyFailure g = None \<and> digests g = digests f \<and> fs_supported g = fs_supported f"
    let ?g' = "fst (Apply decode digest l g)"
    have "p' \<le> fs_persistedIndex g" using g q(2) order_trans by blast
    have s: "fs_db ?g' = fs_db g \<and> fs_graphRev ?g' = fs_graphRev g \<and> digests ?g' = digests ?f' \<and> fs_applyFailure ?g' = None \<and>
      fs_persistedIndex ?g' = fs_persistedIndex g \<and> fs_supported ?g' = fs_supported g"
      by (rule replay_step [OF p'(7) \<open>p' \<le> fs_persistedIndex g\<close> _ _ _ refl]) (use g in simp_all)
    then show "let g' = fst (run (Apply decode digest) (l # ls) g) in
          fs_db g' = fs_db g \<and> fs_graphRev g' = fs_graphRev g \<and> fs_applyFailure g' = None \<and>
          digests g' = digests (fst (run (Apply decode digest) (l # ls) f))"
      using rest [of ?g'] g p'(6) by (simp add: run_Cons Let_def del: run.simps(2))
  qed
qed

section \<open>Properties\<close>

text \<open>
  C3: a node that ran a log without a failure and is started again on its database replays the whole log without
  changing a row: the database, the graph revision and the digest of every known operation are those before
  the crash, and no entry fails. The log's indices increase; the node may have been restarted before.
\<close>

theorem restart_replays_without_change:
  assumes "NewFSM version d = Inr f0" and "replica_ok f0" and "increasing_from 0 entries"
    and "f = fst (run (Apply decode digest) entries f0)" and "fs_applyFailure f = None"
  shows "\<exists>g0. NewFSM version (fs_db f) = Inr g0 \<and>
    (let g = fst (run (Apply decode digest) entries g0) in
      fs_db g = fs_db f \<and> fs_graphRev g = fs_graphRev f \<and> digests g = digests f \<and> fs_applyFailure g = None)"
proof -
  have c: "create_meta d = Inr (fs_db f0)"
    using assms(1) by (auto simp: NewFSM_def bindE_eq_Inr split: prod.splits)
  have "create_meta (fs_db f0) = Inr (fs_db f0)"
    using assms(2) by (simp add: create_meta_ok replica_ok_def)
  then have "NewFSM version (fs_db f0) = NewFSM version d"
    using c by (simp add: NewFSM_def)
  then have "restart_at version f0 (fs_persistedIndex f0)"
    using assms(1) by (simp add: restart_at_def)
  then obtain q where q: "restart_at version f q"
    and rest: "\<And>g. q \<le> fs_persistedIndex g \<and> fs_applyFailure g = None \<and> digests g = digests f0 \<and> fs_supported g = fs_supported f0 \<Longrightarrow>
        (let g' = fst (run (Apply decode digest) entries g) in
          fs_db g' = fs_db g \<and> fs_graphRev g' = fs_graphRev g \<and> fs_applyFailure g' = None \<and> digests g' = digests f)"
    using replay_run [OF assms(2) _ order_refl max.cobounded1 assms(3)] assms(4,5) NewFSM_fields(4) [OF assms(1)] by blast
  obtain g0 where g0: "NewFSM version (fs_db f) = Inr g0" "fs_db g0 = fs_db f" "fs_graphRev g0 = fs_graphRev f"
    "fs_persistedIndex g0 = q"
    using q by (auto simp: restart_at_def)
  have "digests g0 = digests f0" "fs_supported g0 = fs_supported f0" "fs_applyFailure g0 = None"
    using NewFSM_fields [OF g0(1)] NewFSM_fields [OF assms(1)] by (simp_all add: digests_def fun_eq_iff)
  then show ?thesis
    using rest [of g0] g0 by (intro exI [of _ g0]) (simp add: Let_def)
qed

lemma sample_run:
  "run (Apply sample_decode sample_digest) sample_log sample_fsm =
     (fst (applyLocked sample_digest sample_op 1 1 sample_fsm), [Inr (Some (result_of sample_op 1 1 1))])"
  by (simp add: sample_log_def Apply_def sample_decode_def sample_locked)

theorem restart_replays_without_change_witness:
  "\<exists>g0. NewFSM 1 (fs_db (fst (run (Apply sample_decode sample_digest) sample_log sample_fsm))) = Inr g0 \<and>
    fs_applyFailure (fst (run (Apply sample_decode sample_digest) sample_log g0)) = None"
proof -
  have "NewFSM 1 empty_db = Inr sample_fsm"
    by (simp add: NewFSM_def create_meta_def metaGet_def materializationCount_def empty_db_def sample_fsm_def)
  moreover have "increasing_from 0 sample_log" by (simp add: sample_log_def)
  moreover have "fs_applyFailure (fst (run (Apply sample_decode sample_digest) sample_log sample_fsm)) = None"
    by (simp add: sample_run sample_locked) (simp add: sample_fsm_def)
  ultimately show ?thesis
    using restart_replays_without_change [OF _ sample_ok _ refl, of 1 empty_db sample_log sample_decode sample_digest] by (auto simp: Let_def)
qed

end
