(* ===== verification/Replicated_Snapshot.thy ===== *)
theory Replicated_Snapshot
  imports Replicated_Log
begin

text \<open>
  Snapshots of the replicated definitions: what \<open>Snapshot\<close> and \<open>Persist\<close> write, \<open>Restore\<close> installs on any
  replica, whose own node-local rows cannot block it; a snapshot that fails a check changes nothing, and one
  that is not ahead of the database never rolls it back.
\<close>

section \<open>Inserting the definitions of a snapshot\<close>

lemma insert_posts_ok:
  "\<not> io_fault d \<Longrightarrow> constraints d \<Longrightarrow> distinct (map po_id (posts d @ ps)) \<Longrightarrow>
   insert_posts ps d = Inr (d\<lparr> posts := posts d @ ps \<rparr>) \<and> constraints (d\<lparr> posts := posts d @ ps \<rparr>)"
proof (induction ps arbitrary: d)
  case (Cons p ps)
  then have c: "constraints (d\<lparr> posts := posts d @ [p] \<rparr>)" by (auto simp: constraints_add_post)
  then have "exec (\<lambda>d. d\<lparr> posts := posts d @ [p] \<rparr>) d = Inr (d\<lparr> posts := posts d @ [p] \<rparr>)"
    using Cons.prems(1) by (simp add: exec_ok)
  then show ?case using Cons.IH [OF _ c] Cons.prems by (simp add: insert_posts_def)
qed (simp add: insert_posts_def)

lemma insert_deps_ok:
  "\<not> io_fault d \<Longrightarrow> constraints d \<Longrightarrow> distinct (post_dependencies d @ es) \<Longrightarrow>
   (\<And>e. e \<in> set es \<Longrightarrow> fst e \<noteq> snd e \<and> {fst e, snd e} \<subseteq> po_id ` set (posts d)) \<Longrightarrow>
   insert_deps es d = Inr (d\<lparr> post_dependencies := post_dependencies d @ es \<rparr>) \<and>
   constraints (d\<lparr> post_dependencies := post_dependencies d @ es \<rparr>)"
proof (induction es arbitrary: d)
  case (Cons e es)
  obtain a b where e: "e = (a, b)" by (cases e)
  have "a \<noteq> b" "a \<in> po_id ` set (posts d)" "b \<in> po_id ` set (posts d)" "(a, b) \<notin> set (post_dependencies d)"
    using Cons.prems(3) Cons.prems(4) [of e] by (auto simp: e)
  then have c: "constraints (d\<lparr> post_dependencies := post_dependencies d @ [e] \<rparr>)"
    using Cons.prems(2) by (simp add: e constraints_add_dep)
  then have "exec (\<lambda>d. d\<lparr> post_dependencies := post_dependencies d @ [e] \<rparr>) d = Inr (d\<lparr> post_dependencies := post_dependencies d @ [e] \<rparr>)"
    using Cons.prems(1) by (simp add: exec_ok)
  then show ?case using Cons.IH [OF _ c] Cons.prems by (simp add: insert_deps_def)
qed (simp add: insert_deps_def)

lemma insert_rules_ok:
  "\<not> io_fault d \<Longrightarrow> constraints d \<Longrightarrow> distinct (map ru_id (rules d @ rs)) \<Longrightarrow>
   (\<And>r. r \<in> set rs \<Longrightarrow> ru_post r \<in> po_id ` set (posts d) \<and> ru_operator r \<in> {''gt'', ''gte'', ''lt'', ''lte''}) \<Longrightarrow>
   insert_rules rs d = Inr (d\<lparr> rules := rules d @ rs \<rparr>) \<and> constraints (d\<lparr> rules := rules d @ rs \<rparr>)"
proof (induction rs arbitrary: d)
  case (Cons r rs)
  have "ru_id r \<notin> ru_id ` set (rules d)" "ru_post r \<in> po_id ` set (posts d)" "ru_operator r \<in> {''gt'', ''gte'', ''lt'', ''lte''}"
    using Cons.prems(3) Cons.prems(4) [of r] by auto
  then have c: "constraints (d\<lparr> rules := rules d @ [r] \<rparr>)"
    using constraints_add_rule [OF Cons.prems(2), of r] by blast
  then have "exec (\<lambda>d. d\<lparr> rules := rules d @ [r] \<rparr>) d = Inr (d\<lparr> rules := rules d @ [r] \<rparr>)"
    using Cons.prems(1) by (simp add: exec_ok)
  then show ?case using Cons.IH [OF _ c] Cons.prems by (simp add: insert_rules_def)
qed (simp add: insert_rules_def)

lemma wiped_tables [simp]:
  "posts (wiped d) = []" "post_dependencies (wiped d) = []" "rules (wiped d) = []"
  "io_fault (wiped d) = io_fault d" "replicated_meta (wiped d) = replicated_meta d"
  by (simp_all add: wiped_def del_posts_def del_check_schedules_def Let_def del_where_def)

lemma wiped_local:
  assumes "constraints d"
  shows "alerts (wiped d) = []" "observations (wiped d) = []"
proof -
  have "alerts (wiped d) = del_where (\<lambda>a. is_post d (al_post a)) (alerts d)"
    "observations (wiped d) = del_where (\<lambda>x. is_post d (ob_post x)) (observations d)"
    by (simp_all add: wiped_def del_posts_def del_check_schedules_def Let_def purge_local_def)
  then show "alerts (wiped d) = []" "observations (wiped d) = []"
    using assms by (auto simp: del_where_def filter_empty_conv constraints_def post_refs_ok_def Let_def fk_iff is_post_def)
qed

text \<open>The definitions of one database put in place of those of another.\<close>

definition transplanted :: "db \<Rightarrow> post_row list \<Rightarrow> dep_row list \<Rightarrow> rule_row list \<Rightarrow> db" where
  "transplanted d ps es rs = (wiped d)\<lparr> posts := ps, post_dependencies := es, rules := rs \<rparr>"

lemma transplant_ok:
  assumes d: "db_ok d" and e: "db_ok e"
  defines "t \<equiv> transplanted d (posts_by_id e) (deps_by_id e) (rules_by_id e)"
  shows "bindE (clearReplicated d) (\<lambda>d. bindE (insert_posts (posts_by_id e) d) (\<lambda>d.
     bindE (insert_deps (deps_by_id e) d) (insert_rules (rules_by_id e)))) = Inr t"
    and "db_ok t"
proof -
  have io: "\<not> io_fault (wiped d)" using d by (simp add: db_ok_def)
  have w: "clearReplicated d = Inr (wiped d)" "constraints (wiped d)"
    using clearReplicated_ok d by (auto simp: db_ok_def)
  have ids: "po_id ` set (posts_by_id e) = po_id ` set (posts e)" by (simp add: posts_by_id_def)
  have "distinct (map po_id (posts_by_id e))" "distinct (map ru_id (rules_by_id e))" "distinct (deps_by_id e)"
    using e by (simp_all add: db_ok_def constraints_def keys_ok_def posts_by_id_def rules_by_id_def deps_by_id_def distinct_map)
  note dist = this
  let ?d1 = "(wiped d)\<lparr> posts := posts_by_id e \<rparr>" and ?d2 = "(wiped d)\<lparr> posts := posts_by_id e, post_dependencies := deps_by_id e \<rparr>"
  have 1: "insert_posts (posts_by_id e) (wiped d) = Inr ?d1 \<and> constraints ?d1"
    using insert_posts_ok [OF io w(2), of "posts_by_id e"] dist by simp
  have deps: "fst x \<noteq> snd x \<and> {fst x, snd x} \<subseteq> po_id ` set (posts ?d1)" if "x \<in> set (deps_by_id e)" for x
    using that e by (auto simp: db_ok_def constraints_def post_refs_ok_def checks_ok_def Let_def fk_iff ids deps_by_id_def list_all_iff)
  have 2: "insert_deps (deps_by_id e) ?d1 = Inr ?d2 \<and> constraints ?d2"
    using insert_deps_ok [of ?d1 "deps_by_id e"] 1 io dist deps by auto
  have rules: "ru_post r \<in> po_id ` set (posts ?d2) \<and> ru_operator r \<in> {''gt'', ''gte'', ''lt'', ''lte''}" if "r \<in> set (rules_by_id e)" for r
    using that e by (auto simp: db_ok_def constraints_def post_refs_ok_def checks_ok_def Let_def fk_iff ids rules_by_id_def list_all_iff)
  have 3: "insert_rules (rules_by_id e) ?d2 = Inr t \<and> constraints t"
    using insert_rules_ok [of ?d2 "rules_by_id e"] 2 io dist rules by (auto simp: t_def transplanted_def)
  show "bindE (clearReplicated d) (\<lambda>d. bindE (insert_posts (posts_by_id e) d) (\<lambda>d.
     bindE (insert_deps (deps_by_id e) d) (insert_rules (rules_by_id e)))) = Inr t"
    using w 1 2 3 by simp
  have "alerts t = []" "observations t = []"
    using wiped_local d by (simp_all add: t_def transplanted_def db_ok_def)
  moreover have "acyclic_deps (post_dependencies t)"
    using e by (simp add: t_def transplanted_def db_ok_def acyclic_deps_def deps_by_id_def)
  ultimately show "db_ok t"
    using 3 d io by (auto simp: db_ok_def alerts_consistent_def observations_consistent_def t_def transplanted_def)
qed

section \<open>Installing an envelope\<close>

lemma install_ok:
  assumes d: "db_ok d" and e: "db_ok e"
    and env: "env_Posts env = posts_by_id e" "env_Dependencies env = deps_by_id e" "env_Rules env = rules_by_id e"
  obtains d' where "install env d = Inr (d', ())" "db_ok d'" "posts d' = posts_by_id e" "post_dependencies d' = deps_by_id e"
    "rules d' = rules_by_id e" "stored_position (env_AppliedIndex env) (env_AppliedTerm env) (env_GraphRevision env) d'"
proof -
  let ?t = "transplanted d (posts_by_id e) (deps_by_id e) (rules_by_id e)"
  obtain m where w: "writeMeta (env_AppliedIndex env) (env_AppliedTerm env) (env_GraphRevision env) ?t = Inr (?t\<lparr> replicated_meta := Some m \<rparr>)"
    "db_ok (?t\<lparr> replicated_meta := Some m \<rparr>)"
    "stored_position (env_AppliedIndex env) (env_AppliedTerm env) (env_GraphRevision env) (?t\<lparr> replicated_meta := Some m \<rparr>)"
    using db_ok_write [OF transplant_ok(2) [OF d e]] by blast
  have "install env d = Inr (?t\<lparr> replicated_meta := Some m \<rparr>, ())"
    using transplant_ok(1) [OF d e] w(1) by (simp add: install_def env) (auto simp: bindE_eq_Inr)
  then show thesis using w by (intro that) (simp_all add: transplanted_def)
qed

lemma sorted_again:
  assumes e: "db_ok e" and "posts d' = posts_by_id e" "post_dependencies d' = deps_by_id e" "rules d' = rules_by_id e"
  shows "posts_by_id d' = posts_by_id e" "deps_by_id d' = deps_by_id e" "rules_by_id d' = rules_by_id e"
  using assms(2-4) by (simp_all add: posts_by_id_def deps_by_id_def rules_by_id_def sorted_sort_id sort_key_id_if_sorted)

lemma Snapshot_ok:
  "replica_ok f \<Longrightarrow> Snapshot f = Inr \<lparr> env_FormatVersion = snapshotFormatVersion, env_ReplicationVersion = fs_supported f,
     env_Product = fs_product f, env_GraphRevision = fs_graphRev f, env_AppliedIndex = fs_appliedIndex f,
     env_AppliedTerm = fs_appliedTerm f, env_Posts = posts_by_id (fs_db f), env_Dependencies = deps_by_id (fs_db f),
     env_Rules = rules_by_id (fs_db f), env_AppliedOps = fs_applied f, env_Integrity = [] \<rparr>"
  by (simp add: Snapshot_def replica_ok_def db_ok_def)

section \<open>A sample snapshot\<close>

text \<open>The sample replica after its first operation, and the envelope of its snapshot.\<close>

definition sample_leader :: FSM where
  "sample_leader = fst (applyLocked sample_digest sample_op 1 1 sample_fsm)"

definition sample_env :: snapshotEnvelope where
  "sample_env = \<lparr> env_FormatVersion = 1, env_ReplicationVersion = 1, env_Product = ''watchpost'', env_GraphRevision = 0,
     env_AppliedIndex = 1, env_AppliedTerm = 1, env_Posts = [new_post ''p1'' zero_post], env_Dependencies = [], env_Rules = [],
     env_AppliedOps = fs_applied sample_leader, env_Integrity = [] \<rparr>"

definition sample_seal :: "snapshotEnvelope \<Rightarrow> string" where
  "sample_seal env = map po_name (env_Posts env) ! 0 @ env_Product env"

lemma sample_leader_ok: "replica_ok sample_leader"
  unfolding sample_leader_def by (rule applyLocked_ok [OF sample_ok])

lemma sample_leader_fields:
  "fs_supported sample_leader = 1" "fs_appliedIndex sample_leader = 1" "fs_product sample_leader = ''watchpost''"
  "fs_graphRev sample_leader = 0" "fs_appliedTerm sample_leader = 1" "fs_persistedIndex sample_leader = 0"
  "fs_db sample_leader = empty_db\<lparr> posts := [new_post ''p1'' zero_post], replicated_meta := Some (with_position 1 1 0 []) \<rparr>"
  by (simp_all add: sample_leader_def sample_locked) (simp_all add: sample_fsm_def sample_op_def result_of_def realized_def)

lemma sample_snapshot: "Snapshot sample_leader = Inr sample_env"
  by (simp add: Snapshot_ok sample_leader_ok sample_env_def sample_leader_fields snapshotFormatVersion_def
      posts_by_id_def deps_by_id_def rules_by_id_def empty_db_def)

lemma sample_persist: "Persist sample_seal sample_env = Inr (Envelope (sample_env\<lparr> env_Integrity := ''watchpost'' \<rparr>))"
  by (simp add: Persist_def marshal_sum_def sample_env_def sample_seal_def new_post_def zero_post_def)

section \<open>Properties\<close>

text \<open>
  C4: a snapshot of one replica restored on another that is behind it succeeds whatever node-local rows the
  other has, keeps the database invariant, and makes the other's own snapshot the one it was restored from.
\<close>

theorem snapshot_restore_roundtrip:
  assumes f: "replica_ok f" and g: "replica_ok g" and s: "Snapshot f = Inr env" and p: "Persist seal env = Inr b"
    and v: "fs_supported f \<le> version" and behind: "fs_persistedIndex g < fs_appliedIndex f"
  shows "\<exists>g'. Restore version seal b g = (g', Inr ()) \<and> replica_ok g' \<and>
    Snapshot g' = Inr (env\<lparr> env_ReplicationVersion := fs_supported g \<rparr>) \<and>
    fs_persistedIndex g' = fs_appliedIndex f \<and>
    stored_position (fs_appliedIndex f) (fs_appliedTerm f) (fs_graphRev f) (fs_db g')"
proof -
  note env = s [unfolded Snapshot_ok [OF f], simplified, symmetric]
  let ?b = "env\<lparr> env_Integrity := seal (env\<lparr> env_Integrity := [] \<rparr>) \<rparr>"
  have b: "b = Envelope ?b" and fin: "list_all finite_row (env_Rules env)"
    using p by (auto simp: Persist_def marshal_sum_def bindE_eq_Inr split: if_splits)
  have tables: "env_Posts ?b = posts_by_id (fs_db f)" "env_Dependencies ?b = deps_by_id (fs_db f)" "env_Rules ?b = rules_by_id (fs_db f)"
    by (simp_all add: env)
  obtain d' where d': "install ?b (fs_db g) = Inr (d', ())" "db_ok d'" "posts d' = posts_by_id (fs_db f)"
    "post_dependencies d' = deps_by_id (fs_db f)" "rules d' = rules_by_id (fs_db f)"
    "stored_position (env_AppliedIndex ?b) (env_AppliedTerm ?b) (env_GraphRevision ?b) d'"
    using install_ok [OF g [unfolded replica_ok_def] f [unfolded replica_ok_def] tables] by blast
  let ?g' = "g\<lparr> fs_db := d', fs_product := fs_product f, fs_graphRev := fs_graphRev f, fs_appliedIndex := fs_appliedIndex f,
    fs_persistedIndex := fs_appliedIndex f, fs_appliedTerm := fs_appliedTerm f, fs_applied := fs_applied f \<rparr>"
  have tx: "in_tx g (install ?b) = (g\<lparr> fs_db := d' \<rparr>, Inr ())"
    using g d'(1) by (intro in_tx_Inr) (simp_all add: replica_ok_def db_ok_def)
  have "Restore version seal b g = (?g', Inr ())"
    using v behind fin tx by (simp add: b Restore_def marshal_sum_def env)
  moreover have "Snapshot ?g' = Inr (env\<lparr> env_ReplicationVersion := fs_supported g \<rparr>)"
    using d'(2) sorted_again [OF f [unfolded replica_ok_def] d'(3-5)] by (simp add: Snapshot_ok replica_ok_def env)
  ultimately show ?thesis using d'(2,6) by (intro exI [of _ ?g']) (simp add: replica_ok_def env)
qed

theorem snapshot_restore_roundtrip_witness:
  "\<exists>g'. Restore 1 sample_seal (Envelope (sample_env\<lparr> env_Integrity := ''watchpost'' \<rparr>)) sample_peer = (g', Inr ()) \<and>
     Snapshot g' = Inr sample_env"
proof -
  have "fs_persistedIndex sample_peer < fs_appliedIndex sample_leader" "fs_supported sample_leader \<le> 1" "fs_supported sample_peer = 1"
    by (simp_all add: sample_leader_fields sample_peer_def sample_fsm_def)
  moreover have "sample_env\<lparr> env_ReplicationVersion := 1 \<rparr> = sample_env" by (simp add: sample_env_def)
  ultimately show ?thesis
    using snapshot_restore_roundtrip [OF sample_leader_ok sample_peer_ok sample_snapshot sample_persist, of 1] by auto
qed

text \<open>
  C7: a snapshot that is refused, because its bytes, its versions or its integrity value are wrong or because
  the database refuses a statement half way, leaves the replica exactly as it was; and what is accepted carries
  the integrity value of its own content.
\<close>

theorem restore_is_atomic_and_checked:
  assumes "Restore version seal b f = (f', r)"
  shows "(isl r \<longrightarrow> f' = f) \<and>
    (r = Inr () \<longrightarrow> (\<exists>env. b = Envelope env \<and> env_Integrity env = seal (env\<lparr> env_Integrity := [] \<rparr>) \<and>
       env_FormatVersion env = snapshotFormatVersion \<and> env_ReplicationVersion env \<le> version))"
  using assms
  by (auto simp: Restore_def marshal_sum_def split: snapshot_bytes.splits if_splits sum.splits prod.splits dest: in_tx_rollback)

theorem restore_is_atomic_and_checked_witness:
  "fst (Restore 1 sample_seal (Envelope (sample_env\<lparr> env_Integrity := ''forged'' \<rparr>)) sample_peer) = sample_peer \<and>
   snd (Restore 1 sample_seal (Envelope (sample_env\<lparr> env_Integrity := ''forged'' \<rparr>)) sample_peer) = Inl (Err ''snapshot integrity mismatch'')"
proof -
  have "snd (Restore 1 sample_seal (Envelope (sample_env\<lparr> env_Integrity := ''forged'' \<rparr>)) sample_peer) = Inl (Err ''snapshot integrity mismatch'')"
    by (simp add: Restore_def sample_env_def snapshotFormatVersion_def marshal_sum_def sample_seal_def new_post_def zero_post_def)
  then show ?thesis
    using restore_is_atomic_and_checked [OF prod.collapse [symmetric], of 1 sample_seal "Envelope (sample_env\<lparr> env_Integrity := ''forged'' \<rparr>)" sample_peer]
    by simp
qed

text \<open>
  A snapshot at or behind the index the database held at start changes no row and no position: only
  identities the node does not know are added, and no known one is replaced.
\<close>

theorem stale_snapshot_only_teaches:
  assumes "Restore version seal (Envelope env) f = (f', Inr ())" and "env_AppliedIndex env \<le> fs_persistedIndex f"
  shows "f' = f\<lparr> fs_applied := fs_applied f' \<rparr> \<and> fs_applied f \<subseteq>\<^sub>m fs_applied f' \<and>
    dom (fs_applied f') = dom (fs_applied f) \<union> dom (env_AppliedOps env)"
proof -
  have "f' = f\<lparr> fs_applied := env_AppliedOps env ++ fs_applied f \<rparr>"
    using assms by (auto simp: Restore_def marshal_sum_def split: if_splits sum.splits)
  then show ?thesis by (simp add: dom_map_add map_le_def dom_def Un_commute) (auto simp: map_add_def split: option.splits)
qed

theorem stale_snapshot_only_teaches_witness:
  "Restore 1 sample_seal (Envelope (sample_env\<lparr> env_Integrity := ''watchpost'' \<rparr>)) (sample_peer\<lparr> fs_persistedIndex := 5 \<rparr>) =
     (sample_peer\<lparr> fs_persistedIndex := 5, fs_applied := fs_applied sample_leader \<rparr>, Inr ()) \<and>
   Map.empty \<subseteq>\<^sub>m fs_applied sample_leader"
proof -
  have r: "Restore 1 sample_seal (Envelope (sample_env\<lparr> env_Integrity := ''watchpost'' \<rparr>)) (sample_peer\<lparr> fs_persistedIndex := 5 \<rparr>) =
     (sample_peer\<lparr> fs_persistedIndex := 5, fs_applied := fs_applied sample_leader \<rparr>, Inr ())"
    by (simp add: Restore_def sample_env_def snapshotFormatVersion_def marshal_sum_def sample_seal_def new_post_def zero_post_def
        sample_peer_def sample_fsm_def)
  have "env_AppliedIndex (sample_env\<lparr> env_Integrity := ''watchpost'' \<rparr>) \<le> fs_persistedIndex (sample_peer\<lparr> fs_persistedIndex := 5 \<rparr>)"
    by (simp add: sample_env_def)
  from stale_snapshot_only_teaches [OF r this] show ?thesis using r by (simp add: sample_peer_def sample_fsm_def)
qed

end
