(* ===== verification/Replicated_Adapter.thy ===== *)
theory Replicated_Adapter
  imports Replicated_Log
begin

text \<open>
  The replicated write path above the state machine: \<open>ops.go\<close> (building an operation, the validation of an
  edge), \<open>adapter.go\<close> (the leader's admission of a mutation) and \<open>controller.go\<close> (the router that the posts and
  rules services call, and the leader's endpoint for forwarded mutations), all in \<open>internal/replicated\<close>.

  gantry-core is not part of the repository. \<open>node.Propose\<close> is the parameter \<open>propose\<close>, the product version
  \<open>replication.Version\<close> is \<open>version\<close>, the routing matrix of \<open>replication.Authority\<close> is \<open>core_route\<close>, and a
  forwarding client and \<open>node.WaitApplied\<close> are functions on the world. What the documentation of
  these calls promises is stated as the predicates \<open>proposes_applied\<close> and \<open>authority_matrix\<close>.
  The random part of a generated identity is an argument, \<open>None\<close> when the random source fails; the identity a
  caller supplies with its request is the argument \<open>rid\<close>, empty when there is none. The test hook
  \<open>BeforeGraphValidate\<close> is nil. The admission lock serialises graph mutations, so each is one function.
\<close>

section \<open>Operations (ops.go)\<close>

text \<open>\<open>json.Marshal\<close> of a payload; nil is \<open>null\<close>.\<close>

fun marshal :: "payload \<Rightarrow> err + payload" where
  "marshal (RuleJSON r) = (if finite_rule r then Inr (RuleJSON r) else Inl (Err ''json: unsupported value''))"
| "marshal p = Inr p"

definition buildOperation :: "int \<Rightarrow> string \<Rightarrow> string \<Rightarrow> string \<Rightarrow> id \<Rightarrow> int \<Rightarrow> u64 \<Rightarrow> payload \<Rightarrow> err + Operation" where
  "buildOperation version opID product kind objectID revision domainRev payload =
     bindE (marshal payload) (\<lambda>p.
     Inr \<lparr> op_ID = opID, op_Product = product, op_Version = version, op_Kind = kind, op_ObjectKind = ''post'',
           op_ObjectID = objectID, op_Revision = revision, op_DomainRevision = domainRev, op_Payload = p,
           op_OriginNode = product \<rparr>)"

definition validateDependencyAdd :: "db \<Rightarrow> id \<Rightarrow> id \<Rightarrow> err + unit" where
  "validateDependencyAdd d src depends =
     bindE (ensure (src \<noteq> [] \<and> depends \<noteq> []) (Err ''dependency endpoints must be non-empty'')) (\<lambda>_.
     bindE (ensure (src \<noteq> depends) (Err ''self dependency'')) (\<lambda>_.
     bindE (query (\<lambda>d. count_where (\<lambda>p. po_id p \<in> {src, depends}) (posts d)) d) (\<lambda>existing.
     bindE (ensure (existing = 2) (Err ''dependency endpoints must exist as replicated posts'')) (\<lambda>_.
     bindE (query (\<lambda>d. count_where (\<lambda>e. e = (src, depends)) (post_dependencies d)) d) (\<lambda>dup.
     bindE (ensure (dup = 0) (Err ''duplicate dependency'')) (\<lambda>_.
     bindE (query (\<lambda>d. cycle_count (post_dependencies d) depends src) d) (\<lambda>cycle.
     ensure (cycle = 0) (Err ''dependency cycle would be created''))))))))"

section \<open>The adapter (adapter.go)\<close>

definition equalFloatPtr :: "f64 option \<Rightarrow> f64 option \<Rightarrow> bool" where
  "equalFloatPtr a b = (case (a, b) of (Some x, Some y) \<Rightarrow> f64_eq x y | (None, None) \<Rightarrow> True | _ \<Rightarrow> False)"

definition same_post :: "PostPayload \<Rightarrow> PostPayload \<Rightarrow> bool" where
  "same_post p q \<longleftrightarrow> pp_name p = pp_name q \<and> pp_kind p = pp_kind q \<and> pp_address p = pp_address q \<and> pp_owner p = pp_owner q \<and>
     pp_labels p = pp_labels q \<and> pp_maintenance p = pp_maintenance q \<and> pp_archived p = pp_archived q"

definition same_rule :: "RulePayload \<Rightarrow> RulePayload \<Rightarrow> bool" where
  "same_rule p q \<longleftrightarrow> rp_post p = rp_post q \<and> rp_signal p = rp_signal q \<and> rp_operator p = rp_operator q \<and>
     f64_eq (rp_threshold p) (rp_threshold q) \<and> rp_duration p = rp_duration q \<and>
     equalFloatPtr (rp_recovery p) (rp_recovery q) \<and> rp_missing p = rp_missing q \<and> rp_severity p = rp_severity q \<and>
     rp_enabled p = rp_enabled q"

text \<open>Two payloads decoded with the same decoder and compared; a decoding error counts as a difference.\<close>

definition both :: "(payload \<Rightarrow> err + 'a) \<Rightarrow> ('a \<Rightarrow> 'a \<Rightarrow> bool) \<Rightarrow> payload \<Rightarrow> payload \<Rightarrow> bool" where
  "both dec eq a b = (case (dec a, dec b) of (Inr p, Inr q) \<Rightarrow> eq p q | _ \<Rightarrow> False)"

definition semanticallyEquivalent :: "string \<Rightarrow> appliedOp \<Rightarrow> id \<Rightarrow> int \<Rightarrow> payload \<Rightarrow> bool" where
  "semanticallyEquivalent kind prior objectID revision payload =
     (case ao_result prior of
        None \<Rightarrow> False
      | Some res \<Rightarrow>
        if res_ObjectID res \<noteq> objectID \<or> ao_revision prior \<noteq> revision then False
        else case marshal payload of
          Inl e \<Rightarrow> False
        | Inr raw \<Rightarrow>
          if kind = KindPostCreate \<or> kind = KindPostUpdate then both unmarshalPost same_post (ao_payload prior) raw
          else if kind = KindRuleCreate then both unmarshalRule same_rule (ao_payload prior) raw
          else if kind = KindRuleSetEnable
            then both unmarshalRule (\<lambda>p q. rp_enabled p = rp_enabled q) (ao_payload prior) raw
          else if kind = KindDependencyAdd then both unmarshalDep (\<lambda>p q. p = q) (ao_payload prior) raw
          else kind = KindPostDelete)"

text \<open>
  The head of both admission functions: an unhealthy replica refuses, and a known identity is answered from
  the record or refused; otherwise the rest of the function runs.
\<close>

definition admit :: "string \<Rightarrow> string \<Rightarrow> id \<Rightarrow> int \<Rightarrow> payload \<Rightarrow> (FSM \<Rightarrow> FSM \<times> reply) \<Rightarrow> FSM \<Rightarrow> FSM \<times> reply" where
  "admit opID kind objectID revision payload continue f =
     (case ApplyFailure f of
        Some e \<Rightarrow> (f, Inl (Wrapped ''replica unhealthy'' e))
      | None \<Rightarrow>
        (case AppliedOp opID f of
           Some prior \<Rightarrow>
             if ao_payload prior = NoBytes then continue f
             else if \<not> semanticallyEquivalent kind prior objectID revision payload
             then (f, Inl (Err ''operation id already applied with a different payload; refusing''))
             else (f, Inr (ao_result prior))
         | None \<Rightarrow> continue f))"

definition submit :: "(Operation \<Rightarrow> FSM \<Rightarrow> FSM \<times> reply) \<Rightarrow> err + Operation \<Rightarrow> FSM \<Rightarrow> FSM \<times> reply" where
  "submit propose built f = (case built of Inl e \<Rightarrow> (f, Inl e) | Inr opn \<Rightarrow> propose opn f)"

record Adapter =
  ad_version :: int
  ad_product :: string
  ad_propose :: "Operation \<Rightarrow> FSM \<Rightarrow> FSM \<times> reply"

definition proposeOp :: "Adapter \<Rightarrow> string \<Rightarrow> string \<Rightarrow> id \<Rightarrow> int \<Rightarrow> u64 \<Rightarrow> payload \<Rightarrow> FSM \<Rightarrow> FSM \<times> reply" where
  "proposeOp a opID kind objectID revision domainRevision payload =
     admit opID kind objectID revision payload (\<lambda>f.
       submit (ad_propose a) (buildOperation (ad_version a) opID (ad_product a) kind objectID revision domainRevision payload) f)"

definition graphPropose :: "Adapter \<Rightarrow> string \<Rightarrow> string \<Rightarrow> id \<Rightarrow> int \<Rightarrow> payload \<Rightarrow> (db \<Rightarrow> err + unit) option \<Rightarrow> FSM \<Rightarrow> FSM \<times> reply" where
  "graphPropose a kind opID objectID revision payload validate =
     admit opID kind objectID revision payload (\<lambda>f.
       let g = GraphRevision f in
       case (case validate of None \<Rightarrow> Inr () | Some v \<Rightarrow> v (fs_db f)) of
         Inl e \<Rightarrow> (f, Inl e)
       | Inr _ \<Rightarrow>
         if GraphRevision f \<noteq> g then (f, Inl (Err ''dependency graph changed during validation; revalidate the intent''))
         else submit (ad_propose a) (buildOperation (ad_version a) opID (ad_product a) kind objectID revision g payload) f)"

text \<open>\<open>RequestID(ctx)\<close> when the caller supplied one, else a prefix with a random part.\<close>

definition opID :: "string \<Rightarrow> string option \<Rightarrow> string" where
  "opID prefix rnd = (case rnd of None \<Rightarrow> prefix | Some b \<Rightarrow> prefix @ ''-'' @ b)"

definition resolveOpID :: "string \<Rightarrow> string option \<Rightarrow> string \<Rightarrow> string" where
  "resolveOpID rid rnd prefix = (if rid \<noteq> [] then rid else opID prefix rnd)"

definition CreatePostWithOp :: "Adapter \<Rightarrow> id \<Rightarrow> string \<Rightarrow> PostPayload \<Rightarrow> FSM \<Rightarrow> FSM \<times> reply" where
  "CreatePostWithOp a i oid p = proposeOp a oid KindPostCreate i 0 0 (PostJSON p)"

definition UpdatePostWithOp :: "Adapter \<Rightarrow> id \<Rightarrow> string \<Rightarrow> int \<Rightarrow> PostPayload \<Rightarrow> FSM \<Rightarrow> FSM \<times> reply" where
  "UpdatePostWithOp a i oid expected p = proposeOp a oid KindPostUpdate i expected 0 (PostJSON p)"

definition DeletePostWithOp :: "Adapter \<Rightarrow> id \<Rightarrow> string \<Rightarrow> FSM \<Rightarrow> FSM \<times> reply" where
  "DeletePostWithOp a i oid = graphPropose a KindPostDelete oid i 0 NullJSON None"

definition AddDependencyWithOp :: "Adapter \<Rightarrow> id \<Rightarrow> string \<Rightarrow> id \<Rightarrow> FSM \<Rightarrow> FSM \<times> reply" where
  "AddDependencyWithOp a src oid depends =
     graphPropose a KindDependencyAdd oid src 0 (DepJSON depends) (Some (\<lambda>d. validateDependencyAdd d src depends))"

definition CreateRuleWithOp :: "Adapter \<Rightarrow> id \<Rightarrow> string \<Rightarrow> RulePayload \<Rightarrow> FSM \<Rightarrow> FSM \<times> reply" where
  "CreateRuleWithOp a i oid r = proposeOp a oid KindRuleCreate i 0 0 (RuleJSON r)"

definition SetRuleEnabledWithOp :: "Adapter \<Rightarrow> id \<Rightarrow> string \<Rightarrow> int \<Rightarrow> bool \<Rightarrow> FSM \<Rightarrow> FSM \<times> reply" where
  "SetRuleEnabledWithOp a i oid expected enabled =
     proposeOp a oid KindRuleSetEnable i expected 0 (RuleJSON (zero_rule\<lparr> rp_enabled := enabled \<rparr>))"

text \<open>The six methods for local requests differ in nothing but the identity.\<close>

definition CreatePost :: "Adapter \<Rightarrow> string \<Rightarrow> string option \<Rightarrow> id \<Rightarrow> PostPayload \<Rightarrow> FSM \<Rightarrow> FSM \<times> reply" where
  "CreatePost a rid rnd i p = proposeOp a (resolveOpID rid rnd ''post'') KindPostCreate i 0 0 (PostJSON p)"

definition UpdatePost :: "Adapter \<Rightarrow> string \<Rightarrow> string option \<Rightarrow> id \<Rightarrow> int \<Rightarrow> PostPayload \<Rightarrow> FSM \<Rightarrow> FSM \<times> reply" where
  "UpdatePost a rid rnd i expected p = proposeOp a (resolveOpID rid rnd ''post'') KindPostUpdate i expected 0 (PostJSON p)"

definition DeletePost :: "Adapter \<Rightarrow> string \<Rightarrow> string option \<Rightarrow> id \<Rightarrow> FSM \<Rightarrow> FSM \<times> reply" where
  "DeletePost a rid rnd i = graphPropose a KindPostDelete (resolveOpID rid rnd ''post'') i 0 NullJSON None"

definition AddDependency :: "Adapter \<Rightarrow> string \<Rightarrow> string option \<Rightarrow> id \<Rightarrow> id \<Rightarrow> FSM \<Rightarrow> FSM \<times> reply" where
  "AddDependency a rid rnd src depends =
     graphPropose a KindDependencyAdd (resolveOpID rid rnd ''dep'') src 0 (DepJSON depends) (Some (\<lambda>d. validateDependencyAdd d src depends))"

definition CreateRule :: "Adapter \<Rightarrow> string \<Rightarrow> string option \<Rightarrow> id \<Rightarrow> RulePayload \<Rightarrow> FSM \<Rightarrow> FSM \<times> reply" where
  "CreateRule a rid rnd i r = proposeOp a (resolveOpID rid rnd ''rule'') KindRuleCreate i 0 0 (RuleJSON r)"

definition SetRuleEnabled :: "Adapter \<Rightarrow> string \<Rightarrow> string option \<Rightarrow> id \<Rightarrow> int \<Rightarrow> bool \<Rightarrow> FSM \<Rightarrow> FSM \<times> reply" where
  "SetRuleEnabled a rid rnd i expected enabled =
     proposeOp a (resolveOpID rid rnd ''rule'') KindRuleSetEnable i expected 0 (RuleJSON (zero_rule\<lparr> rp_enabled := enabled \<rparr>))"

section \<open>The controller (controller.go)\<close>

datatype Mode = ModeStandalone | ModeReplicated

datatype Readiness = ReadinessStarting | ReadinessLearner | ReadinessReadyFollower | ReadinessReadyLeader
  | ReadinessNoLeader | ReadinessUnhealthy | ReadinessShuttingDown

record ForwardRequest =
  fr_Kind :: string
  fr_ObjectID :: id
  fr_OpID :: string
  fr_Revision :: int
  fr_Payload :: payload

text \<open>The node's own state machine and, where the deterministic resolver has one, the leader's.\<close>

record world =
  w_local :: FSM
  w_leader :: "FSM option"

record Controller =
  ct_mode :: Mode
  ct_readiness :: Readiness
  ct_forward :: "(ForwardRequest \<Rightarrow> world \<Rightarrow> world \<times> reply) option"
  ct_wait :: "u64 \<Rightarrow> world \<Rightarrow> world \<times> (err + unit)"
  ct_adapter :: Adapter

type_synonym core_route = "Mode \<Rightarrow> Readiness \<Rightarrow> (world \<Rightarrow> world \<times> reply) \<Rightarrow> (world \<Rightarrow> world \<times> reply) \<Rightarrow> world \<Rightarrow> world \<times> reply"

definition NewController :: "Adapter \<Rightarrow> (u64 \<Rightarrow> world \<Rightarrow> world \<times> (err + unit)) \<Rightarrow> Controller" where
  "NewController a wait = \<lparr> ct_mode = ModeStandalone, ct_readiness = ReadinessStarting, ct_forward = None, ct_wait = wait, ct_adapter = a \<rparr>"

definition SetMode :: "Mode \<Rightarrow> Controller \<Rightarrow> Controller" where
  "SetMode m c = c\<lparr> ct_mode := m \<rparr>"

definition SetReadiness :: "Readiness \<Rightarrow> Controller \<Rightarrow> Controller" where
  "SetReadiness r c = c\<lparr> ct_readiness := r \<rparr>"

definition SetForwardClient :: "(ForwardRequest \<Rightarrow> world \<Rightarrow> world \<times> reply) \<Rightarrow> Controller \<Rightarrow> Controller" where
  "SetForwardClient fc c = c\<lparr> ct_forward := Some fc \<rparr>"

definition propose_local :: "(FSM \<Rightarrow> FSM \<times> reply) \<Rightarrow> world \<Rightarrow> world \<times> reply" where
  "propose_local ex w = (case ex (w_local w) of (f, r) \<Rightarrow> (w\<lparr> w_local := f \<rparr>, r))"

definition forward_leader :: "Controller \<Rightarrow> ForwardRequest \<Rightarrow> (FSM \<Rightarrow> FSM \<times> reply) \<Rightarrow> world \<Rightarrow> world \<times> reply" where
  "forward_leader c fr ex w =
     (case ct_forward c of
        Some fc \<Rightarrow>
          (case fc fr w of
             (w, Inl e) \<Rightarrow> (w, Inl e)
           | (w, Inr None) \<Rightarrow> (w, Inr None)
           | (w, Inr (Some res)) \<Rightarrow>
               (case ct_wait c (res_Index res) w of
                  (w, Inl e) \<Rightarrow> (w, Inl e)
                | (w, Inr _) \<Rightarrow> (w, Inr (Some res))))
      | None \<Rightarrow>
          (case w_leader w of
             None \<Rightarrow> (w, Inl (Err ''replicated mutation unavailable: no leader to forward to''))
           | Some g \<Rightarrow> (case ex g of (g', r) \<Rightarrow> (w\<lparr> w_leader := Some g' \<rparr>, r))))"

definition route :: "core_route \<Rightarrow> Controller \<Rightarrow> ForwardRequest \<Rightarrow> (FSM \<Rightarrow> FSM \<times> reply) \<Rightarrow> world \<Rightarrow> world \<times> reply" where
  "route core c fr ex w = core (ct_mode c) (ct_readiness c) (propose_local ex) (forward_leader c fr ex) w"

text \<open>\<open>mustJSON\<close>: the JSON of a payload, no bytes when it cannot be written.\<close>

definition mustJSON :: "payload \<Rightarrow> payload" where
  "mustJSON p = (case marshal p of Inl _ \<Rightarrow> NoBytes | Inr b \<Rightarrow> b)"

definition Router_CreatePost :: "core_route \<Rightarrow> Controller \<Rightarrow> string \<Rightarrow> string option \<Rightarrow> string option \<Rightarrow> id \<Rightarrow> PostPayload \<Rightarrow> world \<Rightarrow> world \<times> reply" where
  "Router_CreatePost core c rid rnd1 rnd2 i p =
     route core c \<lparr> fr_Kind = KindPostCreate, fr_ObjectID = i, fr_OpID = resolveOpID rid rnd1 ''post'', fr_Revision = 0, fr_Payload = mustJSON (PostJSON p) \<rparr>
       (CreatePost (ct_adapter c) rid rnd2 i p)"

definition Router_UpdatePost :: "core_route \<Rightarrow> Controller \<Rightarrow> string \<Rightarrow> string option \<Rightarrow> string option \<Rightarrow> id \<Rightarrow> int \<Rightarrow> PostPayload \<Rightarrow> world \<Rightarrow> world \<times> reply" where
  "Router_UpdatePost core c rid rnd1 rnd2 i expected p =
     route core c \<lparr> fr_Kind = KindPostUpdate, fr_ObjectID = i, fr_OpID = resolveOpID rid rnd1 ''post'', fr_Revision = expected, fr_Payload = mustJSON (PostJSON p) \<rparr>
       (UpdatePost (ct_adapter c) rid rnd2 i expected p)"

definition Router_DeletePost :: "core_route \<Rightarrow> Controller \<Rightarrow> string \<Rightarrow> string option \<Rightarrow> string option \<Rightarrow> id \<Rightarrow> world \<Rightarrow> world \<times> reply" where
  "Router_DeletePost core c rid rnd1 rnd2 i =
     route core c \<lparr> fr_Kind = KindPostDelete, fr_ObjectID = i, fr_OpID = resolveOpID rid rnd1 ''post'', fr_Revision = 0, fr_Payload = NoBytes \<rparr>
       (DeletePost (ct_adapter c) rid rnd2 i)"

definition Router_AddDependency :: "core_route \<Rightarrow> Controller \<Rightarrow> string \<Rightarrow> string option \<Rightarrow> string option \<Rightarrow> id \<Rightarrow> id \<Rightarrow> world \<Rightarrow> world \<times> reply" where
  "Router_AddDependency core c rid rnd1 rnd2 src depends =
     route core c \<lparr> fr_Kind = KindDependencyAdd, fr_ObjectID = src, fr_OpID = resolveOpID rid rnd1 ''dep'', fr_Revision = 0, fr_Payload = mustJSON (DepJSON depends) \<rparr>
       (AddDependency (ct_adapter c) rid rnd2 src depends)"

definition Router_CreateRule :: "core_route \<Rightarrow> Controller \<Rightarrow> string \<Rightarrow> string option \<Rightarrow> string option \<Rightarrow> id \<Rightarrow> RulePayload \<Rightarrow> world \<Rightarrow> world \<times> reply" where
  "Router_CreateRule core c rid rnd1 rnd2 i r =
     route core c \<lparr> fr_Kind = KindRuleCreate, fr_ObjectID = i, fr_OpID = resolveOpID rid rnd1 ''rule'', fr_Revision = 0, fr_Payload = mustJSON (RuleJSON r) \<rparr>
       (CreateRule (ct_adapter c) rid rnd2 i r)"

definition Router_SetRuleEnabled :: "core_route \<Rightarrow> Controller \<Rightarrow> string \<Rightarrow> string option \<Rightarrow> string option \<Rightarrow> id \<Rightarrow> int \<Rightarrow> bool \<Rightarrow> world \<Rightarrow> world \<times> reply" where
  "Router_SetRuleEnabled core c rid rnd1 rnd2 i expected enabled =
     route core c \<lparr> fr_Kind = KindRuleSetEnable, fr_ObjectID = i, fr_OpID = resolveOpID rid rnd1 ''rule'', fr_Revision = expected,
         fr_Payload = mustJSON (RuleJSON (zero_rule\<lparr> rp_enabled := enabled \<rparr>)) \<rparr>
       (SetRuleEnabled (ct_adapter c) rid rnd2 i expected enabled)"

definition applyForwarded :: "Adapter \<Rightarrow> ForwardRequest \<Rightarrow> FSM \<Rightarrow> FSM \<times> reply" where
  "applyForwarded a fr f =
     (if fr_Kind fr = KindPostCreate then
        (case unmarshalPost (fr_Payload fr) of Inl e \<Rightarrow> (f, Inl e)
         | Inr p \<Rightarrow> CreatePostWithOp a (fr_ObjectID fr) (fr_OpID fr) p f)
      else if fr_Kind fr = KindPostUpdate then
        (case unmarshalPost (fr_Payload fr) of Inl e \<Rightarrow> (f, Inl e)
         | Inr p \<Rightarrow> UpdatePostWithOp a (fr_ObjectID fr) (fr_OpID fr) (fr_Revision fr) p f)
      else if fr_Kind fr = KindPostDelete then DeletePostWithOp a (fr_ObjectID fr) (fr_OpID fr) f
      else if fr_Kind fr = KindDependencyAdd then
        (case unmarshalDep (fr_Payload fr) of Inl e \<Rightarrow> (f, Inl e)
         | Inr b \<Rightarrow> AddDependencyWithOp a (fr_ObjectID fr) (fr_OpID fr) b f)
      else if fr_Kind fr = KindRuleCreate then
        (case unmarshalRule (fr_Payload fr) of Inl e \<Rightarrow> (f, Inl e)
         | Inr p \<Rightarrow> CreateRuleWithOp a (fr_ObjectID fr) (fr_OpID fr) p f)
      else if fr_Kind fr = KindRuleSetEnable then
        (case unmarshalRule (fr_Payload fr) of Inl e \<Rightarrow> (f, Inl e)
         | Inr p \<Rightarrow> SetRuleEnabledWithOp a (fr_ObjectID fr) (fr_OpID fr) (fr_Revision fr) (rp_enabled p) f)
      else (f, Inl (Err ''unsupported forwarded kind'')))"

text \<open>The body the leader's endpoint runs for an authenticated request.\<close>

definition LeaderProposeHandler :: "Controller \<Rightarrow> ForwardRequest \<Rightarrow> FSM \<Rightarrow> FSM \<times> reply" where
  "LeaderProposeHandler c fr f =
     (if ct_mode c \<noteq> ModeReplicated \<or> ct_readiness c \<noteq> ReadinessReadyLeader then (f, Inl (Err ''leader not ready''))
      else applyForwarded (ct_adapter c) fr f)"

section \<open>What gantry-core promises\<close>

text \<open>
  \<open>Propose\<close> on a leader returns after the operation is committed and applied, at some index above those the
  database held at start, or returns an error and nothing has been applied.
\<close>

definition proposes_applied :: "(Operation \<Rightarrow> err + string) \<Rightarrow> Adapter \<Rightarrow> bool" where
  "proposes_applied digest a \<longleftrightarrow>
     (\<forall>opn f. (\<exists>e. ad_propose a opn f = (f, Inl e)) \<or>
       (\<exists>i t. fs_persistedIndex f < i \<and> ad_propose a opn f = applyLocked digest opn i t f))"

text \<open>\<open>errors.Is(err, ErrStandalonePath)\<close>\<close>

fun is_standalone :: "err \<Rightarrow> bool" where
  "is_standalone ErrStandalonePath = True"
| "is_standalone (Wrapped m e) = is_standalone e"
| "is_standalone _ = False"

text \<open>The matrix of \<open>Authority.Route\<close>.\<close>

definition authority_matrix :: "core_route \<Rightarrow> bool" where
  "authority_matrix core \<longleftrightarrow>
     (\<forall>r p fw w. core ModeStandalone r p fw w = (w, Inl ErrStandalonePath)) \<and>
     (\<forall>p fw w. core ModeReplicated ReadinessReadyLeader p fw w = p w) \<and>
     (\<forall>p fw w. core ModeReplicated ReadinessReadyFollower p fw w = fw w) \<and>
     (\<forall>r p fw w. r \<notin> {ReadinessReadyLeader, ReadinessReadyFollower} \<longrightarrow>
        (\<exists>e. \<not> is_standalone e \<and> core ModeReplicated r p fw w = (w, Inl e)))"

text \<open>The case in which the leader commits what it is given.\<close>

definition commits :: "(Operation \<Rightarrow> err + string) \<Rightarrow> Adapter \<Rightarrow> FSM \<Rightarrow> bool" where
  "commits digest a f \<longleftrightarrow> (\<forall>opn. \<exists>i t. fs_persistedIndex f < i \<and> ad_propose a opn f = applyLocked digest opn i t f)"

text \<open>A replica that will accept operations of the adapter: healthy, no injected failure, and not older than the adapter.\<close>

definition serving :: "(Operation \<Rightarrow> err + string) \<Rightarrow> Adapter \<Rightarrow> FSM \<Rightarrow> bool" where
  "serving digest a f \<longleftrightarrow> replica_ok f \<and> fs_applyFailure f = None \<and> fs_injectFail f = None \<and>
     ad_version a \<le> fs_supported f \<and> (\<forall>opn. \<not> isl (digest opn))"

text \<open>A sample leader with room for one entry in its log.\<close>

definition sample_adapter :: Adapter where
  "sample_adapter = \<lparr> ad_version = 1, ad_product = ''watchpost'', ad_propose = (\<lambda>opn f.
     if 1 \<le> fs_persistedIndex f then (f, Inl (Err ''log full'')) else applyLocked sample_digest opn 1 1 f) \<rparr>"

definition sample_core :: core_route where
  "sample_core m r p fw w =
     (if m = ModeStandalone then (w, Inl ErrStandalonePath)
      else if r = ReadinessReadyLeader then p w
      else if r = ReadinessReadyFollower then fw w
      else (w, Inl (Err ''replicated mutation unavailable'')))"

section \<open>Lemmas\<close>

lemma kinds_distinct [simp]:
  "KindPostCreate \<noteq> KindPostUpdate" "KindPostUpdate \<noteq> KindPostCreate" "KindPostCreate \<noteq> KindPostDelete" "KindPostDelete \<noteq> KindPostCreate"
  "KindPostCreate \<noteq> KindDependencyAdd" "KindDependencyAdd \<noteq> KindPostCreate" "KindPostCreate \<noteq> KindRuleCreate" "KindRuleCreate \<noteq> KindPostCreate"
  "KindPostCreate \<noteq> KindRuleSetEnable" "KindRuleSetEnable \<noteq> KindPostCreate" "KindPostUpdate \<noteq> KindPostDelete" "KindPostDelete \<noteq> KindPostUpdate"
  "KindPostUpdate \<noteq> KindDependencyAdd" "KindDependencyAdd \<noteq> KindPostUpdate" "KindPostUpdate \<noteq> KindRuleCreate" "KindRuleCreate \<noteq> KindPostUpdate"
  "KindPostUpdate \<noteq> KindRuleSetEnable" "KindRuleSetEnable \<noteq> KindPostUpdate" "KindPostDelete \<noteq> KindDependencyAdd" "KindDependencyAdd \<noteq> KindPostDelete"
  "KindPostDelete \<noteq> KindRuleCreate" "KindRuleCreate \<noteq> KindPostDelete" "KindPostDelete \<noteq> KindRuleSetEnable" "KindRuleSetEnable \<noteq> KindPostDelete"
  "KindDependencyAdd \<noteq> KindRuleCreate" "KindRuleCreate \<noteq> KindDependencyAdd" "KindDependencyAdd \<noteq> KindRuleSetEnable" "KindRuleSetEnable \<noteq> KindDependencyAdd"
  "KindRuleCreate \<noteq> KindRuleSetEnable" "KindRuleSetEnable \<noteq> KindRuleCreate"
  by (simp_all add: KindPostCreate_def KindPostUpdate_def KindPostDelete_def KindDependencyAdd_def KindRuleCreate_def KindRuleSetEnable_def)

lemma kinds_mem [simp]: "KindPostCreate \<in> set kinds" "KindPostUpdate \<in> set kinds" "KindPostDelete \<in> set kinds"
  "KindDependencyAdd \<in> set kinds" "KindRuleCreate \<in> set kinds" "KindRuleSetEnable \<in> set kinds"
  by (simp_all add: kinds_def)

text \<open>What a first successful proposal leaves in the record of applied operations.\<close>

lemma applied_record:
  assumes "applyLocked digest opn i t f = (f', Inr r)" and "replica_ok f" and "fs_applied f (op_ID opn) = None"
    and "fs_persistedIndex f < i"
  obtains dg n where "fs_applied f' (op_ID opn) = Some \<lparr> ao_digest = dg, ao_result = r, ao_payload = op_Payload opn, ao_revision = op_Revision opn \<rparr>"
    "r = Some (result_of opn i t n)" "fs_applyFailure f' = None"
proof (cases rule: applyLocked_cases [where f = f and digest = digest and opn = opn and i = i])
  case (new dg)
  have real: "realize dg opn i t f = (f', Inr r)" using assms(1) new by (simp add: applyLocked_accepted)
  show thesis
  proof (cases "spec_step opn (view f)")
    case (Inl e)
    then show thesis using real assms(2) by (simp add: realize_Inl poison_def)
  next
    case (Inr vn)
    then obtain d where "realize dg opn i t f = (realized dg opn (result_of opn i t (snd vn)) (rv_graph (fst vn)) d f, Inr (Some (result_of opn i t (snd vn))))"
      using realize_Inr [OF assms(2), of opn "fst vn" "snd vn" dg i t] by auto
    then have f': "f' = realized dg opn (result_of opn i t (snd vn)) (rv_graph (fst vn)) d f" "r = Some (result_of opn i t (snd vn))"
      using real by simp_all
    have "fs_applyFailure f = None" using new by (simp add: acceptable_def)
    then show thesis using f' by (intro that [of dg "snd vn"]) (simp_all add: record_applied_def)
  qed
qed (use assms in \<open>auto simp: applyLocked_branches poison_def\<close>)

lemma proposes_Inr:
  assumes "proposes_applied digest a" and "ad_propose a opn f = (f', Inr r)"
  obtains i t where "fs_persistedIndex f < i" "applyLocked digest opn i t f = (f', Inr r)"
  using assms unfolding proposes_applied_def by (metis Inl_Inr_False prod.inject)

lemma proposeOp_record:
  assumes a: "proposes_applied digest a" and ok: "replica_ok f" and new: "fs_applied f oid = None"
    and ok2: "proposeOp a oid kind i n g p f = (f', Inr r)" and p: "p \<noteq> NoBytes"
  shows "\<exists>dg res. fs_applied f' oid = Some \<lparr> ao_digest = dg, ao_result = Some res, ao_payload = p, ao_revision = n \<rparr> \<and>
    r = Some res \<and> res_ObjectID res = i \<and> fs_applyFailure f' = None"
proof -
  have h: "ApplyFailure f = None"
    using ok2 by (cases "ApplyFailure f") (simp_all add: proposeOp_def admit_def)
  obtain opn where b: "buildOperation (ad_version a) oid (ad_product a) kind i n g p = Inr opn" and pr: "ad_propose a opn f = (f', Inr r)"
    using ok2 h new
    by (cases "buildOperation (ad_version a) oid (ad_product a) kind i n g p") (simp_all add: proposeOp_def admit_def AppliedOp_def submit_def)
  have f: "op_ID opn = oid" "op_Payload opn = p" "op_Revision opn = n" "op_ObjectID opn = i"
    using b by (cases p; auto simp: buildOperation_def bindE_eq_Inr split: if_splits)+
  obtain j t where j: "fs_persistedIndex f < j" "applyLocked digest opn j t f = (f', Inr r)"
    using proposes_Inr [OF a pr] .
  obtain dg m where "fs_applied f' (op_ID opn) = Some \<lparr> ao_digest = dg, ao_result = r, ao_payload = op_Payload opn, ao_revision = op_Revision opn \<rparr>"
    "r = Some (result_of opn j t m)" "fs_applyFailure f' = None"
    using applied_record [OF j(2) ok _ j(1)] new f(1) by metis
  then show ?thesis using f by (auto simp: result_of_def)
qed

lemma serving_acceptable:
  assumes "serving digest a f" and "buildOperation (ad_version a) oid pr kind i n g p = Inr opn" and "kind \<in> set kinds"
  obtains dg where "acceptable digest opn f dg"
proof -
  obtain dg where "digest opn = Inr dg" using assms(1) by (metis isl_def serving_def sum.exhaust)
  then have "acceptable digest opn f dg"
    using assms by (auto simp: acceptable_def guards_def serving_def validateKind_def buildOperation_def bindE_eq_Inr)
  then show thesis by (rule that)
qed

lemma committed_new:
  assumes c: "commits digest a f" and s: "serving digest a f" and new: "fs_applied f oid = None"
    and b: "buildOperation (ad_version a) oid pr kind i n g p = Inr opn" and k: "kind \<in> set kinds"
  obtains j t dg where "ad_propose a opn f = realize dg opn j t f"
proof -
  obtain j t where j: "fs_persistedIndex f < j" "ad_propose a opn f = applyLocked digest opn j t f"
    using c unfolding commits_def by metis
  obtain dg where acc: "acceptable digest opn f dg" using serving_acceptable [OF s b k] .
  have "op_ID opn = oid" using b by (auto simp: buildOperation_def bindE_eq_Inr)
  then have "ad_propose a opn f = realize dg opn j t f"
    using j(2) j(1) [folded not_le] new s by (simp add: applyLocked_accepted [OF acc] injected_def serving_def)
  then show thesis by (rule that)
qed

lemma validated_edge:
  assumes "replica_ok f" and "validateDependencyAdd (fs_db f) src depends = Inr ()"
    and "buildOperation v oid pr KindDependencyAdd src 0 (fs_graphRev f) (DepJSON depends) = Inr opn"
  shows "\<exists>v n. spec_step opn (view f) = Inr (v, n)"
proof -
  have opn: "op_Kind opn = KindDependencyAdd" "op_ObjectID opn = src" "op_DomainRevision opn = fs_graphRev f" "op_Payload opn = DepJSON depends"
    using assms(3) by (auto simp: buildOperation_def)
  have ne: "src \<noteq> depends" "src \<noteq> []"
    and c: "count_where (\<lambda>p. po_id p \<in> {src, depends}) (posts (fs_db f)) = 2" "count_where (\<lambda>e. e = (src, depends)) (post_dependencies (fs_db f)) = 0"
      "cycle_count (post_dependencies (fs_db f)) depends src = 0"
    using assms(2) by (auto simp: validateDependencyAdd_def bindE_eq_Inr simp del: count_where_zero)
  have "(src, depends) \<notin> set (post_dependencies (fs_db f))" using c(2) by (simp add: count_where_is del: count_where_zero)
  moreover have "{src, depends} \<subseteq> po_id ` set (posts (fs_db f))" "acyclic_deps (post_dependencies (fs_db f) @ [(src, depends)])"
    using dep_guards [of "fs_db f" src depends] assms(1) ne c by (auto simp: replica_ok_def)
  ultimately show ?thesis
    using ne by (simp add: spec_step_def opn spec_dep_add_def view_def Let_def)
qed

lemma sample_proposes: "proposes_applied sample_digest sample_adapter"
  unfolding proposes_applied_def
proof (intro allI)
  fix opn f
  show "(\<exists>e. ad_propose sample_adapter opn f = (f, Inl e)) \<or>
    (\<exists>i t. fs_persistedIndex f < i \<and> ad_propose sample_adapter opn f = applyLocked sample_digest opn i t f)"
  proof (cases "1 \<le> fs_persistedIndex f")
    case True
    then show ?thesis by (simp add: sample_adapter_def)
  next
    case False
    then show ?thesis
      by (intro disjI2 exI [of _ 1]) (simp add: sample_adapter_def del: word_less_1)
  qed
qed

lemma sample_commits: "commits sample_digest sample_adapter sample_fsm"
  unfolding commits_def by (intro allI exI [of _ 1]) (simp add: sample_adapter_def sample_fsm_def)

lemma sample_serving: "serving sample_digest sample_adapter sample_fsm"
  using sample_ok by (simp add: serving_def sample_digest_def sample_adapter_def) (simp add: sample_fsm_def)

lemma sample_create:
  "CreatePostWithOp sample_adapter ''p1'' ''op-1'' zero_post sample_fsm = applyLocked sample_digest sample_op 1 1 sample_fsm"
  by (simp add: CreatePostWithOp_def proposeOp_def admit_def ApplyFailure_def AppliedOp_def submit_def buildOperation_def sample_adapter_def)
    (simp add: sample_fsm_def sample_op_def AppliedOp_def ApplyFailure_def)

section \<open>Properties\<close>

text \<open>
  A create that is retried under the identity of its request is answered with the first result
  when the client-visible fields are the same, whatever the regenerated timestamps are, and refused when one of
  them differs; the replica does not change either way.
\<close>

theorem create_retry_answered_once:
  assumes "proposes_applied digest a" and "replica_ok f" and "fs_applied f oid = None"
    and "CreatePostWithOp a i oid p f = (f', Inr r)"
  shows "CreatePostWithOp a i oid q f' =
    (f', if same_post p q then Inr r else Inl (Err ''operation id already applied with a different payload; refusing''))"
proof -
  obtain dg res where "fs_applied f' oid = Some \<lparr> ao_digest = dg, ao_result = Some res, ao_payload = PostJSON p, ao_revision = 0 \<rparr>"
    "r = Some res" "res_ObjectID res = i" "fs_applyFailure f' = None"
    using proposeOp_record [OF assms(1-3) assms(4) [unfolded CreatePostWithOp_def]] by auto
  then show ?thesis
    by (simp add: CreatePostWithOp_def proposeOp_def admit_def ApplyFailure_def AppliedOp_def semanticallyEquivalent_def both_def)
qed

theorem create_retry_answered_once_witness:
  "CreatePostWithOp sample_adapter ''p1'' ''op-1'' (zero_post\<lparr> pp_created := ''later'' \<rparr>) (fst (applyLocked sample_digest sample_op 1 1 sample_fsm)) =
     (fst (applyLocked sample_digest sample_op 1 1 sample_fsm), Inr (Some (result_of sample_op 1 1 1)))"
proof -
  have "same_post zero_post (zero_post\<lparr> pp_created := ''later'' \<rparr>)" by (simp add: same_post_def)
  moreover have "fs_applied sample_fsm ''op-1'' = None" by (simp add: sample_fsm_def)
  ultimately show ?thesis
    using create_retry_answered_once [OF sample_proposes sample_ok _ sample_create [unfolded sample_locked], of "zero_post\<lparr> pp_created := ''later'' \<rparr>"]
    by (simp add: sample_locked)
qed

text \<open>
  The comparison of a retried identity does not look at the kind of the first operation: a delete sent under
  the identity of the create of the same post is answered with the create's result and deletes nothing.
\<close>

theorem delete_under_create_identity_deletes_nothing:
  assumes "proposes_applied digest a" and "replica_ok f" and "fs_applied f oid = None"
    and "CreatePostWithOp a i oid p f = (f', Inr r)"
  shows "DeletePostWithOp a i oid f' = (f', Inr r)"
proof -
  obtain dg res where "fs_applied f' oid = Some \<lparr> ao_digest = dg, ao_result = Some res, ao_payload = PostJSON p, ao_revision = 0 \<rparr>"
    "r = Some res" "res_ObjectID res = i" "fs_applyFailure f' = None"
    using proposeOp_record [OF assms(1-3) assms(4) [unfolded CreatePostWithOp_def]] by auto
  then show ?thesis
    by (simp add: DeletePostWithOp_def graphPropose_def admit_def ApplyFailure_def AppliedOp_def semanticallyEquivalent_def)
qed

theorem delete_under_create_identity_deletes_nothing_witness:
  "DeletePostWithOp sample_adapter ''p1'' ''op-1'' (fst (applyLocked sample_digest sample_op 1 1 sample_fsm)) =
     (fst (applyLocked sample_digest sample_op 1 1 sample_fsm), Inr (Some (result_of sample_op 1 1 1))) \<and>
   posts (fs_db (fst (applyLocked sample_digest sample_op 1 1 sample_fsm))) = [new_post ''p1'' zero_post]"
proof -
  have "fs_applied sample_fsm ''op-1'' = None" by (simp add: sample_fsm_def)
  then show ?thesis
    using delete_under_create_identity_deletes_nothing [OF sample_proposes sample_ok _ sample_create [unfolded sample_locked]]
    by (simp add: sample_locked)
qed

text \<open>
  An edge the adapter has validated is never refused by the state machine: the validation and the guards of
  the apply agree and the operation carries the graph revision it was validated against, so adding a dependency,
  accepted or refused, leaves the replica healthy.
\<close>

theorem validated_dependency_never_fences:
  assumes a: "proposes_applied digest a" and s: "serving digest a f" and new: "fs_applied f oid = None"
  shows "fs_applyFailure (fst (AddDependencyWithOp a src oid depends f)) = None"
proof (cases "validateDependencyAdd (fs_db f) src depends")
  case (Inl e)
  then show ?thesis
    using s new by (simp add: AddDependencyWithOp_def graphPropose_def admit_def ApplyFailure_def AppliedOp_def serving_def Let_def)
next
  case (Inr u)
  obtain opn where b: "buildOperation (ad_version a) oid (ad_product a) KindDependencyAdd src 0 (fs_graphRev f) (DepJSON depends) = Inr opn"
    by (simp add: buildOperation_def)
  have h: "fs_applyFailure f = None" "replica_ok f" using s by (simp_all add: serving_def)
  have eq: "AddDependencyWithOp a src oid depends f = ad_propose a opn f"
    using new b Inr h by (simp add: AddDependencyWithOp_def graphPropose_def admit_def ApplyFailure_def AppliedOp_def submit_def GraphRevision_def Let_def)
  consider e where "ad_propose a opn f = (f, Inl e)"
    | i t where "fs_persistedIndex f < i" "ad_propose a opn f = applyLocked digest opn i t f"
    using a unfolding proposes_applied_def by metis
  then show ?thesis
  proof cases
    case 1
    then show ?thesis using eq h by simp
  next
    case 2
    obtain dg where acc: "acceptable digest opn f dg" using serving_acceptable [OF s b] by auto
    have "op_ID opn = oid" using b by (auto simp: buildOperation_def)
    then have r: "AddDependencyWithOp a src oid depends f = realize dg opn i t f"
      using 2(2) 2(1) [folded not_le] eq new s by (simp add: applyLocked_accepted [OF acc] injected_def serving_def)
    have "\<exists>v n. spec_step opn (view f) = Inr (v, n)" using validated_edge [OF h(2) _ b] Inr by simp
    then obtain v n where "spec_step opn (view f) = Inr (v, n)" by blast
    then show ?thesis using r realize_Inr [OF h(2), of opn v n dg i t] h(1) by auto
  qed
qed

theorem validated_dependency_never_fences_witness:
  "fs_applyFailure (fst (AddDependencyWithOp sample_adapter ''a'' ''op-2'' ''b'' sample_fsm)) = None"
  using validated_dependency_never_fences [OF sample_proposes sample_serving, of "''op-2''" "''a''" "''b''"]
  by (simp add: sample_fsm_def)

text \<open>
  An update with an outdated expected version, the ordinary conflict of two editors, is not caught before
  the proposal: the committed operation fails on apply and the replica is fenced. The code documents that
  such a failure is never an ordinary user conflict.
\<close>

theorem stale_update_fences_replica:
  assumes c: "commits digest a f" and s: "serving digest a f" and new: "fs_applied f oid = None"
    and stale: "\<forall>r \<in> set (posts (fs_db f)). po_id r = i \<longrightarrow> po_version r \<noteq> expected"
  shows "fs_applyFailure (fst (UpdatePostWithOp a i oid expected p f)) = Some (Invariant ''post.update stale revision'')"
proof -
  obtain opn where b: "buildOperation (ad_version a) oid (ad_product a) KindPostUpdate i expected 0 (PostJSON p) = Inr opn"
    by (simp add: buildOperation_def)
  obtain j t dg where pr: "ad_propose a opn f = realize dg opn j t f" using committed_new [OF c s new b kinds_mem(2)] .
  have h: "fs_applyFailure f = None" "replica_ok f" using s by (simp_all add: serving_def)
  have "spec_step opn (view f) = Inl (Invariant ''post.update stale revision'')"
    using b stale by (auto simp: buildOperation_def spec_step_def spec_post_update_def view_def Let_def)
  then have "realize dg opn j t f = poison (Invariant ''post.update stale revision'') f" using realize_Inl [OF h(2)] by blast
  then show ?thesis
    using new b h pr by (simp add: UpdatePostWithOp_def proposeOp_def admit_def ApplyFailure_def AppliedOp_def submit_def poison_def setApplyFailure_def)
qed

theorem stale_update_fences_replica_witness:
  "fs_applyFailure (fst (UpdatePostWithOp sample_adapter ''p1'' ''op-2'' 3 zero_post sample_fsm)) =
     Some (Invariant ''post.update stale revision'')"
  using stale_update_fences_replica [OF sample_commits sample_serving, of "''op-2''" "''p1''" 3 zero_post]
  by (simp add: sample_fsm_def empty_db_def)

text \<open>
  A forwarded mutation does on the leader what the same request does when it is made on the leader: the
  payload survives its JSON form and the follower's identity is the operation's.
\<close>

theorem forwarded_is_local:
  assumes "rid \<noteq> []" and "finite_rule r"
  shows "applyForwarded a \<lparr> fr_Kind = KindPostCreate, fr_ObjectID = i, fr_OpID = rid, fr_Revision = 0, fr_Payload = mustJSON (PostJSON p) \<rparr> f = CreatePost a rid rnd i p f \<and>
    applyForwarded a \<lparr> fr_Kind = KindPostUpdate, fr_ObjectID = i, fr_OpID = rid, fr_Revision = n, fr_Payload = mustJSON (PostJSON p) \<rparr> f = UpdatePost a rid rnd i n p f \<and>
    applyForwarded a \<lparr> fr_Kind = KindPostDelete, fr_ObjectID = i, fr_OpID = rid, fr_Revision = 0, fr_Payload = NoBytes \<rparr> f = DeletePost a rid rnd i f \<and>
    applyForwarded a \<lparr> fr_Kind = KindDependencyAdd, fr_ObjectID = i, fr_OpID = rid, fr_Revision = 0, fr_Payload = mustJSON (DepJSON b) \<rparr> f = AddDependency a rid rnd i b f \<and>
    applyForwarded a \<lparr> fr_Kind = KindRuleCreate, fr_ObjectID = i, fr_OpID = rid, fr_Revision = 0, fr_Payload = mustJSON (RuleJSON r) \<rparr> f = CreateRule a rid rnd i r f \<and>
    applyForwarded a \<lparr> fr_Kind = KindRuleSetEnable, fr_ObjectID = i, fr_OpID = rid, fr_Revision = n,
        fr_Payload = mustJSON (RuleJSON (zero_rule\<lparr> rp_enabled := e \<rparr>)) \<rparr> f = SetRuleEnabled a rid rnd i n e f"
  using assms
  by (simp add: applyForwarded_def mustJSON_def CreatePostWithOp_def UpdatePostWithOp_def DeletePostWithOp_def AddDependencyWithOp_def
      CreateRuleWithOp_def SetRuleEnabledWithOp_def CreatePost_def UpdatePost_def DeletePost_def AddDependency_def CreateRule_def SetRuleEnabled_def
      resolveOpID_def finite_rule_def zero_rule_def is_finite_def)

theorem forwarded_is_local_witness:
  "applyForwarded sample_adapter \<lparr> fr_Kind = KindRuleCreate, fr_ObjectID = ''r1'', fr_OpID = ''req-1'', fr_Revision = 0,
      fr_Payload = mustJSON (RuleJSON zero_rule) \<rparr> sample_fsm = CreateRule sample_adapter ''req-1'' None ''r1'' zero_rule sample_fsm"
  using forwarded_is_local [of "''req-1''" zero_rule sample_adapter "''r1''" zero_post sample_fsm None 0 "''b''" True]
  by (simp add: finite_rule_def zero_rule_def is_finite_def)

end
