(* ===== verification/Audit_Log.thy ===== *)
theory Audit_Log
  imports Cleanup Machines Replicated_Meta
begin

text \<open>
  Attributed state changes (\<open>internal/audit/audit.go\<close>) and the text form of a timestamp. \<open>audit.Insert\<close> runs inside the caller's
  transaction, so an operation either changes the database and appends exactly one row to the audit log, or changes
  nothing; the locale \<open>audited\<close> states this contract for a family of operations and derives it for every
  sequence of them.
\<close>

section \<open>time.RFC3339Nano\<close>

text \<open>The civil date of a day counted from 1970-01-01.\<close>

definition civil_of_days :: "int \<Rightarrow> int \<times> int \<times> int" where
  "civil_of_days n =
     (let z = n + 719468; era = z div 146097; doe = z mod 146097;
          yoe = (doe - doe div 1460 + doe div 36524 - doe div 146096) div 365;
          doy = doe - (365 * yoe + yoe div 4 - yoe div 100);
          mp = (5 * doy + 2) div 153; day = doy - (153 * mp + 2) div 5 + 1;
          month = (if mp < 10 then mp + 3 else mp - 9);
          year = yoe + era * 400 + (if month \<le> 2 then 1 else 0)
      in (year, month, day))"

definition two :: "int \<Rightarrow> string" where
  "two n = digits_upto 2 (nat n)"

definition year_text :: "int \<Rightarrow> string" where
  "year_text y = (if y < 10000 then digits_upto 4 (nat y) else show_nat (nat y))"

text \<open>\<open>t.UTC().Format(time.RFC3339Nano)\<close> for an instant from the year 0 on.\<close>

definition format_time :: "time \<Rightarrow> string" where
  "format_time t =
     (let s = t div second; r = s mod 86400
      in case civil_of_days (s div 86400) of (y, m, d) \<Rightarrow>
           year_text y @ ''-'' @ two m @ ''-'' @ two d @ ''T'' @ two (r div 3600) @ '':'' @ two (r mod 3600 div 60) @ '':'' @ two (r mod 60) @
           fraction_text t)"

section \<open>audit.Insert\<close>

record Entry =
  en_ActorID :: nat
  en_Action :: string
  en_ObjectType :: string
  en_ObjectID :: string
  en_Detail :: string

definition audit_row_of :: "time \<Rightarrow> Entry \<Rightarrow> db \<Rightarrow> audit_row" where
  "audit_row_of now e d =
     \<lparr> au_id = next_id (map au_id (audit_log d)), au_at = now,
       au_actor = (if en_ActorID e = 0 then None else Some (en_ActorID e)), au_action = en_Action e,
       au_type = en_ObjectType e, au_object = en_ObjectID e, au_detail = take 400 (en_Detail e) \<rparr>"

definition Insert :: "time \<Rightarrow> Entry \<Rightarrow> db \<Rightarrow> err + db" where
  "Insert now e d = exec (\<lambda>d. d\<lparr> audit_log := audit_log d @ [audit_row_of now e d] \<rparr>) d"

text \<open>The transaction most handlers run: a body, the audit row, the commit.\<close>

definition audited_tx :: "time \<Rightarrow> Entry \<Rightarrow> (db \<Rightarrow> err + (db \<times> 'a)) \<Rightarrow> db \<Rightarrow> db \<times> (err + 'a)" where
  "audited_tx now e body d = with_tx (\<lambda>d.
     bindE (body d) (\<lambda>(d, x). bindE (Insert now e d) (\<lambda>d. Inr (d, x)))) d"

section \<open>The contract\<close>

locale audited =
  fixes step :: "'op \<Rightarrow> db \<Rightarrow> db \<times> (err + 'r)"
  assumes refused: "step x d = (d', Inl e) \<Longrightarrow> d' = d"
    and recorded: "step x d = (d', Inr r) \<Longrightarrow> \<exists>row. audit_log d' = audit_log d @ [row]"
    and legal: "step x d = (d', Inr r) \<Longrightarrow> constraints d'"
begin

lemma step_audit:
  "\<exists>rows. audit_log (fst (step x d)) = audit_log d @ rows \<and> length rows = (if isl (snd (step x d)) then 0 else 1)"
proof (cases "step x d")
  case (Pair d' r)
  show ?thesis
  proof (cases r)
    case (Inl e)
    then show ?thesis using Pair refused by auto
  next
    case (Inr y)
    then show ?thesis using Pair recorded [of x d d' y] by force
  qed
qed

text \<open>Any sequence of operations: the audit log is only ever extended, by one row per success.\<close>

lemma run_audit:
  "\<exists>rows. audit_log (fst (run step xs d)) = audit_log d @ rows \<and>
     length rows = length (filter (\<lambda>r. \<not> isl r) (snd (run step xs d)))"
proof (induction xs arbitrary: d)
  case (Cons x xs)
  obtain rows where r: "audit_log (fst (step x d)) = audit_log d @ rows" "length rows = (if isl (snd (step x d)) then 0 else 1)"
    using step_audit by blast
  obtain more where m: "audit_log (fst (run step xs (fst (step x d)))) = audit_log (fst (step x d)) @ more"
    "length more = length (filter (\<lambda>r. \<not> isl r) (snd (run step xs (fst (step x d)))))"
    using Cons.IH by blast
  have "audit_log (fst (run step (x # xs) d)) = audit_log d @ (rows @ more)" using r(1) m(1) by (simp add: case_prod_beta)
  moreover have "length (rows @ more) = length (filter (\<lambda>r. \<not> isl r) (snd (run step (x # xs) d)))"
    using r(2) m(2) by (simp add: case_prod_beta)
  ultimately show ?case by blast
qed simp

lemma run_legal: "constraints d \<Longrightarrow> constraints (fst (run step xs d))"
proof (induction xs arbitrary: d)
  case (Cons x xs)
  have "constraints (fst (step x d))"
    using Cons.prems refused legal by (cases "step x d"; cases "snd (step x d)") fastforce+
  then show ?case using Cons.IH by (simp add: case_prod_beta)
qed simp

end

section \<open>Lemmas\<close>

lemma Insert_eq_Inr:
  "Insert now e d = Inr d' \<longleftrightarrow> \<not> io_fault d \<and> constraints d' \<and> d' = d\<lparr> audit_log := audit_log d @ [audit_row_of now e d] \<rparr>"
  by (auto simp: Insert_def exec_eq_Inr)

lemma constraints_audit:
  assumes "constraints d" and "en_ActorID e = 0 \<or> en_ActorID e \<in> us_id ` set (users d)"
  shows "constraints (d\<lparr> audit_log := audit_log d @ [audit_row_of now e d] \<rparr>)"
  using assms by (cases "en_ActorID e = 0") (simp_all add: constraint_defs audit_row_of_def Let_def)

lemma Insert_ok:
  "\<not> io_fault d \<Longrightarrow> constraints d \<Longrightarrow> en_ActorID e = 0 \<or> en_ActorID e \<in> us_id ` set (users d) \<Longrightarrow>
   Insert now e d = Inr (d\<lparr> audit_log := audit_log d @ [audit_row_of now e d] \<rparr>)"
  by (simp add: Insert_eq_Inr constraints_audit)

lemma audited_tx_Inl: "audited_tx now e body d = (d', Inl x) \<Longrightarrow> d' = d"
  by (auto simp: audited_tx_def dest: with_tx_rollback)

lemma audited_tx_Inr:
  "audited_tx now e body d = (d', Inr x) \<longleftrightarrow>
     \<not> io_fault d \<and> (\<exists>d1. body d = Inr (d1, x) \<and> Insert now e d1 = Inr d')"
  by (auto simp: audited_tx_def with_tx_commit bindE_eq_Inr split: prod.splits)

lemma audited_tx_row:
  assumes "audited_tx now e body d = (d', Inr x)" and "\<And>d1 y. body d = Inr (d1, y) \<Longrightarrow> audit_log d1 = audit_log d"
  shows "\<exists>row. audit_log d' = audit_log d @ [row]" and "constraints d'"
  using assms by (auto simp: audited_tx_Inr Insert_eq_Inr)

text \<open>One audited operation, as a fact about its answer.\<close>

definition one_row :: "db \<Rightarrow> db \<times> (err + 'a) \<Rightarrow> bool" where
  "one_row d r = (case r of (d', Inl e) \<Rightarrow> d' = d | (d', Inr x) \<Rightarrow> constraints d' \<and> (\<exists>row. audit_log d' = audit_log d @ [row]))"

lemma one_row_tx:
  assumes "\<And>d1 y. body d = Inr (d1, y) \<Longrightarrow> audit_log d1 = audit_log d"
  shows "one_row d (audited_tx now e body d)"
proof (cases "audited_tx now e body d")
  case (Pair d' r)
  show ?thesis
  proof (cases r)
    case (Inl x)
    then have eq: "audited_tx now e body d = (d', Inl x)"
      using Pair by simp
    show ?thesis
      using audited_tx_Inl [OF eq] by (simp add: one_row_def eq)
  next
    case (Inr x)
    then have eq: "audited_tx now e body d = (d', Inr x)"
      using Pair by simp
    show ?thesis
      using audited_tx_row [OF eq assms] by (simp add: one_row_def eq)
  qed
qed

end
