(* ===== verification/Posts.thy ===== *)
theory Posts
  imports Replicated_Adapter Audit_Log
begin

text \<open>
  The posts service (\<open>internal/posts/posts.go\<close>). With a mutation authority installed every mutation goes to it first, and
  only the sentinel of a standalone node leads to the local transaction. The service is polymorphic in the
  state the authority works on; a \<open>site\<close> says where the node's database sits in that state. A Go
  \<open>map[string]string\<close> of labels is the list of its pairs, sorted by key as \<open>encoding/json\<close> writes them; nil is \<open>None\<close>.
\<close>

section \<open>Posts\<close>

record Post =
  p_ID :: id
  p_Name :: string
  p_Kind :: string
  p_Address :: string
  p_Owner :: string
  p_Labels :: "(string \<times> string) list option"
  p_Maintenance :: bool
  p_Archived :: bool
  p_Version :: int

definition post_kinds :: "string list" where
  "post_kinds = [''host'', ''http_endpoint'', ''tcp_service'', ''tls_certificate'', ''network_device'', ''ups'',
     ''environmental_sensor'', ''storage_appliance'']"

text \<open>The pattern \<open>^[a-z0-9][a-z0-9-]{0,62}$\<close>.\<close>

definition id_char :: "char \<Rightarrow> bool" where
  "id_char c \<longleftrightarrow> CHR ''a'' \<le> c \<and> c \<le> CHR ''z'' \<or> CHR ''0'' \<le> c \<and> c \<le> CHR ''9''"

definition idPattern :: "string \<Rightarrow> bool" where
  "idPattern s = (case s of [] \<Rightarrow> False
     | c # cs \<Rightarrow> id_char c \<and> list_all (\<lambda>x. id_char x \<or> x = CHR ''-'') cs \<and> length cs \<le> 62)"

definition label_list :: "Post \<Rightarrow> (string \<times> string) list" where
  "label_list p = (case p_Labels p of None \<Rightarrow> [] | Some ls \<Rightarrow> ls)"

definition valid :: "Post \<Rightarrow> bool" where
  "valid p \<longleftrightarrow>
     \<not> (\<not> idPattern (p_ID p) \<or> length (p_Name p) < 1 \<or> length (p_Name p) > 120 \<or> length (p_Address p) > 255 \<or>
        p_Kind p \<notin> set post_kinds \<or> length (label_list p) > 32) \<and>
     list_all (\<lambda>(k, v). \<not> (length k > 63 \<or> length v > 255)) (label_list p)"

definition marshal_labels :: "(string \<times> string) list option \<Rightarrow> labels_text" where
  "marshal_labels ls = (case ls of None \<Rightarrow> LNull | Some l \<Rightarrow> LObj l)"

definition unmarshal_labels :: "labels_text \<Rightarrow> err + (string \<times> string) list option" where
  "unmarshal_labels t = (case t of LNull \<Rightarrow> Inr None | LObj l \<Rightarrow> Inr (Some l) | LBad s \<Rightarrow> Inl (Err ''invalid JSON''))"

section \<open>Sites and authorities\<close>

record 's MutationAuthority =
  ma_CreatePost :: "id \<Rightarrow> PostPayload \<Rightarrow> 's \<Rightarrow> 's \<times> reply"
  ma_UpdatePost :: "id \<Rightarrow> int \<Rightarrow> PostPayload \<Rightarrow> 's \<Rightarrow> 's \<times> reply"
  ma_DeletePost :: "id \<Rightarrow> 's \<Rightarrow> 's \<times> reply"
  ma_AddDependency :: "id \<Rightarrow> id \<Rightarrow> 's \<Rightarrow> 's \<times> reply"
  ma_CreateRule :: "id \<Rightarrow> RulePayload \<Rightarrow> 's \<Rightarrow> 's \<times> reply"
  ma_SetRuleEnabled :: "id \<Rightarrow> int \<Rightarrow> bool \<Rightarrow> 's \<Rightarrow> 's \<times> reply"

record 's site =
  si_db :: "'s \<Rightarrow> db"
  si_set :: "db \<Rightarrow> 's \<Rightarrow> 's"
  si_authority :: "'s MutationAuthority option"

definition on_db :: "'s site \<Rightarrow> (db \<Rightarrow> db \<times> 'a) \<Rightarrow> 's \<Rightarrow> 's \<times> 'a" where
  "on_db st g s = (case g (si_db st s) of (d, r) \<Rightarrow> (si_set st d s, r))"

text \<open>
  The prologue of every mutation: ask the authority if there is one; its success ends the call with \<open>ok\<close>, an
  error that is not the sentinel is returned, and otherwise the local path runs.
\<close>

definition authorized :: "'s site \<Rightarrow> ('s MutationAuthority \<Rightarrow> 's \<Rightarrow> 's \<times> reply) \<Rightarrow> ('s \<Rightarrow> err + 'a) \<Rightarrow> ('s \<Rightarrow> 's \<times> (err + 'a)) \<Rightarrow> 's \<Rightarrow> 's \<times> (err + 'a)" where
  "authorized st call ok local s =
     (case si_authority st of
        None \<Rightarrow> local s
      | Some a \<Rightarrow>
          (case call a s of
             (s', Inr _) \<Rightarrow> (s', ok s')
           | (s', Inl e) \<Rightarrow> if is_standalone e then local s' else (s', Inl e)))"

section \<open>Reading\<close>

definition post_of_row :: "post_row \<Rightarrow> err + Post" where
  "post_of_row r = bindE (unmarshal_labels (po_labels r)) (\<lambda>ls.
     Inr \<lparr> p_ID = po_id r, p_Name = po_name r, p_Kind = po_kind r, p_Address = po_address r, p_Owner = po_owner r,
           p_Labels = ls, p_Maintenance = po_maintenance r, p_Archived = po_archived r, p_Version = po_version r \<rparr>)"

definition Get :: "id \<Rightarrow> db \<Rightarrow> err + Post" where
  "Get i d = bindE (query (\<lambda>d. find (\<lambda>r. po_id r = i) (posts d)) d) (\<lambda>row.
     case row of None \<Rightarrow> Inl ErrNoRows | Some r \<Rightarrow> post_of_row r)"

definition ListPosts :: "int \<Rightarrow> int \<Rightarrow> db \<Rightarrow> err + Post list" where
  "ListPosts limit offset d =
     (let limit = (if limit < 1 \<or> limit > 1000 then 100 else limit);
          offset = (if offset < 0 then 0 else offset) in
      bindE (query (\<lambda>d. take (nat limit) (drop (nat offset) (sort_key (\<lambda>r. (po_name r, po_id r)) (posts d)))) d) (\<lambda>rows.
      foldE (\<lambda>r acc. bindE (post_of_row r) (\<lambda>p. Inr (acc @ [p]))) rows []))"

definition Count :: "db \<Rightarrow> err + nat" where
  "Count d = query (\<lambda>d. length (posts d)) d"

section \<open>Local transactions\<close>

definition local_create :: "time \<Rightarrow> Post \<Rightarrow> Entry \<Rightarrow> db \<Rightarrow> db \<times> (err + unit)" where
  "local_create now p entry =
     audited_tx now (entry\<lparr> en_ObjectType := ''post'', en_ObjectID := p_ID p \<rparr>) (\<lambda>d.
       bindE (exec (\<lambda>d. d\<lparr> posts := posts d @
         [\<lparr> po_id = p_ID p, po_name = p_Name p, po_kind = p_Kind p, po_address = p_Address p, po_owner = p_Owner p,
            po_labels = marshal_labels (p_Labels p), po_maintenance = p_Maintenance p, po_archived = False, po_version = 1,
            po_created = format_time now, po_updated = format_time now \<rparr>] \<rparr>) d) (\<lambda>d. Inr (d, ())))"

definition local_update :: "time \<Rightarrow> Post \<Rightarrow> int \<Rightarrow> Entry \<Rightarrow> db \<Rightarrow> db \<times> (err + unit)" where
  "local_update now p expected entry =
     audited_tx now (entry\<lparr> en_ObjectType := ''post'', en_ObjectID := p_ID p \<rparr>) (\<lambda>d.
       let hit = (\<lambda>r. po_id r = p_ID p \<and> po_version r = expected);
           n = count_where hit (posts d) in
       bindE (exec (\<lambda>d. d\<lparr> posts := upd_where hit (\<lambda>r. r\<lparr> po_name := p_Name p, po_address := p_Address p,
           po_owner := p_Owner p, po_labels := marshal_labels (p_Labels p), po_maintenance := p_Maintenance p,
           po_archived := p_Archived p, po_version := po_version r + 1, po_updated := format_time now \<rparr>) (posts d) \<rparr>) d) (\<lambda>d.
       bindE (ensure (n = 1) (Err ''post version conflict'')) (\<lambda>_. Inr (d, ()))))"

definition del_post_rules :: "(id \<Rightarrow> bool) \<Rightarrow> db \<Rightarrow> db" where
  "del_post_rules S d = d\<lparr> rules := del_where (\<lambda>r. S (ru_post r)) (rules d) \<rparr>"

definition del_post_edges :: "(id \<Rightarrow> bool) \<Rightarrow> db \<Rightarrow> db" where
  "del_post_edges S d = d\<lparr> post_dependencies := del_where (\<lambda>e. S (fst e) \<or> S (snd e)) (post_dependencies d) \<rparr>"

definition delete_statements :: "((id \<Rightarrow> bool) \<Rightarrow> db \<Rightarrow> db) list" where
  "delete_statements =
     [del_post_messages, del_post_conversations, del_post_actions, del_post_oids, del_post_profiles,
      del_post_deliveries, del_post_incident_alerts, del_post_alerts, del_post_rules, del_post_observations,
      del_post_tokens, del_post_keys, del_post_logs, del_post_changes, del_post_edges]"

definition local_delete :: "time \<Rightarrow> id \<Rightarrow> Entry \<Rightarrow> db \<Rightarrow> db \<times> (err + unit)" where
  "local_delete now i entry =
     audited_tx now (entry\<lparr> en_ObjectType := ''post'', en_ObjectID := i \<rparr>) (\<lambda>d.
       bindE (query (\<lambda>d. count_where (\<lambda>p. po_id p = i) (posts d)) d) (\<lambda>existing.
       bindE (ensure (existing \<noteq> 0) ErrNoRows) (\<lambda>_.
       bindE (foldE (\<lambda>stmt. exec (stmt (\<lambda>p. p = i))) delete_statements d) (\<lambda>d.
       bindE (exec (del_posts (\<lambda>p. po_id p = i)) d) (\<lambda>d. Inr (d, ()))))))"

definition local_add_dependency :: "time \<Rightarrow> id \<Rightarrow> id \<Rightarrow> Entry \<Rightarrow> db \<Rightarrow> db \<times> (err + unit)" where
  "local_add_dependency now i depends entry =
     audited_tx now (entry\<lparr> en_ObjectType := ''post'', en_ObjectID := i \<rparr>) (\<lambda>d.
       bindE (query (\<lambda>d. cycle_count (post_dependencies d) depends i) d) (\<lambda>cycle.
       bindE (ensure (cycle = 0) (Err ''dependency cycle'')) (\<lambda>_.
       bindE (exec (\<lambda>d. d\<lparr> post_dependencies := post_dependencies d @ [(i, depends)] \<rparr>) d) (\<lambda>d. Inr (d, ())))))"

section \<open>The service\<close>

definition create_payload :: "time \<Rightarrow> Post \<Rightarrow> PostPayload" where
  "create_payload now p = \<lparr> pp_name = p_Name p, pp_kind = p_Kind p, pp_address = p_Address p, pp_owner = p_Owner p,
     pp_labels = marshal_labels (p_Labels p), pp_maintenance = p_Maintenance p, pp_archived = p_Archived p,
     pp_created = format_time now, pp_updated = format_time now \<rparr>"

definition update_payload :: "time \<Rightarrow> Post \<Rightarrow> PostPayload" where
  "update_payload now p = (create_payload now p)\<lparr> pp_created := [] \<rparr>"

text \<open>After a local commit \<open>Create\<close> and \<open>Update\<close> read the post back.\<close>

definition then_get :: "id \<Rightarrow> (db \<Rightarrow> db \<times> (err + unit)) \<Rightarrow> db \<Rightarrow> db \<times> (err + Post)" where
  "then_get i tx d = (case tx d of (d', Inl e) \<Rightarrow> (d', Inl e) | (d', Inr _) \<Rightarrow> (d', Get i d'))"

definition Create :: "'s site \<Rightarrow> time \<Rightarrow> Post \<Rightarrow> Entry \<Rightarrow> 's \<Rightarrow> 's \<times> (err + Post)" where
  "Create st now p entry s =
     (if \<not> valid p then (s, Inl (Err ''invalid post''))
      else if \<not> list_all (\<lambda>(k, v). \<not> (length k > 63 \<or> length v > 255)) (label_list p) then (s, Inl (Err ''invalid labels''))
      else authorized st (\<lambda>a. ma_CreatePost a (p_ID p) (create_payload now p)) (\<lambda>s. Get (p_ID p) (si_db st s))
             (on_db st (then_get (p_ID p) (local_create now p entry))) s)"

definition Update :: "'s site \<Rightarrow> time \<Rightarrow> Post \<Rightarrow> int \<Rightarrow> Entry \<Rightarrow> 's \<Rightarrow> 's \<times> (err + Post)" where
  "Update st now p expected entry s =
     (if \<not> valid p then (s, Inl (Err ''invalid post''))
      else authorized st (\<lambda>a. ma_UpdatePost a (p_ID p) expected (update_payload now p)) (\<lambda>s. Get (p_ID p) (si_db st s))
             (on_db st (then_get (p_ID p) (local_update now p expected entry))) s)"

definition Delete :: "'s site \<Rightarrow> time \<Rightarrow> id \<Rightarrow> Entry \<Rightarrow> 's \<Rightarrow> 's \<times> (err + unit)" where
  "Delete st now i entry = authorized st (\<lambda>a. ma_DeletePost a i) (\<lambda>s. Inr ()) (on_db st (local_delete now i entry))"

definition PostsAddDependency :: "'s site \<Rightarrow> time \<Rightarrow> id \<Rightarrow> id \<Rightarrow> Entry \<Rightarrow> 's \<Rightarrow> 's \<times> (err + unit)" where
  "PostsAddDependency st now i depends entry s =
     (if i = depends then (s, Inl (Err ''self dependency''))
      else authorized st (\<lambda>a. ma_AddDependency a i depends) (\<lambda>s. Inr ()) (on_db st (local_add_dependency now i depends entry)) s)"

text \<open>A node without an authority, and a node behind the router.\<close>

definition standalone_site :: "db site" where
  "standalone_site = \<lparr> si_db = (\<lambda>d. d), si_set = (\<lambda>d s. d), si_authority = None \<rparr>"

definition router_authority :: "core_route \<Rightarrow> Controller \<Rightarrow> string \<Rightarrow> string option \<Rightarrow> string option \<Rightarrow> world MutationAuthority" where
  "router_authority core c rid rnd1 rnd2 = \<lparr>
     ma_CreatePost = Router_CreatePost core c rid rnd1 rnd2, ma_UpdatePost = Router_UpdatePost core c rid rnd1 rnd2,
     ma_DeletePost = Router_DeletePost core c rid rnd1 rnd2, ma_AddDependency = Router_AddDependency core c rid rnd1 rnd2,
     ma_CreateRule = Router_CreateRule core c rid rnd1 rnd2, ma_SetRuleEnabled = Router_SetRuleEnabled core c rid rnd1 rnd2 \<rparr>"

definition router_site :: "core_route \<Rightarrow> Controller \<Rightarrow> string \<Rightarrow> string option \<Rightarrow> string option \<Rightarrow> world site" where
  "router_site core c rid rnd1 rnd2 = \<lparr> si_db = (\<lambda>w. fs_db (w_local w)),
     si_set = (\<lambda>d w. w\<lparr> w_local := (w_local w)\<lparr> fs_db := d \<rparr> \<rparr>),
     si_authority = Some (router_authority core c rid rnd1 rnd2) \<rparr>"

section \<open>Audited transactions\<close>

lemma find_append: "find P (xs @ ys) = (case find P xs of None \<Rightarrow> find P ys | Some x \<Rightarrow> Some x)"
  by (induction xs) simp_all


text \<open>The local mutations as one family, and its contract.\<close>

datatype post_op = OpCreate time Post Entry | OpUpdate time Post int Entry | OpDelete time id Entry | OpAddDependency time id id Entry

fun post_step :: "post_op \<Rightarrow> db \<Rightarrow> db \<times> (err + unit)" where
  "post_step (OpCreate now p e) = local_create now p e"
| "post_step (OpUpdate now p n e) = local_update now p n e"
| "post_step (OpDelete now i e) = local_delete now i e"
| "post_step (OpAddDependency now i b e) = local_add_dependency now i b e"

lemma audit_log_statements:
  "foldE (\<lambda>stmt. exec (stmt S)) delete_statements d = Inr d' \<Longrightarrow> audit_log d' = audit_log d"
  by (auto simp: delete_statements_def bindE_eq_Inr exec_eq_Inr statement_defs del_post_rules_def del_post_edges_def)

lemma audit_log_del_posts [simp]: "audit_log (del_posts P d) = audit_log d"
  by (simp add: del_posts_def del_check_schedules_def Let_def)

lemma post_step_refused: "post_step x d = (d', Inl e) \<Longrightarrow> d' = d"
  by (cases x) (auto simp: local_create_def local_update_def local_delete_def local_add_dependency_def dest: audited_tx_Inl)

lemma post_step_recorded:
  assumes "post_step x d = (d', Inr r)"
  shows "(\<exists>row. audit_log d' = audit_log d @ [row]) \<and> constraints d'"
proof (cases x)
  case (OpCreate now p e)
  then show ?thesis
    using assms by (auto simp: local_create_def bindE_eq_Inr exec_eq_Inr audited_tx_Inr Insert_eq_Inr)
next
  case (OpUpdate now p n e)
  then show ?thesis
    using assms by (auto simp: local_update_def bindE_eq_Inr exec_eq_Inr audited_tx_Inr Insert_eq_Inr Let_def)
next
  case (OpDelete now i e)
  then show ?thesis
    using assms by (auto simp: local_delete_def bindE_eq_Inr exec_eq_Inr audited_tx_Inr Insert_eq_Inr dest: audit_log_statements)
next
  case (OpAddDependency now i b e)
  then show ?thesis
    using assms by (auto simp: local_add_dependency_def bindE_eq_Inr exec_eq_Inr audited_tx_Inr Insert_eq_Inr)
qed

interpretation post_ops: audited post_step
  by unfold_locales (use post_step_refused post_step_recorded in blast)+

section \<open>Deleting a post\<close>

lemma fold_delete: "fold (\<lambda>s. s (\<lambda>q. q = i)) delete_statements d = without_rules i d"
  by (simp add: delete_statements_def statement_defs del_post_rules_def del_post_edges_def without_rules_def without_edges_def
      purge_local_def del_where_del_where disj_commute)

lemma unnamed_rules:
  assumes "alerts_consistent d" and "rules e = rules d" and "alerts e = alerts d"
  shows "unnamed (\<lambda>r. S (ru_post r)) ru_id (rules (del_post_alerts S e)) (map al_rule (alerts (del_post_alerts S e)))"
  using assms by (auto simp: unnamed_def alerts_consistent_def list_all_iff statement_defs)

lemma delete_loop_ok:
  assumes ok: "tables_ok d"
  shows "foldE (\<lambda>stmt. exec (stmt (\<lambda>p. p = i))) delete_statements d = Inr (without_rules i d)"
proof -
  let ?S = "\<lambda>q. q = i"
  let ?d2 = "del_post_conversations ?S (del_post_messages ?S d)"
  let ?d5 = "del_post_profiles ?S (del_post_oids ?S (del_post_actions ?S ?d2))"
  let ?d8 = "del_post_alerts ?S (del_post_incident_alerts ?S (del_post_deliveries ?S ?d5))"
  let ?d9 = "del_post_rules ?S ?d8"
  let ?d11 = "del_post_tokens ?S (del_post_observations ?S ?d9)"
  let ?d14 = "del_post_changes ?S (del_post_logs ?S (del_post_keys ?S ?d11))"
  have c: "constraints d" and io: "\<not> io_fault d" and oc: "observations_consistent d" and ac: "alerts_consistent d"
    using ok by (simp_all add: tables_ok_def)
  note leaf = constraints_leaf_statements
  have c2: "constraints ?d2" by (rule constraints_conversations [OF c])
  have c5: "constraints ?d5" by (intro leaf c2)
  have c8: "constraints ?d8" by (rule constraints_alerts [OF c5])
  have c9: "constraints ?d9" unfolding del_post_rules_def
    by (rule constraints_del_rules [OF c8], rule unnamed_rules [OF ac]) (simp_all add: statement_defs)
  have c11: "constraints ?d11" by (intro leaf c9)
  have c12: "constraints (del_post_keys ?S ?d11)"
    using oc by (intro constraints_keys [OF c11] unnamed_keys)
      (auto simp: observations_consistent_def list_all_iff statement_defs del_post_rules_def)
  have c14: "constraints ?d14" by (intro leaf c12)
  have c15: "constraints (del_post_edges ?S ?d14)"
    unfolding del_post_edges_def by (rule constraints_del_leaf [OF c14])
  have io': "\<not> io_fault (s ?S e)" if "\<not> io_fault e" "s \<in> set delete_statements" for s e
    using that by (auto simp: delete_statements_def statement_defs del_post_rules_def del_post_edges_def)
  have "foldE (\<lambda>stmt. exec (stmt ?S)) delete_statements d = Inr (fold (\<lambda>s. s ?S) delete_statements d)"
    using io io' c2 c5 c8 c9 c11 c12 c14 c15 unfolding delete_statements_def
    by (simp add: exec_ok constraints_conversations [OF c] leaf constraints_alerts)
  then show ?thesis by (simp only: fold_delete)
qed

lemma users_without [simp]: "users (without_post i d) = users d" "audit_log (without_post i d) = audit_log d"
  by (simp_all add: without_post_def without_rules_def without_edges_def del_posts_def del_check_schedules_def Let_def purge_local_def)

lemma local_delete_ok:
  assumes ok: "tables_ok d" and post: "i \<in> po_id ` set (posts d)" and actor: "en_ActorID e = 0 \<or> en_ActorID e \<in> us_id ` set (users d)"
  shows "\<exists>row. local_delete now i e d = ((without_post i d)\<lparr> audit_log := audit_log d @ [row] \<rparr>, Inr ())"
proof -
  have io: "\<not> io_fault d" and k: "distinct (map po_id (posts d))"
    using ok by (simp_all add: tables_ok_def constraints_def keys_ok_def)
  have "0 < count_where (\<lambda>p. po_id p = i) (posts d)" using post by (auto simp: count_where_pos)
  moreover have "exec (del_posts (\<lambda>p. po_id p = i)) (without_rules i d) = Inr (without_post i d)" by (rule delete_body(4) [OF ok])
  ultimately show ?thesis
    using io constraints_without(4) [OF ok, of i] actor delete_loop_ok [OF ok, of i]
    unfolding local_delete_def audited_tx_def with_tx_def by (simp add: Insert_ok) blast
qed

section \<open>Sample data\<close>

definition sample_post :: Post where
  "sample_post = \<lparr> p_ID = ''web-1'', p_Name = ''Web'', p_Kind = ''host'', p_Address = ''10.0.0.1'', p_Owner = ''ops'',
     p_Labels = Some [(''env'', ''prod'')], p_Maintenance = False, p_Archived = True, p_Version = 0 \<rparr>"

definition sample_entry :: Entry where
  "sample_entry = \<lparr> en_ActorID = 0, en_Action = ''post.create'', en_ObjectType = [], en_ObjectID = [], en_Detail = [] \<rparr>"

definition sample_posts :: db where
  "sample_posts = empty_db\<lparr> posts := [new_post ''a'' zero_post, new_post ''b'' zero_post], replicated_meta := Some [] \<rparr>"

lemma sample_posts_ok: "db_ok sample_posts" "tables_ok sample_posts"
  by (simp_all add: sample_posts_def db_ok_def tables_ok_def constraint_defs Let_def alerts_consistent_def observations_consistent_def
      empty_db_def new_post_def)

section \<open>Properties\<close>

text \<open>
  C13: deleting a post on a standalone node and applying a replicated \<open>post.delete\<close> do the same to the database:
  the two statement lists, in their different orders, both succeed and remove the same rows from every table; the
  standalone path adds its audit row and the replicated path its position.
\<close>

theorem standalone_delete_as_replicated:
  assumes "db_ok (fs_db f)" and "op_DomainRevision opn = fs_graphRev f" and "op_ObjectID opn \<in> po_id ` set (posts (fs_db f))"
    and "en_ActorID e = 0 \<or> en_ActorID e \<in> us_id ` set (users (fs_db f))"
  shows "\<exists>d' m. Delete standalone_site now (op_ObjectID opn) e (fs_db f) = (d', Inr ()) \<and>
    fs_db (fst (applyPostDelete opn i t f)) = d'\<lparr> audit_log := audit_log (fs_db f), replicated_meta := Some m \<rparr>"
proof -
  let ?d = "fs_db f" and ?i = "op_ObjectID opn"
  note ok = db_ok_tables [OF assms(1)]
  obtain row where l: "local_delete now ?i e ?d = ((without_post ?i ?d)\<lparr> audit_log := audit_log ?d @ [row] \<rparr>, Inr ())"
    using local_delete_ok [OF ok assms(3,4)] by blast
  obtain m where w: "writeMeta i t (fs_graphRev f + 1) (without_post ?i ?d) = Inr ((without_post ?i ?d)\<lparr> replicated_meta := Some m \<rparr>)"
    using db_ok_write [OF db_ok_without_post [OF assms(1)]] by blast
  have "fs_db (fst (applyPostDelete opn i t f)) = (without_post ?i ?d)\<lparr> replicated_meta := Some m \<rparr>"
    using assms(2,3) w ok delete_body [OF ok, of ?i] distinct_posts [OF assms(1)]
    unfolding applyPostDelete_def bump_graph_def in_tx_def with_tx_def by (simp add: Let_def tables_ok_def)
  moreover have "(without_post ?i ?d)\<lparr> audit_log := audit_log ?d, replicated_meta := Some m \<rparr> = (without_post ?i ?d)\<lparr> replicated_meta := Some m \<rparr>"
    by (rule db.equality) simp_all
  ultimately show ?thesis
    using l by (intro exI [of _ "(without_post ?i ?d)\<lparr> audit_log := audit_log ?d @ [row] \<rparr>"] exI [of _ m])
      (simp add: Delete_def authorized_def standalone_site_def on_db_def)
qed

theorem standalone_delete_as_replicated_witness:
  "\<exists>d' m. Delete standalone_site 0 ''a'' sample_entry sample_posts = (d', Inr ()) \<and>
    fs_db (fst (applyPostDelete (sample_op\<lparr> op_ObjectID := ''a'', op_DomainRevision := 0 \<rparr>) 1 1 (sample_fsm\<lparr> fs_db := sample_posts \<rparr>))) =
      d'\<lparr> audit_log := [], replicated_meta := Some m \<rparr>"
  using standalone_delete_as_replicated [of "sample_fsm\<lparr> fs_db := sample_posts \<rparr>" "sample_op\<lparr> op_ObjectID := ''a'', op_DomainRevision := 0 \<rparr>" sample_entry 0 1 1]
    sample_posts_ok(1)
  by (simp add: sample_fsm_def sample_posts_def new_post_def sample_entry_def empty_db_def)

text \<open>
  C9: on a standalone node a dependency is added exactly when both posts exist, the edge is new, is not from a post to itself
  and closes no cycle; a refused request changes nothing, and the graph never gets a cycle.
\<close>

theorem add_dependency_iff_acyclic:
  assumes "\<not> io_fault d" and "constraints d" and "acyclic_deps (post_dependencies d)"
    and "en_ActorID e = 0 \<or> en_ActorID e \<in> us_id ` set (users d)"
  shows "(case PostsAddDependency standalone_site now a b e d of
      (d', Inl _) \<Rightarrow> d' = d \<and> \<not> (a \<noteq> b \<and> {a, b} \<subseteq> po_id ` set (posts d) \<and> (a, b) \<notin> set (post_dependencies d) \<and>
         acyclic_deps (post_dependencies d @ [(a, b)]))
    | (d', Inr _) \<Rightarrow> post_dependencies d' = post_dependencies d @ [(a, b)] \<and> acyclic_deps (post_dependencies d') \<and>
         a \<noteq> b \<and> {a, b} \<subseteq> po_id ` set (posts d) \<and> (a, b) \<notin> set (post_dependencies d))"
proof (cases "a \<noteq> b \<and> cycle_count (post_dependencies d) b a = 0 \<and>
    constraints (d\<lparr> post_dependencies := post_dependencies d @ [(a, b)] \<rparr>)")
  case True
  then show ?thesis
    using assms constraints_add_dep [OF assms(2), of a b] acyclic_deps_add [OF assms(3), of a b]
    by (simp add: PostsAddDependency_def authorized_def standalone_site_def on_db_def local_add_dependency_def audited_tx_def with_tx_def
        exec_ok Insert_ok)
next
  case False
  then have "\<not> (a \<noteq> b \<and> {a, b} \<subseteq> po_id ` set (posts d) \<and> (a, b) \<notin> set (post_dependencies d) \<and> acyclic_deps (post_dependencies d @ [(a, b)]))"
    using constraints_add_dep [OF assms(2), of a b] acyclic_deps_add_iff [OF assms(3), of a b] by auto
  moreover have "a = b \<or> (\<exists>x. local_add_dependency now a b e d = (d, Inl x))"
    using False assms(1)
    by (auto simp: local_add_dependency_def audited_tx_def with_tx_def exec_refused ensure_def)
  ultimately show ?thesis
    by (auto simp: PostsAddDependency_def authorized_def standalone_site_def on_db_def)
qed

theorem add_dependency_iff_acyclic_witness:
  "acyclic_deps (post_dependencies (fst (PostsAddDependency standalone_site 0 ''a'' ''b'' sample_entry sample_posts))) \<and>
   post_dependencies (fst (PostsAddDependency standalone_site 0 ''a'' ''b'' sample_entry sample_posts)) = [(''a'', ''b'')]"
proof -
  have hyps: "\<not> io_fault sample_posts" "constraints sample_posts" "acyclic_deps (post_dependencies sample_posts)" "post_dependencies sample_posts = []"
    "{''a'', ''b''} \<subseteq> po_id ` set (posts sample_posts)" "en_ActorID sample_entry = 0"
    using sample_posts_ok(1) by (simp_all add: db_ok_def) (simp_all add: sample_posts_def new_post_def sample_entry_def empty_db_def)
  moreover have "acyclic_deps [(''a'', ''b'')]" using acyclic_deps_add [of "[]" "''a''" "''b''"]
    by (simp add: cycle_count_def cte_reach_def successors_def reach_loop.simps)
  ultimately show ?thesis
    using add_dependency_iff_acyclic [OF hyps(1-3), where e = sample_entry and now = 0 and a = "''a''" and b = "''b''"] by (auto split: prod.splits sum.splits)
qed

text \<open>
  A valid post with a new identifier is created on a standalone node and read back as given, at version 1 and not
  archived: the local path drops the archived flag of the request, which the replicated path stores.
\<close>

theorem create_then_get:
  assumes "\<not> io_fault d" and "constraints d" and "valid p" and "p_ID p \<notin> po_id ` set (posts d)"
    and "en_ActorID e = 0 \<or> en_ActorID e \<in> us_id ` set (users d)"
  shows "\<exists>d'. Create standalone_site now p e d = (d', Inr (p\<lparr> p_Archived := False, p_Version := 1 \<rparr>)) \<and>
    Get (p_ID p) d' = Inr (p\<lparr> p_Archived := False, p_Version := 1 \<rparr>) \<and> length (posts d') = length (posts d) + 1"
proof -
  let ?row = "\<lparr> po_id = p_ID p, po_name = p_Name p, po_kind = p_Kind p, po_address = p_Address p, po_owner = p_Owner p,
            po_labels = marshal_labels (p_Labels p), po_maintenance = p_Maintenance p, po_archived = False, po_version = 1,
            po_created = format_time now, po_updated = format_time now \<rparr>"
  let ?d1 = "d\<lparr> posts := posts d @ [?row] \<rparr>"
  let ?e = "e\<lparr> en_ObjectType := ''post'', en_ObjectID := p_ID p \<rparr>"
  let ?d2 = "?d1\<lparr> audit_log := audit_log d @ [audit_row_of now ?e ?d1] \<rparr>"
  have c1: "constraints ?d1" using assms(2,4) by (simp add: constraints_add_post)
  have l: "local_create now p e d = (?d2, Inr ())"
    using assms(1,5) c1 by (simp add: local_create_def audited_tx_def with_tx_def exec_ok Insert_ok)
  have "find (\<lambda>r. po_id r = p_ID p) (posts d) = None" using assms(4) by (simp add: find_None_iff image_iff) metis
  then have f: "find (\<lambda>r. po_id r = p_ID p) (posts d @ [?row]) = Some ?row" by (simp add: find_append)
  have g: "Get (p_ID p) ?d2 = Inr (p\<lparr> p_Archived := False, p_Version := 1 \<rparr>)"
    using assms(1) f by (simp add: Get_def post_of_row_def unmarshal_labels_def marshal_labels_def split: option.splits)
  have "list_all (\<lambda>(k, v). \<not> (length k > 63 \<or> length v > 255)) (label_list p)" using assms(3) by (simp add: valid_def)
  then have "Create standalone_site now p e d = (?d2, Inr (p\<lparr> p_Archived := False, p_Version := 1 \<rparr>))"
    using assms(3) l g by (simp add: Create_def authorized_def standalone_site_def on_db_def then_get_def)
  then show ?thesis using g by (intro exI [of _ ?d2]) simp
qed

theorem create_then_get_witness:
  "\<exists>d'. Create standalone_site 0 sample_post sample_entry sample_posts = (d', Inr (sample_post\<lparr> p_Archived := False, p_Version := 1 \<rparr>))"
  using create_then_get [where d = sample_posts and p = sample_post and e = sample_entry and now = 0] sample_posts_ok
  by (simp add: db_ok_def) (force simp: valid_def sample_post_def idPattern_def id_char_def post_kinds_def label_list_def sample_posts_def new_post_def sample_entry_def)

text \<open>
  C10: an update on a standalone node that succeeds returns the post at the expected version plus one, and every later
  update that expects the same version is refused and changes nothing: of two concurrent edits one is not lost.
\<close>

theorem update_loses_no_edit:
  assumes keys: "distinct (map po_id (posts d))" and upd: "Update standalone_site now p expected e d = (d1, Inr q)" and same: "p_ID p' = p_ID p"
  shows "p_Version q = expected + 1 \<and>
    (\<exists>x. Update standalone_site now' p' expected e' d1 = (d1, Inl x))"
proof -
  let ?hit = "\<lambda>r. po_id r = p_ID p \<and> po_version r = expected"
  have l: "local_update now p expected e d = (d1, Inr ())" and g: "Get (p_ID p) d1 = Inr q"
    using upd by (auto simp: Update_def authorized_def standalone_site_def on_db_def then_get_def split: if_splits prod.splits sum.splits)
  then have io: "\<not> io_fault d1"
    by (auto simp: local_update_def audited_tx_Inr bindE_eq_Inr exec_eq_Inr Insert_eq_Inr Let_def)
  obtain h where n: "count_where ?hit (posts d) = 1" and posts: "posts d1 = upd_where ?hit h (posts d)"
    and h: "\<And>r. po_id (h r) = po_id r \<and> po_version (h r) = po_version r + 1"
    using l by (force simp: local_update_def audited_tx_Inr bindE_eq_Inr exec_eq_Inr Insert_eq_Inr Let_def)
  have new: "po_version x = expected + 1" if x: "x \<in> set (posts d1)" "po_id x = p_ID p" for x
  proof -
    obtain y where y: "y \<in> set (posts d)" "x = (if ?hit y then h y else y)" using x(1) posts by (auto simp: set_upd_where)
    obtain z where z: "z \<in> set (posts d)" "?hit z" using n count_where_pos [of ?hit "posts d"] by auto
    have "y = z" using y z x(2) h keys by (auto simp: distinct_map inj_on_def split: if_splits)
    then show ?thesis using y(2) z(2) h by simp
  qed
  obtain row where row: "find (\<lambda>r. po_id r = p_ID p) (posts d1) = Some row" "post_of_row row = Inr q"
    using g io by (auto simp: Get_def split: option.splits)
  have "p_Version q = expected + 1"
    using row new find_set [OF row(1)] by (auto simp: post_of_row_def bindE_eq_Inr)
  moreover have "count_where (\<lambda>r. po_id r = p_ID p' \<and> po_version r = expected) (posts d1) = 0"
    using new same by (auto simp: count_where_zero)
  then have "\<exists>x. local_update now' p' expected e' d1 = (d1, Inl x)"
    using audited_tx_Inl [of now' _ _ d1] io
    by (auto simp: local_update_def audited_tx_def with_tx_def exec_def Let_def ensure_def simp del: count_where_zero)
  ultimately show ?thesis
    by (auto simp: Update_def authorized_def standalone_site_def on_db_def then_get_def)
qed

lemma sample_update:
  "\<exists>d1 q. Update standalone_site 0 (sample_post\<lparr> p_ID := ''a'' \<rparr>) 1 sample_entry sample_posts = (d1, Inr q)"
proof -
  have v: "valid (sample_post\<lparr> p_ID := ''a'' \<rparr>)"
    by (simp add: valid_def sample_post_def idPattern_def id_char_def post_kinds_def label_list_def)
  then show ?thesis
    by (simp add: Update_def authorized_def standalone_site_def on_db_def then_get_def local_update_def audited_tx_def with_tx_def Let_def
        exec_def Insert_def audit_row_of_def Get_def post_of_row_def new_post_def unmarshal_labels_def marshal_labels_def sample_post_def
        sample_posts_def empty_db_def sample_entry_def constraint_defs)
qed

theorem update_loses_no_edit_witness:
  "\<exists>d1 q x. Update standalone_site 0 (sample_post\<lparr> p_ID := ''a'' \<rparr>) 1 sample_entry sample_posts = (d1, Inr q) \<and>
    Update standalone_site 1 (sample_post\<lparr> p_ID := ''a'', p_Name := ''Other'' \<rparr>) 1 sample_entry d1 = (d1, Inl x)"
proof -
  obtain d1 q where u: "Update standalone_site 0 (sample_post\<lparr> p_ID := ''a'' \<rparr>) 1 sample_entry sample_posts = (d1, Inr q)"
    using sample_update by blast
  have "distinct (map po_id (posts sample_posts))" by (rule distinct_posts [OF sample_posts_ok(1)])
  then show ?thesis
    using update_loses_no_edit [OF _ u, of "sample_post\<lparr> p_ID := ''a'', p_Name := ''Other'' \<rparr>" 1 sample_entry] u by auto
qed

text \<open>
  A node configured replicated that is neither ready leader nor ready follower refuses every mutation of a post and
  changes nothing: it never falls back to its local transactions.
\<close>

theorem unready_replica_refuses_posts:
  assumes m: "authority_matrix core" and "ct_mode c = ModeReplicated" and "ct_readiness c \<notin> {ReadinessReadyLeader, ReadinessReadyFollower}"
  shows "(\<exists>x. Create (router_site core c rid r1 r2) now p e w = (w, Inl x)) \<and>
    (\<exists>x. Update (router_site core c rid r1 r2) now p n e w = (w, Inl x)) \<and>
    (\<exists>x. Delete (router_site core c rid r1 r2) now i e w = (w, Inl x)) \<and>
    (\<exists>x. PostsAddDependency (router_site core c rid r1 r2) now i b e w = (w, Inl x))"
proof -
  have r: "\<exists>x. \<not> is_standalone x \<and> route core c fr ex w = (w, Inl x)" for fr ex
    using assms unfolding authority_matrix_def route_def by metis
  have a: "\<exists>x. authorized (router_site core c rid r1 r2) call ok loc w = (w, Inl x)"
    if "\<exists>x. \<not> is_standalone x \<and> call (router_authority core c rid r1 r2) w = (w, Inl x)" for call ok loc
    using that by (auto simp: authorized_def router_site_def)
  have "\<exists>x. authorized (router_site core c rid r1 r2) (\<lambda>a. ma_CreatePost a u v) ok loc w = (w, Inl x)"
    "\<exists>x. authorized (router_site core c rid r1 r2) (\<lambda>a. ma_UpdatePost a u k v) ok loc w = (w, Inl x)"
    "\<exists>x. authorized (router_site core c rid r1 r2) (\<lambda>a. ma_DeletePost a u) ok' loc' w = (w, Inl x)"
    "\<exists>x. authorized (router_site core c rid r1 r2) (\<lambda>a. ma_AddDependency a u y) ok' loc' w = (w, Inl x)"
    for u v k y and ok :: "world \<Rightarrow> err + Post" and loc and ok' :: "world \<Rightarrow> err + unit" and loc'
    by (rule a, simp add: router_authority_def Router_CreatePost_def Router_UpdatePost_def Router_DeletePost_def Router_AddDependency_def r)+
  then show ?thesis
    by (simp add: Create_def Update_def Delete_def PostsAddDependency_def)
qed

theorem unready_replica_refuses_posts_witness:
  "\<exists>x. Create (router_site sample_core (SetMode ModeReplicated (NewController sample_adapter (\<lambda>i w. (w, Inr ())))) [] None None) 0 sample_post
      sample_entry \<lparr> w_local = sample_fsm, w_leader = None \<rparr> = (\<lparr> w_local = sample_fsm, w_leader = None \<rparr>, Inl x)"
proof -
  have "authority_matrix sample_core" by (simp add: authority_matrix_def sample_core_def)
  then show ?thesis
    using unready_replica_refuses_posts [of sample_core "SetMode ModeReplicated (NewController sample_adapter (\<lambda>i w. (w, Inr ())))"]
    by (simp add: SetMode_def NewController_def)
qed

end
