(* ===== verification/Rules.thy ===== *)
theory Rules
  imports Posts
begin

text \<open>
  The rule engine (\<open>internal/rules/rules.go\<close>): rule definitions, the evaluation of one measurement against a rule, which
  appends a row to \<open>alerts\<close> whenever the state of the alert changes, and the acknowledgement of an alert. The current
  alert of a rule is its row with the largest id. A value that is not a number is stored as NULL, as SQLite does.
\<close>

section \<open>Rules\<close>

record Rule =
  r_ID :: id
  r_PostID :: id
  r_Signal :: string
  r_Operator :: string
  r_Threshold :: f64
  r_Duration :: int
  r_RecoveryThreshold :: "f64 option"
  r_MissingPolicy :: string
  r_Severity :: string
  r_Enabled :: bool

record Alert =
  a_ID :: nat
  a_RuleID :: id
  a_PostID :: id
  a_State :: string
  a_Severity :: string
  a_OpenedAt :: time
  a_UpdatedAt :: time
  a_Value :: "f64 option"

fun compare :: "f64 \<Rightarrow> string \<Rightarrow> f64 \<Rightarrow> bool" where
  "compare v oper t = (if oper = ''gt'' then f64_less t v else if oper = ''gte'' then f64_le t v
     else if oper = ''lt'' then f64_less v t else if oper = ''lte'' then f64_le v t else False)"

definition recovered :: "f64 \<Rightarrow> string \<Rightarrow> f64 \<Rightarrow> bool" where
  "recovered v oper t = (if oper = ''gt'' \<or> oper = ''gte'' then f64_less v t else f64_less t v)"

definition sql_real :: "f64 option \<Rightarrow> f64 option" where
  "sql_real v = (if v = Some NaN then None else v)"

definition rule_of_row :: "rule_row \<Rightarrow> Rule" where
  "rule_of_row r = \<lparr> r_ID = ru_id r, r_PostID = ru_post r, r_Signal = ru_signal r, r_Operator = ru_operator r,
     r_Threshold = ru_threshold r, r_Duration = ru_duration r * second, r_RecoveryThreshold = ru_recovery r,
     r_MissingPolicy = ru_missing r, r_Severity = ru_severity r, r_Enabled = ru_enabled r \<rparr>"

definition ListRules :: "int \<Rightarrow> db \<Rightarrow> err + Rule list" where
  "ListRules limit d =
     bindE (ensure (\<not> (limit < 1 \<or> limit > 1000)) (Err ''invalid limit'')) (\<lambda>_.
     query (\<lambda>d. map rule_of_row (take (nat limit) (sort_key (\<lambda>r. (ru_post r, ru_id r)) (rules d)))) d)"

definition ListAlerts :: "int \<Rightarrow> db \<Rightarrow> err + Alert list" where
  "ListAlerts limit d =
     bindE (ensure (\<not> (limit < 1 \<or> limit > 1000)) (Err ''invalid limit'')) (\<lambda>_.
     query (\<lambda>d. map (\<lambda>a. \<lparr> a_ID = al_id a, a_RuleID = al_rule a, a_PostID = al_post a, a_State = al_state a, a_Severity = al_severity a,
         a_OpenedAt = al_opened a, a_UpdatedAt = al_updated a, a_Value = al_value a \<rparr>)
       (take (nat limit) (rev (sort_key al_id (alerts d))))) d)"

section \<open>Changing rules\<close>

definition local_set_enabled :: "time \<Rightarrow> id \<Rightarrow> bool \<Rightarrow> Entry \<Rightarrow> db \<Rightarrow> db \<times> (err + unit)" where
  "local_set_enabled now i enabled entry =
     audited_tx now (entry\<lparr> en_ObjectType := ''rule'', en_ObjectID := i \<rparr>) (\<lambda>d.
       let n = count_where (\<lambda>r. ru_id r = i) (rules d) in
       bindE (exec (\<lambda>d. d\<lparr> rules := upd_where (\<lambda>r. ru_id r = i) (\<lambda>r. r\<lparr> ru_enabled := enabled, ru_version := ru_version r + 1 \<rparr>) (rules d) \<rparr>) d) (\<lambda>d.
       bindE (ensure (n = 1) (Err ''rule not found'')) (\<lambda>_. Inr (d, ()))))"

text \<open>The version read before asking the authority: 0 when there is no such rule or the query fails.\<close>

definition rule_version :: "id \<Rightarrow> db \<Rightarrow> int" where
  "rule_version i d = (if io_fault d then 0 else case find (\<lambda>r. ru_id r = i) (rules d) of None \<Rightarrow> 0 | Some r \<Rightarrow> ru_version r)"

definition SetEnabled :: "'s site \<Rightarrow> time \<Rightarrow> id \<Rightarrow> bool \<Rightarrow> Entry \<Rightarrow> 's \<Rightarrow> 's \<times> (err + unit)" where
  "SetEnabled st now i enabled entry s =
     authorized st (\<lambda>a. ma_SetRuleEnabled a i (rule_version i (si_db st s)) enabled) (\<lambda>s. Inr ())
       (on_db st (local_set_enabled now i enabled entry)) s"

definition valid_rule :: "Rule \<Rightarrow> bool" where
  "valid_rule r \<longleftrightarrow> \<not> (r_ID r = [] \<or> r_PostID r = [] \<or> r_Signal r = [] \<or> r_Operator r \<notin> {''gt'', ''gte'', ''lt'', ''lte''} \<or>
     r_MissingPolicy r \<notin> {''unknown'', ''healthy'', ''firing''} \<or> r_Duration r < 0)"

text \<open>Go's integer division of a duration by a second truncates; the duration is not negative here.\<close>

definition local_create_rule :: "time \<Rightarrow> Rule \<Rightarrow> Entry \<Rightarrow> db \<Rightarrow> db \<times> (err + unit)" where
  "local_create_rule now r entry =
     audited_tx now (entry\<lparr> en_ObjectType := ''rule'', en_ObjectID := r_ID r \<rparr>) (\<lambda>d.
       bindE (exec (\<lambda>d. d\<lparr> rules := rules d @
         [\<lparr> ru_id = r_ID r, ru_post = r_PostID r, ru_signal = r_Signal r, ru_operator = r_Operator r, ru_threshold = r_Threshold r,
            ru_duration = r_Duration r div second, ru_recovery = sql_real (r_RecoveryThreshold r), ru_missing = r_MissingPolicy r,
            ru_severity = r_Severity r, ru_enabled = r_Enabled r, ru_version = 1 \<rparr>] \<rparr>) d) (\<lambda>d. Inr (d, ())))"

definition rule_payload :: "Rule \<Rightarrow> RulePayload" where
  "rule_payload r = \<lparr> rp_post = r_PostID r, rp_signal = r_Signal r, rp_operator = r_Operator r, rp_threshold = r_Threshold r,
     rp_duration = r_Duration r div second, rp_recovery = r_RecoveryThreshold r, rp_missing = r_MissingPolicy r,
     rp_severity = r_Severity r, rp_enabled = r_Enabled r \<rparr>"

text \<open>A threshold that is not a number becomes NULL, which the column's NOT NULL refuses.\<close>

definition CreateRuleDef :: "'s site \<Rightarrow> time \<Rightarrow> Rule \<Rightarrow> Entry \<Rightarrow> 's \<Rightarrow> 's \<times> (err + unit)" where
  "CreateRuleDef st now r entry s =
     (if \<not> valid_rule r then (s, Inl (Err ''invalid rule''))
      else authorized st (\<lambda>a. ma_CreateRule a (r_ID r) (rule_payload r)) (\<lambda>s. Inr ())
        (on_db st (if r_Threshold r = NaN then (\<lambda>d. (d, Inl (if io_fault d then IOFault else Constraint)))
                   else local_create_rule now r entry)) s)"

section \<open>Evaluating a measurement\<close>

text \<open>The row with the largest id of a rule and post.\<close>

definition latest_alert :: "id \<Rightarrow> id \<Rightarrow> db \<Rightarrow> alert_row option" where
  "latest_alert rule post d =
     (case rev (sort_key al_id (filter (\<lambda>a. al_rule a = rule \<and> al_post a = post) (alerts d))) of [] \<Rightarrow> None | a # _ \<Rightarrow> Some a)"

definition initial_breach :: "Rule \<Rightarrow> f64 option \<Rightarrow> string \<Rightarrow> bool" where
  "initial_breach r value quality =
     (let good = (case value of None \<Rightarrow> False | Some v \<Rightarrow> quality = ''good'');
          breached = (case value of None \<Rightarrow> False | Some v \<Rightarrow> quality = ''good'' \<and> compare v (r_Operator r) (r_Threshold r))
      in if \<not> good \<and> r_MissingPolicy r = ''firing'' then True else breached)"

definition initial_desired :: "Rule \<Rightarrow> bool \<Rightarrow> bool \<Rightarrow> string" where
  "initial_desired r maintenance breached =
     (let desired = (if breached then if r_Duration r = 0 then ''firing'' else ''pending'' else ''resolved'')
      in if maintenance \<and> breached then ''suppressed'' else desired)"

definition still_breached :: "Rule \<Rightarrow> f64 option \<Rightarrow> string \<Rightarrow> bool \<Rightarrow> bool" where
  "still_breached r value state breached =
     (case (value, r_RecoveryThreshold r) of
        (Some v, Some t) \<Rightarrow> if state = ''firing'' \<or> state = ''acknowledged'' then \<not> recovered v (r_Operator r) t else breached
      | _ \<Rightarrow> breached)"

definition next_desired :: "Rule \<Rightarrow> bool \<Rightarrow> alert_row \<Rightarrow> time \<Rightarrow> bool \<Rightarrow> string \<Rightarrow> string" where
  "next_desired r maintenance current tm breached desired =
     (let d1 = (if maintenance \<and> breached then ''suppressed'' else if breached \<and> desired = ''resolved'' then ''pending'' else desired);
          st = al_state current;
          d2 = (if breached \<and> (st = ''pending'' \<or> st = ''firing'' \<or> st = ''acknowledged'')
                then if st = ''pending'' \<and> tm - al_opened current \<ge> r_Duration r then ''firing'' else st
                else d1)
      in if \<not> breached \<and> st = ''resolved'' then ''resolved'' else d2)"

definition insert_alert :: "Rule \<Rightarrow> string \<Rightarrow> time \<Rightarrow> time \<Rightarrow> f64 option \<Rightarrow> db \<Rightarrow> err + (db \<times> Alert)" where
  "insert_alert r desired opened tm value d =
     (let i = next_id (map al_id (alerts d)) in
      bindE (exec (\<lambda>d. d\<lparr> alerts := alerts d @
        [\<lparr> al_id = i, al_rule = r_ID r, al_post = r_PostID r, al_state = desired, al_severity = r_Severity r, al_opened = opened,
           al_updated = tm, al_acknowledged = None, al_resolved = (if desired = ''resolved'' then Some tm else None),
           al_value = sql_real value \<rparr>] \<rparr>) d) (\<lambda>d.
      Inr (d, \<lparr> a_ID = i, a_RuleID = r_ID r, a_PostID = r_PostID r, a_State = desired, a_Severity = r_Severity r,
                a_OpenedAt = opened, a_UpdatedAt = tm, a_Value = value \<rparr>)))"

definition evaluate_body :: "id \<Rightarrow> time \<Rightarrow> f64 option \<Rightarrow> string \<Rightarrow> db \<Rightarrow> err + (db \<times> Alert)" where
  "evaluate_body ruleID tm value quality d =
     bindE (query (\<lambda>d. find (\<lambda>r. ru_id r = ruleID) (rules d)) d) (\<lambda>row.
     bindE (query (\<lambda>d. case row of None \<Rightarrow> None | Some r \<Rightarrow> find (\<lambda>p. po_id p = ru_post r) (posts d)) d) (\<lambda>post.
     case (row, post) of
       (Some row, Some post) \<Rightarrow>
         (let r = rule_of_row row; maintenance = po_maintenance post;
              breached = initial_breach r value quality;
              desired = initial_desired r maintenance breached in
          bindE (query (latest_alert (r_ID r) (r_PostID r)) d) (\<lambda>current.
          case current of
            Some c \<Rightarrow>
              (let breached = still_breached r value (al_state c) breached;
                   desired = next_desired r maintenance c tm breached desired in
               if desired = al_state c
               then Inr (d, \<lparr> a_ID = al_id c, a_RuleID = [], a_PostID = [], a_State = al_state c, a_Severity = [],
                             a_OpenedAt = al_opened c, a_UpdatedAt = al_updated c, a_Value = value \<rparr>)
               else insert_alert r desired (if breached then al_opened c else tm) tm value d)
          | None \<Rightarrow>
              if \<not> breached
              then Inr (d, \<lparr> a_ID = 0, a_RuleID = r_ID r, a_PostID = r_PostID r, a_State = ''resolved'', a_Severity = r_Severity r,
                            a_OpenedAt = 0, a_UpdatedAt = tm, a_Value = None \<rparr>)
              else insert_alert r desired tm tm value d))
     | _ \<Rightarrow> Inl ErrNoRows))"

definition Evaluate :: "id \<Rightarrow> time \<Rightarrow> f64 option \<Rightarrow> string \<Rightarrow> db \<Rightarrow> db \<times> (err + Alert)" where
  "Evaluate ruleID tm value quality d = with_tx (evaluate_body ruleID tm value quality) d"

definition Acknowledge :: "time \<Rightarrow> nat \<Rightarrow> time \<Rightarrow> Entry \<Rightarrow> db \<Rightarrow> db \<times> (err + unit)" where
  "Acknowledge now i tm entry =
     audited_tx now (entry\<lparr> en_ObjectType := ''alert'', en_ObjectID := show_nat i \<rparr>) (\<lambda>d.
       let hit = (\<lambda>a. al_id a = i \<and> al_state a = ''firing''); n = count_where hit (alerts d) in
       bindE (exec (\<lambda>d. d\<lparr> alerts := upd_where hit (\<lambda>a. a\<lparr> al_state := ''acknowledged'', al_acknowledged := Some tm, al_updated := tm \<rparr>) (alerts d) \<rparr>) d) (\<lambda>d.
       bindE (ensure (n = 1) (Err ''alert is not firing'')) (\<lambda>_. Inr (d, ()))))"

text \<open>\<open>contract.LegacySignalAliases\<close>\<close>

definition LegacySignalAliases :: "(string \<times> string) list" where
  "LegacySignalAliases = [(''load.one'', ''load.1'')]"

definition signals_for :: "string \<Rightarrow> string list" where
  "signals_for signal = signal # map fst (filter (\<lambda>(legacy, canonical). canonical = signal) LegacySignalAliases)"

text \<open>The rules are evaluated one after the other, each in its own transaction; the first error ends the loop.\<close>

fun evaluate_all :: "id list \<Rightarrow> time \<Rightarrow> f64 option \<Rightarrow> string \<Rightarrow> db \<Rightarrow> db \<times> (err + Alert list)" where
  "evaluate_all [] tm value quality d = (d, Inr [])"
| "evaluate_all (i # is) tm value quality d =
     (case Evaluate i tm value quality d of
        (d', Inl e) \<Rightarrow> (d', Inl e)
      | (d', Inr a) \<Rightarrow>
          (case evaluate_all is tm value quality d' of (d'', Inl e) \<Rightarrow> (d'', Inl e) | (d'', Inr as) \<Rightarrow> (d'', Inr (a # as))))"

definition EvaluateObservation :: "id \<Rightarrow> string \<Rightarrow> time \<Rightarrow> f64 option \<Rightarrow> string \<Rightarrow> db \<Rightarrow> db \<times> (err + Alert list)" where
  "EvaluateObservation postID signal tm value quality d =
     (case query (\<lambda>d. map ru_id (sort_key ru_id (filter (\<lambda>r. ru_post r = postID \<and> ru_signal r \<in> set (signals_for signal) \<and> ru_enabled r) (rules d)))) d of
        Inl e \<Rightarrow> (d, Inl e)
      | Inr is \<Rightarrow> evaluate_all is tm value quality d)"

section \<open>The lifecycle of an alert\<close>

text \<open>The transitions an evaluation makes; an alert that was never opened counts as resolved.\<close>

inductive alert_step :: "string \<Rightarrow> string \<Rightarrow> bool" where
  opened: "s \<in> {''resolved'', ''suppressed''} \<Longrightarrow> s' \<in> {''pending'', ''firing''} \<Longrightarrow> alert_step s s'"
| suppressed: "alert_step ''resolved'' ''suppressed''"
| fired: "alert_step ''pending'' ''firing''"
| closed: "s \<in> {''pending'', ''firing'', ''acknowledged'', ''suppressed''} \<Longrightarrow> alert_step s ''resolved''"

inductive_simps alert_step_simps: "alert_step s s'"

inductive_cases alert_step_from_resolved: "alert_step ''resolved'' s'"

definition alert_states :: "string list" where
  "alert_states = [''pending'', ''firing'', ''acknowledged'', ''suppressed'', ''resolved'']"

definition current_state :: "id \<Rightarrow> id \<Rightarrow> db \<Rightarrow> string" where
  "current_state rule post d = (case latest_alert rule post d of None \<Rightarrow> ''resolved'' | Some a \<Rightarrow> al_state a)"

text \<open>
  A rule whose recovery threshold lies on the healthy side of its threshold, and whose missing policy does not fire
  when it has one: then a value that has recovered is no breach.
\<close>

definition sane_rule :: "rule_row \<Rightarrow> f64 option \<Rightarrow> bool" where
  "sane_rule r value \<longleftrightarrow>
     (case (value, ru_recovery r) of
        (Some v, Some t) \<Rightarrow> (recovered v (ru_operator r) t \<longrightarrow> \<not> compare v (ru_operator r) (ru_threshold r)) \<and> ru_missing r \<noteq> ''firing''
      | _ \<Rightarrow> True)"

section \<open>Lemmas\<close>

lemma insort_key_max: "f x \<le> f a \<Longrightarrow> insort_key f x (ys @ [a]) = insort_key f x ys @ [a]"
  by (induction ys) auto

lemma sort_key_max: "(\<And>x. x \<in> set xs \<Longrightarrow> f x \<le> f a) \<Longrightarrow> sort_key f (xs @ [a]) = sort_key f xs @ [a]"
  by (induction xs) (simp_all add: insort_key_max)

lemma next_id_ge: "x \<in> set xs \<Longrightarrow> f x \<le> next_id (map f xs)"
  using ids_max_ge [of "f x" "map f xs"] by (simp add: next_id_def)

lemma latest_alert_new:
  assumes "al_id a = next_id (map al_id (alerts d))" and "al_rule a = rule" and "al_post a = post"
  shows "latest_alert rule post (d\<lparr> alerts := alerts d @ [a] \<rparr>) = Some a"
proof -
  have "sort_key al_id (filter (\<lambda>a. al_rule a = rule \<and> al_post a = post) (alerts d) @ [a]) =
      sort_key al_id (filter (\<lambda>a. al_rule a = rule \<and> al_post a = post) (alerts d)) @ [a]"
    by (rule sort_key_max) (auto simp: assms(1) intro: next_id_ge)
  then show ?thesis using assms(2,3) by (simp add: latest_alert_def)
qed

lemma latest_alert_set: "latest_alert rule post d = Some a \<Longrightarrow> a \<in> set (alerts d) \<and> al_rule a = rule \<and> al_post a = post"
proof -
  assume "latest_alert rule post d = Some a"
  then obtain as where "rev (sort_key al_id (filter (\<lambda>a. al_rule a = rule \<and> al_post a = post) (alerts d))) = a # as"
    by (auto simp: latest_alert_def split: list.splits)
  then have "a \<in> set (rev (sort_key al_id (filter (\<lambda>a. al_rule a = rule \<and> al_post a = post) (alerts d))))" by simp
  then show ?thesis by simp
qed

lemma constraints_add_alert:
  assumes "constraints d" and "al_id a \<notin> al_id ` set (alerts d)" and "al_rule a \<in> ru_id ` set (rules d)" and "al_post a \<in> po_id ` set (posts d)"
  shows "constraints (d\<lparr> alerts := alerts d @ [a] \<rparr>)"
  using assms by (simp add: constraint_defs Let_def)

text \<open>What a successful evaluation did: nothing, or one new row that is now the latest.\<close>

lemma evaluate_body_cases:
  assumes "evaluate_body i tm value quality d = Inr (d', a)"
  obtains (kept) "d' = d"
  | (inserted) row p desired breached where "find (\<lambda>r. ru_id r = i) (rules d) = Some row" "find (\<lambda>p. po_id p = ru_post row) (posts d) = Some p"
      "insert_alert (rule_of_row row) desired (case latest_alert (ru_id row) (ru_post row) d of None \<Rightarrow> tm | Some c \<Rightarrow> if breached then al_opened c else tm) tm value d = Inr (d', a)"
      "case latest_alert (ru_id row) (ru_post row) d of
         None \<Rightarrow> initial_breach (rule_of_row row) value quality \<and> breached \<and> desired = initial_desired (rule_of_row row) (po_maintenance p) True
       | Some c \<Rightarrow> desired \<noteq> al_state c \<and> breached = still_breached (rule_of_row row) value (al_state c) (initial_breach (rule_of_row row) value quality) \<and>
           desired = next_desired (rule_of_row row) (po_maintenance p) c tm breached
             (initial_desired (rule_of_row row) (po_maintenance p) (initial_breach (rule_of_row row) value quality))"
proof -
  obtain row p where rp: "find (\<lambda>r. ru_id r = i) (rules d) = Some row" "find (\<lambda>p. po_id p = ru_post row) (posts d) = Some p" and io: "\<not> io_fault d"
    using assms by (auto simp: evaluate_body_def bindE_eq_Inr split: option.splits)
  have ids: "r_ID (rule_of_row row) = ru_id row" "r_PostID (rule_of_row row) = ru_post row" by (simp_all add: rule_of_row_def)
  show thesis
  proof (cases "latest_alert (ru_id row) (ru_post row) d")
    case None
    then show thesis
      using assms rp io kept inserted [of row p "initial_desired (rule_of_row row) (po_maintenance p) True" True]
      by (auto simp: evaluate_body_def Let_def ids split: if_splits)
  next
    case (Some c)
    then show thesis
      using assms rp io kept inserted [of row p]
      by (auto simp: evaluate_body_def Let_def ids split: if_splits)
  qed
qed

lemma insert_alert_Inr:
  assumes "insert_alert r desired opened tm value d = Inr (d', a)"
  obtains row where "d' = d\<lparr> alerts := alerts d @ [row] \<rparr>" "al_id row = next_id (map al_id (alerts d))" "al_rule row = r_ID r"
    "al_post row = r_PostID r" "al_state row = desired" "al_opened row = opened" "al_updated row = tm" "constraints d'" "\<not> io_fault d"
    "a_State a = desired" "a_OpenedAt a = opened"
proof -
  let ?row = "\<lparr> al_id = next_id (map al_id (alerts d)), al_rule = r_ID r, al_post = r_PostID r, al_state = desired, al_severity = r_Severity r,
    al_opened = opened, al_updated = tm, al_acknowledged = None, al_resolved = (if desired = ''resolved'' then Some tm else None), al_value = sql_real value \<rparr>"
  have "d' = d\<lparr> alerts := alerts d @ [?row] \<rparr>" "constraints d'" "\<not> io_fault d" "a_State a = desired" "a_OpenedAt a = opened"
    using assms by (auto simp: insert_alert_def bindE_eq_Inr exec_eq_Inr Let_def)
  then show thesis by (intro that [of ?row]) simp_all
qed

text \<open>The state an evaluation moves to, from the state it finds.\<close>

lemma initial_desired_states: "initial_desired r m True \<in> {''suppressed'', ''firing'', ''pending''}"
  by (simp add: initial_desired_def)

lemma next_desired_step:
  assumes s: "al_state c \<in> set alert_states" and sane: "sane_rule row value"
    and b: "b = initial_breach (rule_of_row row) value quality"
    and b': "b' = still_breached (rule_of_row row) value (al_state c) b"
    and ne: "next_desired (rule_of_row row) m c tm b' (initial_desired (rule_of_row row) m b) \<noteq> al_state c"
  shows "alert_step (al_state c) (next_desired (rule_of_row row) m c tm b' (initial_desired (rule_of_row row) m b))"
proof -
  have imp: "b' \<or> \<not> b" if "al_state c = ''firing'' \<or> al_state c = ''acknowledged''"
    using that sane unfolding b b'
    by (auto simp: still_breached_def initial_breach_def sane_rule_def rule_of_row_def Let_def split: option.splits if_splits)
  have eq: "b' = b" if "\<not> (al_state c = ''firing'' \<or> al_state c = ''acknowledged'')"
    using that unfolding b' by (auto simp: still_breached_def split: option.splits)
  show ?thesis
    using s ne imp eq
    by (cases b; cases b') (auto simp: alert_states_def next_desired_def initial_desired_def alert_step_simps Let_def split: if_splits)
qed

lemma still_breached_same:
  "st \<noteq> ''firing'' \<Longrightarrow> st \<noteq> ''acknowledged'' \<Longrightarrow> still_breached r value st b = b"
  by (simp add: still_breached_def split: option.splits)

lemma find_same_id: "find (\<lambda>r. ru_id r = i) (rules d) = Some row \<Longrightarrow> ru_id row = i"
  using find_set [of "\<lambda>r. ru_id r = i"] by blast

lemma constraints_edit_alerts:
  assumes "constraints d" and "\<And>a. al_id (g a) = al_id a" "\<And>a. al_rule (g a) = al_rule a" "\<And>a. al_post (g a) = al_post a"
  shows "constraints (d\<lparr> alerts := upd_where hit g (alerts d) \<rparr>)"
  using assms by (simp add: constraint_defs Let_def)

lemma upd_where_cong: "(\<And>x. x \<in> set xs \<Longrightarrow> P x = Q x) \<Longrightarrow> upd_where P f xs = upd_where Q f xs"
  by (simp add: upd_where_def)

lemma Acknowledge_refused:
  assumes "\<not> (\<exists>a \<in> set (alerts d). al_id a = i \<and> al_state a = ''firing'')"
  shows "\<exists>x. Acknowledge now i tm e d = (d, Inl x)"
proof -
  have "count_where (\<lambda>a. al_id a = i \<and> al_state a = ''firing'') (alerts d) = 0" using assms by auto
  then show ?thesis
    by (auto simp: Acknowledge_def audited_tx_def with_tx_def exec_def Let_def ensure_def simp del: count_where_zero)
qed

section \<open>Sample data\<close>

definition sample_rule :: rule_row where
  "sample_rule = \<lparr> ru_id = ''cpu'', ru_post = ''a'', ru_signal = ''cpu.used'', ru_operator = ''gt'', ru_threshold = Num 90, ru_duration = 60,
     ru_recovery = None, ru_missing = ''unknown'', ru_severity = ''critical'', ru_enabled = True, ru_version = 1 \<rparr>"

definition sample_alert :: "string \<Rightarrow> alert_row" where
  "sample_alert st = \<lparr> al_id = 1, al_rule = ''cpu'', al_post = ''a'', al_state = st, al_severity = ''critical'', al_opened = 0,
     al_updated = 0, al_acknowledged = None, al_resolved = None, al_value = None \<rparr>"

definition sample_alerts :: "string \<Rightarrow> db" where
  "sample_alerts st = sample_posts\<lparr> rules := [sample_rule], alerts := [sample_alert st] \<rparr>"

section \<open>Properties\<close>


lemma sample_alerts_ok:
  assumes "st \<in> set alert_states"
  shows "tables_ok (sample_alerts st)"
  using assms by (simp add: sample_alerts_def sample_posts_def empty_db_def new_post_def tables_ok_def constraint_defs Let_def
      alerts_consistent_def observations_consistent_def sample_rule_def sample_alert_def)

lemma sample_evaluate:
  "\<exists>a. Evaluate ''cpu'' (100 * second) (Some (Num 95)) ''good'' (sample_alerts ''resolved'') =
     ((sample_alerts ''resolved'')\<lparr> alerts := [sample_alert ''resolved'', (sample_alert ''pending'')\<lparr> al_id := 2, al_updated := 100 * second, al_value := Some (Num 95) \<rparr>] \<rparr>, Inr a)"
  by (simp add: Evaluate_def with_tx_def evaluate_body_def sample_alerts_def sample_posts_def empty_db_def new_post_def constraint_defs Let_def
      sample_rule_def sample_alert_def rule_of_row_def initial_breach_def initial_desired_def latest_alert_def still_breached_def next_desired_def
      insert_alert_def exec_def next_id_def ids_max_def sql_real_def zero_post_def second_def)


text \<open>
  An evaluation keeps the tables of the node in order: the schema holds and every alert belongs to the post of its rule, which
  is what lets the deletion of a post clear its alerts before its rules.
\<close>

theorem evaluation_keeps_tables_ok:
  assumes "tables_ok d"
  shows "tables_ok (fst (Evaluate i tm value quality d))"
proof (cases "evaluate_body i tm value quality d")
  case (Inl e)
  then show ?thesis using assms by (simp add: Evaluate_def with_tx_def)
next
  case (Inr da)
  obtain d' a where da: "da = (d', a)" by (cases da)
  have ev: "fst (Evaluate i tm value quality d) = d'" using Inr da assms by (simp add: Evaluate_def with_tx_def tables_ok_def)
  show ?thesis
    using Inr [unfolded da]
  proof (cases rule: evaluate_body_cases)
    case kept
    then show ?thesis using assms ev by simp
  next
    case (inserted row p desired breached)
    obtain x where x: "d' = d\<lparr> alerts := alerts d @ [x] \<rparr>" "al_rule x = ru_id row" "al_post x = ru_post row" "constraints d'" "\<not> io_fault d"
      using insert_alert_Inr [OF inserted(3)] by (auto simp: rule_of_row_def)
    have row: "row \<in> set (rules d)" using find_set [OF inserted(1)] by blast
    have "distinct (map ru_id (rules d))" using assms by (simp add: tables_ok_def constraints_def keys_ok_def)
    then have "ru_post r = ru_post row" if "r \<in> set (rules d)" "ru_id r = ru_id row" for r
      using that row by (auto simp: distinct_map inj_on_def)
    then have "alerts_consistent d'"
      using assms x(1-3) by (auto simp: tables_ok_def alerts_consistent_def list_all_iff)
    then show ?thesis
      using assms x ev by (simp add: tables_ok_def observations_consistent_def)
  qed
qed

theorem evaluation_keeps_tables_ok_witness:
  "tables_ok (fst (Evaluate ''cpu'' 7 (Some (Num 95)) ''good'' (sample_alerts ''firing'')))"
  by (rule evaluation_keeps_tables_ok [OF sample_alerts_ok]) (simp add: alert_states_def)

text \<open>
  A breach after a resolved alert opens a pending alert with the opening time of the resolved row, not with the time of the
  breach; the duration the rule demands is then counted from the last resolution, and the next breach fires at once when that lies
  at least the duration back.
\<close>

theorem rebreach_reuses_resolved_opening:
  assumes io: "\<not> io_fault d" and c: "constraints d" and row: "find (\<lambda>r. ru_id r = i) (rules d) = Some row"
    and p: "find (\<lambda>p. po_id p = ru_post row) (posts d) = Some p" and m: "\<not> po_maintenance p"
    and l: "latest_alert i (ru_post row) d = Some old" and st: "al_state old = ''resolved''" and dur: "0 < ru_duration row"
    and breach: "initial_breach (rule_of_row row) value quality"
  shows "\<exists>d' a. Evaluate i tm value quality d = (d', Inr a) \<and> a_State a = ''pending'' \<and> a_OpenedAt a = al_opened old \<and>
    (tm' - al_opened old \<ge> ru_duration row * second \<longrightarrow>
      (\<exists>d'' a'. Evaluate i tm' value quality d' = (d'', Inr a') \<and> a_State a' = ''firing''))"
proof -
  have r: "row \<in> set (rules d)" "ru_id row = i" using find_set [OF row] by auto
  have q: "p \<in> set (posts d)" "po_id p = ru_post row" using find_set [OF p] by auto
  have mem: "i \<in> ru_id ` set (rules d)" "ru_post row \<in> po_id ` set (posts d)" using r q by (metis imageI)+
  have dur': "r_Duration (rule_of_row row) \<noteq> 0" using dur by (simp add: rule_of_row_def second_def)
  have ids: "r_ID (rule_of_row row) = i" "r_PostID (rule_of_row row) = ru_post row" "r_Duration (rule_of_row row) = ru_duration row * second"
    using r by (simp_all add: rule_of_row_def)
  have ins: "\<exists>d' a x. insert_alert (rule_of_row row) s o' t v e = Inr (d', a) \<and> a_State a = s \<and> a_OpenedAt a = o' \<and>
      d' = e\<lparr> alerts := alerts e @ [x] \<rparr> \<and> al_id x = next_id (map al_id (alerts e)) \<and> al_rule x = i \<and> al_post x = ru_post row \<and> al_state x = s \<and> al_opened x = o'"
    if e: "\<not> io_fault e" "constraints e" "rules e = rules d" "posts e = posts d" for s o' t v e
  proof -
    let ?x = "\<lparr> al_id = next_id (map al_id (alerts e)), al_rule = r_ID (rule_of_row row), al_post = r_PostID (rule_of_row row), al_state = s,
      al_severity = r_Severity (rule_of_row row), al_opened = o', al_updated = t, al_acknowledged = None,
      al_resolved = (if s = ''resolved'' then Some t else None), al_value = sql_real v \<rparr>"
    have "constraints (e\<lparr> alerts := alerts e @ [?x] \<rparr>)"
      using e mem ids by (intro constraints_add_alert) simp_all
    then have "\<exists>a. insert_alert (rule_of_row row) s o' t v e = Inr (e\<lparr> alerts := alerts e @ [?x] \<rparr>, a)"
      using e by (simp add: insert_alert_def Let_def exec_ok)
    then obtain a where h: "insert_alert (rule_of_row row) s o' t v e = Inr (e\<lparr> alerts := alerts e @ [?x] \<rparr>, a)" ..
    have "a_State a = s" "a_OpenedAt a = o'" by (rule insert_alert_Inr [OF h], simp)+
    then show ?thesis using h ids
      by (intro exI [of _ "e\<lparr> alerts := alerts e @ [?x] \<rparr>"] exI [of _ a] exI [of _ ?x]) simp
  qed
  obtain d' a x where 1: "insert_alert (rule_of_row row) ''pending'' (al_opened old) tm value d = Inr (d', a)" "a_State a = ''pending''" "a_OpenedAt a = al_opened old"
    "d' = d\<lparr> alerts := alerts d @ [x] \<rparr>" "al_id x = next_id (map al_id (alerts d))" "al_rule x = i" "al_post x = ru_post row"
    "al_state x = ''pending''" "al_opened x = al_opened old"
    using ins [OF io c refl refl] by blast
  have e1: "Evaluate i tm value quality d = (d', Inr a)"
    using io row p l st m breach dur' 1(1)
    by (simp add: Evaluate_def with_tx_def evaluate_body_def Let_def ids still_breached_same next_desired_def initial_desired_def)
  have c': "constraints d'" using e1 c by (auto simp: Evaluate_def with_tx_commit elim!: evaluate_body_cases insert_alert_Inr)
  have l': "latest_alert i (ru_post row) d' = Some x" using latest_alert_new [OF 1(5-7)] by (simp add: 1(4))
  have "\<exists>d'' a'. Evaluate i tm' value quality d' = (d'', Inr a') \<and> a_State a' = ''firing''" if "tm' - al_opened old \<ge> ru_duration row * second"
  proof -
    obtain d'' a' where two: "insert_alert (rule_of_row row) ''firing'' (al_opened old) tm' value d' = Inr (d'', a')" "a_State a' = ''firing''"
      using ins [of d' "''firing''" "al_opened old" tm' "value"] io c' by (auto simp: 1(4))
    have "rules d' = rules d" "posts d' = posts d" "\<not> io_fault d'" using io by (simp_all add: 1(4))
    then have "Evaluate i tm' value quality d' = (d'', Inr a')"
      using row p l' m breach dur' two(1) 1(8,9) that
      by (simp add: Evaluate_def with_tx_def evaluate_body_def Let_def ids still_breached_same next_desired_def initial_desired_def)
    then show ?thesis using two by blast
  qed
  then show ?thesis using e1 1(2,3) by blast
qed

theorem rebreach_reuses_resolved_opening_witness:
  "\<exists>d' a. Evaluate ''cpu'' (100 * second) (Some (Num 95)) ''good'' (sample_alerts ''resolved'') = (d', Inr a) \<and>
     (\<exists>d'' a'. Evaluate ''cpu'' (101 * second) (Some (Num 95)) ''good'' d' = (d'', Inr a') \<and> a_State a' = ''firing'')"
proof -
  have ok: "\<not> io_fault (sample_alerts ''resolved'')" "constraints (sample_alerts ''resolved'')"
    using sample_alerts_ok [of "''resolved''"] by (simp_all add: tables_ok_def alert_states_def)
  have "find (\<lambda>r. ru_id r = ''cpu'') (rules (sample_alerts ''resolved'')) = Some sample_rule"
    "find (\<lambda>p. po_id p = ru_post sample_rule) (posts (sample_alerts ''resolved'')) = Some (new_post ''a'' zero_post)"
    "\<not> po_maintenance (new_post ''a'' zero_post)" "latest_alert ''cpu'' (ru_post sample_rule) (sample_alerts ''resolved'') = Some (sample_alert ''resolved'')"
    "al_state (sample_alert ''resolved'') = ''resolved''" "0 < ru_duration sample_rule"
    "initial_breach (rule_of_row sample_rule) (Some (Num 95)) ''good''"
    by (simp_all add: sample_alerts_def sample_posts_def new_post_def zero_post_def sample_rule_def sample_alert_def latest_alert_def
        initial_breach_def rule_of_row_def)
  note h = this
  show ?thesis
    using rebreach_reuses_resolved_opening [OF ok h, where tm = "100 * second" and tm' = "101 * second"]
    by (fastforce simp: sample_alert_def sample_rule_def second_def)
qed

text \<open>
  An acknowledgement succeeds exactly when the alert is firing, and then changes this one row and appends one audit row;
  otherwise it is refused and nothing changes. In particular an acknowledged alert cannot be acknowledged again.
\<close>

theorem acknowledge_only_firing:
  assumes "tables_ok d" and "en_ActorID e = 0 \<or> en_ActorID e \<in> us_id ` set (users d)"
  shows "case Acknowledge now i tm e d of
      (d', Inl x) \<Rightarrow> d' = d \<and> \<not> (\<exists>a \<in> set (alerts d). al_id a = i \<and> al_state a = ''firing'')
    | (d', Inr _) \<Rightarrow> (\<exists>a \<in> set (alerts d). al_id a = i \<and> al_state a = ''firing'') \<and>
        alerts d' = upd_where (\<lambda>a. al_id a = i) (\<lambda>a. a\<lparr> al_state := ''acknowledged'', al_acknowledged := Some tm, al_updated := tm \<rparr>) (alerts d) \<and>
        (\<exists>row. audit_log d' = audit_log d @ [row]) \<and> (\<exists>x. Acknowledge now i tm e d' = (d', Inl x))"
proof (cases "\<exists>a \<in> set (alerts d). al_id a = i \<and> al_state a = ''firing''")
  case False
  then show ?thesis using Acknowledge_refused [OF False, of now tm e] by auto
next
  case True
  then obtain a where a: "a \<in> set (alerts d)" "al_id a = i" "al_state a = ''firing''" by blast
  let ?f = "\<lambda>a. a\<lparr> al_state := ''acknowledged'', al_acknowledged := Some tm, al_updated := tm \<rparr>"
  let ?hit = "\<lambda>a. al_id a = i \<and> al_state a = ''firing''"
  have k: "distinct (map al_id (alerts d))" and io: "\<not> io_fault d" and c: "constraints d"
    using assms(1) by (simp_all add: tables_ok_def constraints_def keys_ok_def)
  have n: "count_where ?hit (alerts d) = 1" using count_where_hit [OF k, of i "\<lambda>a. al_state a = ''firing''"] True by blast
  have same: "upd_where ?hit ?f (alerts d) = upd_where (\<lambda>a. al_id a = i) ?f (alerts d)"
    using a k by (intro upd_where_cong) (auto simp: distinct_map inj_on_def)
  let ?d1 = "d\<lparr> alerts := upd_where (\<lambda>a. al_id a = i) ?f (alerts d) \<rparr>"
  have c1: "constraints ?d1" using c by (intro constraints_edit_alerts) simp_all
  have ex: "exec (\<lambda>d. d\<lparr> alerts := upd_where ?hit ?f (alerts d) \<rparr>) d = Inr ?d1"
    using io c1 unfolding exec_def same by simp
  let ?row = "audit_row_of now (e\<lparr> en_ObjectType := ''alert'', en_ObjectID := show_nat i \<rparr>) ?d1"
  have ack: "Acknowledge now i tm e d = (?d1\<lparr> audit_log := audit_log d @ [?row] \<rparr>, Inr ())"
    using n io ex Insert_ok [OF _ c1] assms(2) by (simp add: Acknowledge_def audited_tx_def with_tx_def Let_def del: upd_where_simps)
  have "\<exists>x. Acknowledge now i tm e (?d1\<lparr> audit_log := audit_log d @ [?row] \<rparr>) = (?d1\<lparr> audit_log := audit_log d @ [?row] \<rparr>, Inl x)"
  proof (rule Acknowledge_refused, rule notI)
    assume "\<exists>a \<in> set (alerts (?d1\<lparr> audit_log := audit_log d @ [?row] \<rparr>)). al_id a = i \<and> al_state a = ''firing''"
    then obtain x where x: "x \<in> set (upd_where (\<lambda>a. al_id a = i) ?f (alerts d))" "al_id x = i" "al_state x = ''firing''" by auto
    from x(1) obtain y where "x = (if al_id y = i then ?f y else y)" unfolding set_upd_where by blast
    then show False using x(2,3) by (cases "al_id y = i") simp_all
  qed
  then show ?thesis using ack True by simp
qed

theorem acknowledge_only_firing_witness:
  "\<exists>x. Acknowledge 0 1 5 sample_entry (sample_alerts ''pending'') = (sample_alerts ''pending'', Inl x)"
proof -
  have "\<not> (\<exists>a \<in> set (alerts (sample_alerts ''pending'')). al_id a = 1 \<and> al_state a = ''firing'')" by (simp add: sample_alerts_def sample_alert_def)
  then show ?thesis
    using acknowledge_only_firing [OF sample_alerts_ok [of "''pending''"], where e = sample_entry and now = 0 and i = 1 and tm = 5]
    by (cases "Acknowledge 0 1 5 sample_entry (sample_alerts ''pending'')"; cases "snd (Acknowledge 0 1 5 sample_entry (sample_alerts ''pending''))")
      (auto simp: alert_states_def sample_entry_def)
qed

end
