(* ===== verification/Digest.thy ===== *)
theory Digest
  imports WP_Prelude
begin

text \<open>
  What the program uses of Go's \<open>crypto/sha256\<close>, \<open>encoding/hex\<close> and \<open>crypto/rand\<close>. \<open>sha256\<close> is the function of FIPS 180-4
  on byte strings, executable; every credential is stored as its digest and
  compared by digest, so the components reason about \<open>sha256\<close> as a function and never about its inverse. \<open>hmac.Equal\<close> and
  \<open>subtle.ConstantTimeCompare\<close> are equality. The bytes \<open>rand.Read\<close> delivers are an argument of the operation that
  draws them, \<open>None\<close> when it fails.
\<close>

unbundle bit_operations_syntax

type_synonym w32 = "32 word"

section \<open>SHA-256\<close>

definition rotate_right :: "nat \<Rightarrow> w32 \<Rightarrow> w32" where
  "rotate_right n x = drop_bit n x OR push_bit (32 - n) x"

text \<open>The first 32 bits of the fractions of the cube roots of the first 64 primes, and of the square roots of the first eight.\<close>

definition round_constants :: "w32 list" where
  "round_constants =
    [1116352408, 1899447441, 3049323471, 3921009573, 961987163, 1508970993, 2453635748, 2870763221, 3624381080,
     310598401, 607225278, 1426881987, 1925078388, 2162078206, 2614888103, 3248222580, 3835390401, 4022224774,
     264347078, 604807628, 770255983, 1249150122, 1555081692, 1996064986, 2554220882, 2821834349, 2952996808,
     3210313671, 3336571891, 3584528711, 113926993, 338241895, 666307205, 773529912, 1294757372, 1396182291,
     1695183700, 1986661051, 2177026350, 2456956037, 2730485921, 2820302411, 3259730800, 3345764771, 3516065817,
     3600352804, 4094571909, 275423344, 430227734, 506948616, 659060556, 883997877, 958139571, 1322822218, 1537002063,
     1747873779, 1955562222, 2024104815, 2227730452, 2361852424, 2428436474, 2756734187, 3204031479, 3329325298]"

definition initial_hash :: "w32 list" where
  "initial_hash = [1779033703, 3144134277, 1013904242, 2773480762, 1359893119, 2600822924, 528734635, 1541459225]"

text \<open>Big-endian bytes.\<close>

fun be_bytes :: "nat \<Rightarrow> int \<Rightarrow> string" where
  "be_bytes 0 n = []"
| "be_bytes (Suc k) n = be_bytes k (n div 256) @ [char_of (n mod 256)]"

definition be_word :: "string \<Rightarrow> w32" where
  "be_word bs = fold (\<lambda>b w. push_bit 8 w OR of_int (of_char b)) bs 0"

fun in_chunks :: "nat \<Rightarrow> nat \<Rightarrow> 'a list \<Rightarrow> 'a list list" where
  "in_chunks 0 n xs = []"
| "in_chunks (Suc k) n xs = take n xs # in_chunks k n (drop n xs)"

definition padded :: "string \<Rightarrow> string" where
  "padded m = (let n = length m
     in m @ [char_of (128 :: nat)] @ replicate ((119 - n mod 64) mod 64) (char_of (0 :: nat)) @ be_bytes 8 (8 * int n mod 2 ^ 64))"

text \<open>The message schedule, the newest word first.\<close>

definition schedule_word :: "w32 list \<Rightarrow> w32" where
  "schedule_word ws =
     (let x = ws ! 14; y = ws ! 1
      in (rotate_right 17 y XOR rotate_right 19 y XOR drop_bit 10 y) + ws ! 6 +
         (rotate_right 7 x XOR rotate_right 18 x XOR drop_bit 3 x) + ws ! 15)"

fun schedule :: "nat \<Rightarrow> w32 list \<Rightarrow> w32 list" where
  "schedule 0 ws = ws"
| "schedule (Suc k) ws = schedule k (schedule_word ws # ws)"

fun round256 :: "w32 \<times> w32 \<Rightarrow> w32 list \<Rightarrow> w32 list" where
  "round256 (k, w) [a, b, c, d, e, f, g, h] =
     (let t = h + (rotate_right 6 e XOR rotate_right 11 e XOR rotate_right 25 e) + ((e AND f) XOR (NOT e AND g)) + k + w;
          u = (rotate_right 2 a XOR rotate_right 13 a XOR rotate_right 22 a) + ((a AND b) XOR (a AND c) XOR (b AND c))
      in [t + u, a, b, c, d + t, e, f, g])"
| "round256 _ hs = hs"

definition compress :: "string \<Rightarrow> w32 list \<Rightarrow> w32 list" where
  "compress block hs =
     (let ws = rev (schedule 48 (rev (map be_word (in_chunks 16 4 block))))
      in map2 (+) hs (fold round256 (zip round_constants ws) hs))"

definition sha256 :: "string \<Rightarrow> string" where
  "sha256 m = concat (map (\<lambda>w. be_bytes 4 (uint w))
     (fold compress (in_chunks (length (padded m) div 64) 64 (padded m)) initial_hash))"

section \<open>Hexadecimal text\<close>

definition hex_digit :: "nat \<Rightarrow> char" where
  "hex_digit n = char_of (if n < 10 then 48 + n else 87 + n)"

definition hexEncode :: "string \<Rightarrow> string" where
  "hexEncode bs = concat (map (\<lambda>b. [hex_digit (of_char b div 16), hex_digit (of_char b mod 16)]) bs)"

text \<open>\<open>randomSecret\<close>, \<open>random\<close>: the drawn bytes as text, or the error of \<open>rand.Read\<close>.\<close>

definition random_hex :: "string option \<Rightarrow> err + string" where
  "random_hex r = (case r of None \<Rightarrow> Inl (Err ''rand'') | Some bs \<Rightarrow> Inr (hexEncode bs))"

section \<open>Lemmas\<close>

lemma length_be_bytes [simp]: "length (be_bytes k n) = k"
  by (induction k n rule: be_bytes.induct) simp_all

lemma length_round256 [simp]: "length (round256 x hs) = length hs"
  by (induction x hs rule: round256.induct) (simp_all add: Let_def)

lemma length_rounds: "length (fold round256 xs hs) = length hs"
  by (induction xs arbitrary: hs) simp_all

lemma length_compress [simp]: "length (compress b hs) = length hs"
  by (simp add: compress_def Let_def length_rounds)

lemma length_blocks: "length (fold compress bs hs) = length hs"
  by (induction bs arbitrary: hs) simp_all

lemma length_sha256 [simp]: "length (sha256 m) = 32"
proof -
  have "length (concat (map (\<lambda>w :: w32. be_bytes 4 (uint w)) ws)) = 4 * length ws" for ws
    by (induction ws) simp_all
  then show ?thesis by (simp add: sha256_def length_blocks initial_hash_def)
qed

lemma sha256_not_Nil [simp]: "sha256 m \<noteq> []"
  using length_sha256 [of m] by (cases "sha256 m") auto

lemma length_hexEncode [simp]: "length (hexEncode bs) = 2 * length bs"
  by (induction bs) (simp_all add: hexEncode_def)

lemma char_of_nat_bound: "of_char (c :: char) < (256 :: nat)"
  using of_char_mod_256 [of c] by (metis mod_less_divisor zero_less_numeral)

lemma hex_digit_inj: "m < 16 \<Longrightarrow> n < 16 \<Longrightarrow> hex_digit m = hex_digit n \<Longrightarrow> m = n"
  by (auto simp: hex_digit_def split: if_splits dest!: arg_cong [where f = "of_char :: char \<Rightarrow> nat"])

text \<open>Different random bytes are different secrets.\<close>

lemma hexEncode_inj: "hexEncode xs = hexEncode ys \<Longrightarrow> xs = ys"
proof (induction xs arbitrary: ys)
  case (Cons x xs)
  then obtain y ys' where ys: "ys = y # ys'" by (cases ys) (simp_all add: hexEncode_def)
  have h: "hex_digit (of_char x div 16) = hex_digit (of_char y div 16)" "hex_digit (of_char x mod 16) = hex_digit (of_char y mod 16)"
    and t: "hexEncode xs = hexEncode ys'"
    using Cons.prems by (simp_all add: ys hexEncode_def)
  have b: "of_char c div 16 < (16 :: nat)" for c :: char using char_of_nat_bound [of c] by (simp add: less_mult_imp_div_less)
  have "of_char x div 16 = (of_char y div 16 :: nat)" "of_char x mod 16 = (of_char y mod 16 :: nat)"
    using hex_digit_inj [OF b b h(1)] hex_digit_inj [OF _ _ h(2)] by simp_all
  then have "of_char x = (of_char y :: nat)" by (metis div_mult_mod_eq)
  then show ?case using Cons.IH [OF t] ys by simp
qed (auto simp: hexEncode_def)

end
