(* ===== verification/Single_Use.thy ===== *)
theory Single_Use
  imports Machines Digest
begin

text \<open>
  The contract of everything that may be redeemed only once: sequence numbers of a collector, pairing tokens,
  bootstrap tokens, request nonces. A component offers operations, says which keys a successful operation redeems and which keys
  count as spent, and promises that redeeming a key spends it, that a spent key is never redeemed again and that no operation
  un-spends it. It follows that no sequence of operations redeems a key twice, however the operations are ordered or repeated.
\<close>

definition redemptions :: "('e \<Rightarrow> 'r \<Rightarrow> 'k set) \<Rightarrow> 'k \<Rightarrow> 'e list \<Rightarrow> ('err + 'r) list \<Rightarrow> nat" where
  "redemptions redeems k xs rs = count_where (\<lambda>(x, r). case r of Inl e \<Rightarrow> False | Inr y \<Rightarrow> k \<in> redeems x y) (zip xs rs)"

lemma redemptions_simps [simp]:
  "redemptions redeems k [] rs = 0"
  "redemptions redeems k (x # xs) (Inl e # rs) = redemptions redeems k xs rs"
  "redemptions redeems k (x # xs) (Inr y # rs) = (if k \<in> redeems x y then 1 else 0) + redemptions redeems k xs rs"
  by (simp_all add: redemptions_def)

locale single_use =
  fixes step :: "'e \<Rightarrow> 's \<Rightarrow> 's \<times> ('err + 'r)" and inv :: "'s \<Rightarrow> bool" and admissible :: "'e \<Rightarrow> bool"
    and redeems :: "'e \<Rightarrow> 'r \<Rightarrow> 'k set" and spent :: "'k \<Rightarrow> 's \<Rightarrow> bool"
  assumes keeps: "inv s \<Longrightarrow> admissible x \<Longrightarrow> step x s = (s', r) \<Longrightarrow> inv s'"
    and spends: "inv s \<Longrightarrow> admissible x \<Longrightarrow> step x s = (s', Inr y) \<Longrightarrow> k \<in> redeems x y \<Longrightarrow> \<not> spent k s \<and> spent k s'"
    and stays: "inv s \<Longrightarrow> admissible x \<Longrightarrow> step x s = (s', r) \<Longrightarrow> spent k s \<Longrightarrow> spent k s'"
begin

lemma run_spent:
  "inv s \<Longrightarrow> list_all admissible xs \<Longrightarrow> redemptions redeems k xs (snd (run step xs s)) \<le> (if spent k s then 0 else 1)"
proof (induction xs arbitrary: s)
  case (Cons x xs)
  obtain s' r where st: "step x s = (s', r)" by fastforce
  have x: "admissible x" "list_all admissible xs" using Cons.prems by simp_all
  have i: "inv s'" using keeps [OF Cons.prems(1) x(1) st] .
  have IH: "redemptions redeems k xs (snd (run step xs s')) \<le> (if spent k s' then 0 else 1)" using Cons.IH [OF i x(2)] .
  show ?case
  proof (cases r)
    case (Inl e)
    then show ?thesis using IH st stays [OF Cons.prems(1) x(1) st] by (auto simp: case_prod_beta split: if_splits)
  next
    case (Inr y)
    then have "k \<in> redeems x y \<Longrightarrow> \<not> spent k s \<and> spent k s'" using spends [OF Cons.prems(1) x(1)] st by blast
    then show ?thesis
      using Inr IH st stays [OF Cons.prems(1) x(1) st] by (auto simp: case_prod_beta split: if_splits)
  qed
qed simp

lemma run_once: "inv s \<Longrightarrow> list_all admissible xs \<Longrightarrow> redemptions redeems k xs (snd (run step xs s)) \<le> 1"
  using run_spent [of s xs k] by (simp split: if_splits)

lemma run_keeps: "inv s \<Longrightarrow> list_all admissible xs \<Longrightarrow> inv (fst (run step xs s))"
proof (induction xs arbitrary: s)
  case (Cons x xs)
  obtain s' r where st: "step x s = (s', r)" by fastforce
  then show ?case using Cons keeps [of s x s' r] by (simp add: case_prod_beta)
qed simp

text \<open>What was redeemed during a run is spent at its end.\<close>

lemma run_redeemed:
  assumes "inv s" and "list_all admissible xs" and "(x, Inr y) \<in> set (zip xs (snd (run step xs s)))" and "k \<in> redeems x y"
  shows "spent k (fst (run step xs s))"
proof -
  have stay: "spent k t \<Longrightarrow> inv t \<Longrightarrow> list_all admissible ys \<Longrightarrow> spent k (fst (run step ys t))" for t ys
  proof (induction ys arbitrary: t)
    case (Cons y ys)
    obtain t' r where "step y t = (t', r)" by fastforce
    then show ?case
      using Cons keeps [of t y t' r] stays [of t y t' r k] by (simp add: case_prod_beta)
  qed simp
  show ?thesis
    using assms
  proof (induction xs arbitrary: s)
    case (Cons z zs)
    obtain s' r where st: "step z s = (s', r)" by fastforce
    have s': "inv s'"
      using Cons.prems keeps [OF _ _ st] by simp
    show ?case
    proof (cases "z = x \<and> r = Inr y")
      case True
      then have "spent k s'"
        using spends [of s x s' y k] Cons.prems st by simp
      then show ?thesis
        using stay [of s' zs] s' Cons.prems st by (simp add: case_prod_beta)
    next
      case False
      then show ?thesis
        using Cons.IH [OF s'] Cons.prems st by (auto simp: case_prod_beta)
    qed
  qed simp
qed

end

end
