(* ===== verification/Ingest.thy ===== *)
theory Ingest
  imports Posts Single_Use
begin

text \<open>
  Telemetry ingestion (\<open>internal/ingest/ingest.go\<close>): enrolment and authentication of collectors, the per-collector budget, single
  observations, batches with their replay protection, and the promotion of a replacement credential at its first use.
  The service is the database, the rate windows kept in memory and the limit; the clock is an argument of each
  operation. A refused transaction rolls the database back while the rate window keeps what the attempt charged.
\<close>

section \<open>Types\<close>

record Observation =
  o_Version :: int
  o_PostID :: id
  o_CollectorID :: id
  o_ObservedAt :: time
  o_Sequence :: int
  o_Signal :: string
  o_Value :: "f64 option"
  o_Unit :: string
  o_Quality :: string
  o_Labels :: "(string \<times> string) list option"

record rateWindow =
  minuteStart :: time
  samples :: int

record ingestService =
  sv_db :: db
  sv_rate :: "id \<rightharpoonup> rateWindow"
  sv_limit :: int

definition ingest_New :: "db \<Rightarrow> ingestService" where
  "ingest_New d = \<lparr> sv_db = d, sv_rate = Map.empty, sv_limit = 3600 \<rparr>"

definition SetIngestRate :: "int \<Rightarrow> ingestService \<Rightarrow> ingestService" where
  "SetIngestRate limit s = s\<lparr> sv_limit := limit \<rparr>"

text \<open>Addition on \<open>int64\<close> wraps around.\<close>

definition int64 :: "int \<Rightarrow> int" where
  "int64 x = (x + 2 ^ 63) mod 2 ^ 64 - 2 ^ 63"

definition observation_qualities :: "string list" where
  "observation_qualities = [''good'', ''uncertain'', ''bad'', ''missing'', ''stale'']"

section \<open>The budget\<close>

definition allow :: "id \<Rightarrow> int \<Rightarrow> time \<Rightarrow> ingestService \<Rightarrow> ingestService \<times> bool" where
  "allow collectorID n now s =
     (if sv_limit s \<le> 0 then (s, True)
      else let window = (case sv_rate s collectorID of
                 None \<Rightarrow> \<lparr> minuteStart = now, samples = 0 \<rparr>
               | Some w \<Rightarrow> if now - minuteStart w \<ge> minute then \<lparr> minuteStart = now, samples = 0 \<rparr> else w)
           in if samples window + n > sv_limit s then (s\<lparr> sv_rate := (sv_rate s)(collectorID \<mapsto> window) \<rparr>, False)
              else (s\<lparr> sv_rate := (sv_rate s)(collectorID \<mapsto> window\<lparr> samples := samples window + n \<rparr>) \<rparr>, True))"

section \<open>Credentials\<close>

record keyInfo =
  ki_post :: id
  ki_last :: int
  ki_revoked :: bool
  ki_active :: bool
  ki_pending :: bool
  ki_lastBatch :: string

definition key_info :: "string \<Rightarrow> time \<Rightarrow> collector_key \<Rightarrow> keyInfo" where
  "key_info presented now k =
     \<lparr> ki_post = ck_post k, ki_last = ck_last_sequence k, ki_revoked = (ck_revoked k \<noteq> None),
       ki_active = (ck_secret k = presented),
       ki_pending = (case ck_pending_secret k of None \<Rightarrow> False
         | Some h \<Rightarrow> length h = 32 \<and> (case ck_pending_expires k of None \<Rightarrow> True | Some t \<Rightarrow> now < t) \<and> h = presented),
       ki_lastBatch = (case ck_last_batch k of None \<Rightarrow> [] | Some b \<Rightarrow> b) \<rparr>"

definition lookupKey :: "id \<Rightarrow> string \<Rightarrow> time \<Rightarrow> db \<Rightarrow> err + keyInfo" where
  "lookupKey i presented now d = bindE (query (\<lambda>d. find (\<lambda>k. ck_id k = i) (collector_keys d)) d) (\<lambda>r.
     case r of None \<Rightarrow> Inl ErrNoRows | Some k \<Rightarrow> Inr (key_info presented now k))"

definition promote_key :: "collector_key \<Rightarrow> collector_key" where
  "promote_key k = k\<lparr> ck_secret := (case ck_pending_secret k of None \<Rightarrow> ck_secret k | Some h \<Rightarrow> h),
     ck_pending_secret := None, ck_pending_expires := None, ck_last_error := [] \<rparr>"

definition promotePending :: "id \<Rightarrow> db \<Rightarrow> err + db" where
  "promotePending i d = exec (\<lambda>d. d\<lparr> collector_keys :=
     upd_where (\<lambda>k. ck_id k = i \<and> ck_pending_secret k \<noteq> None) promote_key (collector_keys d) \<rparr>) d"

definition Authenticate :: "time \<Rightarrow> id \<Rightarrow> string \<Rightarrow> db \<Rightarrow> err + unit" where
  "Authenticate now collectorID secret d =
     (if collectorID = [] \<or> secret = [] then Inl (Err ''collector authentication failed'')
      else case lookupKey collectorID (sha256 secret) now d of
          Inl e \<Rightarrow> Inl (Err ''collector authentication failed'')
        | Inr info \<Rightarrow> if ki_revoked info \<or> \<not> ki_active info \<and> \<not> ki_pending info
            then Inl (Err ''collector authentication failed'') else Inr ())"

definition new_key :: "id \<Rightarrow> id \<Rightarrow> string \<Rightarrow> collector_key" where
  "new_key i p h = \<lparr> ck_id = i, ck_post = p, ck_secret = h, ck_revoked = None, ck_last_sequence = 0, ck_last_seen = None,
     ck_last_observed = None, ck_last_sent = None, ck_last_error = [], ck_last_rejected = None, ck_rejected_count = 0,
     ck_partial = False, ck_kind = ''collector'', ck_pending_secret = None, ck_pending_expires = None, ck_last_batch = None \<rparr>"

definition Enroll :: "time \<Rightarrow> string option \<Rightarrow> id \<Rightarrow> id \<Rightarrow> Entry \<Rightarrow> db \<Rightarrow> db \<times> (err + string)" where
  "Enroll now drawn i postID e d = (case random_hex drawn of Inl x \<Rightarrow> (d, Inl x)
     | Inr secret \<Rightarrow> audited_tx now (e\<lparr> en_ObjectType := ''collector'', en_ObjectID := i \<rparr>) (\<lambda>d.
         bindE (exec (\<lambda>d. d\<lparr> collector_keys := collector_keys d @ [new_key i postID (sha256 secret)] \<rparr>) d) (\<lambda>d. Inr (d, secret))) d)"

definition RecordRejection :: "time \<Rightarrow> id \<Rightarrow> string \<Rightarrow> db \<Rightarrow> db" where
  "RecordRejection now collectorID message d =
     (case exec (\<lambda>d. d\<lparr> collector_keys := upd_where (\<lambda>k. ck_id k = collectorID)
         (\<lambda>k. k\<lparr> ck_last_error := take 240 message, ck_last_rejected := Some now, ck_rejected_count := ck_rejected_count k + 1 \<rparr>)
         (collector_keys d) \<rparr>) d of Inl e \<Rightarrow> d | Inr d' \<Rightarrow> d')"

section \<open>Observations\<close>

definition well_formed :: "Observation \<Rightarrow> bool" where
  "well_formed o' \<longleftrightarrow> \<not> (length (o_Signal o') < 1 \<or> length (o_Signal o') > 128 \<or>
     length (case o_Labels o' of None \<Rightarrow> [] | Some ls \<Rightarrow> ls) > 32 \<or> o_Quality o' \<notin> set observation_qualities \<or>
     (case o_Value o' of None \<Rightarrow> False | Some v \<Rightarrow> \<not> is_finite v))"

definition in_clock_bounds :: "time \<Rightarrow> Observation \<Rightarrow> bool" where
  "in_clock_bounds now o' \<longleftrightarrow> \<not> (o_ObservedAt o' < now - 24 * hour \<or> o_ObservedAt o' > now + 5 * minute)"

definition new_observation :: "time \<Rightarrow> Observation \<Rightarrow> db \<Rightarrow> observation_row" where
  "new_observation now o' d =
     \<lparr> ob_id = next_id (map ob_id (observations d)), ob_post = o_PostID o', ob_collector = o_CollectorID o',
       ob_observed = o_ObservedAt o', ob_ingested = now, ob_sequence = o_Sequence o', ob_signal = o_Signal o',
       ob_value = o_Value o', ob_unit = o_Unit o', ob_quality = o_Quality o', ob_labels = marshal_labels (o_Labels o') \<rparr>"

definition insert_observation :: "time \<Rightarrow> Observation \<Rightarrow> db \<Rightarrow> err + db" where
  "insert_observation now o' d = exec (\<lambda>d. d\<lparr> observations := observations d @ [new_observation now o' d] \<rparr>) d"

definition rejects :: "keyInfo \<Rightarrow> id \<Rightarrow> bool" where
  "rejects info post \<longleftrightarrow> ki_revoked info \<or> ki_post info \<noteq> post \<or> \<not> ki_active info \<and> \<not> ki_pending info"

definition promote_if :: "bool \<Rightarrow> id \<Rightarrow> db \<Rightarrow> err + db" where
  "promote_if pending i d = (if pending then promotePending i d else Inr d)"

definition Accept :: "time \<Rightarrow> string \<Rightarrow> Observation \<Rightarrow> ingestService \<Rightarrow> ingestService \<times> (err + unit)" where
  "Accept now secret o' s =
     (if o_Version o' \<noteq> 1 \<or> o_Sequence o' < 1 \<or> \<not> well_formed o' then (s, Inl (Err ''invalid observation''))
      else if \<not> in_clock_bounds now o' then (s, Inl (Err ''observation outside clock bounds''))
      else if io_fault (sv_db s) then (s, Inl IOFault)
      else case lookupKey (o_CollectorID o') (sha256 secret) now (sv_db s) of
          Inl e \<Rightarrow> (s, Inl (Err ''collector authentication failed''))
        | Inr info \<Rightarrow>
            if rejects info (o_PostID o') then (s, Inl (Err ''collector authentication failed''))
            else (case promote_if (ki_pending info) (o_CollectorID o') (sv_db s) of
                Inl e \<Rightarrow> (s, Inl e)
              | Inr d \<Rightarrow> (case allow (o_CollectorID o') 1 now s of
                  (s, False) \<Rightarrow> (s, Inl (Err ''collector ingestion rate exceeded''))
                | (s, True) \<Rightarrow>
                    if o_Sequence o' \<le> ki_last info then (s, Inl (Err ''replayed observation''))
                    else (case bindE (insert_observation now o' d) (exec (\<lambda>d. d\<lparr> collector_keys :=
                          upd_where (\<lambda>k. ck_id k = o_CollectorID o') (\<lambda>k. k\<lparr> ck_last_sequence := o_Sequence o' \<rparr>) (collector_keys d) \<rparr>)) of
                        Inl e \<Rightarrow> (s, Inl e)
                      | Inr d \<Rightarrow> (s\<lparr> sv_db := d \<rparr>, Inr ())))))"

section \<open>Batches\<close>

definition batch_item_ok :: "time \<Rightarrow> keyInfo \<Rightarrow> id \<Rightarrow> nat \<Rightarrow> Observation \<Rightarrow> bool" where
  "batch_item_ok now info collector index o' \<longleftrightarrow>
     o_Version o' = 1 \<and> o_PostID o' = ki_post info \<and> o_CollectorID o' = collector \<and>
     o_Sequence o' = int64 (int64 (ki_last info + int index) + 1) \<and> well_formed o' \<and> in_clock_bounds now o'"

fun ingest_loop :: "time \<Rightarrow> keyInfo \<Rightarrow> id \<Rightarrow> nat \<Rightarrow> Observation list \<Rightarrow> db \<Rightarrow> err + db" where
  "ingest_loop now info collector index [] d = Inr d"
| "ingest_loop now info collector index (o' # os) d =
     (if \<not> batch_item_ok now info collector index o' then Inl (Err ''invalid or non-contiguous observation batch'')
      else bindE (insert_observation now o' d) (ingest_loop now info collector (Suc index) os))"

definition latest_observed :: "Observation list \<Rightarrow> time" where
  "latest_observed os = foldl (\<lambda>l o'. if o_ObservedAt o' > l then o_ObservedAt o' else l) (o_ObservedAt (hd os)) os"

definition is_partial :: "Observation list \<Rightarrow> bool" where
  "is_partial os = list_ex (\<lambda>o'. o_Quality o' \<noteq> ''good'' \<or> o_Signal o' = ''collector.dropped_samples'') os"

definition mark_batch :: "time \<Rightarrow> time \<Rightarrow> string \<Rightarrow> Observation list \<Rightarrow> collector_key \<Rightarrow> collector_key" where
  "mark_batch now sentAt batchID os k = k\<lparr> ck_last_sequence := o_Sequence (last os), ck_last_seen := Some now,
     ck_last_observed := Some (latest_observed os), ck_last_sent := Some sentAt, ck_last_error := [],
     ck_partial := is_partial os, ck_last_batch := Some batchID \<rparr>"

definition AcceptBatch :: "time \<Rightarrow> string \<Rightarrow> Observation list \<Rightarrow> time \<Rightarrow> string \<Rightarrow> ingestService \<Rightarrow> ingestService \<times> (err + bool)" where
  "AcceptBatch now secret os sentAt batchID s =
     (if length os < 1 \<or> length os > 128 then (s, Inl (Err ''invalid observation batch''))
      else if io_fault (sv_db s) then (s, Inl IOFault)
      else let first = hd os; collector = o_CollectorID first in
        case lookupKey collector (sha256 secret) now (sv_db s) of
          Inl e \<Rightarrow> (s, Inl (Err ''collector authentication failed''))
        | Inr info \<Rightarrow>
            if rejects info (o_PostID first) then (s, Inl (Err ''collector authentication failed''))
            else if batchID \<noteq> [] \<and> ki_lastBatch info = batchID then (s, Inr True)
            else (case promote_if (ki_pending info) collector (sv_db s) of
                Inl e \<Rightarrow> (s, Inl e)
              | Inr d \<Rightarrow> (case allow collector (int (length os)) now s of
                  (s, False) \<Rightarrow> (s, Inl (Err ''collector ingestion rate exceeded''))
                | (s, True) \<Rightarrow> (case bindE (ingest_loop now info collector 0 os d) (exec (\<lambda>d. d\<lparr> collector_keys :=
                        upd_where (\<lambda>k. ck_id k = collector) (mark_batch now sentAt batchID os) (collector_keys d) \<rparr>)) of
                      Inl e \<Rightarrow> (s, Inl e)
                    | Inr d \<Rightarrow> (s\<lparr> sv_db := d \<rparr>, Inr False)))))"

section \<open>Lemmas\<close>

lemma constraints_edit_keys:
  assumes "constraints d" and "\<And>k. ck_id (g k) = ck_id k" and "\<And>k. ck_post (g k) = ck_post k"
  shows "constraints (d\<lparr> collector_keys := upd_where hit g (collector_keys d) \<rparr>)"
  using assms by (simp add: constraint_defs Let_def)

lemma constraints_add_key:
  "constraints d \<Longrightarrow> constraints (d\<lparr> collector_keys := collector_keys d @ [k] \<rparr>) \<longleftrightarrow>
   ck_id k \<notin> ck_id ` set (collector_keys d) \<and> ck_post k \<in> po_id ` set (posts d)"
  by (auto simp: constraint_defs Let_def fk_iff)

lemma find_upd_where:
  "(\<And>x. f (g x) = f x) \<Longrightarrow> find (\<lambda>x. f x = i) (upd_where (\<lambda>x. f x = i) g xs) = map_option g (find (\<lambda>x. f x = i) xs)"
  by (induction xs) auto

lemma upd_where_upd_where:
  "(\<And>x. P x \<Longrightarrow> P (g x)) \<Longrightarrow> upd_where P f (upd_where (\<lambda>x. P x \<and> Q x) g xs) = upd_where P (\<lambda>x. f (if Q x then g x else x)) xs"
  by (induction xs) auto

lemma promote_key_frame [simp]: "ck_id (promote_key k) = ck_id k" "ck_post (promote_key k) = ck_post k"
    "ck_last_sequence (promote_key k) = ck_last_sequence k" "ck_revoked (promote_key k) = ck_revoked k"
  by (simp_all add: promote_key_def)

lemma mark_batch_frame [simp]: "ck_id (mark_batch now sent b os k) = ck_id k" "ck_post (mark_batch now sent b os k) = ck_post k"
    "ck_secret (mark_batch now sent b os k) = ck_secret k" "ck_revoked (mark_batch now sent b os k) = ck_revoked k"
    "ck_last_sequence (mark_batch now sent b os k) = o_Sequence (last os)" "ck_last_batch (mark_batch now sent b os k) = Some b"
  by (simp_all add: mark_batch_def)

lemma lookupKey_Inr:
  "lookupKey i h now d = Inr info \<longleftrightarrow> \<not> io_fault d \<and> (\<exists>k. find (\<lambda>k. ck_id k = i) (collector_keys d) = Some k \<and> info = key_info h now k)"
  by (auto simp: lookupKey_def bindE_eq_Inr split: option.splits)

text \<open>The keys as a transaction that authenticated with the digest \<open>h\<close> leaves them.\<close>

definition promoted :: "bool \<Rightarrow> collector_key \<Rightarrow> collector_key" where
  "promoted pending k = (if pending \<and> ck_pending_secret k \<noteq> None then promote_key k else k)"

lemma promoted_frame [simp]: "ck_id (promoted b k) = ck_id k" "ck_post (promoted b k) = ck_post k"
    "ck_last_sequence (promoted b k) = ck_last_sequence k" "ck_revoked (promoted b k) = ck_revoked k"
  by (simp_all add: promoted_def)

lemma promoted_secret:
  "\<not> rejects (key_info h now k) p \<Longrightarrow> ck_secret (promoted (ki_pending (key_info h now k)) k) = h"
  by (auto simp: rejects_def key_info_def promoted_def promote_key_def split: option.splits if_splits)

lemma promote_if_Inr:
  assumes "promote_if b i d = Inr d'"
  shows "d' = d\<lparr> collector_keys := upd_where (\<lambda>k. ck_id k = i) (promoted b) (collector_keys d) \<rparr>"
proof (cases b)
  case True
  have "upd_where (\<lambda>k. ck_id k = i \<and> ck_pending_secret k \<noteq> None) promote_key xs = upd_where (\<lambda>k. ck_id k = i) (promoted True) xs" for xs
    by (induction xs) (simp_all add: promoted_def)
  then show ?thesis using assms True by (simp add: promote_if_def promotePending_def exec_eq_Inr)
next
  case False
  have "upd_where (\<lambda>k. ck_id k = i) (promoted False) xs = xs" for xs by (induction xs) (simp_all add: promoted_def)
  then show ?thesis using assms False by (simp add: promote_if_def)
qed

lemma allow_db: "allow c n now s = (s', b) \<Longrightarrow> sv_db s' = sv_db s \<and> sv_limit s' = sv_limit s"
  by (auto simp: allow_def Let_def split: if_splits)

section \<open>An accepted batch\<close>

text \<open>The row a statement stores for an observation.\<close>

definition stores :: "time \<Rightarrow> Observation \<Rightarrow> observation_row \<Rightarrow> bool" where
  "stores now o' r \<longleftrightarrow> ob_post r = o_PostID o' \<and> ob_collector r = o_CollectorID o' \<and> ob_observed r = o_ObservedAt o' \<and>
     ob_ingested r = now \<and> ob_sequence r = o_Sequence o' \<and> ob_signal r = o_Signal o' \<and> ob_value r = o_Value o' \<and>
     ob_unit r = o_Unit o' \<and> ob_quality r = o_Quality o' \<and> ob_labels r = marshal_labels (o_Labels o')"

definition numbered_from :: "int \<Rightarrow> Observation list \<Rightarrow> bool" where
  "numbered_from n os = (map o_Sequence os = map (\<lambda>i. int64 (int64 (n + int i) + 1)) [0 ..< length os])"

lemma insert_observation_Inr:
  assumes "insert_observation now o' d = Inr d'"
  shows "d' = d\<lparr> observations := observations d @ [new_observation now o' d] \<rparr> \<and> constraints d' \<and> stores now o' (new_observation now o' d)"
  using assms by (auto simp: insert_observation_def exec_eq_Inr stores_def new_observation_def)

lemma ingest_loop_Inr:
  assumes "ingest_loop now info c n os d = Inr d'"
  shows "\<exists>rows. d' = d\<lparr> observations := observations d @ rows \<rparr> \<and> list_all2 (stores now) os rows \<and>
    map o_Sequence os = map (\<lambda>i. int64 (int64 (ki_last info + int i) + 1)) [n ..< n + length os] \<and>
    list_all (\<lambda>o'. o_CollectorID o' = c \<and> o_PostID o' = ki_post info) os"
  using assms
proof (induction now info c n os d rule: ingest_loop.induct)
  case (2 now info c n o' os d)
  then obtain d1 where ok: "batch_item_ok now info c n o'" and d1: "insert_observation now o' d = Inr d1"
    and rest: "ingest_loop now info c (Suc n) os d1 = Inr d'"
    by (auto simp: bindE_eq_Inr split: if_splits)
  note row = insert_observation_Inr [OF d1]
  obtain rows where "d' = d1\<lparr> observations := observations d1 @ rows \<rparr>" "list_all2 (stores now) os rows"
    "map o_Sequence os = map (\<lambda>i. int64 (int64 (ki_last info + int i) + 1)) [Suc n ..< Suc n + length os]"
    "list_all (\<lambda>o'. o_CollectorID o' = c \<and> o_PostID o' = ki_post info) os"
    using "2.IH" [OF _ rest] ok by blast
  moreover have "[n ..< n + length (o' # os)] = n # [Suc n ..< Suc n + length os]" by (simp add: upt_conv_Cons del: upt_Suc)
  ultimately show ?case using row ok
    by (intro exI [of _ "new_observation now o' d # rows"]) (simp add: batch_item_ok_def del: upt_Suc)
qed simp

text \<open>Everything a batch that is stored tells about the state before and after it.\<close>

lemma AcceptBatch_fresh:
  assumes "AcceptBatch now secret os sent b s = (s', Inr False)"
  obtains k rows where "find (\<lambda>k. ck_id k = o_CollectorID (hd os)) (collector_keys (sv_db s)) = Some k"
    "\<not> rejects (key_info (sha256 secret) now k) (o_PostID (hd os))" "os \<noteq> []" "length os \<le> 128" "\<not> io_fault (sv_db s)"
    "list_all2 (stores now) os rows" "numbered_from (ck_last_sequence k) os"
    "list_all (\<lambda>o'. o_CollectorID o' = o_CollectorID (hd os) \<and> o_PostID o' = ck_post k) os"
    "sv_db s' = (sv_db s)\<lparr> observations := observations (sv_db s) @ rows, collector_keys :=
       upd_where (\<lambda>k. ck_id k = o_CollectorID (hd os))
         (\<lambda>k'. mark_batch now sent b os (promoted (ki_pending (key_info (sha256 secret) now k)) k')) (collector_keys (sv_db s)) \<rparr>"
    "constraints (sv_db s')"
proof -
  let ?c = "o_CollectorID (hd os)"
  from assms obtain info d s1 d2 where 1: "\<not> (length os < 1 \<or> length os > 128)" "\<not> io_fault (sv_db s)"
    "lookupKey ?c (sha256 secret) now (sv_db s) = Inr info" "\<not> rejects info (o_PostID (hd os))"
    "promote_if (ki_pending info) ?c (sv_db s) = Inr d" "allow ?c (int (length os)) now s = (s1, True)"
    "ingest_loop now info ?c 0 os d = Inr d2" "exec (\<lambda>d. d\<lparr> collector_keys :=
       upd_where (\<lambda>k. ck_id k = ?c) (mark_batch now sent b os) (collector_keys d) \<rparr>) d2 = Inr (sv_db s')"
    by (auto simp: AcceptBatch_def Let_def bindE_eq_Inr split: if_splits sum.splits prod.splits bool.splits)
  from 1(3) obtain k where k: "find (\<lambda>k. ck_id k = ?c) (collector_keys (sv_db s)) = Some k" "info = key_info (sha256 secret) now k"
    by (auto simp: lookupKey_Inr)
  obtain rows where rows: "d2 = d\<lparr> observations := observations d @ rows \<rparr>" "list_all2 (stores now) os rows"
    "numbered_from (ki_last info) os" "list_all (\<lambda>o'. o_CollectorID o' = ?c \<and> o_PostID o' = ki_post info) os"
    using ingest_loop_Inr [OF 1(7)] unfolding numbered_from_def by auto
  note d = promote_if_Inr [OF 1(5)]
  have comp: "upd_where (\<lambda>k. ck_id k = ?c) (mark_batch now sent b os) (upd_where (\<lambda>k. ck_id k = ?c) (promoted x) ks) =
    upd_where (\<lambda>k. ck_id k = ?c) (\<lambda>k'. mark_batch now sent b os (promoted x k')) ks" for x ks by (induction ks) simp_all
  show ?thesis
  proof (rule that [OF k(1) _ _ _ 1(2) rows(2)])
    show "\<not> rejects (key_info (sha256 secret) now k) (o_PostID (hd os))" using 1(4) k(2) by simp
    show "os \<noteq> []" "length os \<le> 128" using 1(1) by auto
    show "numbered_from (ck_last_sequence k) os" "list_all (\<lambda>o'. o_CollectorID o' = ?c \<and> o_PostID o' = ck_post k) os"
      using rows(3,4) k(2) by (simp_all add: key_info_def)
    show "sv_db s' = (sv_db s)\<lparr> observations := observations (sv_db s) @ rows, collector_keys :=
       upd_where (\<lambda>k. ck_id k = ?c) (\<lambda>k'. mark_batch now sent b os (promoted (ki_pending (key_info (sha256 secret) now k)) k')) (collector_keys (sv_db s)) \<rparr>"
      using 1(8) by (simp add: exec_eq_Inr rows(1) d comp k(2))
    show "constraints (sv_db s')" using 1(8) unfolding exec_eq_Inr by blast
  qed
qed

text \<open>The same batch again finds its own mark and changes nothing.\<close>

lemma AcceptBatch_again:
  assumes "AcceptBatch now secret os sent b s = (s', Inr False)" and "b \<noteq> []"
  shows "AcceptBatch now' secret os sent' b s' = (s', Inr True)"
proof -
  let ?c = "o_CollectorID (hd os)"
  from assms(1) obtain k rows where a: "find (\<lambda>k. ck_id k = ?c) (collector_keys (sv_db s)) = Some k"
    "\<not> rejects (key_info (sha256 secret) now k) (o_PostID (hd os))" "os \<noteq> []" "length os \<le> 128" "\<not> io_fault (sv_db s)"
    and keys: "sv_db s' = (sv_db s)\<lparr> observations := observations (sv_db s) @ rows, collector_keys := upd_where (\<lambda>k. ck_id k = ?c)
      (\<lambda>k'. mark_batch now sent b os (promoted (ki_pending (key_info (sha256 secret) now k)) k')) (collector_keys (sv_db s)) \<rparr>"
    by (rule AcceptBatch_fresh) blast
  let ?k = "mark_batch now sent b os (promoted (ki_pending (key_info (sha256 secret) now k)) k)"
  have f: "find (\<lambda>k. ck_id k = ?c) (collector_keys (sv_db s')) = Some ?k" using a(1) keys by (simp add: find_upd_where)
  have l: "lookupKey ?c (sha256 secret) now' (sv_db s') = Inr (key_info (sha256 secret) now' ?k)"
    using a(5) f keys by (simp add: lookupKey_Inr)
  have "ck_secret ?k = sha256 secret" using promoted_secret [OF a(2)] by simp
  then have "\<not> rejects (key_info (sha256 secret) now' ?k) (o_PostID (hd os))" "ki_lastBatch (key_info (sha256 secret) now' ?k) = b"
    using a(2) by (simp_all add: rejects_def key_info_def)
  then show ?thesis using a(3-5) keys l assms(2) by (simp add: AcceptBatch_def Let_def Suc_le_eq)
qed

section \<open>A single observation\<close>

lemma Accept_stored:
  assumes "Accept now secret o' s = (s', Inr u)"
  obtains k row where "find (\<lambda>k. ck_id k = o_CollectorID o') (collector_keys (sv_db s)) = Some k"
    "\<not> rejects (key_info (sha256 secret) now k) (o_PostID o')" "1 \<le> o_Sequence o'" "ck_last_sequence k < o_Sequence o'" "stores now o' row"
    "sv_db s' = (sv_db s)\<lparr> observations := observations (sv_db s) @ [row], collector_keys :=
       upd_where (\<lambda>k. ck_id k = o_CollectorID o')
         (\<lambda>k'. (promoted (ki_pending (key_info (sha256 secret) now k)) k')\<lparr> ck_last_sequence := o_Sequence o' \<rparr>) (collector_keys (sv_db s)) \<rparr>"
    "constraints (sv_db s')"
proof -
  let ?c = "o_CollectorID o'"
  from assms obtain info d s1 d2 where 1: "1 \<le> o_Sequence o'" "lookupKey ?c (sha256 secret) now (sv_db s) = Inr info"
    "\<not> rejects info (o_PostID o')" "promote_if (ki_pending info) ?c (sv_db s) = Inr d" "ki_last info < o_Sequence o'"
    "insert_observation now o' d = Inr d2"
    "exec (\<lambda>d. d\<lparr> collector_keys := upd_where (\<lambda>k. ck_id k = ?c) (\<lambda>k. k\<lparr> ck_last_sequence := o_Sequence o' \<rparr>) (collector_keys d) \<rparr>) d2 = Inr (sv_db s')"
    by (auto simp: Accept_def Let_def bindE_eq_Inr split: if_splits sum.splits prod.splits bool.splits)
  from 1(2) obtain k where k: "find (\<lambda>k. ck_id k = ?c) (collector_keys (sv_db s)) = Some k" "info = key_info (sha256 secret) now k"
    by (auto simp: lookupKey_Inr)
  have comp: "upd_where (\<lambda>k. ck_id k = ?c) f (upd_where (\<lambda>k. ck_id k = ?c) (promoted x) ks) =
    upd_where (\<lambda>k. ck_id k = ?c) (\<lambda>k'. f (promoted x k')) ks" for x ks and f :: "collector_key \<Rightarrow> collector_key" by (induction ks) simp_all
  note d = promote_if_Inr [OF 1(4)] and row = insert_observation_Inr [OF 1(6)]
  show ?thesis
  proof (rule that [OF k(1) _ 1(1) _ conjunct2 [OF conjunct2 [OF row]]])
    show "\<not> rejects (key_info (sha256 secret) now k) (o_PostID o')" "ck_last_sequence k < o_Sequence o'"
      using 1(3,5) k(2) by (simp_all add: key_info_def)
    show "sv_db s' = (sv_db s)\<lparr> observations := observations (sv_db s) @ [new_observation now o' d], collector_keys := upd_where (\<lambda>k. ck_id k = ?c)
         (\<lambda>k'. (promoted (ki_pending (key_info (sha256 secret) now k)) k')\<lparr> ck_last_sequence := o_Sequence o' \<rparr>) (collector_keys (sv_db s)) \<rparr>"
      using 1(7) row by (simp add: exec_eq_Inr d comp k(2))
    show "constraints (sv_db s')" using 1(7) unfolding exec_eq_Inr by blast
  qed
qed

section \<open>Sequence numbers are single use\<close>

datatype ingest_op =
    OpAccept time string Observation
  | OpBatch time string "Observation list" time string
  | OpEnroll time "string option" id id Entry
  | OpReject time id string

fun ingest_step :: "ingest_op \<Rightarrow> ingestService \<Rightarrow> ingestService \<times> (err + bool)" where
  "ingest_step (OpAccept now secret o') s = (case Accept now secret o' s of (s, r) \<Rightarrow> (s, map_sum id (\<lambda>_. False) r))"
| "ingest_step (OpBatch now secret os sent b) s = AcceptBatch now secret os sent b s"
| "ingest_step (OpEnroll now drawn i p e) s =
     (case Enroll now drawn i p e (sv_db s) of (d, r) \<Rightarrow> (s\<lparr> sv_db := d \<rparr>, map_sum id (\<lambda>_. False) r))"
| "ingest_step (OpReject now i m) s = (s\<lparr> sv_db := RecordRejection now i m (sv_db s) \<rparr>, Inr False)"

text \<open>The collector and sequence number of every observation an operation stores.\<close>

fun ingested :: "ingest_op \<Rightarrow> bool \<Rightarrow> (id \<times> int) set" where
  "ingested (OpAccept now secret o') dup = {(o_CollectorID o', o_Sequence o')}"
| "ingested (OpBatch now secret os sent b) dup = (if dup then {} else (\<lambda>o'. (o_CollectorID o', o_Sequence o')) ` set os)"
| "ingested _ dup = {}"

definition sequence_room :: int where
  "sequence_room = 2 ^ 63 - 128"

fun below_wrap :: "ingest_op \<Rightarrow> bool" where
  "below_wrap (OpAccept now secret o') = (o_Sequence o' < sequence_room)"
| "below_wrap (OpBatch now secret os sent b) = list_all (\<lambda>o'. o_Sequence o' < sequence_room) os"
| "below_wrap _ = True"

definition sequences_ok :: "ingestService \<Rightarrow> bool" where
  "sequences_ok s \<longleftrightarrow> constraints (sv_db s) \<and>
     list_all (\<lambda>k. 0 \<le> ck_last_sequence k \<and> ck_last_sequence k < sequence_room) (collector_keys (sv_db s))"

definition passed :: "id \<times> int \<Rightarrow> ingestService \<Rightarrow> bool" where
  "passed cq s = list_ex (\<lambda>k. ck_id k = fst cq \<and> snd cq \<le> ck_last_sequence k) (collector_keys (sv_db s))"

lemma int64_id: "- (2 ^ 63) \<le> x \<Longrightarrow> x < 2 ^ 63 \<Longrightarrow> int64 x = x"
  by (simp add: int64_def)

lemma numbered_from_exact:
  assumes "numbered_from n os" and "0 \<le> n" and "n < sequence_room" and "length os \<le> 128" and "i < length os"
  shows "o_Sequence (os ! i) = n + int i + 1"
proof -
  have "map o_Sequence os ! i = map (\<lambda>i. int64 (int64 (n + int i) + 1)) [0 ..< length os] ! i"
    using assms(1) by (simp add: numbered_from_def)
  then have "o_Sequence (os ! i) = int64 (int64 (n + int i) + 1)" using assms(5) by simp
  moreover have "int64 (n + int i) = n + int i" "int64 (n + int i + 1) = n + int i + 1"
    using assms by (simp_all add: int64_id sequence_room_def)
  ultimately show ?thesis by simp
qed

lemma numbered_from_range:
  assumes "numbered_from n os" and "0 \<le> n" and "n < sequence_room" and "length os \<le> 128" and "o' \<in> set os"
  shows "n < o_Sequence o' \<and> o_Sequence o' \<le> o_Sequence (last os)" and "o_Sequence (last os) = n + int (length os)"
proof -
  note ex = numbered_from_exact [OF assms(1-4)]
  have ne: "os \<noteq> []" using assms(5) by auto
  show l: "o_Sequence (last os) = n + int (length os)" using ex [of "length os - 1"] ne by (simp add: last_conv_nth of_nat_diff Suc_leI)
  obtain i where i: "i < length os" "o' = os ! i" using assms(5) by (auto simp: in_set_conv_nth)
  then show "n < o_Sequence o' \<and> o_Sequence o' \<le> o_Sequence (last os)" using ex [of i] l by simp
qed

lemma Accept_refused: "Accept now secret o' s = (s', Inl e) \<Longrightarrow> sv_db s' = sv_db s"
  by (auto simp: Accept_def Let_def split: if_splits sum.splits prod.splits bool.splits dest: allow_db)

lemma AcceptBatch_refused: "AcceptBatch now secret os sent b s = (s', Inl e) \<Longrightarrow> sv_db s' = sv_db s"
  by (auto simp: AcceptBatch_def Let_def split: if_splits sum.splits prod.splits bool.splits dest: allow_db)

lemma AcceptBatch_duplicate: "AcceptBatch now secret os sent b s = (s', Inr True) \<Longrightarrow> s' = s"
  by (auto simp: AcceptBatch_def Let_def split: if_splits sum.splits prod.splits bool.splits)

lemma distinct_keys: "constraints d \<Longrightarrow> distinct (map ck_id (collector_keys d))"
  by (simp add: constraints_def keys_ok_def)

lemma key_found:
  "constraints d \<Longrightarrow> find (\<lambda>k. ck_id k = i) (collector_keys d) = Some k \<Longrightarrow> k' \<in> set (collector_keys d) \<Longrightarrow> ck_id k' = i \<Longrightarrow> k' = k"
  using find_key_unique [OF distinct_keys, of d k'] by simp

text \<open>Setting the last sequence number of one collector to a larger one.\<close>

definition advances :: "id \<Rightarrow> int \<Rightarrow> ingestService \<Rightarrow> ingestService \<Rightarrow> bool" where
  "advances c q s s' \<longleftrightarrow> (\<exists>g. collector_keys (sv_db s') = upd_where (\<lambda>k. ck_id k = c) g (collector_keys (sv_db s)) \<and>
     (\<forall>k. ck_id (g k) = ck_id k \<and> ck_last_sequence (g k) = q))"

lemma advances_ok:
  assumes ok: "sequences_ok s" and adv: "advances c q s s'" and c: "constraints (sv_db s')"
    and k: "find (\<lambda>k. ck_id k = c) (collector_keys (sv_db s)) = Some k" and q: "ck_last_sequence k \<le> q" "q < sequence_room"
  shows "sequences_ok s'" and "passed p s \<Longrightarrow> passed p s'" and "passed (c, q) s'" and "passed (c, n) s \<longleftrightarrow> n \<le> ck_last_sequence k"
proof -
  obtain g where g: "collector_keys (sv_db s') = upd_where (\<lambda>k. ck_id k = c) g (collector_keys (sv_db s))"
    "\<And>k. ck_id (g k) = ck_id k" "\<And>k. ck_last_sequence (g k) = q" using adv by (auto simp: advances_def)
  have only: "x \<in> set (collector_keys (sv_db s)) \<Longrightarrow> ck_id x = c \<Longrightarrow> x = k" for x
    using ok k key_found [of "sv_db s"] unfolding sequences_ok_def by blast
  have mem: "k \<in> set (collector_keys (sv_db s))" "ck_id k = c" using find_set [OF k] by auto
  show "passed (c, n) s \<longleftrightarrow> n \<le> ck_last_sequence k" unfolding passed_def list_ex_iff fst_conv snd_conv using mem only by blast
  have "0 \<le> q" using ok mem(1) q(1) by (auto simp: sequences_ok_def list_all_iff)
  then show "sequences_ok s'" using ok c q(2) by (auto simp: sequences_ok_def g list_all_iff set_upd_where)
  have "g k \<in> set (collector_keys (sv_db s'))" using mem by (force simp: g(1) set_upd_where)
  then show "passed (c, q) s'" using mem(2) g(2,3) unfolding passed_def list_ex_iff by (intro bexI [of _ "g k"]) simp_all
  assume "passed p s"
  then obtain x where x: "x \<in> set (collector_keys (sv_db s))" "ck_id x = fst p" "snd p \<le> ck_last_sequence x" by (auto simp: passed_def list_ex_iff)
  show "passed p s'"
  proof (cases "ck_id x = c")
    case True
    then have "snd p \<le> q" using only [OF x(1)] x(3) q(1) by simp
    moreover have "g x \<in> set (collector_keys (sv_db s'))" using x(1) True by (force simp: g(1) set_upd_where)
    ultimately show ?thesis using x(2) g(2,3) unfolding passed_def list_ex_iff by (intro bexI [of _ "g x"]) simp_all
  next
    case False
    then have "x \<in> set (collector_keys (sv_db s'))" using x(1) by (force simp: g(1) set_upd_where)
    then show ?thesis using x(2,3) unfolding passed_def list_ex_iff by blast
  qed
qed

lemma passed_mono: "passed (c, q) s \<Longrightarrow> q' \<le> q \<Longrightarrow> passed (c, q') s"
  by (fastforce simp: passed_def list_ex_iff)

text \<open>Each operation, on both outcomes.\<close>

definition once_law :: "ingest_op \<Rightarrow> ingestService \<Rightarrow> ingestService \<Rightarrow> err + bool \<Rightarrow> bool" where
  "once_law x s s' r \<longleftrightarrow> sequences_ok s' \<and> (\<forall>p. passed p s \<longrightarrow> passed p s') \<and>
     (\<forall>dup p. r = Inr dup \<longrightarrow> p \<in> ingested x dup \<longrightarrow> \<not> passed p s \<and> passed p s')"

lemma same_keys_law:
  assumes "sequences_ok s" and "constraints (sv_db s')" and "\<And>dup. r = Inr dup \<Longrightarrow> ingested x dup = {}"
    and "map (\<lambda>k. (ck_id k, ck_last_sequence k)) (collector_keys (sv_db s')) = map (\<lambda>k. (ck_id k, ck_last_sequence k)) (collector_keys (sv_db s)) @ ks"
    and "list_all (\<lambda>k. snd k = 0) ks"
  shows "once_law x s s' r"
proof -
  have r: "0 < sequence_room" by (simp add: sequence_room_def)
  let ?v = "\<lambda>k. (ck_id k, ck_last_sequence k)"
  have eq: "set (map ?v (collector_keys (sv_db s'))) = ?v ` set (collector_keys (sv_db s)) \<union> set ks" using assms(4) by simp
  have all: "list_all (\<lambda>k. 0 \<le> ck_last_sequence k \<and> ck_last_sequence k < sequence_room) l \<longleftrightarrow> (\<forall>v \<in> set (map ?v l). 0 \<le> snd v \<and> snd v < sequence_room)" for l
    by (auto simp: list_all_iff)
  have "sequences_ok s'" using assms(1,2,5) r unfolding sequences_ok_def all eq by (auto simp: list_all_iff)
  moreover have "passed p s'" if ps: "passed p s" for p
  proof -
    obtain k where k: "k \<in> set (collector_keys (sv_db s))" "ck_id k = fst p" "snd p \<le> ck_last_sequence k"
      using ps by (auto simp: passed_def list_ex_iff)
    have "?v k \<in> ?v ` set (collector_keys (sv_db s'))" using imageI [OF k(1), of ?v] eq unfolding list.set_map by blast
    then show ?thesis using k by (auto simp: passed_def list_ex_iff)
  qed
  ultimately show ?thesis using assms(3) by (auto simp: once_law_def)
qed

lemma advances_law:
  assumes "sequences_ok s" and "advances c q s s'" and "constraints (sv_db s')"
    and "find (\<lambda>k. ck_id k = c) (collector_keys (sv_db s)) = Some k" and "q < sequence_room" and "ck_last_sequence k \<le> q"
    and "\<And>dup p. p \<in> ingested x dup \<Longrightarrow> fst p = c \<and> ck_last_sequence k < snd p \<and> snd p \<le> q"
  shows "once_law x s s' r"
proof -
  note a = advances_ok [OF assms(1-4,6,5)]
  have "\<not> passed p s \<and> passed p s'" if "p \<in> ingested x dup" for p dup
    using assms(7) [OF that] a(4) [of "snd p"] passed_mono [OF a(3), of "snd p"] by (cases p) simp
  then show ?thesis using a(1,2) by (auto simp: once_law_def)
qed

lemma batch_law:
  assumes ok: "sequences_ok s" and w: "list_all (\<lambda>o'. o_Sequence o' < sequence_room) os"
    and b: "AcceptBatch now secret os sent b s = (s', Inr False)"
  shows "once_law (OpBatch now secret os sent b) s s' (Inr False)"
proof -
  let ?c = "o_CollectorID (hd os)"
  from b obtain k rows where k: "find (\<lambda>k. ck_id k = ?c) (collector_keys (sv_db s)) = Some k" and os: "os \<noteq> []" "length os \<le> 128"
    and num: "numbered_from (ck_last_sequence k) os" and col: "list_all (\<lambda>o'. o_CollectorID o' = ?c \<and> o_PostID o' = ck_post k) os"
    and keys: "sv_db s' = (sv_db s)\<lparr> observations := observations (sv_db s) @ rows, collector_keys := upd_where (\<lambda>k. ck_id k = ?c)
      (\<lambda>k'. mark_batch now sent b os (promoted (ki_pending (key_info (sha256 secret) now k)) k')) (collector_keys (sv_db s)) \<rparr>"
    and c: "constraints (sv_db s')" by (rule AcceptBatch_fresh) blast
  have r: "0 \<le> ck_last_sequence k" "ck_last_sequence k < sequence_room"
    using ok find_set [OF k] by (auto simp: sequences_ok_def list_all_iff)
  note rng = numbered_from_range [OF num r os(2)]
  have "advances ?c (o_Sequence (last os)) s s'" unfolding advances_def keys
    by (intro exI [of _ "\<lambda>k'. mark_batch now sent b os (promoted (ki_pending (key_info (sha256 secret) now k)) k')"]) simp
  moreover have "o_Sequence (last os) < sequence_room" using w os(1) by (simp add: list_all_iff)
  moreover have "ck_last_sequence k \<le> o_Sequence (last os)" using rng(1) [of "last os"] os(1) by simp
  ultimately show ?thesis
    using rng(1) col by (intro advances_law [OF ok _ c k]) (auto simp: list_all_iff split: if_splits)
qed

lemma accept_law:
  assumes ok: "sequences_ok s" and w: "o_Sequence o' < sequence_room" and a: "Accept now secret o' s = (s', Inr u)"
  shows "once_law (OpAccept now secret o') s s' (Inr False)"
proof -
  let ?c = "o_CollectorID o'"
  from a obtain k row where k: "find (\<lambda>k. ck_id k = ?c) (collector_keys (sv_db s)) = Some k" and q: "ck_last_sequence k < o_Sequence o'"
    and keys: "sv_db s' = (sv_db s)\<lparr> observations := observations (sv_db s) @ [row], collector_keys := upd_where (\<lambda>k. ck_id k = ?c)
      (\<lambda>k'. (promoted (ki_pending (key_info (sha256 secret) now k)) k')\<lparr> ck_last_sequence := o_Sequence o' \<rparr>) (collector_keys (sv_db s)) \<rparr>"
    and c: "constraints (sv_db s')" by (rule Accept_stored) blast
  have "advances ?c (o_Sequence o') s s'" unfolding advances_def keys
    by (intro exI [of _ "\<lambda>k'. (promoted (ki_pending (key_info (sha256 secret) now k)) k')\<lparr> ck_last_sequence := o_Sequence o' \<rparr>"]) simp
  then show ?thesis using q w by (intro advances_law [OF ok _ c k]) auto
qed

lemma refused_law:
  assumes "sequences_ok s" and "sv_db s' = sv_db s" and "\<And>dup. r = Inr dup \<Longrightarrow> ingested x dup = {}"
  shows "once_law x s s' r"
  using assms by (intro same_keys_law [where ks = "[]"]) (auto simp: sequences_ok_def)

lemma ingest_step_law:
  assumes ok: "sequences_ok s" and w: "below_wrap x" and st: "ingest_step x s = (s', r)"
  shows "once_law x s s' r"
proof (cases x)
  case (OpAccept now secret o')
  then obtain r' where a: "Accept now secret o' s = (s', r')" "r = map_sum id (\<lambda>_. False) r'" using st by (auto split: prod.splits)
  show ?thesis
  proof (cases r')
    case (Inl e)
    then show ?thesis using a Accept_refused ok by (intro refused_law) auto
  next
    case (Inr u)
    then show ?thesis using a accept_law [OF ok] w OpAccept by simp
  qed
next
  case (OpBatch now secret os sent b)
  then have a: "AcceptBatch now secret os sent b s = (s', r)" using st by simp
  show ?thesis
  proof (cases r)
    case (Inl e)
    then show ?thesis using a AcceptBatch_refused ok by (intro refused_law) auto
  next
    case (Inr dup)
    show ?thesis
    proof (cases dup)
      case True
      then have "s' = s" using a Inr AcceptBatch_duplicate [of now secret os sent b s s'] by simp
      then show ?thesis using True Inr ok OpBatch by (intro refused_law) auto
    next
      case False
      then show ?thesis using a Inr w OpBatch batch_law [OF ok, of os now secret sent b s'] by simp
    qed
  qed
next
  case (OpEnroll now drawn i p e)
  then obtain d r' where a: "Enroll now drawn i p e (sv_db s) = (d, r')" "s' = s\<lparr> sv_db := d \<rparr>" using st by (auto split: prod.splits)
  show ?thesis
  proof (cases r')
    case (Inl e)
    then have "d = sv_db s" using a by (auto simp: Enroll_def split: sum.splits dest: audited_tx_Inl)
    then show ?thesis using a OpEnroll ok by (intro refused_law) auto
  next
    case (Inr secret)
    then obtain row where "constraints d" "collector_keys d = collector_keys (sv_db s) @ [new_key i p row]"
      using a by (auto simp: Enroll_def audited_tx_Inr bindE_eq_Inr exec_eq_Inr Insert_eq_Inr split: sum.splits)
    then show ?thesis using a OpEnroll ok
      by (intro same_keys_law [where ks = "[(i, 0)]"]) (auto simp: new_key_def)
  qed
next
  case (OpReject now i m)
  have "constraints (RecordRejection now i m d) \<and> map (\<lambda>k. (ck_id k, ck_last_sequence k)) (collector_keys (RecordRejection now i m d)) =
      map (\<lambda>k. (ck_id k, ck_last_sequence k)) (collector_keys d)" if "constraints d" for d
    using that by (auto simp: RecordRejection_def exec_def)
  then show ?thesis using OpReject st ok by (intro same_keys_law [where ks = "[]"]) (auto simp: sequences_ok_def)
qed

interpretation ingest: single_use ingest_step sequences_ok below_wrap ingested passed
proof unfold_locales
  fix s x s' r
  assume "sequences_ok s" "below_wrap x" "ingest_step x s = (s', r)"
  then have "once_law x s s' r" by (rule ingest_step_law)
  then show "sequences_ok s'" by (simp add: once_law_def)
next
  fix s x s' y k
  assume "sequences_ok s" "below_wrap x" "ingest_step x s = (s', Inr y)" "k \<in> ingested x y"
  then show "\<not> passed k s \<and> passed k s'" using ingest_step_law unfolding once_law_def by blast
next
  fix s x s' r k
  assume "sequences_ok s" "below_wrap x" "ingest_step x s = (s', r)" "passed k s"
  then show "passed k s'" using ingest_step_law unfolding once_law_def by blast
qed

section \<open>The budget over a window\<close>

text \<open>A sequence of calls of \<open>allow\<close> for one collector, each with its number of samples and its time.\<close>

fun allow_all :: "id \<Rightarrow> (int \<times> time) list \<Rightarrow> ingestService \<Rightarrow> ingestService \<times> int" where
  "allow_all c [] s = (s, 0)"
| "allow_all c ((n, now) # calls) s = (case allow c n now s of (s', ok) \<Rightarrow>
     case allow_all c calls s' of (s'', admitted) \<Rightarrow> (s'', (if ok then n else 0) + admitted))"

lemma allow_open:
  assumes "0 < sv_limit s" and "sv_rate s c = Some w" and "now - minuteStart w < minute" and "0 \<le> n" and "samples w \<le> sv_limit s"
    and "allow c n now s = (s', ok)"
  shows "\<exists>w'. sv_rate s' c = Some w' \<and> minuteStart w' = minuteStart w \<and> samples w' = samples w + (if ok then n else 0) \<and>
    samples w' \<le> sv_limit s' \<and> sv_limit s' = sv_limit s"
  using assms by (auto simp: allow_def Let_def split: if_splits)

lemma allow_all_open:
  assumes "0 < sv_limit s" and "sv_rate s c = Some w" and "samples w \<le> sv_limit s"
    and "list_all (\<lambda>(n, now). 0 \<le> n \<and> now - minuteStart w < minute) calls"
  shows "samples w + snd (allow_all c calls s) \<le> sv_limit s"
  using assms
proof (induction calls arbitrary: s w)
  case (Cons call calls)
  obtain n now where c: "call = (n, now)" by fastforce
  obtain s' ok where a: "allow c n now s = (s', ok)" by fastforce
  have now: "now - minuteStart w < minute" "0 \<le> n" using Cons.prems(4) c by auto
  obtain w' where w': "sv_rate s' c = Some w'" "minuteStart w' = minuteStart w" "samples w' = samples w + (if ok then n else 0)"
    "samples w' \<le> sv_limit s'" "sv_limit s' = sv_limit s"
    using allow_open [OF Cons.prems(1,2) now Cons.prems(3) a] by blast
  have "samples w' + snd (allow_all c calls s') \<le> sv_limit s'"
    using Cons.prems(1,4) w' c by (intro Cons.IH) simp_all
  then show ?case using a c w' by (simp add: case_prod_beta)
qed simp

section \<open>A service to evaluate\<close>

definition sample_ingest :: ingestService where
  "sample_ingest = ingest_New (sample_posts\<lparr> collector_keys := [new_key ''c'' ''a'' (sha256 ''s'')] \<rparr>)"

definition sample_observation :: "int \<Rightarrow> Observation" where
  "sample_observation n = \<lparr> o_Version = 1, o_PostID = ''a'', o_CollectorID = ''c'', o_ObservedAt = 0, o_Sequence = n, o_Signal = ''load.1'',
     o_Value = Some (Num 1), o_Unit = ''load'', o_Quality = ''good'', o_Labels = None \<rparr>"

lemma sample_ingest_ok: "constraints (sv_db sample_ingest)" "\<not> io_fault (sv_db sample_ingest)" "sequences_ok sample_ingest"
  by (simp_all add: sample_ingest_def ingest_New_def sample_posts_def constraint_defs empty_db_def new_key_def new_post_def zero_post_def
      sequences_ok_def sequence_room_def Let_def)

lemma sample_batch:
  "\<exists>s'. AcceptBatch 0 ''s'' [sample_observation 1, sample_observation 2] 0 ''b1'' sample_ingest = (s', Inr False)"
  by (simp add: AcceptBatch_def lookupKey_def query_def sample_ingest_def ingest_New_def sample_posts_def empty_db_def new_key_def key_info_def
      sample_observation_def rejects_def promote_if_def allow_def Let_def batch_item_ok_def well_formed_def in_clock_bounds_def
      observation_qualities_def is_finite_def int64_def time_units insert_observation_def new_observation_def exec_def
      constraint_defs new_post_def zero_post_def mark_batch_def next_id_def ids_max_def)

section \<open>Properties\<close>

text \<open>
  C12: a batch that is accepted as new stores exactly its observations, in order and complete, numbers them without a gap
  from the last sequence number of the collector, changes nothing of the database but these rows and the row of the collector, and is
  answered as a duplicate that changes nothing when the collector sends it again under its batch identity, whenever that is.
\<close>

theorem batch_ingested_exactly_once:
  assumes "AcceptBatch now secret os sentAt batchID s = (s', Inr False)"
  shows "\<exists>k k' rows. find (\<lambda>k. ck_id k = o_CollectorID (hd os)) (collector_keys (sv_db s)) = Some k \<and>
      find (\<lambda>k. ck_id k = o_CollectorID (hd os)) (collector_keys (sv_db s')) = Some k' \<and>
      ck_revoked k = None \<and> list_all2 (stores now) os rows \<and> numbered_from (ck_last_sequence k) os \<and>
      ck_last_sequence k' = o_Sequence (last os) \<and> ck_secret k' = sha256 secret \<and>
      sv_db s' = (sv_db s)\<lparr> observations := observations (sv_db s) @ rows, collector_keys := collector_keys (sv_db s') \<rparr> \<and>
      (batchID \<noteq> [] \<longrightarrow> AcceptBatch now' secret os sentAt' batchID s' = (s', Inr True))"
proof -
  let ?c = "o_CollectorID (hd os)"
  from assms obtain k rows where a: "find (\<lambda>k. ck_id k = ?c) (collector_keys (sv_db s)) = Some k"
    "\<not> rejects (key_info (sha256 secret) now k) (o_PostID (hd os))" "list_all2 (stores now) os rows" "numbered_from (ck_last_sequence k) os"
    and keys: "sv_db s' = (sv_db s)\<lparr> observations := observations (sv_db s) @ rows, collector_keys := upd_where (\<lambda>k. ck_id k = ?c)
      (\<lambda>k'. mark_batch now sentAt batchID os (promoted (ki_pending (key_info (sha256 secret) now k)) k')) (collector_keys (sv_db s)) \<rparr>"
    by (rule AcceptBatch_fresh) blast
  let ?k = "mark_batch now sentAt batchID os (promoted (ki_pending (key_info (sha256 secret) now k)) k)"
  have f: "find (\<lambda>k. ck_id k = ?c) (collector_keys (sv_db s')) = Some ?k" using a(1) keys by (simp add: find_upd_where)
  have r: "ck_revoked k = None" using a(2) by (simp add: rejects_def key_info_def)
  have sec: "ck_secret ?k = sha256 secret" using promoted_secret [OF a(2)] by simp
  have "sv_db s' = (sv_db s)\<lparr> observations := observations (sv_db s) @ rows, collector_keys := collector_keys (sv_db s') \<rparr>" by (simp add: keys)
  then show ?thesis
    using a(1,3,4) f r sec AcceptBatch_again [OF assms, of now' sentAt'] mark_batch_frame(5) by blast
qed

theorem batch_ingested_exactly_once_witness:
  "\<exists>s'. AcceptBatch 0 ''s'' [sample_observation 1, sample_observation 2] 0 ''b1'' sample_ingest = (s', Inr False) \<and>
     AcceptBatch 9 ''s'' [sample_observation 1, sample_observation 2] 9 ''b1'' s' = (s', Inr True)"
proof -
  obtain s' where s': "AcceptBatch 0 ''s'' [sample_observation 1, sample_observation 2] 0 ''b1'' sample_ingest = (s', Inr False)"
    using sample_batch by blast
  show ?thesis using batch_ingested_exactly_once [OF s', where now' = 9 and sentAt' = 9] s' by blast
qed

text \<open>
  No sequence of ingestion calls, in any order and with any retries, stores two observations of one collector under the same
  sequence number, as long as sequence numbers stay away from the end of the 64-bit range.
\<close>

theorem sequence_ingested_once:
  assumes "sequences_ok s" and "list_all below_wrap xs"
  shows "redemptions ingested (collector, n) xs (snd (run ingest_step xs s)) \<le> 1"
  by (rule ingest.run_once [OF assms])

theorem sequence_ingested_once_witness:
  "let xs = [OpBatch 0 ''s'' [sample_observation 1, sample_observation 2] 0 [], OpBatch 5 ''s'' [sample_observation 1, sample_observation 2] 5 []]
   in redemptions ingested (''c'', 2) xs (snd (run ingest_step xs sample_ingest)) \<le> 1"
  unfolding Let_def
  by (rule sequence_ingested_once [OF sample_ingest_ok(3)]) (simp add: sample_observation_def sequence_room_def)

text \<open>
  The samples admitted for one collector within one window never exceed the limit, however the calls are split: a window
  opens with the first call and every call of the minute after it counts against the same budget.
\<close>

theorem ingest_rate_bounded:
  assumes "0 < sv_limit s" and "sv_rate s c = None \<or> (\<exists>w. sv_rate s c = Some w \<and> minute \<le> t - minuteStart w)"
    and "list_all (\<lambda>(n, now). 0 \<le> n \<and> now < t + minute) ((n, t) # calls)"
  shows "snd (allow_all c ((n, t) # calls) s) \<le> sv_limit s"
proof -
  obtain s' ok where a: "allow c n t s = (s', ok)" by fastforce
  have "\<exists>w. sv_rate s' c = Some w \<and> minuteStart w = t \<and> samples w = (if ok then n else 0) \<and> samples w \<le> sv_limit s' \<and> sv_limit s' = sv_limit s"
    using assms(1,2) a by (auto simp: allow_def Let_def split: if_splits option.splits)
  then obtain w where w: "sv_rate s' c = Some w" "minuteStart w = t" "samples w = (if ok then n else 0)"
    "samples w \<le> sv_limit s'" "sv_limit s' = sv_limit s" by blast
  have "samples w + snd (allow_all c calls s') \<le> sv_limit s'"
    using assms(1,3) w by (intro allow_all_open) (auto simp: list_all_iff)
  then show ?thesis using a w by (simp add: case_prod_beta)
qed

theorem ingest_rate_bounded_witness:
  "snd (allow_all ''c'' [(2000, 0), (2000, second), (1600, second)] (ingest_New empty_db)) \<le> 3600"
proof -
  have h: "list_all (\<lambda>(n :: int, now). 0 \<le> n \<and> now < 0 + minute) [(2000, 0), (2000, second), (1600, second)]"
    by (simp add: minute_def second_def)
  show ?thesis
    using ingest_rate_bounded [OF _ _ h, where s = "ingest_New empty_db" and c = "''c''"] by (simp add: ingest_New_def)
qed

end
