(* ===== verification/Pairing.thy ===== *)
theory Pairing
  imports Ingest
begin

text \<open>
  Enrolment of collectors by one-time tokens (\<open>internal/pairing/pairing.go\<close>) and the lifecycle of agent connections
  (\<open>internal/agentpairing/pairing.go\<close>): requests, decisions, the hand-over of the credential, rotation, revocation. Both write the
  collector keys that ingestion authenticates against.
\<close>

section \<open>Pairing tokens\<close>

record Token =
  tk_Token :: string
  tk_ExpiresAt :: time

record Enrollment =
  er_Version :: int
  er_PostID :: id
  er_CollectorID :: id
  er_Secret :: string

definition new_tokens :: "string \<Rightarrow> id \<Rightarrow> time \<Rightarrow> db \<Rightarrow> pairing_token list" where
  "new_tokens h postID expires d = map (\<lambda>p. \<lparr> pt_hash = h, pt_post = po_id p, pt_expires = expires, pt_used = None \<rparr>)
     (filter (\<lambda>p. po_id p = postID \<and> \<not> po_archived p) (posts d))"

definition pairing_Create :: "time \<Rightarrow> string option \<Rightarrow> id \<Rightarrow> int \<Rightarrow> Entry \<Rightarrow> db \<Rightarrow> db \<times> (err + Token)" where
  "pairing_Create now drawn postID lifetime e d =
     (if lifetime < minute \<or> lifetime > 30 * minute then (d, Inl (Err ''invalid pairing lifetime''))
      else case random_hex drawn of Inl x \<Rightarrow> (d, Inl x)
        | Inr raw \<Rightarrow> audited_tx now (e\<lparr> en_ObjectType := ''post'', en_ObjectID := postID \<rparr>) (\<lambda>d.
            bindE (exec (\<lambda>d. d\<lparr> pairing_tokens := pairing_tokens d @ new_tokens (sha256 raw) postID (now + lifetime) d \<rparr>) d) (\<lambda>d'.
            bindE (ensure (length (new_tokens (sha256 raw) postID (now + lifetime) d) = 1) (Err ''post unavailable for pairing'')) (\<lambda>_.
            Inr (d', \<lparr> tk_Token = raw, tk_ExpiresAt = now + lifetime \<rparr>)))) d)"

text \<open>The columns both enrolment paths reset when the collector already has a key.\<close>

definition reset_key :: "string \<Rightarrow> collector_key \<Rightarrow> collector_key" where
  "reset_key h k = k\<lparr> ck_secret := h, ck_revoked := None, ck_last_sequence := 0, ck_last_seen := None, ck_last_observed := None,
     ck_last_sent := None, ck_last_error := [], ck_last_rejected := None, ck_rejected_count := 0, ck_partial := False \<rparr>"

definition del_observations_of :: "id \<Rightarrow> db \<Rightarrow> db" where
  "del_observations_of c d = d\<lparr> observations := del_where (\<lambda>o'. ob_collector o' = c) (observations d) \<rparr>"

text \<open>\<open>INSERT .. ON CONFLICT(id) DO UPDATE .. WHERE collector_keys.post_id=excluded.post_id\<close> and the rows it affects.\<close>

definition pair_key :: "id \<Rightarrow> id \<Rightarrow> string \<Rightarrow> db \<Rightarrow> db" where
  "pair_key c p h d = d\<lparr> collector_keys :=
     (if c \<in> ck_id ` set (collector_keys d)
      then upd_where (\<lambda>k. ck_id k = c \<and> ck_post k = p) (reset_key h) (collector_keys d)
      else collector_keys d @ [new_key c p h]) \<rparr>"

definition pair_key_rows :: "id \<Rightarrow> id \<Rightarrow> db \<Rightarrow> nat" where
  "pair_key_rows c p d = (if c \<in> ck_id ` set (collector_keys d)
     then count_where (\<lambda>k. ck_id k = c \<and> ck_post k = p) (collector_keys d) else 1)"

definition use_token :: "time \<Rightarrow> string \<Rightarrow> db \<Rightarrow> db" where
  "use_token now h d = d\<lparr> pairing_tokens := upd_where (\<lambda>t. pt_hash t = h \<and> pt_used t = None) (\<lambda>t. t\<lparr> pt_used := Some now \<rparr>) (pairing_tokens d) \<rparr>"

definition Consume :: "time \<Rightarrow> string option \<Rightarrow> string \<Rightarrow> id \<Rightarrow> db \<Rightarrow> db \<times> (err + Enrollment)" where
  "Consume now drawn token c d =
     (if token = [] \<or> c = [] then (d, Inl (Err ''invalid pairing request''))
      else case random_hex drawn of Inl x \<Rightarrow> (d, Inl x)
        | Inr secret \<Rightarrow> with_tx (\<lambda>d. let h = sha256 token in
            case find (\<lambda>t. pt_hash t = h) (pairing_tokens d) of
              None \<Rightarrow> Inl (Err ''pairing token invalid'')
            | Some t \<Rightarrow>
                bindE (ensure (pt_used t = None \<and> now < pt_expires t) (Err ''pairing token expired or used'')) (\<lambda>_.
                bindE (exec (del_observations_of c) d) (\<lambda>d1.
                bindE (mapE (Err ''collector identity unavailable'') (exec (pair_key c (pt_post t) (sha256 secret)) d1)) (\<lambda>d2.
                    bindE (ensure (pair_key_rows c (pt_post t) d1 = 1) (Err ''collector identity belongs to another post'')) (\<lambda>_.
                    bindE (exec (use_token now h) d2) (\<lambda>d3.
                    bindE (ensure (count_where (\<lambda>t. pt_hash t = h \<and> pt_used t = None) (pairing_tokens d2) = 1) (Err ''pairing token already used'')) (\<lambda>_.
                    Inr (d3, \<lparr> er_Version = 1, er_PostID = pt_post t, er_CollectorID = c, er_Secret = secret \<rparr>)))))))) d)"

section \<open>Agent pairing requests\<close>

definition Lifetime :: int where
  "Lifetime = 10 * minute"

definition PendingReplacementLifetime :: int where
  "PendingReplacementLifetime = 10 * minute"

definition pairingPhrase :: "string option \<Rightarrow> err + string" where
  "pairingPhrase drawn = (case drawn of None \<Rightarrow> Inl (Err ''rand'')
     | Some raw \<Rightarrow>
         (let a = [''amber'', ''cedar'', ''copper'', ''olive'', ''silver'', ''willow''];
              b = [''bridge'', ''harbor'', ''meadow'', ''river'', ''summit'', ''tower''];
              c = [''four'', ''seven'', ''nine'', ''twelve'', ''sixteen'', ''twenty'']
          in Inr (a ! (of_char (raw ! 0) mod length a) @ ''-'' @ b ! (of_char (raw ! 1) mod length b) @ ''-'' @ c ! (of_char (raw ! 2) mod length c))))"

definition pending_requests :: "time \<Rightarrow> db \<Rightarrow> nat" where
  "pending_requests now d = count_where (\<lambda>r. pr_state r = ''pending'' \<and> text_less now (pr_expires r)) (pairing_requests d)"

definition agent_Create :: "time \<Rightarrow> string option \<Rightarrow> string option \<Rightarrow> id \<Rightarrow> string \<Rightarrow> string \<Rightarrow> string \<Rightarrow> string \<Rightarrow> db \<Rightarrow> db \<times> (err + pairing_request)" where
  "agent_Create now drawn drawn' installationID secret hostname platform version d =
     (if installationID = [] \<or> length secret < 32 \<or> hostname = [] \<or> platform = [] then (d, Inl (Err ''invalid pairing request''))
      else if io_fault d then (d, Inl IOFault)
      else if pending_requests now d \<ge> 100 then (d, Inl (Err ''too many pending pairing requests''))
      else case bindE (random_hex drawn) (\<lambda>i. bindE (pairingPhrase drawn') (\<lambda>phrase.
          let r = \<lparr> pr_id = i, pr_secret = sha256 secret, pr_installation = installationID, pr_hostname = hostname, pr_platform = platform,
                pr_version = version, pr_phrase = phrase, pr_state = ''pending'', pr_post = None, pr_expires = now + Lifetime, pr_created = now,
                pr_approved = None, pr_terminal = None \<rparr>
          in bindE (exec (\<lambda>d. d\<lparr> pairing_requests := pairing_requests d @ [r] \<rparr>) d) (\<lambda>d. Inr (d, r)))) of
        Inl e \<Rightarrow> (d, Inl e) | Inr (d', r) \<Rightarrow> (d', Inr r))"

definition agent_List :: "time \<Rightarrow> db \<Rightarrow> err + pairing_request list" where
  "agent_List now d = query (\<lambda>d. map (\<lambda>r. if pr_state r = ''pending'' \<and> \<not> now < pr_expires r then r\<lparr> pr_state := ''expired'' \<rparr> else r)
     (rev (sort_key (\<lambda>r. format_time (pr_created r)) (filter (\<lambda>r. pr_state r \<in> {''pending'', ''approved''}) (pairing_requests d))))) d"

definition decide_hit :: "time \<Rightarrow> id \<Rightarrow> id \<Rightarrow> bool \<Rightarrow> db \<Rightarrow> pairing_request \<Rightarrow> bool" where
  "decide_hit now i postID approve d r \<longleftrightarrow> pr_id r = i \<and> pr_state r = ''pending'' \<and> text_less now (pr_expires r) \<and>
     (approve \<longrightarrow> list_ex (\<lambda>p. po_id p = postID \<and> \<not> po_archived p) (posts d))"

definition Decide :: "time \<Rightarrow> id \<Rightarrow> id \<Rightarrow> bool \<Rightarrow> Entry \<Rightarrow> db \<Rightarrow> db \<times> (err + unit)" where
  "Decide now i postID approve e d =
     audited_tx now (e\<lparr> en_ObjectType := ''agent_pairing_request'', en_ObjectID := i \<rparr>) (\<lambda>d.
       bindE (exec (\<lambda>d. d\<lparr> pairing_requests := upd_where (decide_hit now i postID approve d)
           (\<lambda>r. if approve then r\<lparr> pr_state := ''approved'', pr_post := Some postID, pr_approved := Some now \<rparr>
                else r\<lparr> pr_state := ''rejected'', pr_terminal := Some now \<rparr>) (pairing_requests d) \<rparr>) d) (\<lambda>d'.
       bindE (ensure (count_where (decide_hit now i postID approve d) (pairing_requests d) = 1) (Err ''pairing request unavailable'')) (\<lambda>_.
       Inr (d', ())))) d"

record agentEnrollment =
  ae_State :: string
  ae_PostID :: id
  ae_CollectorID :: id
  ae_Credential :: string

definition agent_state :: "string \<Rightarrow> agentEnrollment" where
  "agent_state st = \<lparr> ae_State = st, ae_PostID = [], ae_CollectorID = [], ae_Credential = [] \<rparr>"

definition request_post :: "pairing_request \<Rightarrow> id" where
  "request_post r = (case pr_post r of None \<Rightarrow> [] | Some p \<Rightarrow> p)"

definition upsert_connection :: "time \<Rightarrow> pairing_request \<Rightarrow> db \<Rightarrow> db" where
  "upsert_connection now r d = d\<lparr> agent_connections :=
     (if pr_installation r \<in> ac_installation ` set (agent_connections d)
      then upd_where (\<lambda>c. ac_installation c = pr_installation r) (\<lambda>c. c\<lparr> ac_post := request_post r, ac_hostname := pr_hostname r,
             ac_platform := pr_platform r, ac_version := pr_version r, ac_revoked := None \<rparr>) (agent_connections d)
      else agent_connections d @ [\<lparr> ac_installation = pr_installation r, ac_post = request_post r, ac_hostname = pr_hostname r,
             ac_platform = pr_platform r, ac_version = pr_version r, ac_created = now, ac_last_seen = None, ac_revoked = None \<rparr>]) \<rparr>"

definition agent_key :: "id \<Rightarrow> id \<Rightarrow> string \<Rightarrow> db \<Rightarrow> db" where
  "agent_key c p h d = d\<lparr> collector_keys :=
     (if c \<in> ck_id ` set (collector_keys d)
      then upd_where (\<lambda>k. ck_id k = c) (\<lambda>k. (reset_key h k)\<lparr> ck_post := p \<rparr>) (collector_keys d)
      else collector_keys d @ [new_key c p h]) \<rparr>"

definition reissueUnused :: "time \<Rightarrow> string option \<Rightarrow> pairing_request \<Rightarrow> db \<Rightarrow> err + (db \<times> string)" where
  "reissueUnused now drawn r d =
     bindE (ensure (pr_state r = ''consumed'') (Err ''pairing request unavailable'')) (\<lambda>_.
     bindE (ensure (now < pr_expires r) (Err ''pairing request expired'')) (\<lambda>_.
     case find (\<lambda>k. ck_id k = pr_installation r) (collector_keys d) of
       None \<Rightarrow> Inl (Err ''pairing credential unavailable'')
     | Some k \<Rightarrow>
         bindE (ensure (ck_last_seen k = None \<and> ck_last_sequence k = 0) (Err ''pairing already claimed by this installation'')) (\<lambda>_.
         bindE (random_hex drawn) (\<lambda>credential.
         bindE (exec (\<lambda>d. d\<lparr> collector_keys := upd_where (\<lambda>k. ck_id k = pr_installation r)
             (\<lambda>k. (reset_key (sha256 credential) k)\<lparr> ck_revoked := ck_revoked k \<rparr>) (collector_keys d) \<rparr>) d) (\<lambda>d.
         Inr (d, credential))))))"

definition Poll :: "time \<Rightarrow> string option \<Rightarrow> id \<Rightarrow> string \<Rightarrow> db \<Rightarrow> db \<times> (err + agentEnrollment)" where
  "Poll now drawn i secret d = with_tx (\<lambda>d.
     case find (\<lambda>r. pr_id r = i \<and> pr_secret r = sha256 secret) (pairing_requests d) of
       None \<Rightarrow> Inl (Err ''pairing request invalid'')
     | Some r \<Rightarrow>
         if \<not> now < pr_expires r then Inr (d, agent_state ''expired'')
         else if pr_state r = ''rejected'' \<or> pr_state r = ''pending'' then Inr (d, agent_state (pr_state r))
         else if pr_state r = ''consumed'' then
           bindE (reissueUnused now drawn r d) (\<lambda>(d, credential).
           Inr (d, \<lparr> ae_State = ''approved'', ae_PostID = request_post r, ae_CollectorID = pr_installation r, ae_Credential = credential \<rparr>))
         else
           bindE (random_hex drawn) (\<lambda>credential.
           bindE (exec (upsert_connection now r) d) (\<lambda>d.
           bindE (exec (del_observations_of (pr_installation r)) d) (\<lambda>d.
           bindE (exec (agent_key (pr_installation r) (request_post r) (sha256 credential)) d) (\<lambda>d.
           bindE (exec (\<lambda>d. d\<lparr> pairing_requests := upd_where (\<lambda>r. pr_id r = i \<and> pr_state r = ''approved'')
               (\<lambda>r. r\<lparr> pr_state := ''consumed'', pr_terminal := Some now \<rparr>) (pairing_requests d) \<rparr>) d) (\<lambda>d'.
           bindE (ensure (count_where (\<lambda>r. pr_id r = i \<and> pr_state r = ''approved'') (pairing_requests d) = 1) (Err ''pairing request unavailable'')) (\<lambda>_.
           Inr (d', \<lparr> ae_State = ''approved'', ae_PostID = request_post r, ae_CollectorID = pr_installation r, ae_Credential = credential \<rparr>)))))))) d"

section \<open>Agent credentials\<close>

definition Rotate :: "time \<Rightarrow> string option \<Rightarrow> id \<Rightarrow> string \<Rightarrow> Entry \<Rightarrow> db \<Rightarrow> db \<times> (err + string)" where
  "Rotate now drawn i current e d =
     (if i = [] \<or> current = [] then (d, Inl (Err ''agent credential required''))
      else case random_hex drawn of Inl x \<Rightarrow> (d, Inl x)
        | Inr credential \<Rightarrow> audited_tx now (e\<lparr> en_ObjectType := ''agent_connection'', en_ObjectID := i \<rparr>) (\<lambda>d.
            let hit = (\<lambda>k. ck_id k = i \<and> ck_secret k = sha256 current \<and> ck_revoked k = None) in
            bindE (exec (\<lambda>d. d\<lparr> collector_keys := upd_where hit (\<lambda>k. k\<lparr> ck_pending_secret := Some (sha256 credential),
                ck_pending_expires := Some (now + PendingReplacementLifetime) \<rparr>) (collector_keys d) \<rparr>) d) (\<lambda>d'.
            bindE (ensure (count_where hit (collector_keys d) = 1) (Err ''agent credential rejected'')) (\<lambda>_.
            Inr (d', credential)))) d)"

definition revoke_connections :: "time \<Rightarrow> id \<Rightarrow> db \<Rightarrow> db" where
  "revoke_connections now i d = d\<lparr> agent_connections :=
     upd_where (\<lambda>c. ac_installation c = i \<and> ac_revoked c = None) (\<lambda>c. c\<lparr> ac_revoked := Some now \<rparr>) (agent_connections d) \<rparr>"

definition Revoke :: "time \<Rightarrow> id \<Rightarrow> Entry \<Rightarrow> db \<Rightarrow> db \<times> (err + unit)" where
  "Revoke now i e d = audited_tx now (e\<lparr> en_ObjectType := ''agent_connection'', en_ObjectID := i \<rparr>) (\<lambda>d.
     bindE (exec (revoke_connections now i) d) (\<lambda>d'.
     bindE (ensure (count_where (\<lambda>c. ac_installation c = i \<and> ac_revoked c = None) (agent_connections d) = 1) (Err ''agent connection unavailable'')) (\<lambda>_.
     bindE (exec (\<lambda>d. d\<lparr> collector_keys := upd_where (\<lambda>k. ck_id k = i) (\<lambda>k. k\<lparr> ck_revoked := Some now \<rparr>) (collector_keys d) \<rparr>) d') (\<lambda>d.
     Inr (d, ()))))) d"

definition Unpair :: "time \<Rightarrow> id \<Rightarrow> string \<Rightarrow> Entry \<Rightarrow> db \<Rightarrow> db \<times> (err + unit)" where
  "Unpair now i current e d =
     (if i = [] \<or> current = [] then (d, Inl (Err ''agent credential required''))
      else audited_tx now (e\<lparr> en_ObjectType := ''agent_connection'', en_ObjectID := i \<rparr>) (\<lambda>d.
        case find (\<lambda>k. ck_id k = i) (collector_keys d) of
          None \<Rightarrow> Inl (Err ''agent credential rejected'')
        | Some k \<Rightarrow>
            bindE (ensure (ck_revoked k = None \<and> ck_secret k = sha256 current) (Err ''agent credential rejected'')) (\<lambda>_.
            bindE (exec (revoke_connections now i) d) (\<lambda>d.
            bindE (exec (\<lambda>d. d\<lparr> collector_keys := upd_where (\<lambda>k. ck_id k = i \<and> ck_revoked k = None) (\<lambda>k. k\<lparr> ck_revoked := Some now \<rparr>) (collector_keys d) \<rparr>) d) (\<lambda>d.
            Inr (d, ()))))) d)"

section \<open>Connection status\<close>

definition connection_status :: "time \<Rightarrow> collector_key \<Rightarrow> string" where
  "connection_status now k =
     (let seen = ck_last_seen k; fresh = (if ck_partial k then ''partial'' else ''healthy'') in
      if ck_revoked k \<noteq> None then ''revoked''
      else if (case ck_last_rejected k of None \<Rightarrow> False | Some r \<Rightarrow> (case seen of None \<Rightarrow> True | Some t \<Rightarrow> text_less t r)) then ''rejected''
      else case seen of None \<Rightarrow> ''never_connected''
        | Some t \<Rightarrow>
            if now - t > 10 * minute then ''offline''
            else if now - t > 2 * minute then ''stale''
            else (case ck_last_sent k of None \<Rightarrow> fresh
              | Some u \<Rightarrow> if now - u > 5 * minute \<or> now - u < - (5 * minute) then ''skewed'' else fresh))"

record Connection =
  cn_InstallationID :: id
  cn_PostID :: id
  cn_Hostname :: string
  cn_Platform :: string
  cn_AgentVersion :: string
  cn_CreatedAt :: time
  cn_LastSeenAt :: "time option"
  cn_Status :: string

definition connection_of :: "time \<Rightarrow> agent_connection \<Rightarrow> collector_key \<Rightarrow> Connection" where
  "connection_of now a k = (let st = connection_status now k in
     \<lparr> cn_InstallationID = ac_installation a, cn_PostID = ac_post a, cn_Hostname = ac_hostname a, cn_Platform = ac_platform a,
       cn_AgentVersion = ac_version a, cn_CreatedAt = ac_created a,
       cn_LastSeenAt = (if st = ''revoked'' \<or> st = ''rejected'' then None else ck_last_seen k), cn_Status = st \<rparr>)"

definition Connections :: "time \<Rightarrow> id \<Rightarrow> db \<Rightarrow> err + Connection list" where
  "Connections now postID d = query (\<lambda>d.
     concat (map (\<lambda>a. map (connection_of now a) (filter (\<lambda>k. ck_id k = ac_installation a) (collector_keys d)))
       (sort_key ac_hostname (sort_key ac_installation (filter (\<lambda>a. postID = [] \<or> ac_post a = postID) (agent_connections d)))))) d"

section \<open>Lemmas\<close>

lemma find_upd_key:
  "(\<And>x. f (g x) = f x) \<Longrightarrow> find (\<lambda>x. f x = i) (upd_where P g xs) = map_option (\<lambda>x. if P x then g x else x) (find (\<lambda>x. f x = i) xs)"
  by (induction xs) auto

lemma find_snoc: "find P (xs @ [x]) = (case find P xs of None \<Rightarrow> if P x then Some x else None | Some y \<Rightarrow> Some y)"
  by (induction xs) auto

lemma upd_where_mem: "x \<in> set xs \<Longrightarrow> (if P x then f x else x) \<in> set (upd_where P f xs)"
  unfolding set_upd_where by blast

lemma exec_Inr: "exec f d = Inr d' \<Longrightarrow> d' = f d \<and> constraints d' \<and> \<not> io_fault d"
  by (auto simp: exec_eq_Inr)

lemma hit_found:
  assumes "distinct (map f xs)" and "count_where hit xs = 1" and "\<And>x. hit x \<Longrightarrow> f x = i"
  obtains x where "find (\<lambda>x. f x = i) xs = Some x" and "hit x" and "x \<in> set xs"
proof -
  from assms(2) obtain x where x: "x \<in> set xs" "hit x" using count_where_pos [of hit xs] by auto
  then show ?thesis using that find_key_unique [OF assms(1) x(1)] assms(3) by auto
qed

definition key_of :: "id \<Rightarrow> db \<Rightarrow> collector_key option" where
  "key_of i d = find (\<lambda>k. ck_id k = i) (collector_keys d)"

text \<open>What a credential is worth: it is the active one, or a replacement that has not expired.\<close>

definition accepts :: "time \<Rightarrow> string \<Rightarrow> collector_key \<Rightarrow> bool" where
  "accepts now secret k \<longleftrightarrow> secret \<noteq> [] \<and> ck_revoked k = None \<and>
     (ck_secret k = sha256 secret \<or>
      ck_pending_secret k = Some (sha256 secret) \<and> (case ck_pending_expires k of None \<Rightarrow> True | Some t \<Rightarrow> now < t))"

lemma Authenticate_iff:
  assumes "\<not> io_fault d" and "key_of i d = Some k" and "i \<noteq> []"
  shows "Authenticate now i secret d = Inr () \<longleftrightarrow> accepts now secret k"
  using assms by (auto simp: Authenticate_def lookupKey_def key_of_def key_info_def accepts_def split: option.splits)

lemma mapE_eq_Inr: "mapE e r = Inr x \<longleftrightarrow> r = Inr x"
  by (cases r) simp_all

lemma random_hex_Inr: "random_hex r = Inr s \<longleftrightarrow> (\<exists>bs. r = Some bs \<and> s = hexEncode bs)"
  by (auto simp: random_hex_def split: option.splits)

lemma Rotate_Inr:
  assumes "Rotate now drawn i current e d = (d', Inr credential)" and c: "constraints d"
  obtains k where "key_of i d = Some k" "ck_secret k = sha256 current" "ck_revoked k = None" "\<not> io_fault d'" "constraints d'" "i \<noteq> []" "current \<noteq> []"
    "key_of i d' = Some (k\<lparr> ck_pending_secret := Some (sha256 credential), ck_pending_expires := Some (now + PendingReplacementLifetime) \<rparr>)"
proof -
  let ?hit = "\<lambda>k. ck_id k = i \<and> ck_secret k = sha256 current \<and> ck_revoked k = None"
  let ?g = "\<lambda>k. k\<lparr> ck_pending_secret := Some (sha256 credential), ck_pending_expires := Some (now + PendingReplacementLifetime) \<rparr>"
  from assms have h: "count_where ?hit (collector_keys d) = 1" "\<not> io_fault d'" "constraints d'" "i \<noteq> []" "current \<noteq> []"
    "collector_keys d' = upd_where ?hit ?g (collector_keys d)"
    by (auto simp: Rotate_def audited_tx_Inr bindE_eq_Inr exec_eq_Inr Insert_eq_Inr Let_def split: if_splits sum.splits)
  obtain k where k: "find (\<lambda>k. ck_id k = i) (collector_keys d) = Some k" "?hit k"
    using hit_found [OF distinct_keys [OF c] h(1), of i] by blast
  have "key_of i d' = Some (?g k)" unfolding key_of_def h(6) using k by (subst find_upd_key) simp_all
  then show ?thesis using that [of k] k h by (simp add: key_of_def)
qed

lemma Rotate_secret: "Rotate now (Some bytes) i current e d = (d', Inr credential) \<Longrightarrow> length bytes = 32 \<Longrightarrow> credential \<noteq> []"
  by (auto simp: Rotate_def audited_tx_Inr bindE_eq_Inr random_hex_def Let_def hexEncode_def split: if_splits)

lemma AcceptBatch_key:
  assumes "AcceptBatch now secret os sent b s = (s', Inr False)"
  shows "\<exists>k. key_of (o_CollectorID (hd os)) (sv_db s) = Some k \<and> ck_revoked k = None \<and> \<not> rejects (key_info (sha256 secret) now k) (o_PostID (hd os)) \<and>
    key_of (o_CollectorID (hd os)) (sv_db s') = Some (mark_batch now sent b os (promoted (ki_pending (key_info (sha256 secret) now k)) k)) \<and>
    io_fault (sv_db s') = io_fault (sv_db s)"
  using assms
  by (rule AcceptBatch_fresh) (auto simp: key_of_def find_upd_where rejects_def key_info_def)

lemma reset_key_frame [simp]: "ck_id (reset_key h k) = ck_id k" "ck_post (reset_key h k) = ck_post k" "ck_secret (reset_key h k) = h"
    "ck_pending_secret (reset_key h k) = ck_pending_secret k" "ck_pending_expires (reset_key h k) = ck_pending_expires k"
    "ck_last_batch (reset_key h k) = ck_last_batch k" "ck_revoked (reset_key h k) = None" "ck_last_sequence (reset_key h k) = 0"
  by (simp_all add: reset_key_def)

lemma new_key_fields [simp]: "ck_id (new_key i p h) = i" "ck_post (new_key i p h) = p" "ck_secret (new_key i p h) = h" "ck_revoked (new_key i p h) = None"
    "ck_pending_secret (new_key i p h) = None" "ck_last_sequence (new_key i p h) = 0"
  by (simp_all add: new_key_def)

text \<open>A successful consumption: the token was unused, and the key is the old one reset or a new one.\<close>

lemma Consume_Inr:
  assumes "Consume now drawn token c d = (d', Inr en)" and con: "constraints d"
  obtains t where "find (\<lambda>t. pt_hash t = sha256 token) (pairing_tokens d) = Some t" "pt_used t = None" "now < pt_expires t"
    "c \<noteq> []" "\<not> io_fault d'" "constraints d'" "er_CollectorID en = c" "er_PostID en = pt_post t"
    "pairing_tokens d' = upd_where (\<lambda>t. pt_hash t = sha256 token \<and> pt_used t = None) (\<lambda>t. t\<lparr> pt_used := Some now \<rparr>) (pairing_tokens d)"
    "key_of c d' = Some (case key_of c d of None \<Rightarrow> new_key c (pt_post t) (sha256 (er_Secret en)) | Some k \<Rightarrow> reset_key (sha256 (er_Secret en)) k)"
    "\<forall>k. key_of c d = Some k \<longrightarrow> ck_post k = pt_post t" "\<forall>o' \<in> set (observations d'). ob_collector o' \<noteq> c"
    "drawn \<noteq> None" "er_Secret en = hexEncode (the drawn)"
proof -
  let ?h = "sha256 token"
  from assms obtain t secret d1 d2 where h: "find (\<lambda>t. pt_hash t = ?h) (pairing_tokens d) = Some t" "pt_used t = None" "now < pt_expires t" "c \<noteq> []"
    and s: "random_hex drawn = Inr secret" and d1: "exec (del_observations_of c) d = Inr d1" and d2: "exec (pair_key c (pt_post t) (sha256 secret)) d1 = Inr d2"
    and rows: "pair_key_rows c (pt_post t) d1 = 1" and d': "exec (use_token now ?h) d2 = Inr d'"
    and en: "en = \<lparr> er_Version = 1, er_PostID = pt_post t, er_CollectorID = c, er_Secret = secret \<rparr>"
    by (auto simp: Consume_def with_tx_commit bindE_eq_Inr mapE_eq_Inr Let_def split: if_splits sum.splits option.splits)
  have e1: "d1 = del_observations_of c d" "constraints d1" "\<not> io_fault d" using d1 by (auto simp: exec_eq_Inr)
  have e2: "d2 = pair_key c (pt_post t) (sha256 secret) d1" using d2 by (auto simp: exec_eq_Inr)
  have e3: "d' = use_token now ?h d2" "constraints d'" using d' by (auto simp: exec_eq_Inr)
  have ks: "collector_keys d1 = collector_keys d" "pairing_tokens d2 = pairing_tokens d" "collector_keys d' = collector_keys d2" "io_fault d' = io_fault d"
    by (simp_all add: e1(1) e2 e3(1) del_observations_of_def pair_key_def use_token_def)
  have key: "key_of c d' = Some (case key_of c d of None \<Rightarrow> new_key c (pt_post t) (sha256 secret) | Some k \<Rightarrow> reset_key (sha256 secret) k)
      \<and> (\<forall>k. key_of c d = Some k \<longrightarrow> ck_post k = pt_post t)"
  proof (cases "c \<in> ck_id ` set (collector_keys d)")
    case True
    let ?hit = "\<lambda>k. ck_id k = c \<and> ck_post k = pt_post t"
    have "count_where ?hit (collector_keys d) = 1" using rows True ks(1) by (simp add: pair_key_rows_def)
    then obtain k where k: "find (\<lambda>k. ck_id k = c) (collector_keys d) = Some k" "?hit k"
      using hit_found [OF distinct_keys [OF con], of ?hit c] by blast
    have "collector_keys d' = upd_where ?hit (reset_key (sha256 secret)) (collector_keys d)" using True ks by (simp add: e2 pair_key_def)
    then show ?thesis using k find_upd_key [of ck_id "reset_key (sha256 secret)" c ?hit "collector_keys d"] by (simp add: key_of_def)
  next
    case False
    then have "find (\<lambda>k. ck_id k = c) (collector_keys d) = None" by (auto simp: find_None_iff)
    then show ?thesis using False ks by (simp add: key_of_def e2 pair_key_def find_snoc)
  qed
  have obs: "\<forall>o' \<in> set (observations d'). ob_collector o' \<noteq> c"
    by (simp add: e1(1) e2 e3(1) del_observations_of_def pair_key_def use_token_def)
  have tok: "pairing_tokens d' = upd_where (\<lambda>t. pt_hash t = ?h \<and> pt_used t = None) (\<lambda>t. t\<lparr> pt_used := Some now \<rparr>) (pairing_tokens d)"
    by (simp add: e3(1) use_token_def ks(2))
  show ?thesis
    by (rule that [OF h _ e3(2) _ _ tok])
      (use e1(3) ks(4) en key obs s in \<open>auto simp: random_hex_Inr split: option.split\<close>)
qed

section \<open>Tokens are single use\<close>

datatype token_op = OpToken time "string option" id int Entry | OpConsume time "string option" string id

fun token_step :: "token_op \<Rightarrow> db \<Rightarrow> db \<times> (err + unit)" where
  "token_step (OpToken now drawn p l e) d = (case pairing_Create now drawn p l e d of (d, r) \<Rightarrow> (d, map_sum id (\<lambda>_. ()) r))"
| "token_step (OpConsume now drawn token c) d = (case Consume now drawn token c d of (d, r) \<Rightarrow> (d, map_sum id (\<lambda>_. ()) r))"

fun consumed_tokens :: "token_op \<Rightarrow> unit \<Rightarrow> string set" where
  "consumed_tokens (OpConsume now drawn token c) u = {sha256 token}"
| "consumed_tokens (OpToken now drawn p l e) u = {}"

definition token_used :: "string \<Rightarrow> db \<Rightarrow> bool" where
  "token_used h d = list_ex (\<lambda>t. pt_hash t = h \<and> pt_used t \<noteq> None) (pairing_tokens d)"

lemma Consume_refused: "Consume now drawn token c d = (d', Inl x) \<Longrightarrow> d' = d"
  by (auto simp: Consume_def split: if_splits sum.splits dest: with_tx_rollback)

lemma pairing_Create_Inl: "pairing_Create now drawn p l e d = (d', Inl x) \<Longrightarrow> d' = d"
  by (auto simp: pairing_Create_def split: if_splits sum.splits dest: audited_tx_Inl)

lemma pairing_Create_Inr:
  "pairing_Create now drawn p l e d = (d', Inr t) \<Longrightarrow> constraints d' \<and> (\<exists>ts. pairing_tokens d' = pairing_tokens d @ ts)"
  by (auto simp: pairing_Create_def audited_tx_Inr bindE_eq_Inr exec_eq_Inr Insert_eq_Inr split: if_splits sum.splits)

lemma token_used_upd:
  "token_used h d \<Longrightarrow> pairing_tokens d' = upd_where P (\<lambda>t. t\<lparr> pt_used := Some now \<rparr>) (pairing_tokens d) \<Longrightarrow> token_used h d'"
proof -
  assume "token_used h d" and eq: "pairing_tokens d' = upd_where P (\<lambda>t. t\<lparr> pt_used := Some now \<rparr>) (pairing_tokens d)"
  then obtain t where t: "t \<in> set (pairing_tokens d)" "pt_hash t = h" "pt_used t \<noteq> None" by (auto simp: token_used_def list_ex_iff)
  let ?t = "if P t then t\<lparr> pt_used := Some now \<rparr> else t"
  have "?t \<in> set (pairing_tokens d')" unfolding eq by (rule upd_where_mem [OF t(1)])
  moreover have "pt_hash ?t = h \<and> pt_used ?t \<noteq> None" using t(2,3) by simp
  ultimately show ?thesis unfolding token_used_def list_ex_iff by blast
qed

lemma Consume_spends:
  assumes "Consume now drawn token c d = (d', Inr en)" and con: "constraints d"
  shows "\<not> token_used (sha256 token) d \<and> token_used (sha256 token) d' \<and> constraints d' \<and> (token_used h d \<longrightarrow> token_used h d')"
proof -
  from assms obtain t where t: "find (\<lambda>t. pt_hash t = sha256 token) (pairing_tokens d) = Some t" "pt_used t = None" "constraints d'"
    and tok: "pairing_tokens d' = upd_where (\<lambda>t. pt_hash t = sha256 token \<and> pt_used t = None) (\<lambda>t. t\<lparr> pt_used := Some now \<rparr>) (pairing_tokens d)"
    by (rule Consume_Inr) blast
  have "distinct (map pt_hash (pairing_tokens d))" using con by (simp add: constraints_def keys_ok_def)
  then have "pt_used x = None" if "x \<in> set (pairing_tokens d)" "pt_hash x = sha256 token" for x
    using find_key_unique [of pt_hash "pairing_tokens d" x] that t(1,2) by simp
  then have "\<not> token_used (sha256 token) d" unfolding token_used_def list_ex_iff by auto
  moreover have "t\<lparr> pt_used := Some now \<rparr> \<in> set (pairing_tokens d')"
    using find_set [OF t(1)] t(2) upd_where_mem [of t "pairing_tokens d" "\<lambda>t. pt_hash t = sha256 token \<and> pt_used t = None" "\<lambda>t. t\<lparr> pt_used := Some now \<rparr>"]
    by (simp add: tok)
  then have "token_used (sha256 token) d'"
    using find_set [OF t(1)] unfolding token_used_def list_ex_iff by (intro bexI [of _ "t\<lparr> pt_used := Some now \<rparr>"]) simp_all
  ultimately show ?thesis using t(3) token_used_upd [OF _ tok] by blast
qed

lemma token_step_cases:
  assumes "constraints d" and "token_step x d = (d', r)"
  shows "constraints d' \<and> (token_used h d \<longrightarrow> token_used h d') \<and>
    (r = Inr u \<longrightarrow> h \<in> consumed_tokens x u \<longrightarrow> \<not> token_used h d \<and> token_used h d')"
proof (cases x)
  case (OpToken now drawn p l e)
  then obtain r' where r': "pairing_Create now drawn p l e d = (d', r')" using assms(2) by (auto split: prod.splits)
  show ?thesis
    using assms(1) r' pairing_Create_Inl [of now drawn p l e d d'] pairing_Create_Inr [of now drawn p l e d d'] OpToken
    by (cases r') (auto simp: token_used_def)
next
  case (OpConsume now drawn token c)
  then obtain r' where r': "Consume now drawn token c d = (d', r')" "r = map_sum id (\<lambda>_. ()) r'" using assms(2) by (auto split: prod.splits)
  show ?thesis
  proof (cases r')
    case (Inl e)
    then show ?thesis using assms(1) r' Consume_refused [of now drawn token c d d' e] by simp
  next
    case (Inr en)
    then have "Consume now drawn token c d = (d', Inr en)" using r'(1) by simp
    note sp = Consume_spends [OF this assms(1), of h]
    then show ?thesis using OpConsume by auto
  qed
qed

interpretation token: single_use token_step constraints "\<lambda>_. True" consumed_tokens token_used
proof unfold_locales
  fix s x s' r assume "constraints s" "token_step x s = (s', r)"
  then show "constraints s'" using token_step_cases by blast
next
  fix s x s' y k assume "constraints s" "token_step x s = (s', Inr y)" "k \<in> consumed_tokens x y"
  then show "\<not> token_used k s \<and> token_used k s'" using token_step_cases by blast
next
  fix s x s' r k assume "constraints s" "token_step x s = (s', r)" "token_used k s"
  then show "token_used k s'" using token_step_cases by blast
qed

section \<open>The lifecycle of a request\<close>

inductive request_step :: "string \<Rightarrow> string \<Rightarrow> bool" where
  approve: "request_step ''pending'' ''approved''"
| reject: "request_step ''pending'' ''rejected''"
| hand_over: "request_step ''approved'' ''consumed''"

inductive_simps request_step_from [simp]: "request_step st ''consumed''" "request_step st ''approved''" "request_step ''rejected'' st" "request_step ''consumed'' st"

datatype agent_op =
    OpRequest time "string option" "string option" id string string string string
  | OpDecide time id id bool Entry
  | OpPoll time "string option" id string

fun agent_step :: "agent_op \<Rightarrow> db \<Rightarrow> db \<times> (err + string)" where
  "agent_step (OpRequest now r1 r2 inst sec host plat ver) d =
     (case agent_Create now r1 r2 inst sec host plat ver d of (d, r) \<Rightarrow> (d, map_sum id pr_state r))"
| "agent_step (OpDecide now i p approve e) d = (case Decide now i p approve e d of (d, r) \<Rightarrow> (d, map_sum id (\<lambda>_. []) r))"
| "agent_step (OpPoll now drawn i sec) d = (case Poll now drawn i sec d of (d, r) \<Rightarrow> (d, map_sum id ae_State r))"

text \<open>The requests operators approved in a run.\<close>

fun approved_by :: "agent_op list \<Rightarrow> (err + string) list \<Rightarrow> id list" where
  "approved_by (OpDecide now i p True e # xs) (Inr r # rs) = i # approved_by xs rs"
| "approved_by (x # xs) (r # rs) = approved_by xs rs"
| "approved_by _ _ = []"

text \<open>Every row of the new table is a new pending request or a row of the old one moved along the lifecycle.\<close>

definition follows :: "(id \<Rightarrow> bool) \<Rightarrow> db \<Rightarrow> db \<Rightarrow> bool" where
  "follows decided d d' \<longleftrightarrow> (\<forall>r' \<in> set (pairing_requests d'). pr_state r' = ''pending'' \<or>
     (\<exists>r \<in> set (pairing_requests d). pr_id r = pr_id r' \<and>
        (pr_state r = pr_state r' \<or> request_step (pr_state r) (pr_state r') \<and> (pr_state r' = ''approved'' \<longrightarrow> decided (pr_id r)))))"

lemma follows_same: "pairing_requests d' = pairing_requests d \<Longrightarrow> follows P d d'"
  by (auto simp: follows_def)

lemma follows_upd:
  assumes "pairing_requests d' = upd_where hit g (pairing_requests d)" and "\<And>r. pr_id (g r) = pr_id r"
    and "\<And>r. hit r \<Longrightarrow> request_step (pr_state r) (pr_state (g r)) \<and> (pr_state (g r) = ''approved'' \<longrightarrow> P (pr_id r))"
  shows "follows P d d'"
  unfolding follows_def
proof
  fix r' assume "r' \<in> set (pairing_requests d')"
  then obtain r where r: "r \<in> set (pairing_requests d)" "r' = (if hit r then g r else r)" by (auto simp: assms(1) set_upd_where)
  then show "pr_state r' = ''pending'' \<or> (\<exists>r \<in> set (pairing_requests d). pr_id r = pr_id r' \<and>
      (pr_state r = pr_state r' \<or> request_step (pr_state r) (pr_state r') \<and> (pr_state r' = ''approved'' \<longrightarrow> P (pr_id r))))"
    using assms(2,3) by (intro disjI2 bexI [of _ r]) auto
qed

lemma agent_Create_follows:
  "constraints d \<Longrightarrow> agent_Create now r1 r2 inst sec host plat ver d = (d', res) \<Longrightarrow> constraints d' \<and> follows P d d'"
  by (auto simp: agent_Create_def bindE_eq_Inr exec_eq_Inr Let_def follows_def split: if_splits sum.splits prod.splits)

lemma Decide_follows:
  assumes "constraints d" and "Decide now i p approve e d = (d', res)" and "isOK res \<Longrightarrow> approve \<Longrightarrow> P i"
  shows "constraints d' \<and> follows P d d'"
proof (cases res)
  case (Inl x)
  then have "d' = d" using assms(2) by (auto simp: Decide_def dest: audited_tx_Inl)
  then show ?thesis using assms(1) by (simp add: follows_same)
next
  case (Inr u)
  let ?g = "\<lambda>r. if approve then r\<lparr> pr_state := ''approved'', pr_post := Some p, pr_approved := Some now \<rparr> else r\<lparr> pr_state := ''rejected'', pr_terminal := Some now \<rparr>"
  from assms(2) Inr have h: "constraints d'" "pairing_requests d' = upd_where (decide_hit now i p approve d) ?g (pairing_requests d)"
    by (auto simp: Decide_def audited_tx_Inr bindE_eq_Inr exec_eq_Inr Insert_eq_Inr)
  have "follows P d d'"
    using assms(3) Inr by (intro follows_upd [OF h(2)]) (auto simp: decide_hit_def intro: request_step.intros)
  then show ?thesis using h by simp
qed

lemma Poll_body:
  assumes "Poll now drawn i sec d = (d', Inr en)"
  obtains (quiet) r where "find (\<lambda>r. pr_id r = i \<and> pr_secret r = sha256 sec) (pairing_requests d) = Some r" "d' = d" "ae_State en \<in> {''expired'', ''rejected'', ''pending''}"
  | (again) r where "find (\<lambda>r. pr_id r = i \<and> pr_secret r = sha256 sec) (pairing_requests d) = Some r" "pr_state r = ''consumed''" "now < pr_expires r"
      "reissueUnused now drawn r d = Inr (d', ae_Credential en)" "ae_CollectorID en = pr_installation r"
  | (fresh) r d1 d2 d3 where "find (\<lambda>r. pr_id r = i \<and> pr_secret r = sha256 sec) (pairing_requests d) = Some r" "now < pr_expires r"
      "pr_state r \<notin> {''rejected'', ''pending'', ''consumed''}" "random_hex drawn = Inr (ae_Credential en)"
      "exec (upsert_connection now r) d = Inr d1" "exec (del_observations_of (pr_installation r)) d1 = Inr d2"
      "exec (agent_key (pr_installation r) (request_post r) (sha256 (ae_Credential en))) d2 = Inr d3"
      "exec (\<lambda>d. d\<lparr> pairing_requests := upd_where (\<lambda>r. pr_id r = i \<and> pr_state r = ''approved'')
         (\<lambda>r. r\<lparr> pr_state := ''consumed'', pr_terminal := Some now \<rparr>) (pairing_requests d) \<rparr>) d3 = Inr d'"
      "ae_CollectorID en = pr_installation r"
proof -
  from assms obtain r where r: "find (\<lambda>r. pr_id r = i \<and> pr_secret r = sha256 sec) (pairing_requests d) = Some r"
    by (auto simp: Poll_def with_tx_commit split: option.splits)
  consider "\<not> now < pr_expires r \<or> pr_state r = ''rejected'' \<or> pr_state r = ''pending''" | "now < pr_expires r" "pr_state r = ''consumed''"
    | "now < pr_expires r" "pr_state r \<notin> {''rejected'', ''pending'', ''consumed''}" by auto
  then show ?thesis
  proof cases
    case 1
    then show ?thesis using assms r by (intro quiet [OF r]) (auto simp: Poll_def with_tx_commit agent_state_def split: if_splits)
  next
    case 2
    then have "bindE (reissueUnused now drawn r d) (\<lambda>(d, credential).
           Inr (d, \<lparr> ae_State = ''approved'', ae_PostID = request_post r, ae_CollectorID = pr_installation r, ae_Credential = credential \<rparr>)) = Inr (d', en)"
      using assms r by (simp add: Poll_def with_tx_commit)
    then show ?thesis using 2 by (intro again [OF r]) (auto simp: bindE_eq_Inr)
  next
    case 3
    then show ?thesis using assms r by (simp add: Poll_def with_tx_commit) (auto simp: bindE_eq_Inr intro: fresh [OF r])
  qed
qed

lemma Poll_follows:
  assumes "constraints d" and "Poll now drawn i sec d = (d', res)"
  shows "constraints d' \<and> follows P d d'"
proof (cases res)
  case (Inl x)
  then show ?thesis using assms by (auto simp: Poll_def follows_same dest: with_tx_rollback)
next
  case (Inr en)
  let ?g = "\<lambda>r. r\<lparr> pr_state := ''consumed'', pr_terminal := Some now \<rparr>"
  from assms(2) have "Poll now drawn i sec d = (d', Inr en)" using Inr by simp
  then show ?thesis
  proof (cases rule: Poll_body)
    case quiet
    then show ?thesis using assms(1) by (simp add: follows_same)
  next
    case (again r)
    then show ?thesis by (auto simp: reissueUnused_def bindE_eq_Inr exec_eq_Inr follows_same split: option.splits)
  next
    case (fresh r d1 d2 d3)
    have "constraints d'" using exec_Inr [OF fresh(8)] by blast
    moreover have "pairing_requests d' = upd_where (\<lambda>r. pr_id r = i \<and> pr_state r = ''approved'') ?g (pairing_requests d)"
      using exec_Inr [OF fresh(8)] exec_Inr [OF fresh(7)] exec_Inr [OF fresh(6)] exec_Inr [OF fresh(5)]
      by (simp add: upsert_connection_def del_observations_of_def agent_key_def)
    ultimately show ?thesis using follows_upd [of d' "\<lambda>r. pr_id r = i \<and> pr_state r = ''approved''" ?g d P] by (auto intro: request_step.intros)
  qed
qed

lemma agent_step_follows:
  assumes "constraints d" and "agent_step x d = (d', res)"
  shows "constraints d' \<and> follows (\<lambda>i. i \<in> set (approved_by [x] [res])) d d'"
proof (cases x)
  case (OpRequest now r1 r2 inst sec host plat ver)
  then show ?thesis using assms agent_Create_follows by (auto split: prod.splits)
next
  case (OpDecide now i p approve e)
  then obtain r where r: "Decide now i p approve e d = (d', r)" "res = map_sum id (\<lambda>_. []) r" using assms(2) by (auto split: prod.splits)
  show ?thesis using OpDecide r(2)
    by (intro Decide_follows [OF assms(1) r(1)]) (cases r; cases approve; simp)
next
  case (OpPoll now drawn i sec)
  then show ?thesis using assms Poll_follows by (auto split: prod.splits)
qed

definition handed :: "id set \<Rightarrow> db \<Rightarrow> bool" where
  "handed A d \<longleftrightarrow> constraints d \<and> (\<forall>r \<in> set (pairing_requests d). pr_state r \<in> {''approved'', ''consumed''} \<longrightarrow> pr_id r \<in> A)"

lemma handed_step:
  assumes "handed A d" and "agent_step x d = (d', res)"
  shows "handed (A \<union> set (approved_by [x] [res])) d'"
proof -
  have f: "constraints d'" "follows (\<lambda>i. i \<in> set (approved_by [x] [res])) d d'" using assms agent_step_follows by (auto simp: handed_def)
  show ?thesis
    unfolding handed_def
  proof (intro conjI ballI impI f(1))
    fix r' assume r': "r' \<in> set (pairing_requests d')" "pr_state r' \<in> {''approved'', ''consumed''}"
    then obtain r where r: "r \<in> set (pairing_requests d)" "pr_id r = pr_id r'"
      "pr_state r = pr_state r' \<or> request_step (pr_state r) (pr_state r') \<and> (pr_state r' = ''approved'' \<longrightarrow> pr_id r \<in> set (approved_by [x] [res]))"
      using f(2) unfolding follows_def by fastforce
    then show "pr_id r' \<in> A \<union> set (approved_by [x] [res])"
      using assms(1) r'(2) by (auto simp: handed_def)
  qed
qed

lemma approved_by_Cons: "set (approved_by (x # xs) (r # rs)) = set (approved_by [x] [r]) \<union> set (approved_by xs rs)"
  by (cases "(x # xs, r # rs)" rule: approved_by.cases) simp_all

lemma handed_run: "handed A d \<Longrightarrow> handed (A \<union> set (approved_by xs (snd (run agent_step xs d)))) (fst (run agent_step xs d))"
proof (induction xs arbitrary: A d)
  case (Cons x xs)
  obtain d' res where st: "agent_step x d = (d', res)" by fastforce
  have "handed (A \<union> set (approved_by [x] [res]) \<union> set (approved_by xs (snd (run agent_step xs d')))) (fst (run agent_step xs d'))"
    by (rule Cons.IH [OF handed_step [OF Cons.prems st]])
  then show ?case using st approved_by_Cons [of x xs res "snd (run agent_step xs d')"] by (simp add: case_prod_beta Un_assoc)
qed simp

section \<open>Samples\<close>

definition bytes32 :: "char \<Rightarrow> string" where
  "bytes32 c = replicate 32 c"

lemma sample_collector:
  "key_of ''c'' (sv_db sample_ingest) = Some (new_key ''c'' ''a'' (sha256 ''s''))" "users (sv_db sample_ingest) = []"
  "posts (sv_db sample_ingest) = [new_post ''a'' zero_post, new_post ''b'' zero_post]" "collector_keys (sv_db sample_ingest) = [new_key ''c'' ''a'' (sha256 ''s'')]"
  "pairing_requests (sv_db sample_ingest) = []" "audit_log (sv_db sample_ingest) = []" "pairing_tokens (sv_db sample_ingest) = []"
  by (simp_all add: key_of_def sample_ingest_def ingest_New_def sample_posts_def empty_db_def)

lemma sample_rotate: "\<exists>d'. Rotate 0 (Some (bytes32 CHR ''x'')) ''c'' ''s'' sample_entry (sv_db sample_ingest) = (d', Inr (hexEncode (bytes32 CHR ''x'')))"
proof -
  let ?d = "sv_db sample_ingest"
  let ?hit = "\<lambda>k. ck_id k = ''c'' \<and> ck_secret k = sha256 ''s'' \<and> ck_revoked k = None"
  let ?g = "\<lambda>k. k\<lparr> ck_pending_secret := Some (sha256 (hexEncode (bytes32 CHR ''x''))), ck_pending_expires := Some (0 + PendingReplacementLifetime) \<rparr>"
  let ?d1 = "?d\<lparr> collector_keys := upd_where ?hit ?g (collector_keys ?d) \<rparr>"
  have c: "constraints ?d1" by (rule constraints_edit_keys [OF sample_ingest_ok(1)]) simp_all
  have e: "exec (\<lambda>d. d\<lparr> collector_keys := upd_where ?hit ?g (collector_keys d) \<rparr>) ?d = Inr ?d1" using c sample_ingest_ok(2) by (simp add: exec_ok)
  have n: "count_where ?hit (collector_keys ?d) = 1" by (simp add: sample_collector)
  show ?thesis using e n c sample_ingest_ok(2)
    by (simp add: Rotate_def random_hex_def audited_tx_def with_tx_def Let_def Insert_ok sample_entry_def)
qed

definition sample_paired :: db where
  "sample_paired = (sv_db sample_ingest)\<lparr> pairing_tokens := [\<lparr> pt_hash = sha256 ''t'', pt_post = ''a'', pt_expires = hour, pt_used = None \<rparr>] \<rparr>"

lemmas sample_paired_defs = sample_paired_def sample_ingest_def ingest_New_def sample_posts_def empty_db_def new_key_def new_post_def zero_post_def sample_entry_def
lemmas run_pairing_defs = with_tx_def audited_tx_def Insert_def audit_row_of_def exec_def constraint_defs random_hex_def

lemma sample_paired_ok: "constraints sample_paired"
  by (simp add: sample_paired_defs constraint_defs Let_def)

lemma sample_repair:
  "\<exists>d1 d2 en. Rotate 0 (Some (bytes32 CHR ''x'')) ''c'' ''s'' sample_entry sample_paired = (d1, Inr (hexEncode (bytes32 CHR ''x''))) \<and>
     Consume 1 (Some (bytes32 CHR ''y'')) ''t'' ''c'' d1 = (d2, Inr en)"
  by (simp add: Rotate_def Consume_def sample_paired_defs run_pairing_defs Let_def del_observations_of_def pair_key_def pair_key_rows_def use_token_def
      reset_key_def time_units next_id_def ids_max_def)

definition sample_requests :: "agent_op list" where
  "sample_requests = [OpRequest 0 (Some ''i'') (Some ''abc'') ''inst'' (bytes32 CHR ''k'') ''host'' ''linux'' ''1'', OpDecide 1 (hexEncode ''i'') ''a'' True sample_entry]"

lemma sample_approval:
  "\<exists>d' rs d'' en. run agent_step sample_requests (sv_db sample_ingest) = (d', rs) \<and>
     Poll 2 (Some (bytes32 CHR ''y'')) (hexEncode ''i'') (bytes32 CHR ''k'') d' = (d'', Inr en) \<and> ae_State en = ''approved''"
  by (simp add: sample_requests_def agent_Create_def Decide_def Poll_def bytes32_def sample_paired_defs run_pairing_defs Let_def pending_requests_def
      pairingPhrase_def decide_hit_def text_less_def seconds_of_def Lifetime_def time_units upsert_connection_def
      request_post_def del_observations_of_def agent_key_def next_id_def ids_max_def)

section \<open>Properties\<close>

text \<open>
  C13: no sequence of token creations and consumptions, in any order and with any repetition, redeems one pairing token twice.
\<close>

theorem pairing_token_single_use:
  assumes "constraints d"
  shows "redemptions consumed_tokens (sha256 token) xs (snd (run token_step xs d)) \<le> 1"
  using assms by (intro token.run_once) (simp_all add: list_all_iff)

theorem pairing_token_single_use_witness:
  "let xs = [OpToken 0 (Some (bytes32 CHR ''t'')) ''a'' minute sample_entry, OpConsume 5 (Some (bytes32 CHR ''u'')) (hexEncode (bytes32 CHR ''t'')) ''c'',
     OpConsume 6 (Some (bytes32 CHR ''v'')) (hexEncode (bytes32 CHR ''t'')) ''e'']
   in redemptions consumed_tokens (sha256 (hexEncode (bytes32 CHR ''t''))) xs (snd (run token_step xs (sv_db sample_ingest))) \<le> 1"
  unfolding Let_def by (rule pairing_token_single_use [OF sample_ingest_ok(1)])

text \<open>
  C14: in any sequence of requests, decisions and polls, an agent is handed a credential only for a request that an operator approved
  in that sequence: a request can reach the state that yields a credential on no other path.
\<close>

theorem credential_needs_approval:
  assumes "constraints d" and "list_all (\<lambda>r. pr_state r \<notin> {''approved'', ''consumed''}) (pairing_requests d)"
    and "run agent_step xs d = (d', rs)" and "Poll now drawn i secret d' = (d'', Inr en)" and "ae_State en = ''approved''"
  shows "i \<in> set (approved_by xs rs)"
proof -
  have "handed {} d" using assms(1,2) by (auto simp: handed_def list_all_iff)
  then have h: "handed (set (approved_by xs rs)) d'" using handed_run [of "{}" d xs] assms(3) by simp
  have st: "pr_state r \<in> {''pending'', ''approved'', ''rejected'', ''consumed''}" if "r \<in> set (pairing_requests d')" for r
    using h that by (auto simp: handed_def constraints_def checks_ok_def list_all_iff)
  from assms(4) show ?thesis
  proof (cases rule: Poll_body)
    case (quiet r)
    then show ?thesis using assms(5) by simp
  next
    case (again r)
    then show ?thesis using h find_set [OF again(1)] by (auto simp: handed_def)
  next
    case (fresh r d1 d2 d3)
    then show ?thesis using h st [of r] find_set [OF fresh(1)] by (auto simp: handed_def)
  qed
qed

theorem credential_needs_approval_witness:
  "\<exists>d' rs d'' en. run agent_step sample_requests (sv_db sample_ingest) = (d', rs) \<and>
     Poll 2 (Some (bytes32 CHR ''y'')) (hexEncode ''i'') (bytes32 CHR ''k'') d' = (d'', Inr en) \<and> (hexEncode ''i'') \<in> set (approved_by sample_requests rs)"
proof -
  obtain d' rs d'' en where h: "run agent_step sample_requests (sv_db sample_ingest) = (d', rs)"
    "Poll 2 (Some (bytes32 CHR ''y'')) (hexEncode ''i'') (bytes32 CHR ''k'') d' = (d'', Inr en)" "ae_State en = ''approved''"
    using sample_approval by blast
  have "list_all (\<lambda>r. pr_state r \<notin> {''approved'', ''consumed''}) (pairing_requests (sv_db sample_ingest))" by (simp add: sample_collector)
  from credential_needs_approval [OF sample_ingest_ok(1) this h] show ?thesis using h by blast
qed

text \<open>
  A rotation keeps the agent connected. Until the replacement is used both credentials authenticate; a replacement that expires unused stops
  authenticating and leaves the old credential valid; and the first batch accepted with the replacement makes it the only credential (a
  credential with the same digest is the same credential).
\<close>

theorem rotation_confirmed_by_use:
  assumes rot: "Rotate now (Some bytes) i current e d = (d', Inr credential)" and c: "constraints d" and len: "length bytes = 32"
  shows "Authenticate t i current d' = Inr () \<and>
    (Authenticate t i credential d' = Inr () \<longleftrightarrow> t < now + PendingReplacementLifetime \<or> sha256 credential = sha256 current) \<and>
    (AcceptBatch t credential os sentAt b (s\<lparr> sv_db := d' \<rparr>) = (s', Inr False) \<and> o_CollectorID (hd os) = i \<longrightarrow>
      Authenticate t' i credential (sv_db s') = Inr () \<and> (Authenticate t' i current (sv_db s') = Inr () \<longleftrightarrow> sha256 credential = sha256 current))"
proof -
  let ?g = "\<lambda>k. k\<lparr> ck_pending_secret := Some (sha256 credential), ck_pending_expires := Some (now + PendingReplacementLifetime) \<rparr>"
  from rot c obtain k where k: "ck_secret k = sha256 current" "ck_revoked k = None" "\<not> io_fault d'" "i \<noteq> []" "current \<noteq> []" "key_of i d' = Some (?g k)"
    by (rule Rotate_Inr) blast
  have ne: "credential \<noteq> []" by (rule Rotate_secret [OF rot len])
  have "Authenticate t' i credential (sv_db s') = Inr () \<and> (Authenticate t' i current (sv_db s') = Inr () \<longleftrightarrow> sha256 credential = sha256 current)"
    if b: "AcceptBatch t credential os sentAt b (s\<lparr> sv_db := d' \<rparr>) = (s', Inr False)" and col: "o_CollectorID (hd os) = i"
  proof -
    obtain k' where k': "key_of i d' = Some k'" "ck_revoked k' = None" "\<not> io_fault (sv_db s')"
      "key_of i (sv_db s') = Some (mark_batch t sentAt b os (promoted (ki_pending (key_info (sha256 credential) t k')) k'))"
      "\<not> rejects (key_info (sha256 credential) t k') (o_PostID (hd os))"
      using AcceptBatch_key [OF b] col k(3) by auto
    let ?k = "mark_batch t sentAt b os (promoted (ki_pending (key_info (sha256 credential) t k')) k')"
    have "ck_secret ?k = sha256 credential" "ck_revoked ?k = None" using promoted_secret [OF k'(5)] k'(2) by simp_all
    moreover have "ck_pending_secret ?k = None" if "sha256 credential \<noteq> sha256 current"
    proof -
      have "k' = ?g k" using k'(1) k(6) by simp
      then have "ki_pending (key_info (sha256 credential) t k')" "ck_pending_secret k' \<noteq> None"
        using k'(5) that k(1) by (auto simp: rejects_def key_info_def)
      then show ?thesis by (simp add: promoted_def promote_key_def mark_batch_def)
    qed
    ultimately show ?thesis using Authenticate_iff [OF k'(3,4) k(4)] ne k(5) by (cases "sha256 credential = sha256 current") (simp_all add: accepts_def)
  qed
  then show ?thesis using Authenticate_iff [OF k(3,6,4)] k(1,2,5) ne by (auto simp: accepts_def)
qed

theorem rotation_confirmed_by_use_witness:
  "\<exists>d'. Rotate 0 (Some (bytes32 CHR ''x'')) ''c'' ''s'' sample_entry (sv_db sample_ingest) = (d', Inr (hexEncode (bytes32 CHR ''x''))) \<and>
     Authenticate 5 ''c'' ''s'' d' = Inr () \<and> Authenticate 5 ''c'' (hexEncode (bytes32 CHR ''x'')) d' = Inr ()"
proof -
  obtain d' where d': "Rotate 0 (Some (bytes32 CHR ''x'')) ''c'' ''s'' sample_entry (sv_db sample_ingest) = (d', Inr (hexEncode (bytes32 CHR ''x'')))"
    using sample_rotate by blast
  show ?thesis using rotation_confirmed_by_use [OF d' sample_ingest_ok(1), where t = 5] d'
    by (simp add: bytes32_def PendingReplacementLifetime_def time_units)
qed

text \<open>
  Enrolling a collector again does not withdraw a replacement credential that was issued before: until it expires, the holder
  of that replacement still authenticates next to the newly paired collector.
\<close>

theorem repair_keeps_pending_credential:
  assumes rot: "Rotate now (Some bytes) i current e d = (d1, Inr credential)" and c: "constraints d" and len: "length bytes = 32"
    and pair: "Consume now' (Some bytes') token i d1 = (d2, Inr en)" and len': "length bytes' = 32" and t: "t < now + PendingReplacementLifetime"
  shows "Authenticate t i (er_Secret en) d2 = Inr () \<and> Authenticate t i credential d2 = Inr ()"
proof -
  let ?g = "\<lambda>k. k\<lparr> ck_pending_secret := Some (sha256 credential), ck_pending_expires := Some (now + PendingReplacementLifetime) \<rparr>"
  from rot c obtain k where k: "constraints d1" "key_of i d1 = Some (?g k)" by (rule Rotate_Inr) blast
  have ne: "credential \<noteq> []" by (rule Rotate_secret [OF rot len])
  from pair k(1) have h: "i \<noteq> [] \<and> \<not> io_fault d2 \<and> er_Secret en = hexEncode bytes' \<and>
      key_of i d2 = Some (reset_key (sha256 (er_Secret en)) (?g k))" by (rule Consume_Inr) (simp add: k(2))
  then have "er_Secret en \<noteq> []" using len' by (auto simp: hexEncode_def)
  then show ?thesis
    using h ne t Authenticate_iff [of d2 i "reset_key (sha256 (er_Secret en)) (?g k)" t] by (auto simp: accepts_def)
qed

theorem repair_keeps_pending_credential_witness:
  "\<exists>d1 d2 en. Rotate 0 (Some (bytes32 CHR ''x'')) ''c'' ''s'' sample_entry sample_paired = (d1, Inr (hexEncode (bytes32 CHR ''x''))) \<and>
     Consume 1 (Some (bytes32 CHR ''y'')) ''t'' ''c'' d1 = (d2, Inr en) \<and> Authenticate 2 ''c'' (hexEncode (bytes32 CHR ''x'')) d2 = Inr ()"
proof -
  obtain d1 d2 en where h: "Rotate 0 (Some (bytes32 CHR ''x'')) ''c'' ''s'' sample_entry sample_paired = (d1, Inr (hexEncode (bytes32 CHR ''x'')))"
    "Consume 1 (Some (bytes32 CHR ''y'')) ''t'' ''c'' d1 = (d2, Inr en)" using sample_repair by blast
  have l: "length (bytes32 CHR ''x'') = 32" "length (bytes32 CHR ''y'') = 32" by (simp_all add: bytes32_def)
  show ?thesis
    using repair_keeps_pending_credential [OF h(1) sample_paired_ok l(1) h(2) l(2), where t = 2] h
    by (simp add: PendingReplacementLifetime_def time_units)
qed

end
