(* ===== verification/Texts.thy ===== *)
theory Texts
  imports Digest Replicated_Meta "HOL-Library.Product_Lexorder"
begin

text \<open>
  What the program uses of Go's \<open>strings\<close>, \<open>strconv\<close>, \<open>encoding/base64\<close> and of \<open>net.SplitHostPort\<close>. \<open>TrimSpace\<close> and \<open>ToLower\<close> are modelled on ASCII. \<open>RawURLEncoding\<close> is
  the unpadded alphabet for URLs; \<open>DecodeString\<close> skips line breaks and ignores the unused bits of the last character, as Go does.
\<close>

definition is_space :: "char \<Rightarrow> bool" where
  "is_space c \<longleftrightarrow> c \<in> {CHR '' '', CHR 0x09, CHR 0x0A, CHR 0x0B, CHR 0x0C, CHR 0x0D}"

definition TrimSpace :: "string \<Rightarrow> string" where
  "TrimSpace s = rev (dropWhile is_space (rev (dropWhile is_space s)))"

definition ToLower :: "string \<Rightarrow> string" where
  "ToLower s = nocase s"

definition TrimRight :: "string \<Rightarrow> char \<Rightarrow> string" where
  "TrimRight s c = rev (dropWhile (\<lambda>x. x = c) (rev s))"

definition has_prefix :: "string \<Rightarrow> string \<Rightarrow> bool" where
  "has_prefix s p \<longleftrightarrow> take (length p) s = p"

definition TrimPrefix :: "string \<Rightarrow> string \<Rightarrow> string" where
  "TrimPrefix s p = (if has_prefix s p then drop (length p) s else s)"

text \<open>\<open>strconv.ParseInt(s, 10, 64)\<close>.\<close>

definition ParseInt :: "string \<Rightarrow> err + int" where
  "ParseInt s =
     (let neg = (case s of [] \<Rightarrow> False | c # cs \<Rightarrow> c = CHR ''-'');
          ds = (case s of [] \<Rightarrow> [] | c # cs \<Rightarrow> if c = CHR ''-'' \<or> c = CHR ''+'' then cs else s);
          v = (if neg then - int (digits_value ds) else int (digits_value ds))
      in if ds = [] \<or> \<not> list_all is_digit ds \<or> v < - (2 ^ 63) \<or> v \<ge> 2 ^ 63 then Inl (Err ''strconv.ParseInt'') else Inr v)"

definition show_int :: "int \<Rightarrow> string" where
  "show_int i = (if i < 0 then CHR ''-'' # show_nat (nat (- i)) else show_nat (nat i))"

text \<open>\<open>strings.Trim(s, cutset)\<close>, \<open>strings.TrimRight\<close> with a set, \<open>strings.HasSuffix\<close>, \<open>strings.Contains\<close>, \<open>strings.Split\<close> at one character, \<open>strings.Fields\<close> and \<open>strings.Join\<close>.\<close>

definition TrimSet :: "string \<Rightarrow> string \<Rightarrow> string" where
  "TrimSet s cutset = rev (dropWhile (\<lambda>c. c \<in> set cutset) (rev (dropWhile (\<lambda>c. c \<in> set cutset) s)))"

definition TrimRightSet :: "string \<Rightarrow> string \<Rightarrow> string" where
  "TrimRightSet s cutset = rev (dropWhile (\<lambda>c. c \<in> set cutset) (rev s))"

definition has_suffix :: "string \<Rightarrow> string \<Rightarrow> bool" where
  "has_suffix s p = (length p \<le> length s \<and> drop (length s - length p) s = p)"

fun contains :: "string \<Rightarrow> string \<Rightarrow> bool" where
  "contains [] p = (p = [])"
| "contains (c # cs) p = (take (length p) (c # cs) = p \<or> contains cs p)"

fun split_at :: "char \<Rightarrow> string \<Rightarrow> string list" where
  "split_at c [] = [[]]"
| "split_at c (x # xs) = (if x = c then [] # split_at c xs else case split_at c xs of [] \<Rightarrow> [[x]] | w # ws \<Rightarrow> (x # w) # ws)"

definition Fields :: "string \<Rightarrow> string list" where
  "Fields s = filter (\<lambda>w. w \<noteq> []) (split_at (CHR '' '') (map (\<lambda>c. if is_space c then CHR '' '' else c) s))"

fun Join :: "string list \<Rightarrow> string \<Rightarrow> string" where
  "Join [] sep = []"
| "Join [w] sep = w"
| "Join (w # v # ws) sep = w @ sep @ Join (v # ws) sep"

text \<open>\<open>net.SplitHostPort\<close>: the port follows the last colon; a host with colons must be in brackets.\<close>

definition last_colon :: "string \<Rightarrow> nat option" where
  "last_colon s = (if CHR '':'' \<in> set s then Some (length s - Suc (length (takeWhile (\<lambda>c. c \<noteq> CHR '':'') (rev s)))) else None)"

definition SplitHostPort :: "string \<Rightarrow> (string \<times> string) option" where
  "SplitHostPort s = (case last_colon s of None \<Rightarrow> None
     | Some i \<Rightarrow> let port = drop (Suc i) s in
         if s \<noteq> [] \<and> hd s = CHR ''['' then
           (let end = length (takeWhile (\<lambda>c. c \<noteq> CHR '']'') s)
            in if end = length s \<or> Suc end \<noteq> i \<or> CHR ''['' \<in> set (drop 1 s) \<or> CHR '']'' \<in> set (drop (Suc end) s) then None
               else Some (drop 1 (take end s), port))
         else if CHR '':'' \<in> set (take i s) \<or> CHR ''['' \<in> set s \<or> CHR '']'' \<in> set s then None
         else Some (take i s, port))"

lemma TrimPrefix_append [simp]: "TrimPrefix (p @ s) p = s"
  by (simp add: TrimPrefix_def has_prefix_def)

text \<open>The order of the stored texts of two instants as a key.\<close>

definition text_key :: "time \<Rightarrow> int \<times> string" where
  "text_key t = (seconds_of t, fraction_text t)"

section \<open>Base64\<close>

definition b64_char :: "nat \<Rightarrow> char" where
  "b64_char n = char_of (if n < 26 then 65 + n else if n < 52 then 71 + n else if n < 62 then n - 4 else if n = 62 then 45 else 95)"

fun b64url :: "string \<Rightarrow> string" where
  "b64url (x # y # z # r) = (let a = of_char x; b = of_char y; c = of_char z
     in [b64_char (a div 4), b64_char (a mod 4 * 16 + b div 16), b64_char (b mod 16 * 4 + c div 64), b64_char (c mod 64)] @ b64url r)"
| "b64url [x, y] = (let a = of_char x; b = of_char y in [b64_char (a div 4), b64_char (a mod 4 * 16 + b div 16), b64_char (b mod 16 * 4)])"
| "b64url [x] = (let a = of_char x in [b64_char (a div 4), b64_char (a mod 4 * 16)])"
| "b64url [] = []"

definition b64_value :: "char \<Rightarrow> nat option" where
  "b64_value ch = (let k = of_char ch
     in if 65 \<le> k \<and> k \<le> 90 then Some (k - 65) else if 97 \<le> k \<and> k \<le> 122 then Some (k - 71) else if 48 \<le> k \<and> k \<le> 57 then Some (k + 4)
        else if k = 45 then Some 62 else if k = 95 then Some 63 else None)"

fun b64_join :: "nat list \<Rightarrow> string option" where
  "b64_join (a # b # c # d # r) = map_option (\<lambda>t. char_of (a * 4 + b div 16) # char_of (b mod 16 * 16 + c div 4) # char_of (c mod 4 * 64 + d) # t) (b64_join r)"
| "b64_join [a, b, c] = Some [char_of (a * 4 + b div 16), char_of (b mod 16 * 16 + c div 4)]"
| "b64_join [a, b] = Some [char_of (a * 4 + b div 16)]"
| "b64_join [a] = None"
| "b64_join [] = Some []"

definition b64_decode :: "string \<Rightarrow> string option" where
  "b64_decode s = Option.bind (those (map b64_value (filter (\<lambda>c. c \<noteq> CHR 0x0D \<and> c \<noteq> CHR 0x0A) s))) b64_join"

lemma b64_value_char: "n < 64 \<Longrightarrow> b64_value (b64_char n) = Some n"
  by (auto simp: b64_value_def b64_char_def Let_def)

lemma b64_char_line: "n < 64 \<Longrightarrow> b64_char n \<noteq> CHR 0x0D \<and> b64_char n \<noteq> CHR 0x0A"
  using b64_value_char [of n] by (auto simp: b64_value_def Let_def)

lemma of_char_less [simp]: "(of_char c :: nat) < 256"
  using of_char_mod_256 [of c] by (metis mod_less_divisor zero_less_numeral)

lemma char_bounds: "(of_char c :: nat) div 4 < 64" "(of_char c :: nat) mod 4 * 16 + (of_char d :: nat) div 16 < 64"
  "(of_char c :: nat) mod 16 * 4 + (of_char d :: nat) div 64 < 64" "(of_char c :: nat) mod 64 < 64" "(of_char c :: nat) mod 4 * 16 < 64" "(of_char c :: nat) mod 16 * 4 < 64"
  using of_char_less [of c] of_char_less [of d] by linarith+

lemma joined_digits:
  fixes x y z :: nat
  assumes "y < 256" and "z < 256"
  shows "x div 4 * 4 + (x mod 4 * 16 + y div 16) div 16 = x" "x div 4 * 4 + x mod 4 * 16 div 16 = x"
    and "(x mod 4 * 16 + y div 16) mod 16 * 16 + (y mod 16 * 4 + z div 64) div 4 = y" "(x mod 4 * 16 + y div 16) mod 16 * 16 + y mod 16 * 4 div 4 = y"
    and "(y mod 16 * 4 + z div 64) mod 4 * 64 + z mod 64 = z"
proof -
  have y: "y div 16 < 16" and z: "z div 64 < 4" using assms by simp_all
  have "(x mod 4 * 16 + y div 16) div 16 = x mod 4" "(x mod 4 * 16 + y div 16) mod 16 = y div 16"
    "(y mod 16 * 4 + z div 64) div 4 = y mod 16" "(y mod 16 * 4 + z div 64) mod 4 = z div 64" using y z by simp_all
  then show "x div 4 * 4 + (x mod 4 * 16 + y div 16) div 16 = x" "x div 4 * 4 + x mod 4 * 16 div 16 = x"
    "(x mod 4 * 16 + y div 16) mod 16 * 16 + (y mod 16 * 4 + z div 64) div 4 = y" "(x mod 4 * 16 + y div 16) mod 16 * 16 + y mod 16 * 4 div 4 = y"
    "(y mod 16 * 4 + z div 64) mod 4 * 64 + z mod 64 = z" by simp_all
qed

lemma b64_decode_chars:
  "list_all (\<lambda>n. n < 64) ns \<Longrightarrow> b64_decode (map b64_char ns) = b64_join ns"
proof -
  assume a: "list_all (\<lambda>n. n < 64) ns"
  have "filter (\<lambda>c. c \<noteq> CHR 0x0D \<and> c \<noteq> CHR 0x0A) (map b64_char ns) = map b64_char ns"
    using a b64_char_line by (auto simp: list_all_iff intro!: filter_True)
  moreover have "those (map b64_value (map b64_char ns)) = Some ns"
    using a by (induction ns) (simp_all add: b64_value_char)
  ultimately show ?thesis by (simp add: b64_decode_def)
qed

fun b64_digits :: "string \<Rightarrow> nat list" where
  "b64_digits (x # y # z # r) = [of_char x div 4, of_char x mod 4 * 16 + of_char y div 16, of_char y mod 16 * 4 + of_char z div 64, of_char z mod 64] @ b64_digits r"
| "b64_digits [x, y] = [of_char x div 4, of_char x mod 4 * 16 + of_char y div 16, of_char y mod 16 * 4]"
| "b64_digits [x] = [of_char x div 4, of_char x mod 4 * 16]"
| "b64_digits [] = []"

lemma b64url_digits: "b64url s = map b64_char (b64_digits s)"
  by (induction s rule: b64url.induct) (simp_all add: Let_def)

lemma b64_digits_small: "list_all (\<lambda>n. n < 64) (b64_digits s)"
  by (induction s rule: b64_digits.induct) (simp_all add: char_bounds)

lemma b64_join_digits: "b64_join (b64_digits s) = Some s"
  by (induction s rule: b64_digits.induct) (simp_all only: b64_digits.simps b64_join.simps joined_digits [OF of_char_less of_char_less] append.simps option.map char_of_char)

lemma b64_roundtrip [simp]: "b64_decode (b64url s) = Some s"
  by (simp add: b64url_digits b64_decode_chars b64_digits_small b64_join_digits)

end
