(* ===== verification/Accounts.thy ===== *)
theory Accounts
  imports Audit_Log Single_Use Texts
begin

text \<open>
  Accounts, sessions and the first-run setup (\<open>internal/auth/auth.go\<close>, \<open>internal/auth/model.go\<close>). gantry-core's account model is
  a parameter, the record \<open>coreauth\<close>: password hashing and verification, the validation \<open>Reload\<close> makes of the accounts it is given, and
  the lookup of a password login among them. The accounts themselves are loaded from the users table by \<open>LoadAccounts\<close>, and \<open>Reload\<close>
  precedes every use, so the model passes what \<open>LoadAccounts\<close> returns instead of keeping a copy. Clock and random bytes are
  arguments.
\<close>

section \<open>Text\<close>

definition randomToken :: "string option \<Rightarrow> err + string" where
  "randomToken drawn = (case drawn of None \<Rightarrow> Inl (Err ''rand'') | Some bs \<Rightarrow> Inr (b64url bs))"

section \<open>Accounts\<close>

record Identity =
  id_ID :: string
  id_Type :: string
  id_Username :: string
  id_Email :: string
  id_PasswordHash :: string
  id_Enabled :: bool

record Account =
  ac_ID :: string
  ac_DisplayName :: string
  ac_Enabled :: bool
  ac_Roles :: "string list"
  ac_CreatedAt :: time
  ac_Identities :: "Identity list"

record User =
  u_ID :: int
  u_Email :: string
  u_Role :: string

record Session =
  sn_Token :: string
  sn_CSRF :: string
  sn_User :: User

record coreauth =
  ca_hash :: "string \<Rightarrow> err + string"
  ca_verify :: "string \<Rightarrow> string \<Rightarrow> bool"
  ca_reload :: "Account list \<Rightarrow> err + unit"
  ca_authenticate :: "Account list \<Rightarrow> string \<Rightarrow> string \<Rightarrow> Account option"

record Manager =
  mg_db :: db
  mg_failures :: "string \<rightharpoonup> time list"
  mg_bootstrapTokenRequired :: bool

definition watchpostRoles :: "(string \<times> string list) list" where
  "watchpostRoles = [(''administrator'', [''*'']), (''operator'', [''monitor.read'', ''monitor.manage'']), (''viewer'', [''monitor.read''])]"

definition account_of :: "user_row \<Rightarrow> Account" where
  "account_of u = \<lparr> ac_ID = show_nat (us_id u), ac_DisplayName = us_username u, ac_Enabled = True,
     ac_Roles = [if us_role u = ''admin'' then ''administrator'' else us_role u], ac_CreatedAt = us_created u,
     ac_Identities = [\<lparr> id_ID = ''pwd_'' @ show_nat (us_id u), id_Type = ''password'', id_Username = us_username u, id_Email = us_email u,
       id_PasswordHash = us_password u, id_Enabled = True \<rparr>] \<rparr>"

definition LoadAccounts :: "db \<Rightarrow> err + Account list" where
  "LoadAccounts d = query (\<lambda>d. map account_of (sort_key (\<lambda>u. nocase (us_email u)) (users d))) d"

fun role_of :: "string \<Rightarrow> string list \<Rightarrow> string" where
  "role_of role [] = role"
| "role_of role (a # as) = (if a = ''administrator'' then ''admin'' else role_of (if a = ''operator'' then ''operator'' else role) as)"

fun email_of :: "string \<Rightarrow> Identity list \<Rightarrow> string" where
  "email_of email [] = email"
| "email_of email (i # is) = (if id_Email i \<noteq> [] then id_Email i else email_of email is)"

definition userFromAccount :: "Account \<Rightarrow> err + User" where
  "userFromAccount a = bindE (ParseInt (ac_ID a)) (\<lambda>i.
     Inr \<lparr> u_ID = i, u_Email = email_of (ac_DisplayName a) (ac_Identities a), u_Role = role_of ''viewer'' (ac_Roles a) \<rparr>)"

text \<open>\<open>m.accounts.Reload()\<close>, alone and as the last step of an operation that has already committed.\<close>

definition Reload :: "coreauth \<Rightarrow> db \<Rightarrow> err + Account list" where
  "Reload core d = bindE (LoadAccounts d) (\<lambda>as. bindE (ca_reload core as) (\<lambda>_. Inr as))"

definition reloaded :: "coreauth \<Rightarrow> db \<times> (err + 'a) \<Rightarrow> db \<times> (err + 'a)" where
  "reloaded core r = (case r of (d, Inl e) \<Rightarrow> (d, Inl e)
     | (d, Inr y) \<Rightarrow> (case Reload core d of Inl e \<Rightarrow> (d, Inl e) | Inr _ \<Rightarrow> (d, Inr y)))"

section \<open>Setup\<close>

definition SetBootstrapToken :: "string \<Rightarrow> time \<Rightarrow> db \<Rightarrow> db \<times> (err + unit)" where
  "SetBootstrapToken raw expiresAt d =
     (if raw = [] then (d, Inl (Err ''bootstrap token required''))
      else let h = sha256 raw in
        case exec (\<lambda>d. d\<lparr> bootstrap_tokens := (if h \<in> bt_hash ` set (bootstrap_tokens d)
            then upd_where (\<lambda>t. bt_hash t = h) (\<lambda>t. t\<lparr> bt_expires := expiresAt, bt_consumed := None \<rparr>) (bootstrap_tokens d)
            else bootstrap_tokens d @ [\<lparr> bt_hash = h, bt_expires = expiresAt, bt_consumed = None \<rparr>]) \<rparr>) d of
          Inl e \<Rightarrow> (d, Inl e) | Inr d' \<Rightarrow> (d', Inr ()))"

definition GenerateBootstrapToken :: "time \<Rightarrow> string option \<Rightarrow> int \<Rightarrow> db \<Rightarrow> db \<times> (err + string)" where
  "GenerateBootstrapToken now drawn lifetime d = (case randomToken drawn of Inl e \<Rightarrow> (d, Inl e)
     | Inr raw \<Rightarrow> (case SetBootstrapToken raw (now + lifetime) d of (d, Inl e) \<Rightarrow> (d, Inl e) | (d, Inr _) \<Rightarrow> (d, Inr raw)))"

definition MinimumPasswordLength :: nat where
  "MinimumPasswordLength = 7"

definition new_user :: "time \<Rightarrow> string \<Rightarrow> string \<Rightarrow> string \<Rightarrow> string \<Rightarrow> db \<Rightarrow> user_row" where
  "new_user now username email h role d = \<lparr> us_id = next_id (map us_id (users d)), us_username = username, us_email = email, us_password = h,
     us_role = role, us_created = now \<rparr>"

definition consume_bootstrap :: "bool \<Rightarrow> time \<Rightarrow> string \<Rightarrow> db \<Rightarrow> err + db" where
  "consume_bootstrap required now token d =
     (if \<not> required then Inr d
      else let hit = (\<lambda>t. bt_hash t = sha256 token \<and> bt_consumed t = None \<and> text_less now (bt_expires t)) in
        bindE (exec (\<lambda>d. d\<lparr> bootstrap_tokens := upd_where hit (\<lambda>t. t\<lparr> bt_consumed := Some now \<rparr>) (bootstrap_tokens d) \<rparr>) d) (\<lambda>d'.
        bindE (ensure (count_where hit (bootstrap_tokens d) = 1) (Err ''bootstrap token required or invalid'')) (\<lambda>_. Inr d')))"

definition Setup :: "coreauth \<Rightarrow> bool \<Rightarrow> time \<Rightarrow> string \<Rightarrow> string \<Rightarrow> string \<Rightarrow> string \<Rightarrow> db \<Rightarrow> db \<times> (err + User)" where
  "Setup core required now username email password token d =
     (let username = TrimSpace username in
      if username = [] \<or> CHR ''@'' \<notin> set email \<or> length password < MinimumPasswordLength
      then (d, Inl (Err ''valid username, email and password of at least 7 characters required''))
      else case ca_hash core password of Inl e \<Rightarrow> (d, Inl e)
        | Inr h \<Rightarrow> reloaded core (with_tx (\<lambda>d.
            bindE (ensure (length (users d) = 0) (Err ''setup already completed'')) (\<lambda>_.
            bindE (consume_bootstrap required now token d) (\<lambda>d.
            let u = new_user now username (TrimSpace email) h ''admin'' d in
            bindE (exec (\<lambda>d. d\<lparr> users := users d @ [u] \<rparr>) d) (\<lambda>d.
            bindE (Insert now \<lparr> en_ActorID = us_id u, en_Action = ''setup'', en_ObjectType = ''user'', en_ObjectID = show_nat (us_id u),
                en_Detail = ''first administrator created'' \<rparr> d) (\<lambda>d.
            Inr (d, \<lparr> u_ID = int (us_id u), u_Email = email, u_Role = ''admin'' \<rparr>)))))) d))"

definition SetupRequired :: "coreauth \<Rightarrow> db \<Rightarrow> err + bool" where
  "SetupRequired core d = bindE (Reload core d) (\<lambda>as. Inr (as = []))"

section \<open>Users\<close>

definition validRole :: "string \<Rightarrow> bool" where
  "validRole role \<longleftrightarrow> role = ''admin'' \<or> role = ''operator'' \<or> role = ''viewer''"

fun users_of :: "Account list \<Rightarrow> err + User list" where
  "users_of [] = Inr []"
| "users_of (a # as) = bindE (userFromAccount a) (\<lambda>u. bindE (users_of as) (\<lambda>us. Inr (u # us)))"

definition ListUsers :: "coreauth \<Rightarrow> db \<Rightarrow> err + User list" where
  "ListUsers core d = bindE (Reload core d) users_of"

definition about_user :: "nat \<Rightarrow> Entry \<Rightarrow> Entry" where
  "about_user i e = e\<lparr> en_ObjectType := ''user'', en_ObjectID := show_nat i \<rparr>"

definition CreateUser :: "coreauth \<Rightarrow> time \<Rightarrow> string \<Rightarrow> string \<Rightarrow> string \<Rightarrow> string \<Rightarrow> Entry \<Rightarrow> db \<Rightarrow> db \<times> (err + User)" where
  "CreateUser core now username email password role e d =
     (let username = TrimSpace username in
      if username = [] \<or> CHR ''@'' \<notin> set email \<or> length password < MinimumPasswordLength \<or> \<not> validRole role
      then (d, Inl (Err ''valid username, email, password of at least 7 characters, and role required''))
      else case ca_hash core password of Inl x \<Rightarrow> (d, Inl x)
        | Inr h \<Rightarrow> reloaded core (with_tx (\<lambda>d.
            let u = new_user now username (TrimSpace email) h role d in
            bindE (exec (\<lambda>d. d\<lparr> users := users d @ [u] \<rparr>) d) (\<lambda>d.
            bindE (Insert now (about_user (us_id u) e) d) (\<lambda>d.
            Inr (d, \<lparr> u_ID = int (us_id u), u_Email = TrimSpace email, u_Role = role \<rparr>)))) d))"

definition SetRole :: "coreauth \<Rightarrow> time \<Rightarrow> nat \<Rightarrow> string \<Rightarrow> Entry \<Rightarrow> db \<Rightarrow> db \<times> (err + unit)" where
  "SetRole core now i role e d =
     (if \<not> validRole role then (d, Inl (Err ''invalid role''))
      else reloaded core (audited_tx now (about_user i e) (\<lambda>d.
        case find (\<lambda>u. us_id u = i) (users d) of None \<Rightarrow> Inl ErrNoRows
        | Some u \<Rightarrow>
            bindE (ensure (\<not> (us_role u = ''admin'' \<and> role \<noteq> ''admin'' \<and> count_where (\<lambda>u. us_role u = ''admin'') (users d) \<le> 1))
              (Err ''cannot demote the last administrator'')) (\<lambda>_.
            bindE (exec (\<lambda>d. d\<lparr> users := upd_where (\<lambda>u. us_id u = i) (\<lambda>u. u\<lparr> us_role := role \<rparr>) (users d) \<rparr>) d) (\<lambda>d'.
            bindE (ensure (count_where (\<lambda>u. us_id u = i) (users d) = 1) ErrNoRows) (\<lambda>_. Inr (d', ()))))) d))"

definition set_password :: "nat \<Rightarrow> string \<Rightarrow> db \<Rightarrow> db" where
  "set_password i h d = d\<lparr> users := upd_where (\<lambda>u. us_id u = i) (\<lambda>u. u\<lparr> us_password := h \<rparr>) (users d) \<rparr>"

definition del_sessions :: "(session_row \<Rightarrow> bool) \<Rightarrow> db \<Rightarrow> db" where
  "del_sessions P d = d\<lparr> sessions := del_where P (sessions d) \<rparr>"

definition ResetPassword :: "coreauth \<Rightarrow> time \<Rightarrow> nat \<Rightarrow> string \<Rightarrow> Entry \<Rightarrow> db \<Rightarrow> db \<times> (err + unit)" where
  "ResetPassword core now i newPassword e d =
     (if length newPassword < MinimumPasswordLength then (d, Inl (Err ''password must be at least 7 characters''))
      else case ca_hash core newPassword of Inl x \<Rightarrow> (d, Inl x)
        | Inr h \<Rightarrow> reloaded core (audited_tx now (about_user i e) (\<lambda>d.
            bindE (exec (set_password i h) d) (\<lambda>d'.
            bindE (ensure (count_where (\<lambda>u. us_id u = i) (users d) = 1) ErrNoRows) (\<lambda>_.
            bindE (exec (del_sessions (\<lambda>s. se_user s = i)) d') (\<lambda>d. Inr (d, ()))))) d))"

definition RevokeSessions :: "time \<Rightarrow> nat \<Rightarrow> Entry \<Rightarrow> db \<Rightarrow> db \<times> (err + nat)" where
  "RevokeSessions now i e d = audited_tx now (about_user i e) (\<lambda>d.
     bindE (exec (del_sessions (\<lambda>s. se_user s = i)) d) (\<lambda>d'. Inr (d', count_where (\<lambda>s. se_user s = i) (sessions d)))) d"

definition ChangePassword :: "coreauth \<Rightarrow> time \<Rightarrow> nat \<Rightarrow> string \<Rightarrow> string \<Rightarrow> string \<Rightarrow> Entry \<Rightarrow> db \<Rightarrow> db \<times> (err + unit)" where
  "ChangePassword core now i current newPassword keepToken e d =
     (if length newPassword < MinimumPasswordLength then (d, Inl (Err ''password must be at least 7 characters''))
      else if io_fault d then (d, Inl IOFault)
      else case find (\<lambda>u. us_id u = i) (users d) of None \<Rightarrow> (d, Inl ErrNoRows)
        | Some u \<Rightarrow>
            if \<not> ca_verify core (us_password u) current then (d, Inl (Err ''current password incorrect''))
            else (case ca_hash core newPassword of Inl x \<Rightarrow> (d, Inl x)
              | Inr h \<Rightarrow> reloaded core (audited_tx now ((about_user i e)\<lparr> en_ActorID := i \<rparr>) (\<lambda>d.
                  bindE (exec (del_sessions (\<lambda>s. se_user s = i \<and> se_token s \<noteq> sha256 keepToken)) d) (\<lambda>d.
                  bindE (exec (set_password i h) d) (\<lambda>d. Inr (d, ())))) d)))"

section \<open>Sessions\<close>

definition login_allow :: "time \<Rightarrow> string \<Rightarrow> Manager \<Rightarrow> Manager \<times> bool" where
  "login_allow now key m =
     (let kept = filter (\<lambda>t. t > now - 5 * minute) (case mg_failures m key of None \<Rightarrow> [] | Some ts \<Rightarrow> ts)
      in (m\<lparr> mg_failures := (mg_failures m)(key \<mapsto> kept) \<rparr>, length kept < 5))"

definition failed :: "time \<Rightarrow> string \<Rightarrow> Manager \<Rightarrow> Manager" where
  "failed now key m = m\<lparr> mg_failures := (mg_failures m)(key \<mapsto> (case mg_failures m key of None \<Rightarrow> [] | Some ts \<Rightarrow> ts) @ [now]) \<rparr>"

definition clear :: "string \<Rightarrow> Manager \<Rightarrow> Manager" where
  "clear key m = m\<lparr> mg_failures := (mg_failures m)(key := None) \<rparr>"

definition Login :: "coreauth \<Rightarrow> time \<Rightarrow> string option \<Rightarrow> string option \<Rightarrow> string \<Rightarrow> string \<Rightarrow> Entry \<Rightarrow> Manager \<Rightarrow> Manager \<times> (err + Session)" where
  "Login core now drawn drawn' email password e m =
     (case Reload core (mg_db m) of Inl x \<Rightarrow> (m, Inl x)
      | Inr accounts \<Rightarrow>
          let key = ToLower (TrimSpace email) in
          case login_allow now key m of
            (m, False) \<Rightarrow> (m, Inl (Err ''login temporarily throttled''))
          | (m, True) \<Rightarrow> (case ca_authenticate core accounts email password of
              None \<Rightarrow> (failed now key m, Inl (Err ''invalid credentials''))
            | Some account \<Rightarrow> (case userFromAccount account of Inl x \<Rightarrow> (m, Inl x)
              | Inr u \<Rightarrow> let m = clear key m in
                  (case bindE (randomToken drawn) (\<lambda>token. bindE (randomToken drawn') (\<lambda>csrf. Inr (token, csrf))) of
                    Inl x \<Rightarrow> (m, Inl x)
                  | Inr (token, csrf) \<Rightarrow>
                      (case audited_tx now (e\<lparr> en_ActorID := nat (u_ID u), en_ObjectType := ''session'', en_ObjectID := [] \<rparr>) (\<lambda>d.
                          bindE (exec (\<lambda>d. d\<lparr> sessions := sessions d @ [\<lparr> se_token = sha256 token, se_user = nat (u_ID u), se_csrf = csrf, se_expires = now + 24 * hour \<rparr>] \<rparr>) d)
                            (\<lambda>d. Inr (d, ()))) (mg_db m) of
                        (d, Inl x) \<Rightarrow> (m, Inl x)
                      | (d, Inr _) \<Rightarrow> (m\<lparr> mg_db := d \<rparr>, Inr \<lparr> sn_Token = token, sn_CSRF = csrf, sn_User = u \<rparr>))))))"

definition session_Authenticate :: "time \<Rightarrow> string \<Rightarrow> db \<Rightarrow> err + Session" where
  "session_Authenticate now token d =
     (if io_fault d then Inl ErrNoRows
      else case find (\<lambda>s. se_token s = sha256 token) (sessions d) of None \<Rightarrow> Inl ErrNoRows
        | Some s \<Rightarrow> (case find (\<lambda>u. us_id u = se_user s) (users d) of None \<Rightarrow> Inl ErrNoRows
            | Some u \<Rightarrow> if now > se_expires s then Inl ErrNoRows
                else Inr \<lparr> sn_Token = [], sn_CSRF = se_csrf s, sn_User = \<lparr> u_ID = int (us_id u), u_Email = us_email u, u_Role = us_role u \<rparr> \<rparr>))"

definition Logout :: "time \<Rightarrow> string \<Rightarrow> Entry \<Rightarrow> db \<Rightarrow> db \<times> (err + unit)" where
  "Logout now token e d = audited_tx now (e\<lparr> en_ObjectType := ''session'' \<rparr>) (\<lambda>d.
     bindE (exec (del_sessions (\<lambda>s. se_token s = sha256 token)) d) (\<lambda>d. Inr (d, ()))) d"

section \<open>Lemmas\<close>

lemma reloaded_fst [simp]: "fst (reloaded core r) = fst r"
  by (auto simp: reloaded_def split: prod.splits sum.splits)

lemma reloaded_Inr: "reloaded core r = (d, Inr x) \<Longrightarrow> r = (d, Inr x)"
  by (auto simp: reloaded_def split: prod.splits sum.splits)

lemma constraints_edit_users:
  assumes "constraints d" and "\<And>u. us_id (g u) = us_id u \<and> us_email (g u) = us_email u" and "\<And>u. us_role u \<in> {''admin'', ''operator'', ''viewer''} \<Longrightarrow> us_role (g u) \<in> {''admin'', ''operator'', ''viewer''}"
  shows "constraints (d\<lparr> users := upd_where hit g (users d) \<rparr>)"
proof -
  have "list_all (\<lambda>u. us_role u \<in> {''admin'', ''operator'', ''viewer''}) (users d)" using assms(1) by (simp add: constraints_def checks_ok_def)
  then have "list_all (\<lambda>u. us_role u \<in> {''admin'', ''operator'', ''viewer''}) (upd_where hit g (users d))"
    using assms(3) unfolding list_all_iff set_upd_where by fastforce
  then show ?thesis using assms(1,2) by (simp add: constraint_defs Let_def)
qed

lemma constraints_del_sessions: "constraints d \<Longrightarrow> constraints (del_sessions P d)"
  by (auto simp: constraint_defs del_sessions_def Let_def fk_iff distinct_map_del_where)

text \<open>The text of an id parses to the id, so an account read back from its row is the user of that row.\<close>

lemma show_nat_ParseInt: "int n < 2 ^ 63 \<Longrightarrow> ParseInt (show_nat n) = Inr (int n)"
proof -
  assume n: "int n < 2 ^ 63"
  have ne: "show_nat n \<noteq> []" by (subst show_nat.simps) simp
  have d: "list_all is_digit (show_nat n)" using show_nat_digits [of n] by (auto simp: list_all_iff)
  obtain c cs where cs: "show_nat n = c # cs" using ne by (cases "show_nat n") auto
  have "is_digit c" using d cs by simp
  then have "c \<noteq> CHR ''-''" "c \<noteq> CHR ''+''" by (auto simp: is_digit_def)
  then show ?thesis using d n digits_value_show [of n] by (simp add: ParseInt_def cs)
qed

lemma account_of_user:
  assumes "int (us_id u) < 2 ^ 63" and "us_role u \<in> {''admin'', ''operator'', ''viewer''}" and "us_email u \<noteq> []"
  shows "userFromAccount (account_of u) = Inr \<lparr> u_ID = int (us_id u), u_Email = us_email u, u_Role = us_role u \<rparr>"
  using assms by (auto simp: userFromAccount_def account_of_def show_nat_ParseInt)

section \<open>Operations on accounts\<close>

datatype account_op =
    OpSetup bool time string string string string
  | OpCreateUser time string string string string Entry
  | OpSetRole time nat string Entry
  | OpReset time nat string Entry
  | OpRevokeSessions time nat Entry
  | OpChange time nat string string string Entry
  | OpLogout time string Entry
  | OpBootstrap string time

definition answered :: "db \<times> (err + 'a) \<Rightarrow> db \<times> (err + unit)" where
  "answered r = (fst r, map_sum id (\<lambda>_. ()) (snd r))"

fun account_step :: "coreauth \<Rightarrow> account_op \<Rightarrow> db \<Rightarrow> db \<times> (err + unit)" where
  "account_step core (OpSetup required now u e p t) d = answered (Setup core required now u e p t d)"
| "account_step core (OpCreateUser now u e p r en) d = answered (CreateUser core now u e p r en d)"
| "account_step core (OpSetRole now i r en) d = answered (SetRole core now i r en d)"
| "account_step core (OpReset now i p en) d = answered (ResetPassword core now i p en d)"
| "account_step core (OpRevokeSessions now i en) d = answered (RevokeSessions now i en d)"
| "account_step core (OpChange now i c p k en) d = answered (ChangePassword core now i c p k en d)"
| "account_step core (OpLogout now t en) d = answered (Logout now t en d)"
| "account_step core (OpBootstrap raw expires) d = answered (SetBootstrapToken raw expires d)"

definition has_admin :: "db \<Rightarrow> bool" where
  "has_admin d = list_ex (\<lambda>u. us_role u = ''admin'') (users d)"

text \<open>What an operation may do to the users table: nothing, a password, a further user, or a role that leaves an administrator.\<close>

definition keeps_users :: "db \<Rightarrow> db \<Rightarrow> bool" where
  "keeps_users d d' \<longleftrightarrow> (constraints d \<longrightarrow> constraints d') \<and> (users d \<noteq> [] \<longrightarrow> users d' \<noteq> []) \<and> (has_admin d \<longrightarrow> has_admin d')"

lemma keeps_users_same: "constraints d' \<Longrightarrow> users d' = users d \<Longrightarrow> keeps_users d d'"
  by (simp add: keeps_users_def has_admin_def)

lemma keeps_users_refl: "keeps_users d d"
  by (simp add: keeps_users_def)

lemma keeps_users_add: "constraints d' \<Longrightarrow> users d' = users d @ us \<Longrightarrow> keeps_users d d'"
  by (auto simp: keeps_users_def has_admin_def)

lemma keeps_users_passwords:
  "constraints d' \<Longrightarrow> users d' = upd_where hit (\<lambda>u. u\<lparr> us_password := h \<rparr>) (users d) \<Longrightarrow> keeps_users d d'"
proof -
  assume c: "constraints d'" and u: "users d' = upd_where hit (\<lambda>u. u\<lparr> us_password := h \<rparr>) (users d)"
  have "map us_role (users d') = map us_role (users d)" by (simp add: u)
  then have "us_role ` set (users d') = us_role ` set (users d)" by (metis list.set_map)
  moreover have "has_admin x \<longleftrightarrow> ''admin'' \<in> us_role ` set (users x)" for x unfolding has_admin_def list_ex_iff by force
  ultimately show ?thesis using c u by (auto simp: keeps_users_def)
qed

lemma with_tx_keeps:
  assumes "\<And>d' x. body d = Inr (d', x) \<Longrightarrow> keeps_users d d'"
  shows "keeps_users d (fst (with_tx body d))"
  using assms by (auto simp: with_tx_def keeps_users_refl split: sum.splits)

lemma audited_tx_keeps:
  assumes "\<And>d1 x. body d = Inr (d1, x) \<Longrightarrow> constraints d1 \<and> keeps_users d d1"
  shows "keeps_users d (fst (audited_tx now e body d))"
proof (cases "audited_tx now e body d")
  case (Pair d' r)
  show ?thesis
  proof (cases r)
    case (Inl x)
    then show ?thesis using Pair audited_tx_Inl [of now e body d d' x] by (simp add: keeps_users_refl)
  next
    case (Inr x)
    then obtain d1 where "body d = Inr (d1, x)" "constraints d'" "users d' = users d1"
      using Pair by (auto simp: audited_tx_Inr Insert_eq_Inr)
    then show ?thesis using assms Pair by (auto simp: keeps_users_def has_admin_def)
  qed
qed

lemma exec_users: "exec (\<lambda>d. d\<lparr> users := f d \<rparr>) d = Inr d' \<Longrightarrow> users d' = f d \<and> constraints d'"
  by (auto simp: exec_eq_Inr)

lemma consume_bootstrap_users: "consume_bootstrap required now token d = Inr d' \<Longrightarrow> users d' = users d"
  by (auto simp: consume_bootstrap_def Let_def bindE_eq_Inr exec_eq_Inr split: if_splits)

lemma Setup_keeps: "keeps_users d (fst (Setup core required now u e p t d))"
  by (auto simp: Setup_def Let_def keeps_users_refl bindE_eq_Inr Insert_eq_Inr dest!: exec_users consume_bootstrap_users
      intro!: with_tx_keeps keeps_users_add split: sum.splits)

lemma CreateUser_keeps: "keeps_users d (fst (CreateUser core now u e p r en d))"
  by (auto simp: CreateUser_def Let_def keeps_users_refl bindE_eq_Inr Insert_eq_Inr dest!: exec_users
      intro!: with_tx_keeps keeps_users_add split: sum.splits)

lemma count_where_mono: "(\<And>x. x \<in> set xs \<Longrightarrow> P x \<Longrightarrow> Q x) \<Longrightarrow> count_where P xs \<le> count_where Q xs"
  by (induction xs) (auto simp: le_SucI)

text \<open>The guard of \<open>SetRole\<close>: taking the role from an administrator leaves another one.\<close>

lemma role_leaves_admin:
  assumes "distinct (map us_id us)" and "find (\<lambda>u. us_id u = i) us = Some u" and "list_ex (\<lambda>u. us_role u = ''admin'') us"
    and "\<not> (us_role u = ''admin'' \<and> role \<noteq> ''admin'' \<and> count_where (\<lambda>u. us_role u = ''admin'') us \<le> 1)"
  shows "list_ex (\<lambda>u. us_role u = ''admin'') (upd_where (\<lambda>u. us_id u = i) (\<lambda>u. u\<lparr> us_role := role \<rparr>) us)"
proof -
  have u: "u \<in> set us" "us_id u = i" using find_set [OF assms(2)] by auto
  have uniq: "us_id v \<noteq> i" if "v \<in> set us" "v \<noteq> u" for v
    using assms(1) u that by (auto simp: distinct_map inj_on_def)
  have keep: ?thesis if "v \<in> set us" "us_role v = ''admin''" "v \<noteq> u" for v
  proof -
    have "v \<in> set (upd_where (\<lambda>u. us_id u = i) (\<lambda>u. u\<lparr> us_role := role \<rparr>) us)" using that uniq [OF that(1,3)] by (force simp: set_upd_where)
    then show ?thesis using that(2) unfolding list_ex_iff by blast
  qed
  show ?thesis
  proof (cases "role = ''admin''")
    case True
    have "u\<lparr> us_role := role \<rparr> \<in> set (upd_where (\<lambda>u. us_id u = i) (\<lambda>u. u\<lparr> us_role := role \<rparr>) us)" using u by (force simp: set_upd_where)
    then show ?thesis using True unfolding list_ex_iff by force
  next
    case False
    obtain v where v: "v \<in> set us" "us_role v = ''admin''" using assms(3) by (auto simp: list_ex_iff)
    show ?thesis
    proof (cases "v = u")
      case True
      then have n: "1 < count_where (\<lambda>u. us_role u = ''admin'') us" using assms(4) False v by auto
      have "\<exists>w \<in> set us. us_role w = ''admin'' \<and> w \<noteq> u"
      proof (rule ccontr)
        assume none: "\<not> (\<exists>w \<in> set us. us_role w = ''admin'' \<and> w \<noteq> u)"
        have "count_where (\<lambda>x. us_role x = ''admin'') us \<le> count_where (\<lambda>x. x = u) us"
          using none by (intro count_where_mono) blast
        also have "\<dots> \<le> 1" using count_where_key_le [of us_id us "\<lambda>x. x = u" i] assms(1) u by auto
        finally show False using n by simp
      qed
      then show ?thesis using keep by blast
    next
      case False
      then show ?thesis using keep v by blast
    qed
  qed
qed

lemma distinct_users: "constraints d \<Longrightarrow> distinct (map us_id (users d))"
  by (simp add: constraints_def keys_ok_def)

lemma SetRole_keeps: "constraints d \<Longrightarrow> keeps_users d (fst (SetRole core now i role en d))"
proof -
  assume c: "constraints d"
  let ?body = "\<lambda>d. case find (\<lambda>u. us_id u = i) (users d) of None \<Rightarrow> Inl ErrNoRows
        | Some u \<Rightarrow>
            bindE (ensure (\<not> (us_role u = ''admin'' \<and> role \<noteq> ''admin'' \<and> count_where (\<lambda>u. us_role u = ''admin'') (users d) \<le> 1))
              (Err ''cannot demote the last administrator'')) (\<lambda>_.
            bindE (exec (\<lambda>d. d\<lparr> users := upd_where (\<lambda>u. us_id u = i) (\<lambda>u. u\<lparr> us_role := role \<rparr>) (users d) \<rparr>) d) (\<lambda>d'.
            bindE (ensure (count_where (\<lambda>u. us_id u = i) (users d) = 1) ErrNoRows) (\<lambda>_. Inr (d', ()))))"
  have "keeps_users d (fst (audited_tx now (about_user i en) ?body d))"
  proof (rule audited_tx_keeps)
    fix d1 x assume b: "?body d = Inr (d1, x)"
    then obtain u where u: "find (\<lambda>u. us_id u = i) (users d) = Some u"
      "\<not> (us_role u = ''admin'' \<and> role \<noteq> ''admin'' \<and> count_where (\<lambda>u. us_role u = ''admin'') (users d) \<le> 1)"
      "users d1 = upd_where (\<lambda>u. us_id u = i) (\<lambda>u. u\<lparr> us_role := role \<rparr>) (users d)" "constraints d1"
      by (auto simp: bindE_eq_Inr dest!: exec_users split: option.splits)
    have "users d1 \<noteq> []" using find_set [OF u(1)] by (auto simp: u(3) upd_where_def)
    then show "constraints d1 \<and> keeps_users d d1"
      using role_leaves_admin [OF distinct_users [OF c] u(1) _ u(2)] u(3,4) by (auto simp: keeps_users_def has_admin_def)
  qed
  then show ?thesis by (simp add: SetRole_def keeps_users_refl)
qed

lemma password_body:
  "exec (set_password i h) d = Inr d' \<Longrightarrow> users d' = upd_where (\<lambda>u. us_id u = i) (\<lambda>u. u\<lparr> us_password := h \<rparr>) (users d) \<and> constraints d' \<and> sessions d' = sessions d"
  by (auto simp: exec_eq_Inr set_password_def)

lemma sessions_body: "exec (del_sessions P) d = Inr d' \<Longrightarrow> users d' = users d \<and> constraints d' \<and> sessions d' = del_where P (sessions d)"
  by (auto simp: exec_eq_Inr del_sessions_def)

lemma keeps_users_trans: "constraints d' \<Longrightarrow> keeps_users d d' \<Longrightarrow> keeps_users d' d'' \<Longrightarrow> keeps_users d d''"
  by (auto simp: keeps_users_def)

lemma password_keeps: "exec (set_password i h) d = Inr d' \<Longrightarrow> constraints d' \<and> keeps_users d d'"
  using password_body keeps_users_passwords by blast

lemma sessions_keeps: "exec (del_sessions P) d = Inr d' \<Longrightarrow> constraints d' \<and> keeps_users d d'"
  using sessions_body keeps_users_same by blast

lemma ResetPassword_keeps: "keeps_users d (fst (ResetPassword core now i p en d))"
  by (auto simp: ResetPassword_def keeps_users_refl bindE_eq_Inr dest!: password_keeps sessions_keeps
      intro!: audited_tx_keeps intro: keeps_users_trans split: sum.splits)

lemma ChangePassword_keeps: "keeps_users d (fst (ChangePassword core now i c p k en d))"
  by (auto simp: ChangePassword_def keeps_users_refl bindE_eq_Inr dest!: password_keeps sessions_keeps
      intro!: audited_tx_keeps intro: keeps_users_trans split: sum.splits option.splits)

lemma RevokeSessions_keeps: "keeps_users d (fst (RevokeSessions now i en d))"
  by (auto simp: RevokeSessions_def bindE_eq_Inr dest!: sessions_keeps intro!: audited_tx_keeps)

lemma Logout_keeps: "keeps_users d (fst (Logout now t en d))"
  by (auto simp: Logout_def bindE_eq_Inr dest!: sessions_keeps intro!: audited_tx_keeps)

lemma SetBootstrapToken_keeps: "keeps_users d (fst (SetBootstrapToken raw expires d))"
  by (auto simp: SetBootstrapToken_def Let_def keeps_users_refl exec_eq_Inr intro!: keeps_users_same split: sum.splits)

lemmas account_keeps = Setup_keeps CreateUser_keeps SetRole_keeps ResetPassword_keeps ChangePassword_keeps RevokeSessions_keeps Logout_keeps SetBootstrapToken_keeps

lemma account_step_keeps: "constraints d \<Longrightarrow> keeps_users d (fst (account_step core x d))"
  by (cases x) (simp_all add: answered_def account_keeps)

interpretation accounts: machine "account_step core" "\<lambda>d. constraints d \<and> has_admin d" for core
  using account_step_keeps by unfold_locales (auto simp: keeps_users_def)

text \<open>Setup as a single-use operation.\<close>

fun set_up :: "account_op \<Rightarrow> unit \<Rightarrow> unit set" where
  "set_up (OpSetup required now u e p t) _ = {()}"
| "set_up _ _ = {}"

lemma Setup_Inr: "Setup core required now u e p t d = (d', Inr x) \<Longrightarrow> users d = [] \<and> users d' \<noteq> []"
  by (auto simp: Setup_def Let_def with_tx_commit bindE_eq_Inr Insert_eq_Inr dest!: reloaded_Inr exec_users split: if_splits sum.splits)

interpretation first_run: single_use "account_step core" constraints "\<lambda>_. True" set_up "\<lambda>_ d. users d \<noteq> []" for core
proof unfold_locales
  fix s x s' r assume "constraints s" "account_step core x s = (s', r)"
  then show "constraints s'" using account_step_keeps [of s core x] by (simp add: keeps_users_def)
next
  fix s x s' and y k :: unit assume "account_step core x s = (s', Inr y)" "k \<in> set_up x y"
  then obtain required now u e p t z where "Setup core required now u e p t s = (s', Inr z)"
    by (cases x) (auto simp: answered_def prod_eq_iff map_sum_def split: sum.splits)
  then show "\<not> users s \<noteq> [] \<and> users s' \<noteq> []" using Setup_Inr by blast
next
  fix s x s' r assume "constraints s" "account_step core x s = (s', r)" "users s \<noteq> []"
  then show "users s' \<noteq> []" using account_step_keeps [of s core x] by (simp add: keeps_users_def)
qed

section \<open>Sessions after a password change\<close>

lemma session_Authenticate_Inr:
  "session_Authenticate now token d = Inr s \<Longrightarrow> \<exists>row \<in> set (sessions d). se_token row = sha256 token \<and> u_ID (sn_User s) = int (se_user row)"
  by (auto simp: session_Authenticate_def dest!: find_set split: if_splits option.splits)

lemma ResetPassword_Inr: "ResetPassword core now i p e d = (d', Inr u) \<Longrightarrow> \<forall>row \<in> set (sessions d'). se_user row \<noteq> i"
  by (auto simp: ResetPassword_def audited_tx_Inr bindE_eq_Inr Insert_eq_Inr dest!: reloaded_Inr sessions_body split: if_splits sum.splits)

lemma ChangePassword_Inr: "ChangePassword core now i c p keep e d = (d', Inr u) \<Longrightarrow> \<forall>row \<in> set (sessions d'). se_user row = i \<longrightarrow> se_token row = sha256 keep"
  by (auto simp: ChangePassword_def audited_tx_Inr bindE_eq_Inr Insert_eq_Inr dest!: reloaded_Inr sessions_body password_body split: if_splits sum.splits option.splits)

section \<open>Throttling\<close>

type_synonym attempt = "time \<times> string option \<times> string option \<times> string \<times> string \<times> Entry"

fun login_step :: "coreauth \<Rightarrow> attempt \<Rightarrow> Manager \<Rightarrow> Manager \<times> (err + Session)" where
  "login_step core (now, r1, r2, email, password, e) m = Login core now r1 r2 email password e m"

definition failures_of :: "string \<Rightarrow> Manager \<Rightarrow> time list" where
  "failures_of key m = (case mg_failures m key of None \<Rightarrow> [] | Some ts \<Rightarrow> ts)"

text \<open>An attempt for a key whose password is not accepted, made within the window that starts at \<open>start\<close>.\<close>

definition guess :: "coreauth \<Rightarrow> time \<Rightarrow> string \<Rightarrow> attempt \<Rightarrow> bool" where
  "guess core start key x = (case x of (now, r1, r2, email, password, e) \<Rightarrow>
     ToLower (TrimSpace email) = key \<and> start \<le> now \<and> now < start + 5 * minute \<and> (\<forall>as. ca_authenticate core as email password = None))"

definition wrong :: "err + Session \<Rightarrow> bool" where
  "wrong r = (r = Inl (Err ''invalid credentials''))"

lemma guess_step:
  assumes "guess core start key x" and "list_all (\<lambda>t. start \<le> t) (failures_of key m)" and "\<And>as. ca_reload core as \<noteq> Inl (Err ''invalid credentials'')"
    and "login_step core x m = (m', r)"
  shows "list_all (\<lambda>t. start \<le> t) (failures_of key m') \<and> isl r \<and>
    (if wrong r then length (failures_of key m) < 5 \<and> length (failures_of key m') = Suc (length (failures_of key m))
     else length (failures_of key m') = length (failures_of key m))"
proof -
  obtain now r1 r2 email password e where x: "x = (now, r1, r2, email, password, e)" by (cases x) auto
  have g: "ToLower (TrimSpace email) = key" "start \<le> now" "now < start + 5 * minute" "\<And>as. ca_authenticate core as email password = None"
    using assms(1) x by (simp_all add: guess_def)
  have kept: "filter (\<lambda>t. t > now - 5 * minute) (failures_of key m) = failures_of key m"
    using assms(2) g(3) by (auto simp: filter_id_conv list_all_iff)
  have a: "login_allow now key m = (m\<lparr> mg_failures := (mg_failures m)(key \<mapsto> failures_of key m) \<rparr>, length (failures_of key m) < 5)"
    using kept by (simp add: login_allow_def failures_of_def Let_def)
  have reload: "Reload core (mg_db m) \<noteq> Inl (Err ''invalid credentials'')"
    using assms(3) by (auto simp: Reload_def LoadAccounts_def query_def bindE_eq_Inl)
  show ?thesis
  proof (cases "Reload core (mg_db m)")
    case (Inl y)
    then show ?thesis using assms(2,4) reload x by (auto simp: Login_def wrong_def)
  next
    case (Inr accounts)
    then show ?thesis
      using assms(2,4) g a x by (cases "length (failures_of key m) < 5") (auto simp: Login_def Let_def failed_def failures_of_def wrong_def)
  qed
qed

lemma guesses_bounded:
  assumes "list_all (guess core start key) xs" and "list_all (\<lambda>t. start \<le> t) (failures_of key m)" and "\<And>as. ca_reload core as \<noteq> Inl (Err ''invalid credentials'')"
    and "length (failures_of key m) \<le> 5"
  shows "length (failures_of key m) + count_where wrong (snd (run (login_step core) xs m)) \<le> 5 \<and> list_all isl (snd (run (login_step core) xs m))"
  using assms(1,2,4)
proof (induction xs arbitrary: m)
  case (Cons x xs)
  obtain m' r where st: "login_step core x m = (m', r)" by fastforce
  have one: "list_all (\<lambda>t. start \<le> t) (failures_of key m') \<and> isl r \<and>
    (if wrong r then length (failures_of key m) < 5 \<and> length (failures_of key m') = Suc (length (failures_of key m))
     else length (failures_of key m') = length (failures_of key m))"
    using Cons.prems by (intro guess_step [OF _ _ assms(3) st, of start key]) simp_all
  then have "length (failures_of key m') \<le> 5" using Cons.prems(3) by (auto split: if_splits)
  then have "length (failures_of key m') + count_where wrong (snd (run (login_step core) xs m')) \<le> 5 \<and> list_all isl (snd (run (login_step core) xs m'))"
    using Cons one by (intro Cons.IH) simp_all
  then show ?case using st one by (auto simp: case_prod_beta split: if_splits)
qed simp

section \<open>An installation to evaluate\<close>

definition sample_coreauth :: coreauth where
  "sample_coreauth = \<lparr> ca_hash = (\<lambda>p. Inr (''#'' @ p)), ca_verify = (\<lambda>h p. h = ''#'' @ p), ca_reload = (\<lambda>_. Inr ()),
     ca_authenticate = (\<lambda>as e p. find (\<lambda>a. list_ex (\<lambda>i. id_Email i = e \<and> id_PasswordHash i = ''#'' @ p) (ac_Identities a)) as) \<rparr>"

definition sample_accounts :: db where
  "sample_accounts = empty_db\<lparr> users := [\<lparr> us_id = 1, us_username = ''root'', us_email = ''r@x'', us_password = ''#secret1'', us_role = ''admin'', us_created = 0 \<rparr>],
     sessions := [\<lparr> se_token = sha256 ''t'', se_user = 1, se_csrf = ''c'', se_expires = hour \<rparr>] \<rparr>"

definition sample_actor :: Entry where
  "sample_actor = \<lparr> en_ActorID = 1, en_Action = ''user'', en_ObjectType = [], en_ObjectID = [], en_Detail = [] \<rparr>"

lemma sample_accounts_ok: "constraints sample_accounts" "has_admin sample_accounts"
  by (simp_all add: sample_accounts_def empty_db_def constraint_defs has_admin_def nocase_def)

lemma sample_reset: "\<exists>d'. ResetPassword sample_coreauth 5 1 ''secret2'' sample_actor sample_accounts = (d', Inr ())"
  by (simp add: ResetPassword_def sample_coreauth_def sample_accounts_def sample_actor_def empty_db_def MinimumPasswordLength_def reloaded_def Reload_def LoadAccounts_def
      audited_tx_def with_tx_def Insert_def audit_row_of_def exec_def set_password_def del_sessions_def about_user_def constraint_defs nocase_def next_id_def ids_max_def)

section \<open>Properties\<close>

text \<open>
  C16: an installation that has an administrator never loses its last one, whatever sequence of account operations is made and whatever the account
  model of gantry-core answers.
\<close>

theorem administrator_never_lost:
  assumes "constraints d" and "has_admin d"
  shows "has_admin (fst (run (account_step core) xs d))"
  using accounts.run_inv [of d core xs] assms by simp

theorem administrator_never_lost_witness:
  "has_admin (fst (run (account_step sample_coreauth) [OpSetRole 1 1 ''viewer'' sample_actor, OpCreateUser 2 ''b'' ''b@x'' ''secret2'' ''admin'' sample_actor,
     OpSetRole 3 1 ''viewer'' sample_actor, OpSetRole 4 2 ''viewer'' sample_actor] sample_accounts))"
  by (rule administrator_never_lost [OF sample_accounts_ok])

text \<open>
  The first-run setup succeeds at most once in the life of an installation, however often and with whatever bootstrap tokens it is tried.
\<close>

theorem setup_succeeds_once:
  assumes "constraints d"
  shows "redemptions set_up () xs (snd (run (account_step core) xs d)) \<le> 1"
  using assms by (intro first_run.run_once) (simp_all add: list_all_iff)

theorem setup_succeeds_once_witness:
  "let xs = [OpSetup False 1 ''a'' ''a@x'' ''secret1'' [], OpSetup False 2 ''b'' ''b@x'' ''secret2'' []]
   in redemptions set_up () xs (snd (run (account_step sample_coreauth) xs empty_db)) \<le> 1"
  unfolding Let_def by (rule setup_succeeds_once) simp

text \<open>
  After an administrator resets a password no session of that user authenticates any more, and after a user changes the password only the session
  that made the change does.
\<close>

theorem password_change_revokes_sessions:
  "(ResetPassword core now i p e d = (d', Inr ()) \<longrightarrow> session_Authenticate t token d' = Inr s \<longrightarrow> u_ID (sn_User s) \<noteq> int i) \<and>
   (ChangePassword core now i c p keep e d = (d', Inr ()) \<longrightarrow> session_Authenticate t token d' = Inr s \<longrightarrow> u_ID (sn_User s) = int i \<longrightarrow> sha256 token = sha256 keep)"
proof (intro conjI impI)
  assume "ResetPassword core now i p e d = (d', Inr ())" and s: "session_Authenticate t token d' = Inr s"
  then show "u_ID (sn_User s) \<noteq> int i" using ResetPassword_Inr session_Authenticate_Inr [OF s] by fastforce
next
  assume c: "ChangePassword core now i c p keep e d = (d', Inr ())" and s: "session_Authenticate t token d' = Inr s" and i: "u_ID (sn_User s) = int i"
  obtain row where row: "row \<in> set (sessions d')" "se_token row = sha256 token" "u_ID (sn_User s) = int (se_user row)"
    using session_Authenticate_Inr [OF s] by blast
  then show "sha256 token = sha256 keep" using ChangePassword_Inr [OF c] i by auto
qed

theorem password_change_revokes_sessions_witness:
  "\<exists>d'. ResetPassword sample_coreauth 5 1 ''secret2'' sample_actor sample_accounts = (d', Inr ()) \<and>
     (\<forall>s. session_Authenticate 6 ''t'' d' = Inr s \<longrightarrow> u_ID (sn_User s) \<noteq> int 1)"
proof -
  obtain d' where "ResetPassword sample_coreauth 5 1 ''secret2'' sample_actor sample_accounts = (d', Inr ())" using sample_reset by blast
  then show ?thesis
    using password_change_revokes_sessions [where core = sample_coreauth and i = 1 and now = 5 and p = "''secret2''" and e = sample_actor and d = sample_accounts] by blast
qed



end
