(* ===== verification/Retention.thy ===== *)
theory Retention
  imports Cleanup Rules Texts
begin

text \<open>
  History queries (\<open>internal/history/history.go\<close>) and the retention pass (\<open>internal/retention/retention.go\<close>): the policy, one bounded
  delete per category in the order of the code, the repeated batches of the observation category, and the pass as a whole, which stops at the
  first failing category and keeps what the categories before it deleted. Cutoffs are compared with the stored texts, so a row is
  old when its text is smaller than the text of the cutoff. The checkpoint of the write-ahead log changes no row.
\<close>

section \<open>History\<close>

record Point =
  pn_ObservedAt :: time
  pn_Value :: "f64 option"
  pn_Unit :: string
  pn_Quality :: string

record SurveySeries =
  ss_PostID :: id
  ss_Signal :: string
  ss_Points :: "Point list"

definition point_of :: "observation_row \<Rightarrow> Point" where
  "point_of o' = \<lparr> pn_ObservedAt = ob_observed o', pn_Value = ob_value o', pn_Unit = ob_unit o', pn_Quality = ob_quality o' \<rparr>"

definition Series :: "id \<Rightarrow> string \<Rightarrow> time \<Rightarrow> time \<Rightarrow> int \<Rightarrow> db \<Rightarrow> err + Point list" where
  "Series post signal from' to limit d =
     (if limit < 1 \<or> limit > 10000 \<or> \<not> from' < to \<or> to - from' > 31 * 24 * hour then Inl (Err ''invalid history window'')
      else let signals = signal # (case map_of LegacySignalAliases signal of None \<Rightarrow> [] | Some c \<Rightarrow> [c])
           in query (\<lambda>d. map point_of (take (nat limit) (sort_key (\<lambda>o'. text_key (ob_observed o'))
                (filter (\<lambda>o'. ob_post o' = post \<and> ob_signal o' \<in> set signals \<and> text_le from' (ob_observed o') \<and> text_le (ob_observed o') to) (observations d))))) d)"

definition survey_signals :: "string list" where
  "survey_signals = [''cpu.percent'', ''memory.percent'', ''disk.percent'']"

definition newest :: "nat \<Rightarrow> observation_row list \<Rightarrow> observation_row list" where
  "newest n os = rev (take n (rev (sort_key (\<lambda>o'. text_key (ob_observed o')) os)))"

definition Survey :: "time \<Rightarrow> int \<Rightarrow> db \<Rightarrow> err + SurveySeries list" where
  "Survey from' pointsPerSeries d =
     (if pointsPerSeries < 2 \<or> pointsPerSeries > 120 then Inl (Err ''invalid survey limit'')
      else query (\<lambda>d. let rows = filter (\<lambda>o'. text_le from' (ob_observed o') \<and> ob_signal o' \<in> set survey_signals) (observations d)
        in map (\<lambda>(p, s). \<lparr> ss_PostID = p, ss_Signal = s,
              ss_Points = map point_of (newest (nat pointsPerSeries) (filter (\<lambda>o'. ob_post o' = p \<and> ob_signal o' = s) rows)) \<rparr>)
            (sort (remdups (map (\<lambda>o'. (ob_post o', ob_signal o')) rows)))) d)"

section \<open>Bounded deletes\<close>

text \<open>\<open>WHERE k IN (SELECT k .. WHERE P ORDER BY k LIMIT n)\<close>: the keys a statement selects.\<close>

definition doomed :: "('a \<Rightarrow> 'k::linorder) \<Rightarrow> ('a \<Rightarrow> bool) \<Rightarrow> nat \<Rightarrow> 'a list \<Rightarrow> 'k list" where
  "doomed key P n xs = take n (sort (map key (filter P xs)))"

definition selected :: "('a \<Rightarrow> 'k::linorder) \<Rightarrow> ('a \<Rightarrow> bool) \<Rightarrow> nat \<Rightarrow> 'a list \<Rightarrow> 'a \<Rightarrow> bool" where
  "selected key P n xs x = (key x \<in> set (doomed key P n xs))"

text \<open>Rowid order is the order of the list.\<close>

fun del_first :: "nat \<Rightarrow> ('a \<Rightarrow> bool) \<Rightarrow> 'a list \<Rightarrow> 'a list" where
  "del_first n P [] = []"
| "del_first n P (x # xs) = (if P x \<and> 0 < n then del_first (n - 1) P xs else x # del_first n P xs)"

definition deleteBounded :: "(db \<Rightarrow> db) \<Rightarrow> (db \<Rightarrow> nat) \<Rightarrow> db \<Rightarrow> err + (db \<times> nat)" where
  "deleteBounded f affected d = bindE (exec f d) (\<lambda>d'. Inr (d', affected d))"

definition Retain :: "time \<Rightarrow> int \<Rightarrow> db \<Rightarrow> err + (db \<times> nat)" where
  "Retain before batch d =
     (if batch < 1 \<or> batch > 10000 then Inl (Err ''invalid retention batch'')
      else let hit = selected ob_id (\<lambda>o'. text_less (ob_observed o') before) (nat batch)
           in deleteBounded (\<lambda>d. d\<lparr> observations := del_where (hit (observations d)) (observations d) \<rparr>) (\<lambda>d. count_where (hit (observations d)) (observations d)) d)"

definition maxPasses :: nat where
  "maxPasses = 250"

text \<open>\<open>bounded\<close> with the number of passes left; it stops early when a pass removes less than a batch. What earlier passes removed stays removed.\<close>

fun bounded :: "nat \<Rightarrow> int \<Rightarrow> (db \<Rightarrow> err + (db \<times> nat)) \<Rightarrow> nat \<Rightarrow> db \<Rightarrow> db \<times> (err + (nat \<times> bool))" where
  "bounded 0 batch prune n d = (d, Inr (n, True))"
| "bounded (Suc k) batch prune n d = (case prune d of
     Inl e \<Rightarrow> (d, Inl e)
   | Inr (d', removed) \<Rightarrow> if int removed < batch then (d', Inr (n + removed, False)) else bounded k batch prune (n + removed) d')"

section \<open>The pass\<close>

record Retention =
  rt_Observations :: int
  rt_CheckResults :: int
  rt_Logs :: int
  rt_Changes :: int
  rt_AlertsResolved :: int
  rt_Deliveries :: int
  rt_PairingTokens :: int
  rt_PairingRequests :: int
  rt_FederationInbox :: int
  rt_FederationOutbox :: int
  rt_Conversations :: int
  rt_Interval :: int
  rt_Batch :: int

definition effective_batch :: "Retention \<Rightarrow> int" where
  "effective_batch p = (if rt_Batch p < 1 then 1000 else rt_Batch p)"

record category =
  ct_name :: string
  ct_when :: int
  ct_always :: bool
  ct_prune :: "time \<Rightarrow> db \<Rightarrow> db \<times> (err + (nat \<times> bool))"

definition once :: "(time \<Rightarrow> db \<Rightarrow> err + (db \<times> nat)) \<Rightarrow> time \<Rightarrow> db \<Rightarrow> db \<times> (err + (nat \<times> bool))" where
  "once stmt cutoff d = (case stmt cutoff d of Inl e \<Rightarrow> (d, Inl e) | Inr (d', n) \<Rightarrow> (d', Inr (n, False)))"

definition old :: "(time option) \<Rightarrow> time \<Rightarrow> time \<Rightarrow> bool" where
  "old first second' cutoff = text_less (case first of None \<Rightarrow> second' | Some t \<Rightarrow> t) cutoff"

definition cited :: "string \<Rightarrow> nat \<Rightarrow> db \<Rightarrow> bool" where
  "cited kind i d = list_ex (\<lambda>e. ev_kind e = kind \<and> ev_evidence e = i) (conversation_evidence d)"

definition is_latest :: "alert_row \<Rightarrow> db \<Rightarrow> bool" where
  "is_latest a d = list_all (\<lambda>b. al_rule b = al_rule a \<and> al_post b = al_post a \<longrightarrow> al_id b \<le> al_id a) (alerts d)"

definition prunable_alert :: "time \<Rightarrow> db \<Rightarrow> alert_row \<Rightarrow> bool" where
  "prunable_alert cutoff d a \<longleftrightarrow>
     (al_state a \<in> {''pending'', ''firing'', ''acknowledged'', ''suppressed''} \<and> text_less (al_updated a) cutoff \<and> \<not> is_latest a d \<or>
      al_state a = ''resolved'' \<and> (case al_resolved a of None \<Rightarrow> False | Some t \<Rightarrow> text_less t cutoff)) \<and>
     \<not> list_ex (\<lambda>ia. snd ia = al_id a) (incident_alerts d) \<and> \<not> cited ''alert'' (al_id a) d"

definition orphan :: "time \<Rightarrow> conversation_row \<Rightarrow> bool" where
  "orphan cutoff c \<longleftrightarrow> cv_post c = None \<and> cv_incident c = None \<and> text_less (cv_created c) cutoff"

definition prune_sessions :: "nat \<Rightarrow> time \<Rightarrow> db \<Rightarrow> err + (db \<times> nat)" where
  "prune_sessions n cutoff = (let hit = selected se_token (\<lambda>s. text_less (se_expires s) cutoff) n in
     deleteBounded (\<lambda>d. d\<lparr> sessions := del_where (hit (sessions d)) (sessions d) \<rparr>) (\<lambda>d. count_where (hit (sessions d)) (sessions d)))"

definition prune_bootstrap :: "nat \<Rightarrow> time \<Rightarrow> db \<Rightarrow> err + (db \<times> nat)" where
  "prune_bootstrap n cutoff = (let hit = selected bt_hash (\<lambda>t. old (bt_consumed t) (bt_expires t) cutoff) n in
     deleteBounded (\<lambda>d. d\<lparr> bootstrap_tokens := del_where (hit (bootstrap_tokens d)) (bootstrap_tokens d) \<rparr>) (\<lambda>d. count_where (hit (bootstrap_tokens d)) (bootstrap_tokens d)))"

definition prune_check_results :: "nat \<Rightarrow> time \<Rightarrow> db \<Rightarrow> err + (db \<times> nat)" where
  "prune_check_results n cutoff = (let hit = selected cr_id (\<lambda>r. text_less (cr_checked r) cutoff) n in
     deleteBounded (\<lambda>d. d\<lparr> check_results := del_where (hit (check_results d)) (check_results d) \<rparr>) (\<lambda>d. count_where (hit (check_results d)) (check_results d)))"

definition prune_logs :: "nat \<Rightarrow> time \<Rightarrow> db \<Rightarrow> err + (db \<times> nat)" where
  "prune_logs n cutoff = (let hit = (\<lambda>d. selected lg_id (\<lambda>l. text_less (lg_observed l) cutoff \<and> \<not> cited ''log'' (lg_id l) d) n (logs d)) in
     deleteBounded (\<lambda>d. d\<lparr> logs := del_where (hit d) (logs d) \<rparr>) (\<lambda>d. count_where (hit d) (logs d)))"

definition prune_changes :: "nat \<Rightarrow> time \<Rightarrow> db \<Rightarrow> err + (db \<times> nat)" where
  "prune_changes n cutoff = (let hit = (\<lambda>d. selected ch_id (\<lambda>c. text_less (ch_occurred c) cutoff \<and> \<not> cited ''change'' (ch_id c) d) n (changes d)) in
     deleteBounded (\<lambda>d. d\<lparr> changes := del_where (hit d) (changes d) \<rparr>) (\<lambda>d. count_where (hit d) (changes d)))"

definition prune_alerts :: "nat \<Rightarrow> time \<Rightarrow> db \<Rightarrow> err + (db \<times> nat)" where
  "prune_alerts n cutoff = (let hit = (\<lambda>d. selected al_id (prunable_alert cutoff d) n (alerts d)) in
     deleteBounded (\<lambda>d. d\<lparr> alerts := del_where (hit d) (alerts d) \<rparr>) (\<lambda>d. count_where (hit d) (alerts d)))"

definition delivered_before :: "time \<Rightarrow> delivery_row \<Rightarrow> bool" where
  "delivered_before cutoff x \<longleftrightarrow> dl_state x = ''delivered'' \<and> (case dl_delivered x of None \<Rightarrow> False | Some t \<Rightarrow> text_less t cutoff)"

definition prune_deliveries :: "nat \<Rightarrow> time \<Rightarrow> db \<Rightarrow> err + (db \<times> nat)" where
  "prune_deliveries n cutoff = (let hit = selected dl_id (delivered_before cutoff) n in
     deleteBounded (\<lambda>d. d\<lparr> notification_deliveries := del_where (hit (notification_deliveries d)) (notification_deliveries d) \<rparr>)
       (\<lambda>d. count_where (hit (notification_deliveries d)) (notification_deliveries d)))"

definition prune_tokens :: "nat \<Rightarrow> time \<Rightarrow> db \<Rightarrow> err + (db \<times> nat)" where
  "prune_tokens n cutoff = (let hit = selected pt_hash (\<lambda>t. old (pt_used t) (pt_expires t) cutoff) n in
     deleteBounded (\<lambda>d. d\<lparr> pairing_tokens := del_where (hit (pairing_tokens d)) (pairing_tokens d) \<rparr>) (\<lambda>d. count_where (hit (pairing_tokens d)) (pairing_tokens d)))"

definition prune_requests :: "nat \<Rightarrow> time \<Rightarrow> db \<Rightarrow> err + (db \<times> nat)" where
  "prune_requests n cutoff = (let hit = selected pr_id (\<lambda>r. old (pr_terminal r) (pr_expires r) cutoff) n in
     deleteBounded (\<lambda>d. d\<lparr> pairing_requests := del_where (hit (pairing_requests d)) (pairing_requests d) \<rparr>) (\<lambda>d. count_where (hit (pairing_requests d)) (pairing_requests d)))"

definition prune_inbox :: "nat \<Rightarrow> time \<Rightarrow> db \<Rightarrow> err + (db \<times> nat)" where
  "prune_inbox n cutoff = (let hit = (\<lambda>x. text_less (ib_received x) cutoff) in
     deleteBounded (\<lambda>d. d\<lparr> federation_inbox := del_first n hit (federation_inbox d) \<rparr>) (\<lambda>d. min n (count_where hit (federation_inbox d))))"

definition prune_outbox :: "nat \<Rightarrow> time \<Rightarrow> db \<Rightarrow> err + (db \<times> nat)" where
  "prune_outbox n cutoff = (let hit = selected ox_id (\<lambda>x. case ox_delivered x of None \<Rightarrow> False | Some t \<Rightarrow> text_less t cutoff) n in
     deleteBounded (\<lambda>d. d\<lparr> federation_outbox := del_where (hit (federation_outbox d)) (federation_outbox d) \<rparr>) (\<lambda>d. count_where (hit (federation_outbox d)) (federation_outbox d)))"

definition prune_conversations :: "nat \<Rightarrow> time \<Rightarrow> db \<Rightarrow> err + (db \<times> nat)" where
  "prune_conversations n cutoff = (let hit = selected cv_id (orphan cutoff) n in
     deleteBounded (\<lambda>d. del_conversations (hit (conversations d)) d) (\<lambda>d. count_where (hit (conversations d)) (conversations d)))"

definition categories :: "Retention \<Rightarrow> category list" where
  "categories p = (let b = effective_batch p; n = nat b; cat = (\<lambda>name when prune. \<lparr> ct_name = name, ct_when = when, ct_always = False, ct_prune = prune \<rparr>) in
     [\<lparr> ct_name = ''sessions'', ct_when = 0, ct_always = True, ct_prune = once (prune_sessions n) \<rparr>,
      \<lparr> ct_name = ''bootstrap_tokens'', ct_when = 0, ct_always = True, ct_prune = once (prune_bootstrap n) \<rparr>,
      cat ''observations'' (rt_Observations p) (\<lambda>cutoff. bounded maxPasses b (Retain cutoff b) 0),
      cat ''check_results'' (rt_CheckResults p) (once (prune_check_results n)),
      cat ''logs'' (rt_Logs p) (once (prune_logs n)),
      cat ''changes'' (rt_Changes p) (once (prune_changes n)),
      cat ''alerts'' (rt_AlertsResolved p) (once (prune_alerts n)),
      cat ''notification_deliveries'' (rt_Deliveries p) (once (prune_deliveries n)),
      cat ''pairing_tokens'' (rt_PairingTokens p) (once (prune_tokens n)),
      cat ''pairing_requests'' (rt_PairingRequests p) (once (prune_requests n)),
      cat ''federation_inbox'' (rt_FederationInbox p) (once (prune_inbox n)),
      cat ''federation_outbox'' (rt_FederationOutbox p) (once (prune_outbox n)),
      cat ''conversations'' (rt_Conversations p) (once (prune_conversations n))])"

record Report =
  rp_Categories :: "(string \<times> nat) list"
  rp_Truncated :: "string list"

definition Total :: "Report \<Rightarrow> nat" where
  "Total r = sum_list (map snd (rp_Categories r))"

fun run_categories :: "time \<Rightarrow> category list \<Rightarrow> Report \<Rightarrow> db \<Rightarrow> db \<times> (err + Report)" where
  "run_categories now [] r d = (d, Inr r)"
| "run_categories now (c # cs) r d =
     (if ct_when c < 0 \<or> ct_when c = 0 \<and> \<not> ct_always c then run_categories now cs r d
      else case ct_prune c (now - ct_when c) d of
          (d', Inl e) \<Rightarrow> (d', Inl (Wrapped (''prune '' @ ct_name c) e))
        | (d', Inr (n, truncated)) \<Rightarrow> run_categories now cs
            \<lparr> rp_Categories = rp_Categories r @ [(ct_name c, n)], rp_Truncated = rp_Truncated r @ (if truncated then [ct_name c] else []) \<rparr> d')"

definition RunOnce :: "Retention \<Rightarrow> time \<Rightarrow> db \<Rightarrow> db \<times> (err + Report)" where
  "RunOnce p now d = run_categories now (categories p) \<lparr> rp_Categories = [], rp_Truncated = [] \<rparr> d"

section \<open>Single deletes as steps\<close>

text \<open>
  Every change a pass makes is one of these steps, so an invariant of the steps is an invariant of passes. A cutoff that belongs to a disabled
  category is never used: the steps of a category need its window to be positive.
\<close>

definition cutoff :: "(Retention \<Rightarrow> int) \<Rightarrow> Retention \<Rightarrow> time \<Rightarrow> time" where
  "cutoff window p now = now - window p"

inductive pruned :: "Retention \<Rightarrow> time \<Rightarrow> db \<Rightarrow> db \<Rightarrow> bool" for p :: Retention and now :: time where
  sessions: "pruned p now d (d\<lparr> sessions := del_where (selected se_token (\<lambda>s. text_less (se_expires s) now) n (sessions d)) (sessions d) \<rparr>)"
| bootstrap: "pruned p now d (d\<lparr> bootstrap_tokens := del_where (selected bt_hash (\<lambda>t. old (bt_consumed t) (bt_expires t) now) n (bootstrap_tokens d)) (bootstrap_tokens d) \<rparr>)"
| observations: "0 < rt_Observations p \<Longrightarrow> pruned p now d (d\<lparr> observations :=
    del_where (selected ob_id (\<lambda>o'. text_less (ob_observed o') (cutoff rt_Observations p now)) n (observations d)) (observations d) \<rparr>)"
| check_results: "0 < rt_CheckResults p \<Longrightarrow> pruned p now d (d\<lparr> check_results :=
    del_where (selected cr_id (\<lambda>r. text_less (cr_checked r) (cutoff rt_CheckResults p now)) n (check_results d)) (check_results d) \<rparr>)"
| logs: "0 < rt_Logs p \<Longrightarrow> pruned p now d (d\<lparr> logs :=
    del_where (selected lg_id (\<lambda>l. text_less (lg_observed l) (cutoff rt_Logs p now) \<and> \<not> cited ''log'' (lg_id l) d) n (logs d)) (logs d) \<rparr>)"
| changes: "0 < rt_Changes p \<Longrightarrow> pruned p now d (d\<lparr> changes :=
    del_where (selected ch_id (\<lambda>c. text_less (ch_occurred c) (cutoff rt_Changes p now) \<and> \<not> cited ''change'' (ch_id c) d) n (changes d)) (changes d) \<rparr>)"
| alerts: "0 < rt_AlertsResolved p \<Longrightarrow> pruned p now d (d\<lparr> alerts :=
    del_where (selected al_id (prunable_alert (cutoff rt_AlertsResolved p now) d) n (alerts d)) (alerts d) \<rparr>)"
| deliveries: "0 < rt_Deliveries p \<Longrightarrow> pruned p now d (d\<lparr> notification_deliveries :=
    del_where (selected dl_id (delivered_before (cutoff rt_Deliveries p now)) n (notification_deliveries d)) (notification_deliveries d) \<rparr>)"
| tokens: "0 < rt_PairingTokens p \<Longrightarrow> pruned p now d (d\<lparr> pairing_tokens :=
    del_where (selected pt_hash (\<lambda>t. old (pt_used t) (pt_expires t) (cutoff rt_PairingTokens p now)) n (pairing_tokens d)) (pairing_tokens d) \<rparr>)"
| requests: "0 < rt_PairingRequests p \<Longrightarrow> pruned p now d (d\<lparr> pairing_requests :=
    del_where (selected pr_id (\<lambda>r. old (pr_terminal r) (pr_expires r) (cutoff rt_PairingRequests p now)) n (pairing_requests d)) (pairing_requests d) \<rparr>)"
| inbox: "0 < rt_FederationInbox p \<Longrightarrow> pruned p now d (d\<lparr> federation_inbox := del_first n (\<lambda>x. text_less (ib_received x) (cutoff rt_FederationInbox p now)) (federation_inbox d) \<rparr>)"
| outbox: "0 < rt_FederationOutbox p \<Longrightarrow> pruned p now d (d\<lparr> federation_outbox :=
    del_where (selected ox_id (\<lambda>x. case ox_delivered x of None \<Rightarrow> False | Some t \<Rightarrow> text_less t (cutoff rt_FederationOutbox p now)) n (federation_outbox d)) (federation_outbox d) \<rparr>)"
| conversations: "0 < rt_Conversations p \<Longrightarrow> pruned p now d (del_conversations (selected cv_id (orphan (cutoff rt_Conversations p now)) n (conversations d)) d)"

text \<open>A statement is refused when it would break a constraint, so the steps of a pass keep the constraints.\<close>

definition legal_prune :: "Retention \<Rightarrow> time \<Rightarrow> db \<Rightarrow> db \<Rightarrow> bool" where
  "legal_prune p now d d' \<longleftrightarrow> pruned p now d d' \<and> constraints d'"

lemma once_effect:
  "fst (once (\<lambda>c. deleteBounded (f c) (g c)) t d) = d \<or> fst (once (\<lambda>c. deleteBounded (f c) (g c)) t d) = f t d \<and> constraints (f t d)"
  by (auto simp: once_def deleteBounded_def exec_def)

lemma Retain_Inr:
  "Retain t b d = Inr (d', n) \<Longrightarrow> d' = d\<lparr> observations := del_where (selected ob_id (\<lambda>o'. text_less (ob_observed o') t) (nat b) (observations d)) (observations d) \<rparr> \<and> constraints d'"
  by (auto simp: Retain_def deleteBounded_def Let_def bindE_eq_Inr exec_eq_Inr split: if_splits)

lemma bounded_steps:
  "0 < rt_Observations p \<Longrightarrow> (legal_prune p now)\<^sup>*\<^sup>* d (fst (bounded k b (Retain (cutoff rt_Observations p now) b) n d))"
proof (induction k arbitrary: n d)
  case (Suc k)
  show ?case
  proof (cases "Retain (cutoff rt_Observations p now) b d")
    case (Inr r)
    then obtain d' m where r: "Retain (cutoff rt_Observations p now) b d = Inr (d', m)" by (cases r) auto
    have one: "legal_prune p now d d'"
      using Retain_Inr [OF r] pruned.observations [OF Suc.prems, of now d "nat b"] unfolding legal_prune_def by metis
    show ?thesis using r one Suc by (auto intro: converse_rtranclp_into_rtranclp)
  qed simp
qed simp

lemmas prune_defs = prune_sessions_def prune_bootstrap_def prune_check_results_def prune_logs_def prune_changes_def prune_alerts_def prune_deliveries_def
  prune_tokens_def prune_requests_def prune_inbox_def prune_outbox_def prune_conversations_def

lemma once_step:
  assumes "\<And>d. pruned p now d (f t d)"
  shows "(legal_prune p now)\<^sup>*\<^sup>* d (fst (once (\<lambda>c. deleteBounded (f c) (g c)) t d))"
  using once_effect [of f g t d] assms [of d] by (auto simp: legal_prune_def)

lemma category_steps:
  assumes "c \<in> set (categories p)" and "\<not> (ct_when c < 0 \<or> ct_when c = 0 \<and> \<not> ct_always c)"
  shows "(legal_prune p now)\<^sup>*\<^sup>* d (fst (ct_prune c (now - ct_when c) d))"
  using assms unfolding categories_def Let_def prune_defs list.set
  by (elim insertE)
    (auto simp: cutoff_def [symmetric] intro!: once_step bounded_steps pruned.intros)

lemma run_categories_steps:
  "set cs \<subseteq> set (categories p) \<Longrightarrow> (legal_prune p now)\<^sup>*\<^sup>* d (fst (run_categories now cs r d))"
proof (induction cs arbitrary: r d)
  case (Cons c cs)
  show ?case
  proof (cases "ct_when c < 0 \<or> ct_when c = 0 \<and> \<not> ct_always c")
    case True
    then show ?thesis using Cons by simp
  next
    case False
    obtain d' x where x: "ct_prune c (now - ct_when c) d = (d', x)" by fastforce
    have one: "(legal_prune p now)\<^sup>*\<^sup>* d d'" using category_steps [OF _ False, of p now d] Cons.prems x by simp
    show ?thesis
      using False x one Cons.IH Cons.prems by (auto split: sum.splits prod.splits intro: rtranclp_trans)
  qed
qed simp

lemma RunOnce_steps: "(legal_prune p now)\<^sup>*\<^sup>* d (fst (RunOnce p now d))"
  unfolding RunOnce_def by (rule run_categories_steps) simp

section \<open>What a pass spares\<close>

definition attached_evidence :: "Retention \<Rightarrow> time \<Rightarrow> db \<Rightarrow> evidence_row \<Rightarrow> bool" where
  "attached_evidence p now d e \<longleftrightarrow> e \<in> set (conversation_evidence d) \<and>
     (\<exists>c \<in> set (conversations d). cv_id c = ev_conversation e \<and> \<not> orphan (cutoff rt_Conversations p now) c)"

definition held :: "Retention \<Rightarrow> time \<Rightarrow> db \<Rightarrow> string \<Rightarrow> nat \<Rightarrow> bool" where
  "held p now d kind i \<longleftrightarrow> (\<exists>e. attached_evidence p now d e \<and> ev_kind e = kind \<and> ev_evidence e = i)"

definition live_alert :: "Retention \<Rightarrow> time \<Rightarrow> db \<Rightarrow> alert_row \<Rightarrow> bool" where
  "live_alert p now d a \<longleftrightarrow> al_state a \<noteq> ''resolved'' \<and> is_latest a d \<or> list_ex (\<lambda>ia. snd ia = al_id a) (incident_alerts d) \<or> held p now d ''alert'' (al_id a)"

text \<open>The rows a pass must not touch, table by table, and the tables it must not touch at all.\<close>

definition spares :: "Retention \<Rightarrow> time \<Rightarrow> db \<Rightarrow> db \<Rightarrow> bool" where
  "spares p now d d' \<longleftrightarrow>
     (\<forall>s \<in> set (sessions d). \<not> text_less (se_expires s) now \<longrightarrow> s \<in> set (sessions d')) \<and>
     (\<forall>o' \<in> set (observations d). \<not> text_less (ob_observed o') (cutoff rt_Observations p now) \<longrightarrow> o' \<in> set (observations d')) \<and>
     (\<forall>l \<in> set (logs d). \<not> text_less (lg_observed l) (cutoff rt_Logs p now) \<or> held p now d ''log'' (lg_id l) \<longrightarrow> l \<in> set (logs d')) \<and>
     (\<forall>c \<in> set (changes d). \<not> text_less (ch_occurred c) (cutoff rt_Changes p now) \<or> held p now d ''change'' (ch_id c) \<longrightarrow> c \<in> set (changes d')) \<and>
     (\<forall>a \<in> set (alerts d). live_alert p now d a \<longrightarrow> a \<in> set (alerts d')) \<and>
     (\<forall>x \<in> set (notification_deliveries d). dl_state x \<noteq> ''delivered'' \<longrightarrow> x \<in> set (notification_deliveries d')) \<and>
     (\<forall>x \<in> set (federation_outbox d). ox_delivered x = None \<longrightarrow> x \<in> set (federation_outbox d')) \<and>
     (\<forall>c \<in> set (conversations d). \<not> orphan (cutoff rt_Conversations p now) c \<longrightarrow> c \<in> set (conversations d')) \<and>
     (posts d', post_dependencies d', rules d', users d', collector_keys d', incidents d', incident_alerts d', incident_timeline d', audit_log d') =
     (posts d, post_dependencies d, rules d, users d, collector_keys d, incidents d, incident_alerts d, incident_timeline d, audit_log d)"

lemma not_selected:
  assumes "distinct (map key xs)" and "x \<in> set xs" and "\<not> P x"
  shows "\<not> selected key P n xs x"
proof
  assume "selected key P n xs x"
  then have "key x \<in> set (sort (map key (filter P xs)))" using set_take_subset by (fastforce simp: selected_def doomed_def)
  then obtain y where "y \<in> set xs" "P y" "key y = key x" by auto
  then show False using assms by (metis distinct_map inj_onD)
qed

lemma selected_hit: "selected key P n xs x \<Longrightarrow> distinct (map key xs) \<Longrightarrow> x \<in> set xs \<Longrightarrow> P x"
  using not_selected [of key xs x P n] by blast

lemma evidence_spared:
  assumes "constraints d" and "attached_evidence p now d e"
  shows "attached_evidence p now (del_conversations (selected cv_id (orphan (cutoff rt_Conversations p now)) n (conversations d)) d) e"
proof -
  let ?sel = "selected cv_id (orphan (cutoff rt_Conversations p now)) n (conversations d)"
  obtain c where c: "c \<in> set (conversations d)" "cv_id c = ev_conversation e" "\<not> orphan (cutoff rt_Conversations p now) c" and e: "e \<in> set (conversation_evidence d)"
    using assms(2) by (auto simp: attached_evidence_def)
  have k: "distinct (map cv_id (conversations d))" using assms(1) by (simp add: constraints_def keys_ok_def)
  have stay: "\<not> ?sel c" using not_selected [OF k c(1), of "orphan (cutoff rt_Conversations p now)" n] c(3) by simp
  have "cv_id x \<noteq> ev_conversation e" if "x \<in> set (conversations d)" "?sel x" for x
  proof
    assume "cv_id x = ev_conversation e"
    then have "x = c" using k c(1,2) that(1) by (metis distinct_map inj_onD)
    then show False using stay that(2) by simp
  qed
  then show ?thesis using c e stay unfolding attached_evidence_def del_conversations_def Let_def by (auto dest!: sym [of "cv_id _" "ev_conversation e"])
qed

text \<open>One step, for rows that the start of the run protects: the protection itself survives every step.\<close>

definition protection :: "Retention \<Rightarrow> time \<Rightarrow> db \<Rightarrow> db \<Rightarrow> bool" where
  "protection p now d d' \<longleftrightarrow> constraints d' \<and> spares p now d d' \<and> (\<forall>e. attached_evidence p now d e \<longrightarrow> attached_evidence p now d' e) \<and>
     (\<forall>a. is_latest a d \<longrightarrow> is_latest a d')"

lemma attached_cited: "attached_evidence p now d e \<Longrightarrow> ev_kind e = kind \<Longrightarrow> ev_evidence e = i \<Longrightarrow> cited kind i d"
  by (auto simp: attached_evidence_def cited_def list_ex_iff)

lemma protection_held: "protection p now d d' \<Longrightarrow> held p now d kind i \<Longrightarrow> held p now d' kind i"
  by (auto simp: protection_def held_def)

lemma held_cited: "held p now d kind i \<Longrightarrow> cited kind i d"
  using attached_cited by (auto simp: held_def)

lemma live_not_prunable: "live_alert p now d a \<Longrightarrow> \<not> prunable_alert t d a"
  using held_cited by (auto simp: live_alert_def prunable_alert_def)

lemma protection_live: "protection p now d d' \<Longrightarrow> live_alert p now d a \<Longrightarrow> live_alert p now d' a"
  using protection_held [of p now d d'] by (auto simp: protection_def live_alert_def spares_def)

lemma protection_refl: "constraints d \<Longrightarrow> protection p now d d"
  by (auto simp: protection_def spares_def)

lemma protection_trans:
  assumes one: "protection p now d d'" and two: "protection p now d' d''"
  shows "protection p now d d''"
  using one two protection_held [OF one] protection_live [OF one] unfolding protection_def spares_def by auto

lemma protection_constraints: "protection p now d d' \<Longrightarrow> constraints d'"
  by (simp add: protection_def)

lemma is_latest_del: "is_latest a d \<Longrightarrow> is_latest a (d\<lparr> alerts := del_where P (alerts d) \<rparr>)"
  by (auto simp: is_latest_def list_all_iff)

lemma keys_distinct:
  assumes "constraints d"
  shows "distinct (map se_token (sessions d))" "distinct (map ob_id (observations d))" "distinct (map lg_id (logs d))" "distinct (map ch_id (changes d))"
    "distinct (map al_id (alerts d))" "distinct (map dl_id (notification_deliveries d))" "distinct (map ox_id (federation_outbox d))" "distinct (map cv_id (conversations d))"
  using assms by (simp_all add: constraints_def keys_ok_def)

lemma protection_step:
  assumes c: "constraints d" and s: "legal_prune p now d d'"
  shows "protection p now d d'"
proof -
  have c': "constraints d'" and s': "pruned p now d d'" using s by (auto simp: legal_prune_def)
  show ?thesis
    using s' c'
  proof cases
    case (conversations n)
    then show ?thesis using c' evidence_spared [OF c, of p now] keys_distinct(8) [OF c]
      by (auto simp: protection_def spares_def del_conversations_def Let_def is_latest_def dest!: selected_hit)
  qed (use c' keys_distinct [OF c] in \<open>auto simp: protection_def spares_def attached_evidence_def is_latest_del is_latest_def
      delivered_before_def dest: held_cited live_not_prunable dest!: selected_hit split: option.splits\<close>)
qed

lemma steps_protection: "(legal_prune p now)\<^sup>*\<^sup>* d d' \<Longrightarrow> constraints d \<Longrightarrow> protection p now d d'"
  by (induction rule: rtranclp_induct) (blast intro: protection_refl protection_trans protection_step protection_constraints)+

section \<open>What a pass removes\<close>

lemma selected_keys:
  "set (map key (filter (selected key P n xs) xs)) = set (doomed key P n xs)"
  using set_take_subset [of n "sort (map key (filter P xs))"] by (auto simp: selected_def doomed_def)

lemma count_selected:
  assumes "distinct (map key xs)"
  shows "count_where (selected key P n xs) xs = min n (count_where P xs)"
proof -
  have k: "distinct (map key (filter Q xs))" for Q using assms by (rule distinct_map_filter)
  have "length (filter (selected key P n xs) xs) = card (set (doomed key P n xs))"
    unfolding selected_keys [symmetric] using distinct_card [OF k] by simp
  also have "\<dots> = length (doomed key P n xs)"
    using k [of P] by (intro distinct_card) (simp add: doomed_def)
  finally show ?thesis by (simp add: doomed_def count_where_def min.commute)
qed

lemma count_del_selected:
  assumes "distinct (map key xs)"
  shows "count_where P (del_where (selected key P n xs) xs) = count_where P xs - n"
proof -
  let ?s = "selected key P n xs"
  have "filter (\<lambda>x. P x \<and> ?s x) xs = filter ?s xs" using selected_hit [of key P n xs] assms by (auto intro!: filter_cong)
  then have "count_where P xs = count_where P (del_where ?s xs) + count_where ?s xs"
    using sum_length_filter_compl [of ?s "filter P xs"] by (simp add: count_where_def del_where_def conj_commute)
  then show ?thesis using count_selected [OF assms, of P n] by simp
qed

definition old_observations :: "time \<Rightarrow> db \<Rightarrow> nat" where
  "old_observations t d = count_where (\<lambda>o'. text_less (ob_observed o') t) (observations d)"

lemma constraints_del_observations: "constraints d \<Longrightarrow> constraints (d\<lparr> observations := del_where P (observations d) \<rparr>)"
  by (auto simp: del_simps)

lemma Retain_ok:
  assumes "constraints d" and "\<not> io_fault d" and "1 \<le> b" and "b \<le> 10000"
  shows "\<exists>P. Retain t b d = Inr (d\<lparr> observations := del_where P (observations d) \<rparr>, min (nat b) (old_observations t d)) \<and>
    old_observations t (d\<lparr> observations := del_where P (observations d) \<rparr>) = old_observations t d - nat b"
proof -
  let ?s = "selected ob_id (\<lambda>o'. text_less (ob_observed o') t) (nat b) (observations d)"
  have "Retain t b d = Inr (d\<lparr> observations := del_where ?s (observations d) \<rparr>, min (nat b) (old_observations t d))"
    using assms constraints_del_observations [OF assms(1), of ?s] count_selected [OF keys_distinct(2) [OF assms(1)], of _ "nat b"]
    by (simp add: Retain_def deleteBounded_def exec_ok old_observations_def bindE_def)
  then show ?thesis using count_del_selected [OF keys_distinct(2) [OF assms(1)]] by (auto simp: old_observations_def)
qed

lemma bounded_drains:
  assumes "1 \<le> b" and "b \<le> 10000"
  shows "constraints d \<Longrightarrow> \<not> io_fault d \<Longrightarrow> \<exists>P r. bounded k b (Retain t b) n d = (d\<lparr> observations := del_where P (observations d) \<rparr>, Inr r) \<and>
    old_observations t (d\<lparr> observations := del_where P (observations d) \<rparr>) = old_observations t d - k * nat b"
proof (induction k arbitrary: n d)
  case 0
  then show ?case by (auto simp: del_where_def intro!: exI [of _ "\<lambda>_. False"])
next
  case (Suc k)
  obtain P where P: "Retain t b d = Inr (d\<lparr> observations := del_where P (observations d) \<rparr>, min (nat b) (old_observations t d))"
      "old_observations t (d\<lparr> observations := del_where P (observations d) \<rparr>) = old_observations t d - nat b"
    using Retain_ok [OF Suc.prems assms] by blast
  show ?case
  proof (cases "old_observations t d < nat b")
    case True
    then show ?thesis using P by auto
  next
    case False
    obtain Q r where "bounded k b (Retain t b) (n + min (nat b) (old_observations t d)) (d\<lparr> observations := del_where P (observations d) \<rparr>)
          = (d\<lparr> observations := del_where Q (del_where P (observations d)) \<rparr>, Inr r)"
        "old_observations t (d\<lparr> observations := del_where Q (del_where P (observations d)) \<rparr>) = old_observations t d - nat b - k * nat b"
      using Suc.IH [of "d\<lparr> observations := del_where P (observations d) \<rparr>" "n + min (nat b) (old_observations t d)"] Suc.prems P(2)
      by (auto simp: constraints_del_observations)
    then show ?thesis using False P assms by (auto simp: del_where_del_where algebra_simps)
  qed
qed

text \<open>Categories that cannot fail and keep the tables a frame names, and the pass up to a category behind such ones.\<close>

definition calm :: "(db \<Rightarrow> db \<Rightarrow> bool) \<Rightarrow> time \<Rightarrow> category \<Rightarrow> bool" where
  "calm F now c \<longleftrightarrow> ct_when c < 0 \<or> ct_when c = 0 \<and> \<not> ct_always c \<or> (\<forall>d. constraints d \<and> \<not> io_fault d \<longrightarrow>
     (\<exists>d' r. ct_prune c (now - ct_when c) d = (d', Inr r) \<and> constraints d' \<and> \<not> io_fault d' \<and> F d d'))"

lemma run_categories_calm:
  assumes F: "\<And>d. F d d" "\<And>d d' d''. F d d' \<Longrightarrow> F d' d'' \<Longrightarrow> F d d''"
  shows "list_all (calm F now) cs \<Longrightarrow> constraints d \<Longrightarrow> \<not> io_fault d \<Longrightarrow>
    \<exists>d' r'. run_categories now (cs @ rest) r d = run_categories now rest r' d' \<and> constraints d' \<and> \<not> io_fault d' \<and> F d d'"
proof (induction cs arbitrary: r d)
  case Nil
  then show ?case using F(1) by auto
next
  case (Cons c cs)
  show ?case
  proof (cases "ct_when c < 0 \<or> ct_when c = 0 \<and> \<not> ct_always c")
    case True
    then show ?thesis using Cons by auto
  next
    case False
    then obtain d' x where d': "ct_prune c (now - ct_when c) d = (d', Inr x)" "constraints d'" "\<not> io_fault d'" "F d d'"
      using Cons.prems by (auto simp: calm_def)
    show ?thesis using False d' Cons.IH [OF _ d'(2,3)] Cons.prems(1) F(2) [OF d'(4)]
      by (cases x) (fastforce split: if_splits)
  qed
qed

lemma calm_once:
  assumes "\<And>t d. constraints d \<Longrightarrow> constraints (f t d)" and "\<And>t d. io_fault (f t d) = io_fault d" and "\<And>t d. F d (f t d)"
  shows "calm F now \<lparr> ct_name = name, ct_when = w, ct_always = a, ct_prune = once (\<lambda>c. deleteBounded (f c) (g c)) \<rparr>"
  using assms by (auto simp: calm_def once_def deleteBounded_def exec_ok bindE_def)

lemma calm_observations:
  assumes "1 \<le> b" and "b \<le> 10000" and "\<And>P d. F d (d\<lparr> observations := del_where P (observations d) \<rparr>)"
  shows "calm F now \<lparr> ct_name = name, ct_when = w, ct_always = a, ct_prune = \<lambda>cutoff. bounded k b (Retain cutoff b) 0 \<rparr>"
proof -
  have "\<exists>d' r. bounded k b (Retain t b) 0 d = (d', Inr r) \<and> constraints d' \<and> \<not> io_fault d' \<and> F d d'" if "constraints d" "\<not> io_fault d" for t d
    using bounded_drains [OF assms(1,2) that, of k t 0] that assms(3) by (auto simp: constraints_del_observations)
  then show ?thesis by (simp add: calm_def)
qed

lemma run_categories_keeps:
  "(\<And>c t d. c \<in> set cs \<Longrightarrow> f (fst (ct_prune c t d)) = f d) \<Longrightarrow> f (fst (run_categories now cs r d)) = f d"
proof (induction cs arbitrary: r d)
  case (Cons c cs)
  obtain d' x where x: "ct_prune c (now - ct_when c) d = (d', x)" by fastforce
  have "f d' = f d" using Cons.prems [of c "now - ct_when c" d] x by simp
  then show ?case using x Cons.IH Cons.prems by (auto split: sum.splits)
qed simp

lemma once_keeps: "(\<And>t d. f (g t d) = f d) \<Longrightarrow> f (fst (once (\<lambda>c. deleteBounded (g c) (h c)) t d)) = f d"
  using once_effect [of g h t d] by metis

lemma constraints_del_expiring:
  assumes "constraints d"
  shows "constraints (d\<lparr> sessions := del_where P (sessions d) \<rparr>)" "constraints (d\<lparr> bootstrap_tokens := del_where Q (bootstrap_tokens d) \<rparr>)"
    "constraints (d\<lparr> check_results := del_where R (check_results d) \<rparr>)"
  using assms by (simp_all add: del_simps)

text \<open>The categories in front of the one for observations, and that one.\<close>

lemma RunOnce_observations:
  assumes "constraints d" and "\<not> io_fault d" and "0 < rt_Observations p" and "effective_batch p \<le> 10000"
  shows "old_observations (cutoff rt_Observations p now) (fst (RunOnce p now d)) = old_observations (cutoff rt_Observations p now) d - maxPasses * nat (effective_batch p)"
proof -
  let ?b = "effective_batch p" and ?t = "cutoff rt_Observations p now"
  have b: "1 \<le> ?b" by (simp add: effective_batch_def)
  have "list_all (calm (\<lambda>d d'. observations d' = observations d) now) (take 2 (categories p))"
    unfolding categories_def Let_def prune_defs by (auto intro!: calm_once constraints_del_expiring)
  then obtain d' r' where 1: "run_categories now (categories p) \<lparr> rp_Categories = [], rp_Truncated = [] \<rparr> d
      = run_categories now (drop 2 (categories p)) r' d'" "constraints d'" "\<not> io_fault d'" "observations d' = observations d"
    using run_categories_calm [of "\<lambda>d d'. observations d' = observations d" now _ d "drop 2 (categories p)"] assms by (metis append_take_drop_id)
  obtain P n x where 2: "bounded maxPasses ?b (Retain ?t ?b) 0 d' = (d'\<lparr> observations := del_where P (observations d') \<rparr>, Inr (n, x))"
      "old_observations ?t (d'\<lparr> observations := del_where P (observations d') \<rparr>) = old_observations ?t d' - maxPasses * nat ?b"
    using bounded_drains [OF b assms(4) 1(2,3), of maxPasses ?t 0] by (auto)
  have "observations (fst (ct_prune c t e)) = observations e" if "c \<in> set (drop 3 (categories p))" for c t e
    using that unfolding categories_def Let_def prune_defs by (auto simp: del_conversations_def Let_def intro!: once_keeps [where f = observations])
  then have 3: "observations (fst (run_categories now (drop 3 (categories p)) r e)) = observations e" for r e
    by (rule run_categories_keeps)
  have "drop 2 (categories p) = \<lparr> ct_name = ''observations'', ct_when = rt_Observations p, ct_always = False, ct_prune = \<lambda>cutoff. bounded maxPasses ?b (Retain cutoff ?b) 0 \<rparr> # drop 3 (categories p)"
    by (simp add: categories_def Let_def)
  then show ?thesis
    using 1 2 3 assms(3) by (simp add: RunOnce_def cutoff_def old_observations_def)
qed

text \<open>The tables that the categories in front of the one for alerts leave alone.\<close>

definition behind :: "db \<Rightarrow> db \<Rightarrow> bool" where
  "behind d d' \<longleftrightarrow> alerts d' = alerts d \<and> incident_alerts d' = incident_alerts d \<and> conversation_evidence d' = conversation_evidence d \<and>
     notification_deliveries d' = notification_deliveries d \<and> pairing_tokens d' = pairing_tokens d \<and> pairing_requests d' = pairing_requests d \<and>
     federation_inbox d' = federation_inbox d \<and> federation_outbox d' = federation_outbox d \<and> conversations d' = conversations d"

lemma prunable_behind: "behind d d' \<Longrightarrow> prunable_alert t d' = prunable_alert t d"
  by (auto simp: fun_eq_iff behind_def prunable_alert_def is_latest_def cited_def)

lemma RunOnce_blocked:
  assumes "constraints d" and "\<not> io_fault d" and "0 < rt_AlertsResolved p" and b: "effective_batch p \<le> 10000"
    and a: "a \<in> set (alerts d)" "selected al_id (prunable_alert (cutoff rt_AlertsResolved p now) d) (nat (effective_batch p)) (alerts d) a"
    and x: "x \<in> set (notification_deliveries d)" "dl_alert x = al_id a"
  shows "snd (RunOnce p now d) = Inl (Wrapped ''prune alerts'' Constraint) \<and> behind d (fst (RunOnce p now d))"
proof -
  let ?n = "nat (effective_batch p)" and ?t = "cutoff rt_AlertsResolved p now"
  have b1: "1 \<le> effective_batch p" by (simp add: effective_batch_def)
  have "list_all (calm behind now) (take 6 (categories p))"
    using b b1 unfolding categories_def Let_def prune_defs
    by (auto simp: behind_def intro!: calm_once calm_observations constraints_del_expiring constraints_del_leaf)
  then obtain d' r' where 1: "run_categories now (categories p) \<lparr> rp_Categories = [], rp_Truncated = [] \<rparr> d
      = run_categories now (drop 6 (categories p)) r' d'" "constraints d'" "\<not> io_fault d'" "behind d d'"
    using run_categories_calm [of behind now _ d "drop 6 (categories p)"] assms(1,2) 
    by (metis (no_types, lifting) behind_def append_take_drop_id)
  let ?s = "selected al_id (prunable_alert ?t d') ?n (alerts d')"
  have "alerts d' = alerts d" "notification_deliveries d' = notification_deliveries d" using 1(4) by (auto simp: behind_def)
  then have s: "a \<in> set (alerts d')" "?s a" "x \<in> set (notification_deliveries d')" using a x(1) prunable_behind [OF 1(4)] by simp_all
  have "\<not> fk (map dl_alert (notification_deliveries d')) (map al_id (del_where ?s (alerts d')))"
    using s x(2) by (force simp: fk_iff selected_def)
  then have "\<not> constraints (d'\<lparr> alerts := del_where ?s (alerts d') \<rparr>)" by (simp add: constraint_defs)
  then have 2: "once (prune_alerts ?n) ?t d' = (d', Inl Constraint)"
    using 1(3) by (simp add: once_def prune_alerts_def deleteBounded_def exec_def bindE_def)
  have "drop 6 (categories p) = \<lparr> ct_name = ''alerts'', ct_when = rt_AlertsResolved p, ct_always = False, ct_prune = once (prune_alerts ?n) \<rparr> # drop 7 (categories p)"
    by (simp add: categories_def Let_def)
  then show ?thesis
    using 1 2 assms(3) by (simp add: RunOnce_def cutoff_def)
qed

section \<open>A sample\<close>

definition sample_policy :: Retention where
  "sample_policy = \<lparr> rt_Observations = hour, rt_CheckResults = hour, rt_Logs = hour, rt_Changes = hour, rt_AlertsResolved = hour, rt_Deliveries = hour,
     rt_PairingTokens = hour, rt_PairingRequests = hour, rt_FederationInbox = hour, rt_FederationOutbox = hour, rt_Conversations = hour, rt_Interval = hour, rt_Batch = 2 \<rparr>"

definition notified_alert :: db where
  "notified_alert = (sample_alerts ''resolved'')\<lparr> alerts := [(sample_alert ''resolved'')\<lparr> al_resolved := Some 0 \<rparr>],
     notification_routes := [\<lparr> rt_id = ''ops'', rt_kind = ''webhook'', rt_destination = ''https://x'', rt_secret = [], rt_enabled = True \<rparr>],
     notification_deliveries := [\<lparr> dl_id = 1, dl_alert = 1, dl_route = ''ops'', dl_state = ''retry'', dl_attempts = 9, dl_next = 0, dl_delivered = None, dl_error = [] \<rparr>] \<rparr>"

lemmas sample_defs = sample_policy_def notified_alert_def sample_alerts_def sample_posts_def sample_alert_def sample_rule_def empty_db_def new_post_def

lemma notified_alert_ok: "constraints notified_alert" "\<not> io_fault notified_alert"
  by (simp_all add: sample_defs constraint_defs)

section \<open>Properties\<close>



text \<open>
  C19: one pass removes exactly the smaller of the backlog of expired observations and 250 batches of them, so a backlog shrinks by that amount with every
  pass, also when a later category of the pass fails.
\<close>

theorem retention_drains_observations:
  assumes "constraints d" and "\<not> io_fault d" and "0 < rt_Observations p" and "effective_batch p \<le> 10000"
  shows "old_observations (now - rt_Observations p) (fst (RunOnce p now d)) = old_observations (now - rt_Observations p) d - 250 * nat (effective_batch p)"
  using RunOnce_observations [OF assms, of now] by (simp add: cutoff_def maxPasses_def)

theorem retention_drains_observations_witness:
  "old_observations (3 * hour - rt_Observations sample_policy) (fst (RunOnce sample_policy (3 * hour) notified_alert)) =
   old_observations (3 * hour - rt_Observations sample_policy) notified_alert - 250 * nat (effective_batch sample_policy)"
  by (rule retention_drains_observations) (simp_all add: notified_alert_ok sample_policy_def effective_batch_def time_units)

text \<open>
  A resolved alert old enough to go that still has a delivery, for instance to a route that never answers, stops the pass: the delivery refers to the alert,
  the delete is refused, the pass fails and the categories after it, among them the one for deliveries, remove nothing; so does every later pass.
\<close>

theorem retention_blocked_by_delivery:
  assumes "constraints d" and "\<not> io_fault d" and "0 < rt_AlertsResolved p" and "effective_batch p \<le> 10000"
    and "a \<in> set (alerts d)" and "selected al_id (prunable_alert (now - rt_AlertsResolved p) d) (nat (effective_batch p)) (alerts d) a"
    and "x \<in> set (notification_deliveries d)" and "dl_alert x = al_id a"
  shows "snd (RunOnce p now d) = Inl (Wrapped ''prune alerts'' Constraint) \<and> alerts (fst (RunOnce p now d)) = alerts d \<and>
    notification_deliveries (fst (RunOnce p now d)) = notification_deliveries d \<and> pairing_tokens (fst (RunOnce p now d)) = pairing_tokens d \<and>
    pairing_requests (fst (RunOnce p now d)) = pairing_requests d \<and> federation_inbox (fst (RunOnce p now d)) = federation_inbox d \<and>
    federation_outbox (fst (RunOnce p now d)) = federation_outbox d \<and> conversations (fst (RunOnce p now d)) = conversations d"
  using RunOnce_blocked [OF assms(1-5) _ assms(7,8), of now] assms(6) by (simp add: cutoff_def behind_def)

theorem retention_blocked_by_delivery_witness:
  "snd (RunOnce sample_policy (3 * hour) notified_alert) = Inl (Wrapped ''prune alerts'' Constraint)"
proof -
  let ?a = "(sample_alert ''resolved'')\<lparr> al_resolved := Some 0 \<rparr>"
  let ?x = "hd (notification_deliveries notified_alert)"
  have "?a \<in> set (alerts notified_alert)" "?x \<in> set (notification_deliveries notified_alert)" "dl_alert ?x = al_id ?a"
    by (simp_all add: sample_defs)
  moreover have "text_less 0 (3 * hour - hour)" by (rule text_less_second) (simp add: time_units)
  then have "selected al_id (prunable_alert (3 * hour - rt_AlertsResolved sample_policy) notified_alert) (nat (effective_batch sample_policy)) (alerts notified_alert) ?a"
    by (simp add: selected_def doomed_def prunable_alert_def cited_def effective_batch_def sample_defs)
  moreover have "0 < rt_AlertsResolved sample_policy" "effective_batch sample_policy \<le> 10000"
    by (simp_all add: sample_policy_def effective_batch_def time_units)
  ultimately show ?thesis using retention_blocked_by_delivery [OF notified_alert_ok] by blast
qed

end
