(* ===== verification/Cluster_Identity.thy ===== *)
theory Cluster_Identity
  imports Audit_Log Single_Use Texts Cleanup
begin

text \<open>
  The identity of a node in a cluster (\<open>internal/cluster/identity.go\<close>) and the types the cluster components share. gantry-core's
  \<open>cluster\<close> package is a parameter, the record \<open>corecluster\<close>: its constants, the digest of a secret, the normal form of a capability list, the
  validation of endpoints and submissions, the compatibility of two nodes, the signature of a call and the verification of an incoming call. What it
  draws at random (identities, invitations, secrets, identifiers) is an argument of the operation that draws it.
\<close>

section \<open>Types\<close>

record NodeIdentity =
  ni_NodeID :: id
  ni_InstallationID :: id
  ni_DisplayName :: string
  ni_PublicEndpoint :: string
  ni_PublicKey :: string
  ni_Capabilities :: "string list"
  ni_ProtocolVersion :: int
  ni_ProductVersion :: string
  ni_CreatedAt :: time
  ni_PairedAt :: "time option"
  ni_LastSeenAt :: "time option"
  ni_RevokedAt :: "time option"

record JoinSubmission =
  js_InvitationToken :: string
  js_Identity :: NodeIdentity
  js_CredentialForHost :: string

record RequestEnvelope =
  re_NodeID :: id
  re_Timestamp :: time
  re_Nonce :: string
  re_RequestID :: string
  re_Protocol :: int
  re_Capability :: string
  re_Signature :: string

record AuthMaterial =
  am_State :: string
  am_Protocol :: int
  am_Capabilities :: "string list"
  am_CurrentHash :: string
  am_PendingHash :: "string option"
  am_PendingExpires :: "time option"

record VerifyRequestInput =
  vi_Material :: AuthMaterial
  vi_RequiredCapability :: string
  vi_PresentedSecret :: string
  vi_Method :: string
  vi_RequestURI :: string
  vi_Envelope :: RequestEnvelope
  vi_Body :: string
  vi_Now :: time

datatype audit_kind = InviteCreate | JoinApprove | JoinReject | MemberEnable | MemberDisable | MemberRevoke | MemberRemove | MemberRotate

record corecluster =
  cc_ProtocolVersion :: int
  cc_PairingLifetime :: int
  cc_RotationLifetime :: int
  cc_ClockSkew :: int
  cc_MaxRequestBytes :: nat
  cc_SecretDigest :: "string \<Rightarrow> string"
  cc_NormalizeCapabilities :: "string list \<Rightarrow> string list"
  cc_ValidatePublicEndpoint :: "string \<Rightarrow> bool \<Rightarrow> err + unit"
  cc_ValidateJoinSubmission :: "JoinSubmission \<Rightarrow> time \<Rightarrow> bool \<Rightarrow> err + unit"
  cc_Compatible :: "int \<Rightarrow> int \<Rightarrow> string list \<Rightarrow> string list \<Rightarrow> string \<Rightarrow> bool"
  cc_VerifyIncoming :: "VerifyRequestInput \<Rightarrow> err + bool"
  cc_Signature :: "string \<Rightarrow> string \<Rightarrow> string \<Rightarrow> time \<Rightarrow> string \<Rightarrow> string \<Rightarrow> string \<Rightarrow> string \<Rightarrow> string"
  cc_Fingerprint :: "string \<Rightarrow> string"
  cc_audit :: "audit_kind \<Rightarrow> string"

definition DefaultCapabilities :: "string list" where
  "DefaultCapabilities = [''cluster.health'', ''cluster.summary'', ''cluster.propagation'', ''replication'']"

text \<open>\<open>json.Unmarshal\<close> whose error is ignored: nothing is read from a text that is no list.\<close>

definition read_caps :: "string list option \<Rightarrow> string list" where
  "read_caps c = (case c of None \<Rightarrow> [] | Some cs \<Rightarrow> cs)"

section \<open>Operations\<close>

definition identity_of :: "identity_row \<Rightarrow> NodeIdentity" where
  "identity_of i = \<lparr> ni_NodeID = ir_node i, ni_InstallationID = ir_installation i, ni_DisplayName = ir_name i, ni_PublicEndpoint = ir_endpoint i,
     ni_PublicKey = b64url (ir_public i), ni_Capabilities = read_caps (ir_caps i), ni_ProtocolVersion = ir_protocol i, ni_ProductVersion = ir_product i,
     ni_CreatedAt = ir_created i, ni_PairedAt = ir_paired i, ni_LastSeenAt = ir_seen i, ni_RevokedAt = ir_revoked i \<rparr>"

definition loadWithPrivate :: "db \<Rightarrow> err + (NodeIdentity \<times> string)" where
  "loadWithPrivate d = bindE (query cluster_identity d) (\<lambda>r. case r of None \<Rightarrow> Inl ErrNoRows | Some i \<Rightarrow> Inr (identity_of i, ir_private i))"

definition load :: "db \<Rightarrow> err + NodeIdentity" where
  "load d = bindE (loadWithPrivate d) (\<lambda>(i, _). Inr i)"

definition set_product :: "string \<Rightarrow> db \<Rightarrow> db" where
  "set_product v d = d\<lparr> cluster_identity := map_option (\<lambda>i. i\<lparr> ir_product := v \<rparr>) (cluster_identity d) \<rparr>"

text \<open>A statement whose error is ignored.\<close>

definition attempt :: "(db \<Rightarrow> db) \<Rightarrow> db \<Rightarrow> db" where
  "attempt f d = (case exec f d of Inl e \<Rightarrow> d | Inr d' \<Rightarrow> d')"

definition ensureWithPrivate :: "corecluster \<Rightarrow> err + (NodeIdentity \<times> string) \<Rightarrow> string \<Rightarrow> db \<Rightarrow> db \<times> (err + (NodeIdentity \<times> string))" where
  "ensureWithPrivate core generated product d = (case loadWithPrivate d of
     Inr (i, key) \<Rightarrow>
       if product \<noteq> [] \<and> ni_ProductVersion i \<noteq> product then (attempt (set_product product) d, Inr (i\<lparr> ni_ProductVersion := product \<rparr>, key))
       else (d, Inr (i, key))
   | Inl e \<Rightarrow>
       if e \<noteq> ErrNoRows then (d, Inl e)
       else case generated of Inl e \<Rightarrow> (d, Inl e)
         | Inr (g, private) \<Rightarrow> (case b64_decode (ni_PublicKey g) of
             None \<Rightarrow> (d, Inl (Err ''illegal base64 data''))
           | Some public \<Rightarrow> (case exec (\<lambda>d. d\<lparr> cluster_identity := Some \<lparr> ir_node = ni_NodeID g, ir_installation = ni_InstallationID g, ir_name = [],
                   ir_endpoint = [], ir_public = public, ir_private = private, ir_caps = Some (ni_Capabilities g), ir_protocol = cc_ProtocolVersion core,
                   ir_product = product, ir_created = ni_CreatedAt g, ir_paired = None, ir_seen = None, ir_revoked = None \<rparr> \<rparr>) d of
               Inl e \<Rightarrow> (d, loadWithPrivate d)
             | Inr d' \<Rightarrow> (d', loadWithPrivate d'))))"

definition Ensure :: "corecluster \<Rightarrow> err + (NodeIdentity \<times> string) \<Rightarrow> string \<Rightarrow> db \<Rightarrow> db \<times> (err + NodeIdentity)" where
  "Ensure core generated product d = (case ensureWithPrivate core generated product d of
     (d', Inl e) \<Rightarrow> (d', Inl e) | (d', Inr (i, _)) \<Rightarrow> (d', Inr i))"

definition PrivateKey :: "corecluster \<Rightarrow> err + (NodeIdentity \<times> string) \<Rightarrow> string \<Rightarrow> db \<Rightarrow> db \<times> (err + string)" where
  "PrivateKey core generated product d = (case ensureWithPrivate core generated product d of
     (d', Inl e) \<Rightarrow> (d', Inl e) | (d', Inr (_, key)) \<Rightarrow> (d', Inr key))"

definition identity_Update :: "corecluster \<Rightarrow> bool \<Rightarrow> err + (NodeIdentity \<times> string) \<Rightarrow> string \<Rightarrow> string \<Rightarrow> string list \<Rightarrow> string \<Rightarrow> db \<Rightarrow> db \<times> (err + NodeIdentity)" where
  "identity_Update core insecurePlaintext generated displayName endpoint capabilities product d =
     (case cc_ValidatePublicEndpoint core endpoint insecurePlaintext of Inl e \<Rightarrow> (d, Inl e)
      | Inr _ \<Rightarrow> let caps = (if capabilities = [] then DefaultCapabilities else capabilities) in
        (case ensureWithPrivate core generated product d of (d, Inl e) \<Rightarrow> (d, Inl e)
         | (d, Inr _) \<Rightarrow> (case exec (\<lambda>d. d\<lparr> cluster_identity := map_option (\<lambda>i. i\<lparr> ir_name := TrimSpace displayName, ir_endpoint := TrimRight endpoint (CHR ''/''),
               ir_caps := Some (cc_NormalizeCapabilities core caps), ir_product := product \<rparr>) (cluster_identity d) \<rparr>) d of
             Inl e \<Rightarrow> (d, Inl e) | Inr d' \<Rightarrow> (d', load d'))))"

section \<open>The identity is stable\<close>

definition is_node :: "id \<times> id \<times> string \<times> string \<Rightarrow> db \<Rightarrow> bool" where
  "is_node n d \<longleftrightarrow> (\<exists>i. cluster_identity d = Some i \<and> (ir_node i, ir_installation i, ir_public i, ir_private i) = n)"

datatype identity_op =
    OpEnsure "err + (NodeIdentity \<times> string)" string
  | OpUpdate bool "err + (NodeIdentity \<times> string)" string string "string list" string

fun identity_step :: "corecluster \<Rightarrow> identity_op \<Rightarrow> db \<Rightarrow> db \<times> (err + NodeIdentity)" where
  "identity_step core (OpEnsure g v) d = Ensure core g v d"
| "identity_step core (OpUpdate plain g name endpoint caps v) d = identity_Update core plain g name endpoint caps v d"

lemma attempt_cases: "attempt f d = d \<or> attempt f d = f d \<and> constraints (f d) \<and> \<not> io_fault d"
  by (auto simp: attempt_def exec_def)

lemma is_node_set_product: "is_node n d \<Longrightarrow> is_node n (attempt (set_product v) d)"
  using attempt_cases [of "set_product v" d] by (auto simp: is_node_def set_product_def)

lemma ensure_node:
  assumes "is_node n d" and "ensureWithPrivate core g v d = (d', r)"
  shows "is_node n d'" and "r = Inr (i, key) \<Longrightarrow> (ni_NodeID i, ni_InstallationID i, ni_PublicKey i, key) = (fst n, fst (snd n), b64url (fst (snd (snd n))), snd (snd (snd n)))"
  using assms is_node_set_product [OF assms(1), of v]
  by (auto simp: ensureWithPrivate_def loadWithPrivate_def query_def is_node_def identity_of_def bindE_def split: if_splits)

lemma identity_step_node: "is_node n d \<Longrightarrow> is_node n (fst (identity_step core x d))"
proof (cases x)
  case (OpEnsure g v)
  assume n: "is_node n d"
  obtain d' r where "ensureWithPrivate core g v d = (d', r)" by fastforce
  then show ?thesis using OpEnsure ensure_node(1) [OF n] by (auto simp: Ensure_def split: sum.splits prod.splits)
next
  case (OpUpdate plain g name endpoint caps v)
  assume n: "is_node n d"
  obtain d' r where e: "ensureWithPrivate core g v d = (d', r)" by fastforce
  then show ?thesis using OpUpdate n ensure_node(1) [OF n e]
    by (auto simp: identity_Update_def is_node_def exec_def Let_def split: sum.splits prod.splits)
qed

interpretation identity: machine "identity_step core" "is_node n" for core n
  by unfold_locales (rule identity_step_node)

end
