(* ===== verification/Cluster_Pairing.thy ===== *)
theory Cluster_Pairing
  imports Cluster_Identity
begin

text \<open>
  Joining a cluster (\<open>internal/cluster/pairing.go\<close>). On the host: invitations, submitted join requests, the administrator's decision and
  the collection of the credential; on the joining node: the outbound join and its collection. The HTTP exchange is an argument of the operations that make it: \<open>post\<close>
  answers a submission, \<open>fetch\<close> a poll, each with an error for anything that is not a decoded answer of the expected status.
\<close>

section \<open>Types\<close>

record Invitation =
  vt_ID :: id
  vt_Token :: string
  vt_State :: string
  vt_ExpiresAt :: time
  vt_CreatedAt :: time

record JoinReceipt =
  jc_RequestID :: id
  jc_RequestSecret :: string
  jc_State :: string

record PairingResult =
  pl_State :: string
  pl_Remote :: "NodeIdentity option"
  pl_Credential :: string

record JoinRequest =
  jq_ID :: id
  jq_NodeID :: id
  jq_InstallationID :: id
  jq_DisplayName :: string
  jq_PublicEndpoint :: string
  jq_PublicKey :: string
  jq_Fingerprint :: string
  jq_Capabilities :: "string list"
  jq_ProtocolVersion :: int
  jq_ProductVersion :: string
  jq_State :: string
  jq_ExpiresAt :: time
  jq_CreatedAt :: time

record OutboundJoin =
  oo_ID :: id
  oo_RemoteURL :: string
  oo_RequestID :: id
  oo_State :: string
  oo_CreatedAt :: time
  oo_UpdatedAt :: time
  oo_LastError :: string

section \<open>The host\<close>

definition cluster_Invite :: "corecluster \<Rightarrow> time \<Rightarrow> err + (id \<times> string \<times> time) \<Rightarrow> Entry \<Rightarrow> db \<Rightarrow> db \<times> (err + Invitation)" where
  "cluster_Invite core now drawn e d = (case drawn of Inl x \<Rightarrow> (d, Inl x)
   | Inr (i, token, expires) \<Rightarrow> audited_tx now (e\<lparr> en_Action := cc_audit core InviteCreate, en_ObjectType := ''cluster_invitation'', en_ObjectID := i,
         en_Detail := ''short-lived single-use invitation created'' \<rparr>) (\<lambda>d.
       bindE (exec (\<lambda>d. d\<lparr> cluster_invitations := cluster_invitations d @ [\<lparr> iv_id = i, iv_token = cc_SecretDigest core token, iv_state = ''pending'',
           iv_expires = expires, iv_created = now, iv_consumed = None \<rparr>] \<rparr>) d) (\<lambda>d.
       Inr (d, \<lparr> vt_ID = i, vt_Token = token, vt_State = ''pending'', vt_ExpiresAt = expires, vt_CreatedAt = now \<rparr>))) d)"

definition expire_invitation :: "id \<Rightarrow> db \<Rightarrow> db" where
  "expire_invitation i d = d\<lparr> cluster_invitations := upd_where (\<lambda>v. iv_id v = i \<and> iv_state v = ''pending'') (\<lambda>v. v\<lparr> iv_state := ''expired'' \<rparr>) (cluster_invitations d) \<rparr>"

definition consume_invitation :: "time \<Rightarrow> id \<Rightarrow> db \<Rightarrow> db" where
  "consume_invitation now i d = d\<lparr> cluster_invitations := upd_where (\<lambda>v. iv_id v = i \<and> iv_state v = ''pending'')
     (\<lambda>v. v\<lparr> iv_state := ''consumed'', iv_consumed := Some now \<rparr>) (cluster_invitations d) \<rparr>"

definition new_join :: "corecluster \<Rightarrow> time \<Rightarrow> id \<Rightarrow> string \<Rightarrow> id \<Rightarrow> string \<Rightarrow> JoinSubmission \<Rightarrow> join_row" where
  "new_join core now i secret invite public sub = (let n = js_Identity sub in
     \<lparr> jr_id = i, jr_secret = cc_SecretDigest core secret, jr_invitation = invite, jr_node = ni_NodeID n, jr_installation = ni_InstallationID n,
       jr_name = ni_DisplayName n, jr_endpoint = TrimRight (ni_PublicEndpoint n) (CHR ''/''), jr_public = public,
       jr_caps = Some (cc_NormalizeCapabilities core (ni_Capabilities n)), jr_protocol = ni_ProtocolVersion n, jr_product = ni_ProductVersion n,
       jr_credential = js_CredentialForHost sub, jr_state = ''pending'', jr_expires = now + cc_PairingLifetime core, jr_created = now,
       jr_decided = None, jr_consumed = None \<rparr>)"

definition submit_join :: "corecluster \<Rightarrow> time \<Rightarrow> err + id \<Rightarrow> err + string \<Rightarrow> NodeIdentity \<Rightarrow> JoinSubmission \<Rightarrow> db \<Rightarrow> err + (db \<times> JoinReceipt)" where
  "submit_join core now drawnID drawnSecret self sub d = (case find (\<lambda>v. iv_token v = cc_SecretDigest core (js_InvitationToken sub)) (cluster_invitations d) of
     None \<Rightarrow> Inl (Err ''invitation unavailable'')
   | Some v \<Rightarrow>
       if iv_state v \<noteq> ''pending'' \<or> \<not> iv_expires v > now
       then (case exec (expire_invitation (iv_id v)) d of _ \<Rightarrow> Inl (Err ''invitation expired or consumed''))
       else if ni_NodeID self = ni_NodeID (js_Identity sub) \<or> ni_InstallationID self = ni_InstallationID (js_Identity sub)
       then Inl (Err ''cannot pair node with itself'')
       else bindE drawnID (\<lambda>i. bindE drawnSecret (\<lambda>secret.
         case b64_decode (ni_PublicKey (js_Identity sub)) of None \<Rightarrow> Inl (Err ''invalid node public key'')
         | Some public \<Rightarrow>
             bindE (exec (\<lambda>d. d\<lparr> cluster_join_requests := cluster_join_requests d @ [new_join core now i secret (iv_id v) public sub] \<rparr>) d) (\<lambda>d1.
             bindE (exec (consume_invitation now (iv_id v)) d1) (\<lambda>d2.
             bindE (ensure (count_where (\<lambda>w. iv_id w = iv_id v \<and> iv_state w = ''pending'') (cluster_invitations d1) = 1) (Err ''invitation was already consumed'')) (\<lambda>_.
             Inr (d2, \<lparr> jc_RequestID = i, jc_RequestSecret = secret, jc_State = ''pending'' \<rparr>)))))))"

definition SubmitJoin :: "corecluster \<Rightarrow> bool \<Rightarrow> time \<Rightarrow> err + (NodeIdentity \<times> string) \<Rightarrow> err + id \<Rightarrow> err + string \<Rightarrow> JoinSubmission \<Rightarrow> db \<Rightarrow> db \<times> (err + JoinReceipt)" where
  "SubmitJoin core insecurePlaintext now generated drawnID drawnSecret sub d =
     (case cc_ValidateJoinSubmission core sub now insecurePlaintext of Inl e \<Rightarrow> (d, Inl e)
      | Inr _ \<Rightarrow>
        if js_InvitationToken sub = [] \<or> ni_NodeID (js_Identity sub) = [] \<or> ni_InstallationID (js_Identity sub) = [] \<or> ni_PublicKey (js_Identity sub) = [] \<or>
           length (js_CredentialForHost sub) < 32
        then (d, Inl (Err ''invalid cluster join request''))
        else case Ensure core generated [] d of (d, Inl e) \<Rightarrow> (d, Inl e)
          | (d, Inr self) \<Rightarrow> with_tx (submit_join core now drawnID drawnSecret self sub) d)"

definition scanJoin :: "corecluster \<Rightarrow> join_row \<Rightarrow> JoinRequest" where
  "scanJoin core r = \<lparr> jq_ID = jr_id r, jq_NodeID = jr_node r, jq_InstallationID = jr_installation r, jq_DisplayName = jr_name r, jq_PublicEndpoint = jr_endpoint r,
     jq_PublicKey = b64url (jr_public r), jq_Fingerprint = cc_Fingerprint core (b64url (jr_public r)),
     jq_Capabilities = cc_NormalizeCapabilities core (read_caps (jr_caps r)), jq_ProtocolVersion = jr_protocol r, jq_ProductVersion = jr_product r,
     jq_State = jr_state r, jq_ExpiresAt = jr_expires r, jq_CreatedAt = jr_created r \<rparr>"

definition ListPending :: "corecluster \<Rightarrow> db \<Rightarrow> err + JoinRequest list" where
  "ListPending core d = query (\<lambda>d. map (scanJoin core) (sort_key (\<lambda>r. text_key (jr_created r))
     (filter (\<lambda>r. jr_state r = ''pending'') (cluster_join_requests d)))) d"

text \<open>\<open>INSERT .. ON CONFLICT(node_id) DO UPDATE\<close>: the columns of \<open>m\<close> that an existing row takes over.\<close>

definition repaired_member :: "member_row \<Rightarrow> member_row \<Rightarrow> member_row" where
  "repaired_member m old = old\<lparr> cm_installation := cm_installation m, cm_name := cm_name m, cm_endpoint := cm_endpoint m, cm_public_key := cm_public_key m,
     cm_caps := cm_caps m, cm_protocol := cm_protocol m, cm_product := cm_product m, cm_inbound := cm_inbound m, cm_outbound := cm_outbound m,
     cm_state := ''active'', cm_paired := cm_paired m, cm_revoked := None \<rparr>"

definition upsert_member :: "member_row \<Rightarrow> db \<Rightarrow> db" where
  "upsert_member m d = d\<lparr> cluster_members := (if list_ex (\<lambda>o'. cm_node o' = cm_node m) (cluster_members d)
     then upd_where (\<lambda>o'. cm_node o' = cm_node m) (repaired_member m) (cluster_members d) else cluster_members d @ [m]) \<rparr>"

definition paired_member :: "time \<Rightarrow> string \<Rightarrow> join_row \<Rightarrow> member_row" where
  "paired_member now inbound r = \<lparr> cm_node = jr_node r, cm_installation = jr_installation r, cm_name = jr_name r, cm_endpoint = jr_endpoint r,
     cm_public_key = jr_public r, cm_caps = jr_caps r, cm_protocol = jr_protocol r, cm_product = jr_product r, cm_inbound = inbound,
     cm_outbound = jr_credential r, cm_state = ''active'', cm_created = now, cm_paired = now, cm_last_seen = None, cm_latency = None, cm_revoked = None,
     cm_credential_version = 1, cm_pending = None, cm_pending_expires = None \<rparr>"

definition decide_request :: "time \<Rightarrow> id \<Rightarrow> string \<Rightarrow> db \<Rightarrow> db" where
  "decide_request now i state d = d\<lparr> cluster_join_requests := upd_where (\<lambda>r. jr_id r = i \<and> jr_state r = ''pending'')
     (\<lambda>r. r\<lparr> jr_state := state, jr_decided := Some now \<rparr>) (cluster_join_requests d) \<rparr>"

definition cluster_Decide :: "corecluster \<Rightarrow> time \<Rightarrow> err + string \<Rightarrow> id \<Rightarrow> bool \<Rightarrow> Entry \<Rightarrow> db \<Rightarrow> db \<times> (err + string)" where
  "cluster_Decide core now drawn i approve e = with_tx (\<lambda>d.
     case find (\<lambda>r. jr_id r = i \<and> jr_state r = ''pending'') (cluster_join_requests d) of
       None \<Rightarrow> Inl (Err ''pending join request unavailable'')
     | Some r \<Rightarrow>
         bindE (ensure (jr_expires r > now) (Err ''join request expired'')) (\<lambda>_.
         bindE (if approve then bindE drawn (\<lambda>credential. bindE (exec (upsert_member (paired_member now (cc_SecretDigest core credential) r)) d) (\<lambda>d. Inr (d, credential)))
                else Inr (d, [])) (\<lambda>(d, credential).
         bindE (exec (decide_request now i (if approve then ''approved'' else ''rejected'')) d) (\<lambda>d.
         bindE (Insert now (e\<lparr> en_Action := cc_audit core (if approve then JoinApprove else JoinReject), en_ObjectType := ''cluster_join_request'',
             en_ObjectID := i, en_Detail := ''node='' @ jr_node r \<rparr>) d) (\<lambda>d.
         Inr (d, credential))))))"

definition set_inbound :: "id \<Rightarrow> string \<Rightarrow> db \<Rightarrow> db" where
  "set_inbound node h d = d\<lparr> cluster_members := upd_where (\<lambda>m. cm_node m = node) (\<lambda>m. m\<lparr> cm_inbound := h \<rparr>) (cluster_members d) \<rparr>"

definition collect_request :: "time \<Rightarrow> id \<Rightarrow> db \<Rightarrow> db" where
  "collect_request now i d = d\<lparr> cluster_join_requests := upd_where (\<lambda>r. jr_id r = i) (\<lambda>r. r\<lparr> jr_state := ''consumed'', jr_consumed := Some now \<rparr>) (cluster_join_requests d) \<rparr>"

definition only_state :: "string \<Rightarrow> PairingResult" where
  "only_state st = \<lparr> pl_State = st, pl_Remote = None, pl_Credential = [] \<rparr>"

definition poll_join :: "corecluster \<Rightarrow> time \<Rightarrow> err + string \<Rightarrow> NodeIdentity \<Rightarrow> id \<Rightarrow> string \<Rightarrow> db \<Rightarrow> err + (db \<times> PairingResult)" where
  "poll_join core now drawn host i secret d = (case find (\<lambda>r. jr_id r = i \<and> jr_secret r = cc_SecretDigest core secret) (cluster_join_requests d) of
     None \<Rightarrow> Inl (Err ''join request unavailable'')
   | Some r \<Rightarrow>
       if jr_state r = ''pending'' \<and> \<not> jr_expires r > now then Inr (d, only_state ''expired'')
       else if jr_state r = ''rejected'' then Inr (d, only_state ''rejected'')
       else if jr_consumed r \<noteq> None then
         (if count_where (\<lambda>n. no_node n = jr_node r) (cluster_nonces d) = 0
          then bindE drawn (\<lambda>credential. bindE (exec (set_inbound (jr_node r) (cc_SecretDigest core credential)) d) (\<lambda>d.
            Inr (d, \<lparr> pl_State = ''approved'', pl_Remote = Some host, pl_Credential = credential \<rparr>)))
          else Inl (Err ''pairing result already collected''))
       else if jr_state r \<noteq> ''approved'' then Inr (d, only_state (jr_state r))
       else if \<not> list_ex (\<lambda>m. cm_node m = jr_node r) (cluster_members d) then Inl ErrNoRows
       else bindE drawn (\<lambda>credential.
         bindE (exec (set_inbound (jr_node r) (cc_SecretDigest core credential)) d) (\<lambda>d.
         bindE (exec (collect_request now i) d) (\<lambda>d.
         Inr (d, \<lparr> pl_State = ''approved'', pl_Remote = Some host, pl_Credential = credential \<rparr>)))))"

definition cluster_Poll :: "corecluster \<Rightarrow> time \<Rightarrow> err + (NodeIdentity \<times> string) \<Rightarrow> err + string \<Rightarrow> id \<Rightarrow> string \<Rightarrow> db \<Rightarrow> db \<times> (err + PairingResult)" where
  "cluster_Poll core now generated drawn i secret d = (case Ensure core generated [] d of (d, Inl e) \<Rightarrow> (d, Inl e)
   | (d, Inr host) \<Rightarrow> with_tx (poll_join core now drawn host i secret) d)"

section \<open>The joining node\<close>

definition AcceptRemote :: "corecluster \<Rightarrow> time \<Rightarrow> NodeIdentity \<Rightarrow> string \<Rightarrow> string \<Rightarrow> db \<Rightarrow> db \<times> (err + unit)" where
  "AcceptRemote core now remote outboundCredential inboundCredential d =
     (if ni_NodeID remote = [] \<or> outboundCredential = [] \<or> inboundCredential = [] then (d, Inl (Err ''incomplete pairing result''))
      else case b64_decode (ni_PublicKey remote) of None \<Rightarrow> (d, Inl (Err ''illegal base64 data''))
        | Some public \<Rightarrow> (case exec (upsert_member \<lparr> cm_node = ni_NodeID remote, cm_installation = ni_InstallationID remote, cm_name = ni_DisplayName remote,
              cm_endpoint = ni_PublicEndpoint remote, cm_public_key = public, cm_caps = Some (cc_NormalizeCapabilities core (ni_Capabilities remote)),
              cm_protocol = ni_ProtocolVersion remote, cm_product = ni_ProductVersion remote, cm_inbound = cc_SecretDigest core inboundCredential,
              cm_outbound = outboundCredential, cm_state = ''active'', cm_created = now, cm_paired = now, cm_last_seen = None, cm_latency = None, cm_revoked = None,
              cm_credential_version = 1, cm_pending = None, cm_pending_expires = None \<rparr>) d of
            Inl e \<Rightarrow> (d, Inl e) | Inr d' \<Rightarrow> (d', Inr ())))"

definition outbound_of :: "outbound_row \<Rightarrow> OutboundJoin" where
  "outbound_of j = \<lparr> oo_ID = oj_id j, oo_RemoteURL = oj_url j, oo_RequestID = oj_request j, oo_State = oj_state j, oo_CreatedAt = oj_created j,
     oo_UpdatedAt = oj_updated j, oo_LastError = oj_error j \<rparr>"

definition BeginOutbound :: "corecluster \<Rightarrow> bool \<Rightarrow> time \<Rightarrow> err + (NodeIdentity \<times> string) \<Rightarrow> err + string \<Rightarrow> err + id \<Rightarrow> (string \<Rightarrow> JoinSubmission \<Rightarrow> err + JoinReceipt) \<Rightarrow> string \<Rightarrow> string \<Rightarrow> db \<Rightarrow> db \<times> (err + OutboundJoin)" where
  "BeginOutbound core insecurePlaintext now generated drawnCredential drawnID post remoteURL invitationToken d =
     (let url = TrimRight (TrimSpace remoteURL) (CHR ''/'') in
      case cc_ValidatePublicEndpoint core url insecurePlaintext of Inl e \<Rightarrow> (d, Inl e)
      | Inr _ \<Rightarrow>
        if TrimSpace url = [] then (d, Inl (Err ''remote Watchpost URL required''))
        else case Ensure core generated [] d of (d, Inl e) \<Rightarrow> (d, Inl e)
          | (d, Inr self) \<Rightarrow>
            if ni_PublicEndpoint self = [] then (d, Inl (Err ''configure this Watchpost public HTTPS endpoint before joining a cluster''))
            else case bindE drawnCredential (\<lambda>credential.
                bindE (post url \<lparr> js_InvitationToken = invitationToken, js_Identity = self, js_CredentialForHost = credential \<rparr>) (\<lambda>receipt.
                bindE drawnID (\<lambda>i.
                let j = \<lparr> oj_id = i, oj_url = url, oj_request = jc_RequestID receipt, oj_secret = jc_RequestSecret receipt, oj_credential = credential,
                      oj_state = ''pending'', oj_created = now, oj_updated = now, oj_error = [] \<rparr>
                in bindE (exec (\<lambda>d. d\<lparr> cluster_outbound_joins := cluster_outbound_joins d @ [j] \<rparr>) d) (\<lambda>d. Inr (d, outbound_of j))))) of
              Inl e \<Rightarrow> (d, Inl e) | Inr (d, j) \<Rightarrow> (d, Inr j))"

definition ListOutbound :: "db \<Rightarrow> err + OutboundJoin list" where
  "ListOutbound d = query (\<lambda>d. map outbound_of (sort_key (\<lambda>j. text_key (oj_created j)) (cluster_outbound_joins d))) d"

definition ensureCurrentOutbound :: "id \<Rightarrow> db \<Rightarrow> err + unit" where
  "ensureCurrentOutbound i d = bindE (query (\<lambda>d. find (\<lambda>j. oj_id j = i) (cluster_outbound_joins d)) d) (\<lambda>r. case r of
     None \<Rightarrow> Inl (Err ''outbound join unavailable'')
   | Some j \<Rightarrow> ensure (count_where (\<lambda>k. oj_url k = oj_url j \<and> text_less (oj_created j) (oj_created k)) (cluster_outbound_joins d) = 0)
       (Err ''outbound join superseded by a newer pairing; collect the current join''))"

definition finish_outbound :: "time \<Rightarrow> id \<Rightarrow> string \<Rightarrow> db \<Rightarrow> db" where
  "finish_outbound now i st d = d\<lparr> cluster_outbound_joins := upd_where (\<lambda>j. oj_id j = i) (\<lambda>j. j\<lparr> oj_state := st, oj_updated := now, oj_error := [] \<rparr>) (cluster_outbound_joins d) \<rparr>"

definition CollectOutbound :: "corecluster \<Rightarrow> time \<Rightarrow> (string \<Rightarrow> id \<Rightarrow> string \<Rightarrow> err + PairingResult) \<Rightarrow> id \<Rightarrow> db \<Rightarrow> db \<times> (err + OutboundJoin)" where
  "CollectOutbound core now fetch i d = (case ensureCurrentOutbound i d of Inl e \<Rightarrow> (d, Inl e)
   | Inr _ \<Rightarrow> (case find (\<lambda>j. oj_id j = i) (cluster_outbound_joins d) of None \<Rightarrow> (d, Inl (Err ''outbound join unavailable''))
     | Some j \<Rightarrow>
         if oj_state j \<noteq> ''pending'' then (d, Inr (outbound_of j))
         else case fetch (oj_url j) (oj_request j) (oj_secret j) of Inl e \<Rightarrow> (d, Inl e)
           | Inr result \<Rightarrow>
             (case (if pl_State result = ''approved'' then
                      (case pl_Remote result of None \<Rightarrow> (d, Inl (Err ''remote approval was incomplete''))
                       | Some remote \<Rightarrow> if pl_Credential result = [] then (d, Inl (Err ''remote approval was incomplete''))
                           else (case AcceptRemote core now remote (pl_Credential result) (oj_credential j) d of
                               (d, Inl e) \<Rightarrow> (d, Inl e) | (d, Inr _) \<Rightarrow> (d, Inr ''approved'')))
                    else (d, Inr (if pl_State result \<in> {''rejected'', ''expired''} then pl_State result else ''pending''))) of
                (d, Inl e) \<Rightarrow> (d, Inl e)
              | (d, Inr st) \<Rightarrow> (case exec (finish_outbound now i st) d of
                    Inl e \<Rightarrow> (d, Inl e)
                  | Inr d' \<Rightarrow> (d', Inr ((outbound_of j)\<lparr> oo_State := st, oo_UpdatedAt := now \<rparr>))))))"

end
