(* ===== verification/Replicated_Authenticator.thy ===== *)
theory Replicated_Authenticator
  imports Single_Use Cleanup
begin

text \<open>
  The authentication of replication peers (\<open>internal/replicated/authenticator.go\<close>): handshakes on both sides of a connection, the
  promotion of a pending member credential, the nonces that protect handshakes from replay, and membership and capability queries. Parameters:
  \<open>verify\<close> is gantry-core's \<open>VerifyHandshakeSignature\<close>, \<open>version\<close> and \<open>format\<close> are its two version constants. The
  clock is an argument. A timestamp that does not parse is \<open>None\<close>, a capability list that is not JSON likewise.
\<close>

section \<open>Types\<close>

definition replicationCapability :: string where
  "replicationCapability = ''replication''"

definition replayPurposePrefix :: string where
  "replayPurposePrefix = ''repl-handshake:''"

definition handshakeSkewWindow :: int where
  "handshakeSkewWindow = 5 * minute"

record WatchpostAuthenticator =
  wa_protocol :: int
  wa_localID :: id
  wa_localCaps :: "string list option"
  wa_localRevoked :: bool

record AuthRequest =
  rq_NodeID :: id
  rq_RaftServerID :: id
  rq_RaftServerAddr :: string
  rq_Protocol :: int
  rq_Timestamp :: "time option"
  rq_Nonce :: string
  rq_PresentedSecret :: string
  rq_Signature :: string

record AuthResult =
  ar_Allowed :: bool
  ar_ServerAddress :: string

datatype MembershipState = MembershipActive | MembershipDisabled | MembershipRevoked

record Capabilities =
  cp_ID :: id
  cp_OperationSchemaVersions :: "nat list"
  cp_SnapshotFormatVersions :: "nat list"

record MembershipStatus =
  mb_State :: MembershipState
  mb_Capabilities :: Capabilities
  mb_Protocol :: int
  mb_ReplicationEnabled :: bool

definition NewWatchpostAuthenticator :: "int \<Rightarrow> db \<Rightarrow> WatchpostAuthenticator" where
  "NewWatchpostAuthenticator protocol d = (case query cluster_identity d of
     Inr (Some i) \<Rightarrow> \<lparr> wa_protocol = protocol, wa_localID = ir_node i, wa_localCaps = ir_caps i, wa_localRevoked = (ir_revoked i \<noteq> None) \<rparr>
   | _ \<Rightarrow> \<lparr> wa_protocol = protocol, wa_localID = [], wa_localCaps = None, wa_localRevoked = False \<rparr>)"

section \<open>Operations\<close>

fun equalDigest :: "string \<Rightarrow> string \<Rightarrow> bool" where
  "equalDigest [] [] = True"
| "equalDigest (a # as) (b # bs) = (a = b \<and> equalDigest as bs)"
| "equalDigest _ _ = False"

definition hasReplicationCapability :: "string list option \<Rightarrow> bool" where
  "hasReplicationCapability caps = (case caps of None \<Rightarrow> False | Some cs \<Rightarrow> list_ex (\<lambda>c. c = replicationCapability) cs)"

definition loadMember :: "id \<Rightarrow> db \<Rightarrow> err + member_row" where
  "loadMember nodeID d = bindE (query (\<lambda>d. find (\<lambda>m. cm_node m = nodeID) (cluster_members d)) d) (\<lambda>r.
     case r of None \<Rightarrow> Inl ErrNoRows | Some m \<Rightarrow> Inr m)"

definition OutboundCredential :: "id \<Rightarrow> db \<Rightarrow> err + string" where
  "OutboundCredential peer d = (case loadMember peer d of Inl e \<Rightarrow> Inl (Wrapped ''outbound credential'' e) | Inr m \<Rightarrow> Inr (cm_outbound m))"

definition fresh :: "time \<Rightarrow> time option \<Rightarrow> bool" where
  "fresh now ts = (case ts of None \<Rightarrow> False
     | Some t \<Rightarrow> \<not> t < now - handshakeSkewWindow \<and> \<not> t > now + handshakeSkewWindow)"

definition pendingValid :: "time \<Rightarrow> time \<Rightarrow> bool" where
  "pendingValid now expires \<longleftrightarrow> expires > now"

definition consumeNonce :: "time \<Rightarrow> id \<Rightarrow> string \<Rightarrow> db \<Rightarrow> db \<times> (err + unit)" where
  "consumeNonce now nodeID nonce d =
     (case exec (\<lambda>d. d\<lparr> cluster_nonces := del_where (\<lambda>n. text_less (no_seen n) (now - handshakeSkewWindow)) (cluster_nonces d) \<rparr>) d of
        Inl e \<Rightarrow> (d, Inl e)
      | Inr d1 \<Rightarrow> (case exec (\<lambda>d. d\<lparr> cluster_nonces := cluster_nonces d @
              [\<lparr> no_node = nodeID, no_nonce = replayPurposePrefix @ nonce, no_seen = now \<rparr>] \<rparr>) d1 of
          Inl e \<Rightarrow> (d1, Inl (Err ''handshake nonce replay rejected''))
        | Inr d2 \<Rightarrow> (d2, Inr ())))"

text \<open>The checks both sides share: the member, its credential, the signature. \<open>Inr True\<close> asks for the promotion of the pending credential.\<close>

definition check_credential :: "(string \<Rightarrow> AuthRequest \<Rightarrow> bool) \<Rightarrow> time \<Rightarrow> id \<Rightarrow> AuthRequest \<Rightarrow> db \<Rightarrow> err + bool" where
  "check_credential verify now node rq d = (case loadMember node d of
     Inl e \<Rightarrow> Inl (Err ''replication member unknown'')
   | Inr m \<Rightarrow>
       bindE (ensure (cm_state m = ''active'') (Err ''replication member not active'')) (\<lambda>_.
       bindE (ensure (hasReplicationCapability (cm_caps m)) (Err ''replication not authorized for member'')) (\<lambda>_.
       bindE (ensure (rq_PresentedSecret rq \<noteq> []) (Err ''replication credential required'')) (\<lambda>_.
       let digest = sha256 (rq_PresentedSecret rq);
           current = equalDigest digest (cm_inbound m);
           pending = (case (cm_pending m, cm_pending_expires m) of
               (Some h, Some t) \<Rightarrow> h \<noteq> [] \<and> pendingValid now t \<and> equalDigest digest h | _ \<Rightarrow> False)
       in bindE (ensure (current \<or> pending) (Err ''replication credential rejected'')) (\<lambda>_.
          bindE (ensure (verify (rq_PresentedSecret rq) rq) (Err ''invalid replication handshake signature'')) (\<lambda>_.
          Inr (\<not> current)))))))"

definition promoted_member :: "member_row \<Rightarrow> member_row" where
  "promoted_member m = m\<lparr> cm_inbound := (case cm_pending m of None \<Rightarrow> [] | Some h \<Rightarrow> h), cm_pending := None, cm_pending_expires := None,
     cm_credential_version := cm_credential_version m + 1 \<rparr>"

definition promote_member :: "id \<Rightarrow> db \<Rightarrow> db" where
  "promote_member node d = d\<lparr> cluster_members := upd_where (\<lambda>m. cm_node m = node) promoted_member (cluster_members d) \<rparr>"

definition prove_peer :: "(string \<Rightarrow> AuthRequest \<Rightarrow> bool) \<Rightarrow> time \<Rightarrow> id \<Rightarrow> AuthRequest \<Rightarrow> db \<Rightarrow> db \<times> (err + unit)" where
  "prove_peer verify now node rq d = (case check_credential verify now node rq d of
     Inl e \<Rightarrow> (d, Inl e)
   | Inr promote \<Rightarrow> (case (if promote then exec (promote_member node) d else Inr d) of
       Inl e \<Rightarrow> (d, Inl e)
     | Inr d \<Rightarrow> consumeNonce now node (rq_Nonce rq) d))"

definition peer_Authenticate :: "(string \<Rightarrow> AuthRequest \<Rightarrow> bool) \<Rightarrow> WatchpostAuthenticator \<Rightarrow> time \<Rightarrow> AuthRequest \<Rightarrow> db \<Rightarrow> db \<times> (err + AuthResult)" where
  "peer_Authenticate verify a now rq d =
     (if rq_RaftServerID rq \<noteq> rq_NodeID rq then (d, Inl (Err ''raft server identity does not match authenticated node identity''))
      else if rq_Protocol rq \<noteq> wa_protocol a then (d, Inl (Err ''incompatible replication protocol''))
      else if \<not> fresh now (rq_Timestamp rq) then (d, Inl (Err ''handshake outside clock-skew window''))
      else case prove_peer verify now (rq_NodeID rq) rq d of
          (d, Inl e) \<Rightarrow> (d, Inl e)
        | (d, Inr _) \<Rightarrow> (d, Inr \<lparr> ar_Allowed = True, ar_ServerAddress = rq_RaftServerAddr rq \<rparr>))"

definition VerifyPeer :: "(string \<Rightarrow> AuthRequest \<Rightarrow> bool) \<Rightarrow> WatchpostAuthenticator \<Rightarrow> time \<Rightarrow> id \<Rightarrow> AuthRequest \<Rightarrow> db \<Rightarrow> db \<times> (err + unit)" where
  "VerifyPeer verify a now expected rq d =
     (if expected = [] then (d, Inl (Err ''expected peer identity is empty''))
      else if rq_NodeID rq \<noteq> expected \<or> rq_RaftServerID rq \<noteq> expected then (d, Inl (Err ''peer authenticated as another node''))
      else if rq_Protocol rq \<noteq> wa_protocol a then (d, Inl (Err ''incompatible replication protocol''))
      else if \<not> fresh now (rq_Timestamp rq) then (d, Inl (Err ''handshake outside clock-skew window''))
      else prove_peer verify now expected rq d)"

definition capabilitiesOf :: "nat \<Rightarrow> nat \<Rightarrow> id \<Rightarrow> string list option \<Rightarrow> Capabilities" where
  "capabilitiesOf version format i caps =
     (if \<not> hasReplicationCapability caps then \<lparr> cp_ID = i, cp_OperationSchemaVersions = [], cp_SnapshotFormatVersions = [] \<rparr>
      else \<lparr> cp_ID = i, cp_OperationSchemaVersions = [1 ..< version + 1], cp_SnapshotFormatVersions = [format] \<rparr>)"

definition Membership :: "nat \<Rightarrow> nat \<Rightarrow> WatchpostAuthenticator \<Rightarrow> id \<Rightarrow> db \<Rightarrow> err + MembershipStatus" where
  "Membership version format a nodeID d =
     (if nodeID = wa_localID a then Inr \<lparr> mb_State = (if wa_localRevoked a then MembershipRevoked else MembershipActive),
        mb_Capabilities = capabilitiesOf version format nodeID (wa_localCaps a), mb_Protocol = wa_protocol a,
        mb_ReplicationEnabled = hasReplicationCapability (wa_localCaps a) \<rparr>
      else case loadMember nodeID d of Inl e \<Rightarrow> Inl (Err ''replication member unknown'')
        | Inr m \<Rightarrow> Inr \<lparr> mb_State = (if cm_state m = ''disabled'' then MembershipDisabled else if cm_state m = ''revoked'' then MembershipRevoked else MembershipActive),
            mb_Capabilities = capabilitiesOf version format nodeID (cm_caps m), mb_Protocol = wa_protocol a,
            mb_ReplicationEnabled = hasReplicationCapability (cm_caps m) \<rparr>)"

definition CapabilitiesOf :: "nat \<Rightarrow> nat \<Rightarrow> WatchpostAuthenticator \<Rightarrow> id \<Rightarrow> db \<Rightarrow> Capabilities option" where
  "CapabilitiesOf version format a i d =
     (if i = wa_localID a then Some (capabilitiesOf version format i (wa_localCaps a))
      else case loadMember i d of Inl e \<Rightarrow> None | Inr m \<Rightarrow> Some (capabilitiesOf version format i (cm_caps m)))"

section \<open>Lemmas\<close>

lemma equalDigest_iff [simp]: "equalDigest a b \<longleftrightarrow> a = b"
  by (induction a b rule: equalDigest.induct) auto

lemma constraints_nonces:
  "constraints d \<Longrightarrow> constraints (d\<lparr> cluster_nonces := ns \<rparr>) \<longleftrightarrow>
   distinct (map (\<lambda>n. (no_node n, no_nonce n)) ns) \<and> no_node ` set ns \<subseteq> cm_node ` set (cluster_members d)"
  by (auto simp: constraint_defs Let_def fk_iff)

lemma nonces_ok:
  "constraints d \<Longrightarrow> distinct (map (\<lambda>n. (no_node n, no_nonce n)) (cluster_nonces d)) \<and> no_node ` set (cluster_nonces d) \<subseteq> cm_node ` set (cluster_members d)"
  by (auto simp: constraint_defs fk_iff)

lemma promoted_member_frame [simp]:
  "cm_node (promoted_member m) = cm_node m" "cm_installation (promoted_member m) = cm_installation m" "cm_state (promoted_member m) = cm_state m"
  "cm_caps (promoted_member m) = cm_caps m"
  by (simp_all add: promoted_member_def)

lemma constraints_promote: "constraints d \<Longrightarrow> constraints (promote_member node d)"
proof -
  assume c: "constraints d"
  then have "list_all (\<lambda>m. cm_state m \<in> {''active'', ''disabled'', ''revoked''}) (upd_where (\<lambda>m. cm_node m = node) promoted_member (cluster_members d))"
    by (auto simp: constraint_defs list_all_iff set_upd_where)
  then show ?thesis using c by (simp add: constraint_defs promote_member_def Let_def)
qed

lemma find_promote:
  "find (\<lambda>m. cm_node m = node) (cluster_members (promote_member node d)) = map_option promoted_member (find (\<lambda>m. cm_node m = node) (cluster_members d))"
proof -
  have "find (\<lambda>m. cm_node m = node) (upd_where (\<lambda>m. cm_node m = node) promoted_member ms) = map_option promoted_member (find (\<lambda>m. cm_node m = node) ms)" for ms
    by (induction ms) auto
  then show ?thesis by (simp add: promote_member_def)
qed

definition kept_nonces :: "time \<Rightarrow> db \<Rightarrow> nonce_row list" where
  "kept_nonces now d = del_where (\<lambda>n. text_less (no_seen n) (now - handshakeSkewWindow)) (cluster_nonces d)"

lemma constraints_kept: "constraints d \<Longrightarrow> constraints (d\<lparr> cluster_nonces := kept_nonces now d \<rparr>)"
  using nonces_ok [of d] by (auto simp: constraints_nonces kept_nonces_def)

text \<open>The outcome of \<open>consumeNonce\<close> on a working database: accepted exactly when no kept row carries the nonce.\<close>

lemma consumeNonce_cases:
  assumes "constraints d" and "\<not> io_fault d" and "node \<in> cm_node ` set (cluster_members d)"
  shows "consumeNonce now node nonce d =
    (if (node, replayPurposePrefix @ nonce) \<in> (\<lambda>n. (no_node n, no_nonce n)) ` set (kept_nonces now d)
     then (d\<lparr> cluster_nonces := kept_nonces now d \<rparr>, Inl (Err ''handshake nonce replay rejected''))
     else (d\<lparr> cluster_nonces := kept_nonces now d @ [\<lparr> no_node = node, no_nonce = replayPurposePrefix @ nonce, no_seen = now \<rparr>] \<rparr>, Inr ()))"
proof -
  let ?d1 = "d\<lparr> cluster_nonces := kept_nonces now d \<rparr>"
  let ?n = "\<lparr> no_node = node, no_nonce = replayPurposePrefix @ nonce, no_seen = now \<rparr>"
  have c1: "constraints ?d1" by (rule constraints_kept [OF assms(1)])
  have e1: "exec (\<lambda>d. d\<lparr> cluster_nonces := del_where (\<lambda>n. text_less (no_seen n) (now - handshakeSkewWindow)) (cluster_nonces d) \<rparr>) d = Inr ?d1"
    using c1 assms(2) by (simp add: exec_def kept_nonces_def)
  have "constraints (?d1\<lparr> cluster_nonces := kept_nonces now d @ [?n] \<rparr>) \<longleftrightarrow>
      (node, replayPurposePrefix @ nonce) \<notin> (\<lambda>n. (no_node n, no_nonce n)) ` set (kept_nonces now d)"
    using nonces_ok [OF c1] assms(3) constraints_nonces [OF c1, of "kept_nonces now d @ [?n]"] by auto
  then show ?thesis using e1 assms(2) by (simp add: consumeNonce_def exec_def)
qed

lemma check_credential_Inr:
  assumes "check_credential verify now node rq d = Inr promote"
  shows "\<not> io_fault d \<and> (\<exists>m. find (\<lambda>m. cm_node m = node) (cluster_members d) = Some m \<and> cm_state m = ''active'' \<and> hasReplicationCapability (cm_caps m) \<and>
    rq_PresentedSecret rq \<noteq> [] \<and> verify (rq_PresentedSecret rq) rq \<and> (promote \<longleftrightarrow> sha256 (rq_PresentedSecret rq) \<noteq> cm_inbound m) \<and>
    (promote \<longrightarrow> cm_pending m = Some (sha256 (rq_PresentedSecret rq)) \<and> (\<exists>t. cm_pending_expires m = Some t \<and> now < t)))"
  using assms
  by (auto simp: check_credential_def loadMember_def bindE_eq_Inr Let_def pendingValid_def split: sum.splits option.splits)

section \<open>Handshake nonces are single use within the window\<close>

datatype handshake = Accepting time AuthRequest | Dialing time id AuthRequest

fun handshake_time :: "handshake \<Rightarrow> time" where
  "handshake_time (Accepting now rq) = now"
| "handshake_time (Dialing now expected rq) = now"

fun handshake_key :: "handshake \<Rightarrow> id \<times> string" where
  "handshake_key (Accepting now rq) = (rq_NodeID rq, rq_Nonce rq)"
| "handshake_key (Dialing now expected rq) = (expected, rq_Nonce rq)"

fun handshake_step :: "(string \<Rightarrow> AuthRequest \<Rightarrow> bool) \<Rightarrow> WatchpostAuthenticator \<Rightarrow> handshake \<Rightarrow> db \<Rightarrow> db \<times> (err + unit)" where
  "handshake_step verify a (Accepting now rq) d = (case peer_Authenticate verify a now rq d of (d, r) \<Rightarrow> (d, map_sum id (\<lambda>_. ()) r))"
| "handshake_step verify a (Dialing now expected rq) d = VerifyPeer verify a now expected rq d"

definition in_window :: "time \<Rightarrow> handshake \<Rightarrow> bool" where
  "in_window start x \<longleftrightarrow> start \<le> handshake_time x \<and> handshake_time x + second \<le> start + handshakeSkewWindow"

definition nonce_seen :: "time \<Rightarrow> id \<times> string \<Rightarrow> db \<Rightarrow> bool" where
  "nonce_seen start k d = list_ex (\<lambda>n. no_node n = fst k \<and> no_nonce n = replayPurposePrefix @ snd k \<and> start \<le> no_seen n) (cluster_nonces d)"

lemma nonce_seen_iff: "nonce_seen start k d \<longleftrightarrow>
    (\<exists>n \<in> set (cluster_nonces d). no_node n = fst k \<and> no_nonce n = replayPurposePrefix @ snd k \<and> start \<le> no_seen n)"
  by (simp add: nonce_seen_def list_ex_iff)

lemma kept_within:
  assumes "n \<in> set (cluster_nonces d)" and "start \<le> no_seen n" and "now + second \<le> start + handshakeSkewWindow"
  shows "n \<in> set (kept_nonces now d)"
  using assms text_less_bound [of "no_seen n" "now - handshakeSkewWindow"] by (auto simp: kept_nonces_def)

lemma find_member_mem: "find (\<lambda>m. cm_node m = node) ms = Some m \<Longrightarrow> node \<in> cm_node ` set ms"
  using find_set [of "\<lambda>m. cm_node m = node" ms m] by auto

lemma prove_peer_law:
  assumes c: "constraints d" and p: "prove_peer verify now node rq d = (d', r)"
    and w: "start \<le> now" "now + second \<le> start + handshakeSkewWindow"
  shows "constraints d' \<and> (\<forall>k. nonce_seen start k d \<longrightarrow> nonce_seen start k d') \<and>
    (r = Inr () \<longrightarrow> \<not> nonce_seen start (node, rq_Nonce rq) d \<and> nonce_seen start (node, rq_Nonce rq) d')"
proof (cases "check_credential verify now node rq d")
  case (Inl e)
  then show ?thesis using p c by (auto simp: prove_peer_def)
next
  case (Inr promote)
  note cr = check_credential_Inr [OF Inr]
  let ?d1 = "if promote then promote_member node d else d"
  have c1: "constraints ?d1" using c constraints_promote by simp
  have io: "\<not> io_fault ?d1" "cluster_nonces ?d1 = cluster_nonces d" using cr by (simp_all add: promote_member_def)
  have "find (\<lambda>m. cm_node m = node) (cluster_members ?d1) \<noteq> None" using cr by (auto simp: find_promote)
  then have mem: "node \<in> cm_node ` set (cluster_members ?d1)" using find_member_mem [of node "cluster_members ?d1"] by blast
  have step: "consumeNonce now node (rq_Nonce rq) ?d1 = (d', r)"
    using p Inr cr c1 by (simp add: prove_peer_def exec_def split: if_splits)
  let ?key = "\<lambda>n. (no_node n, no_nonce n)" and ?n = "\<lparr> no_node = node, no_nonce = replayPurposePrefix @ rq_Nonce rq, no_seen = now \<rparr>"
  have kept: "n \<in> set (kept_nonces now ?d1)" if "n \<in> set (cluster_nonces d)" "start \<le> no_seen n" for n
    using kept_within [OF _ _ w(2), of n ?d1] io(2) that by simp
  have stay: "nonce_seen start k d \<Longrightarrow> set (kept_nonces now ?d1) \<subseteq> set (cluster_nonces d') \<Longrightarrow> nonce_seen start k d'" for k
    unfolding nonce_seen_iff using kept by blast
  show ?thesis
  proof (cases "(node, replayPurposePrefix @ rq_Nonce rq) \<in> ?key ` set (kept_nonces now ?d1)")
    case True
    then have d': "d' = ?d1\<lparr> cluster_nonces := kept_nonces now ?d1 \<rparr>" "r \<noteq> Inr ()"
      using step consumeNonce_cases [OF c1 io(1) mem] by auto
    then show ?thesis using constraints_kept [OF c1] stay by auto
  next
    case False
    then have d': "d' = ?d1\<lparr> cluster_nonces := kept_nonces now ?d1 @ [?n] \<rparr>" "r = Inr ()"
      using step consumeNonce_cases [OF c1 io(1) mem] by auto
    have "distinct (map ?key (kept_nonces now ?d1 @ [?n])) \<and> no_node ` set (kept_nonces now ?d1 @ [?n]) \<subseteq> cm_node ` set (cluster_members ?d1)"
      using nonces_ok [OF constraints_kept [OF c1, of now]] False mem by auto
    then have "constraints d'" unfolding d'(1) constraints_nonces [OF c1] by blast
    moreover have "\<not> nonce_seen start (node, rq_Nonce rq) d"
      unfolding nonce_seen_iff using False kept by force
    moreover have "nonce_seen start (node, rq_Nonce rq) d'" using w(1) by (simp add: nonce_seen_iff d'(1))
    moreover have "set (kept_nonces now ?d1) \<subseteq> set (cluster_nonces d')" by (auto simp: d'(1))
    ultimately show ?thesis using stay by blast
  qed
qed

lemma handshake_step_law:
  assumes c: "constraints d" and w: "in_window start x" and st: "handshake_step verify a x d = (d', r)"
  shows "constraints d' \<and> (\<forall>k. nonce_seen start k d \<longrightarrow> nonce_seen start k d') \<and>
    (r = Inr () \<longrightarrow> \<not> nonce_seen start (handshake_key x) d \<and> nonce_seen start (handshake_key x) d')"
proof (cases x)
  case (Accepting now rq)
  have "d' = d \<and> r \<noteq> Inr () \<or> prove_peer verify now (rq_NodeID rq) rq d = (d', r)"
    using st Accepting by (auto simp: peer_Authenticate_def split: if_splits prod.splits sum.splits)
  then show ?thesis using prove_peer_law [OF c, of verify now "rq_NodeID rq" rq d' r start] w c Accepting by (auto simp: in_window_def)
next
  case (Dialing now expected rq)
  have "d' = d \<and> r \<noteq> Inr () \<or> prove_peer verify now expected rq d = (d', r)"
    using st Dialing by (auto simp: VerifyPeer_def split: if_splits)
  then show ?thesis using prove_peer_law [OF c, of verify now expected rq d' r start] w c Dialing by (auto simp: in_window_def)
qed

interpretation handshakes: single_use "handshake_step verify a" constraints "in_window start" "\<lambda>x _. {handshake_key x}" "nonce_seen start"
  for verify a start
proof unfold_locales
  fix s x s' r assume "constraints s" "in_window start x" "handshake_step verify a x s = (s', r)"
  then show "constraints s'" using handshake_step_law by blast
next
  fix s x s' and y :: unit and k
  assume "constraints s" "in_window start x" "handshake_step verify a x s = (s', Inr y)" "k \<in> {handshake_key x}"
  then show "\<not> nonce_seen start k s \<and> nonce_seen start k s'" using handshake_step_law [of s start x verify a s' "Inr ()"] by simp
next
  fix s x s' r k assume "constraints s" "in_window start x" "handshake_step verify a x s = (s', r)" "nonce_seen start k s"
  then show "nonce_seen start k s'" using handshake_step_law by blast
qed

section \<open>A proven peer\<close>

text \<open>After a success the credential of the member is the presented one and the nonce is the last row.\<close>

lemma prove_peer_Inr:
  assumes c: "constraints d" and p: "prove_peer verify now node rq d = (d', Inr ())"
  obtains m where "find (\<lambda>m. cm_node m = node) (cluster_members d') = Some m" "cm_state m = ''active''" "hasReplicationCapability (cm_caps m)"
    "cm_inbound m = sha256 (rq_PresentedSecret rq)" "rq_PresentedSecret rq \<noteq> []" "verify (rq_PresentedSecret rq) rq" "\<not> io_fault d'" "constraints d'"
    "\<exists>ns. cluster_nonces d' = ns @ [\<lparr> no_node = node, no_nonce = replayPurposePrefix @ rq_Nonce rq, no_seen = now \<rparr>]"
proof -
  from p obtain promote d1 where cr: "check_credential verify now node rq d = Inr promote"
    and d1: "(if promote then exec (promote_member node) d else Inr d) = Inr d1" and n: "consumeNonce now node (rq_Nonce rq) d1 = (d', Inr ())"
    by (auto simp: prove_peer_def split: sum.splits)
  obtain m where m: "find (\<lambda>m. cm_node m = node) (cluster_members d) = Some m" "cm_state m = ''active''" "hasReplicationCapability (cm_caps m)"
    "promote \<longleftrightarrow> sha256 (rq_PresentedSecret rq) \<noteq> cm_inbound m" "promote \<longrightarrow> cm_pending m = Some (sha256 (rq_PresentedSecret rq))"
    and ok: "rq_PresentedSecret rq \<noteq> []" "verify (rq_PresentedSecret rq) rq" "\<not> io_fault d"
    using check_credential_Inr [OF cr] by blast
  let ?m = "if promote then promoted_member m else m"
  have "d1 = (if promote then promote_member node d else d)" "constraints d1" using d1 c by (auto simp: exec_eq_Inr split: if_splits)
  then have f1: "find (\<lambda>m. cm_node m = node) (cluster_members d1) = Some ?m" and io1: "\<not> io_fault d1" and c1: "constraints d1"
    using m(1) ok(3) by (simp_all add: find_promote) (simp add: promote_member_def)
  note cn = consumeNonce_cases [OF c1 io1 find_member_mem [OF f1], of now "rq_Nonce rq"]
  have d': "d' = d1\<lparr> cluster_nonces := kept_nonces now d1 @ [\<lparr> no_node = node, no_nonce = replayPurposePrefix @ rq_Nonce rq, no_seen = now \<rparr>] \<rparr>"
    using n cn by (simp split: if_splits)
  have cd: "constraints d'" using n by (auto simp: consumeNonce_def exec_eq_Inr split: sum.splits)
  show ?thesis
    by (rule that [of ?m]) (use f1 m ok io1 cd in \<open>auto simp: d' promoted_member_def\<close>)
qed

lemma prove_peer_again:
  assumes c: "constraints d" and p: "prove_peer verify now node rq d = (d', Inr ())" and late: "now + handshakeSkewWindow + second \<le> now'"
  shows "\<exists>d''. prove_peer verify now' node rq d' = (d'', Inr ())"
proof -
  let ?n = "\<lparr> no_node = node, no_nonce = replayPurposePrefix @ rq_Nonce rq, no_seen = now \<rparr>"
  from c p obtain m ns where m: "find (\<lambda>m. cm_node m = node) (cluster_members d') = Some m" "cm_state m = ''active''" "hasReplicationCapability (cm_caps m)"
    "cm_inbound m = sha256 (rq_PresentedSecret rq)" "rq_PresentedSecret rq \<noteq> []" "verify (rq_PresentedSecret rq) rq" and io: "\<not> io_fault d'" and c': "constraints d'"
    and ns: "cluster_nonces d' = ns @ [?n]" by (rule prove_peer_Inr) blast
  have cr: "check_credential verify now' node rq d' = Inr False" using m io by (simp add: check_credential_def loadMember_def Let_def)
  have "text_less now (now' - handshakeSkewWindow)" using late by (intro text_less_second) simp
  then have kept: "kept_nonces now' d' = del_where (\<lambda>n. text_less (no_seen n) (now' - handshakeSkewWindow)) ns" by (simp add: kept_nonces_def ns del_where_def)
  have "(node, replayPurposePrefix @ rq_Nonce rq) \<notin> (\<lambda>n. (no_node n, no_nonce n)) ` set ns" using nonces_ok [OF c'] by (simp add: ns)
  then have "(node, replayPurposePrefix @ rq_Nonce rq) \<notin> (\<lambda>n. (no_node n, no_nonce n)) ` set (kept_nonces now' d')" by (auto simp: kept)
  then show ?thesis using cr consumeNonce_cases [OF c' io find_member_mem [OF m(1)], of now' "rq_Nonce rq"] by (simp add: prove_peer_def)
qed

section \<open>A peer to evaluate\<close>

definition sample_member :: member_row where
  "sample_member = \<lparr> cm_node = ''n'', cm_installation = ''n'', cm_name = ''n'', cm_endpoint = [], cm_public_key = [], cm_caps = Some [''replication''],
     cm_protocol = 1, cm_product = ''watchpost'', cm_inbound = sha256 ''s'', cm_outbound = ''o'', cm_state = ''active'', cm_created = 0, cm_paired = 0,
     cm_last_seen = None, cm_latency = None, cm_revoked = None, cm_credential_version = 1, cm_pending = None, cm_pending_expires = None \<rparr>"

definition sample_cluster :: db where
  "sample_cluster = empty_db\<lparr> cluster_members := [sample_member] \<rparr>"

definition sample_handshake :: AuthRequest where
  "sample_handshake = \<lparr> rq_NodeID = ''n'', rq_RaftServerID = ''n'', rq_RaftServerAddr = ''h'', rq_Protocol = 1, rq_Timestamp = Some (4 * minute), rq_Nonce = ''x'',
     rq_PresentedSecret = ''s'', rq_Signature = [] \<rparr>"

definition sample_authenticator :: WatchpostAuthenticator where
  "sample_authenticator = NewWatchpostAuthenticator 1 empty_db"

lemma sample_cluster_ok: "constraints sample_cluster"
  by (simp add: sample_cluster_def sample_member_def empty_db_def constraint_defs)

lemma sample_accept: "\<exists>d'. peer_Authenticate (\<lambda>_ _. True) sample_authenticator 0 sample_handshake sample_cluster = (d', Inr \<lparr> ar_Allowed = True, ar_ServerAddress = ''h'' \<rparr>)"
  by (simp add: peer_Authenticate_def sample_handshake_def sample_authenticator_def NewWatchpostAuthenticator_def empty_db_def fresh_def handshakeSkewWindow_def time_units prove_peer_def
      check_credential_def loadMember_def query_def sample_cluster_def sample_member_def empty_db_def hasReplicationCapability_def replicationCapability_def consumeNonce_def
      exec_def constraint_defs)

section \<open>Properties\<close>

text \<open>
  C15: within one skew window no handshake nonce of a peer is accepted twice, on either side of a connection and whatever other handshakes are made
  in between.
\<close>

theorem handshake_accepted_once_in_window:
  assumes "constraints d" and "list_all (in_window start) xs"
  shows "redemptions (\<lambda>x _. {handshake_key x}) (node, nonce) xs (snd (run (handshake_step verify a) xs d)) \<le> 1"
  by (rule handshakes.run_once [OF assms])

theorem handshake_accepted_once_in_window_witness:
  "let xs = [Accepting 0 sample_handshake, Accepting 5 sample_handshake]
   in redemptions (\<lambda>x _. {handshake_key x}) (''n'', ''x'') xs (snd (run (handshake_step (\<lambda>_ _. True) sample_authenticator) xs sample_cluster)) \<le> 1"
  unfolding Let_def
  by (rule handshake_accepted_once_in_window [OF sample_cluster_ok, where start = 0]) (simp add: in_window_def handshakeSkewWindow_def time_units)

text \<open>
  A handshake whose timestamp lies ahead of the clock is accepted a second time: its nonce is forgotten one window after it was seen, while the timestamp
  stays within the skew window until one window after the timestamp.
\<close>

theorem future_dated_handshake_replays:
  assumes "constraints d" and "peer_Authenticate verify a now rq d = (d', Inr res)" and "rq_Timestamp rq = Some ts"
    and "now + handshakeSkewWindow + second \<le> now'" and "now' \<le> ts + handshakeSkewWindow"
  shows "\<exists>d''. peer_Authenticate verify a now' rq d' = (d'', Inr res)"
proof -
  have first: "prove_peer verify now (rq_NodeID rq) rq d = (d', Inr ())" "rq_RaftServerID rq = rq_NodeID rq" "rq_Protocol rq = wa_protocol a"
    "fresh now (rq_Timestamp rq)" "res = \<lparr> ar_Allowed = True, ar_ServerAddress = rq_RaftServerAddr rq \<rparr>"
    using assms(2) by (auto simp: peer_Authenticate_def split: if_splits prod.splits sum.splits)
  obtain d'' where "prove_peer verify now' (rq_NodeID rq) rq d' = (d'', Inr ())" using prove_peer_again [OF assms(1) first(1) assms(4)] by blast
  moreover have "fresh now' (rq_Timestamp rq)"
    using first(4) assms(3-5) by (simp add: fresh_def handshakeSkewWindow_def time_units)
  ultimately show ?thesis using first by (simp add: peer_Authenticate_def)
qed

theorem future_dated_handshake_replays_witness:
  "\<exists>d' d'' res. peer_Authenticate (\<lambda>_ _. True) sample_authenticator 0 sample_handshake sample_cluster = (d', Inr res) \<and>
     peer_Authenticate (\<lambda>_ _. True) sample_authenticator (6 * minute) sample_handshake d' = (d'', Inr res)"
proof -
  obtain d' where d': "peer_Authenticate (\<lambda>_ _. True) sample_authenticator 0 sample_handshake sample_cluster = (d', Inr \<lparr> ar_Allowed = True, ar_ServerAddress = ''h'' \<rparr>)"
    using sample_accept by blast
  show ?thesis
    using future_dated_handshake_replays [OF sample_cluster_ok d', where ts = "4 * minute" and now' = "6 * minute"] d'
    by (auto simp: sample_handshake_def handshakeSkewWindow_def time_units)
qed

end
