(* ===== verification/Cluster_Members.thy ===== *)
theory Cluster_Members
  imports Cluster_Pairing Replicated_Authenticator
begin

text \<open>
  The members of a cluster (\<open>internal/cluster/members.go\<close>) and the signed calls between them (\<open>internal/cluster/transport.go\<close>): enabling, revoking and
  removing a member, rotation of its credential, and the authentication of an incoming call with its nonce against replay. The clock does not
  advance within a call. A header that is empty is \<open>None\<close>, one that does not parse \<open>Some None\<close>.
\<close>

section \<open>Members\<close>

record Member =
  mm_NodeID :: id
  mm_InstallationID :: id
  mm_DisplayName :: string
  mm_PublicEndpoint :: string
  mm_PublicKey :: string
  mm_Capabilities :: "string list"
  mm_ProtocolVersion :: int
  mm_ProductVersion :: string
  mm_State :: string
  mm_Health :: string
  mm_Compatible :: bool
  mm_CreatedAt :: time
  mm_PairedAt :: time
  mm_LastSeenAt :: "time option"
  mm_LastLatencyMS :: "int option"
  mm_RevokedAt :: "time option"
  mm_CredentialVersion :: int

definition memberHealth :: "Member \<Rightarrow> time \<Rightarrow> string" where
  "memberHealth m now =
     (if mm_State m = ''revoked'' then ''revoked''
      else if mm_State m = ''disabled'' then ''disabled''
      else if \<not> mm_Compatible m then ''incompatible''
      else case mm_LastSeenAt m of None \<Rightarrow> ''unknown''
        | Some t \<Rightarrow> if now - t > 10 * minute then ''offline'' else if now - t > 2 * minute then ''degraded'' else ''online'')"

definition member_of :: "corecluster \<Rightarrow> time \<Rightarrow> member_row \<Rightarrow> Member" where
  "member_of core now r = (let caps = read_caps (cm_caps r);
       m = \<lparr> mm_NodeID = cm_node r, mm_InstallationID = cm_installation r, mm_DisplayName = cm_name r, mm_PublicEndpoint = cm_endpoint r,
         mm_PublicKey = b64url (cm_public_key r), mm_Capabilities = caps, mm_ProtocolVersion = cm_protocol r, mm_ProductVersion = cm_product r,
         mm_State = cm_state r, mm_Health = [], mm_Compatible = cc_Compatible core (cc_ProtocolVersion core) (cm_protocol r) DefaultCapabilities caps [],
         mm_CreatedAt = cm_created r, mm_PairedAt = cm_paired r, mm_LastSeenAt = cm_last_seen r, mm_LastLatencyMS = cm_latency r,
         mm_RevokedAt = cm_revoked r, mm_CredentialVersion = cm_credential_version r \<rparr>
     in m\<lparr> mm_Health := memberHealth m now \<rparr>)"

definition member_List :: "corecluster \<Rightarrow> time \<Rightarrow> db \<Rightarrow> err + Member list" where
  "member_List core now d = query (\<lambda>d. map (member_of core now) (sort_key (\<lambda>r. (cm_name r, cm_node r)) (cluster_members d))) d"

definition member_entry :: "corecluster \<Rightarrow> audit_kind \<Rightarrow> id \<Rightarrow> string \<Rightarrow> Entry \<Rightarrow> Entry" where
  "member_entry core k node detail e = e\<lparr> en_Action := cc_audit core k, en_ObjectType := ''cluster_member'', en_ObjectID := node, en_Detail := detail \<rparr>"

text \<open>An UPDATE of the rows a condition selects, refused unless it hits exactly one.\<close>

definition update_member :: "(member_row \<Rightarrow> bool) \<Rightarrow> (member_row \<Rightarrow> member_row) \<Rightarrow> string \<Rightarrow> db \<Rightarrow> err + (db \<times> unit)" where
  "update_member hit f msg d = bindE (exec (\<lambda>d. d\<lparr> cluster_members := upd_where hit f (cluster_members d) \<rparr>) d) (\<lambda>d'.
     bindE (ensure (count_where hit (cluster_members d) = 1) (Err msg)) (\<lambda>_. Inr (d', ())))"

definition member_SetEnabled :: "corecluster \<Rightarrow> time \<Rightarrow> id \<Rightarrow> bool \<Rightarrow> Entry \<Rightarrow> db \<Rightarrow> db \<times> (err + unit)" where
  "member_SetEnabled core now node enabled e = (let st = (if enabled then ''active'' else ''disabled'') in
     audited_tx now (member_entry core (if enabled then MemberEnable else MemberDisable) node st e)
       (update_member (\<lambda>m. cm_node m = node \<and> cm_state m \<noteq> ''revoked'') (\<lambda>m. m\<lparr> cm_state := st \<rparr>) ''cluster member unavailable''))"

definition member_Revoke :: "corecluster \<Rightarrow> time \<Rightarrow> id \<Rightarrow> Entry \<Rightarrow> db \<Rightarrow> db \<times> (err + unit)" where
  "member_Revoke core now node e = audited_tx now (member_entry core MemberRevoke node ''revoked'' e)
     (update_member (\<lambda>m. cm_node m = node \<and> cm_state m \<noteq> ''revoked'')
       (\<lambda>m. m\<lparr> cm_state := ''revoked'', cm_revoked := Some now, cm_pending := None, cm_pending_expires := None \<rparr>) ''cluster member unavailable'')"

definition del_members :: "(member_row \<Rightarrow> bool) \<Rightarrow> db \<Rightarrow> db" where
  "del_members P d = (let gone = map cm_node (filter P (cluster_members d))
     in d\<lparr> cluster_members := del_where P (cluster_members d), cluster_nonces := del_where (\<lambda>n. no_node n \<in> set gone) (cluster_nonces d) \<rparr>)"

definition member_Remove :: "corecluster \<Rightarrow> time \<Rightarrow> id \<Rightarrow> Entry \<Rightarrow> db \<Rightarrow> db \<times> (err + unit)" where
  "member_Remove core now node e = audited_tx now (member_entry core MemberRemove node ''removed'' e) (\<lambda>d.
     case find (\<lambda>m. cm_node m = node) (cluster_members d) of None \<Rightarrow> Inl (Err ''cluster member unavailable'')
     | Some m \<Rightarrow>
         bindE (ensure (cm_state m \<noteq> ''active'') (Err ''disable or revoke member before removal'')) (\<lambda>_.
         bindE (exec (del_members (\<lambda>m. cm_node m = node)) d) (\<lambda>d. Inr (d, ()))))"

definition RotateInbound :: "corecluster \<Rightarrow> time \<Rightarrow> err + string \<Rightarrow> id \<Rightarrow> Entry \<Rightarrow> db \<Rightarrow> db \<times> (err + string)" where
  "RotateInbound core now drawn node e d = (case drawn of Inl x \<Rightarrow> (d, Inl x)
   | Inr secret \<Rightarrow> (case audited_tx now (member_entry core MemberRotate node ''overlap credential issued'' e)
         (update_member (\<lambda>m. cm_node m = node \<and> cm_state m = ''active'')
           (\<lambda>m. m\<lparr> cm_pending := Some (sha256 secret), cm_pending_expires := Some (now + cc_RotationLifetime core) \<rparr>) ''active cluster member unavailable'') d of
       (d', Inl x) \<Rightarrow> (d', Inl x) | (d', Inr _) \<Rightarrow> (d', Inr secret)))"

definition SetOutboundCredential :: "id \<Rightarrow> string \<Rightarrow> db \<Rightarrow> db \<times> (err + unit)" where
  "SetOutboundCredential node secret d =
     (if length secret < 32 then (d, Inl (Err ''invalid cluster credential''))
      else let hit = (\<lambda>m. cm_node m = node \<and> cm_state m = ''active'') in
        case exec (\<lambda>d. d\<lparr> cluster_members := upd_where hit (\<lambda>m. m\<lparr> cm_outbound := secret, cm_credential_version := cm_credential_version m + 1 \<rparr>) (cluster_members d) \<rparr>) d of
          Inl e \<Rightarrow> (d, Inl e)
        | Inr d' \<Rightarrow> if count_where hit (cluster_members d) = 1 then (d', Inr ()) else (d', Inl (Err ''active cluster member unavailable'')))"

section \<open>Calls\<close>

record PeerCall =
  pc_Node :: id
  pc_Timestamp :: "time option option"
  pc_Nonce :: string
  pc_RequestID :: string
  pc_Signature :: string
  pc_Protocol :: "int option"
  pc_Capability :: string
  pc_Authorization :: string
  pc_Method :: string
  pc_URI :: string
  pc_Body :: "err + string"

record AuthenticatedRequest =
  rr_NodeID :: id
  rr_RequestID :: string
  rr_Capability :: string
  rr_Body :: string
  rr_ReceivedAt :: time

definition verify_input :: "corecluster \<Rightarrow> time \<Rightarrow> string \<Rightarrow> PeerCall \<Rightarrow> int \<Rightarrow> time \<Rightarrow> string \<Rightarrow> member_row \<Rightarrow> VerifyRequestInput" where
  "verify_input core now capability c protocol tm body m =
     \<lparr> vi_Material = \<lparr> am_State = cm_state m, am_Protocol = protocol, am_Capabilities = read_caps (cm_caps m), am_CurrentHash = cm_inbound m,
         am_PendingHash = cm_pending m, am_PendingExpires = cm_pending_expires m \<rparr>,
       vi_RequiredCapability = capability, vi_PresentedSecret = TrimPrefix (pc_Authorization c) ''Bearer '', vi_Method = pc_Method c, vi_RequestURI = pc_URI c,
       vi_Envelope = \<lparr> re_NodeID = pc_Node c, re_Timestamp = tm, re_Nonce = pc_Nonce c, re_RequestID = pc_RequestID c, re_Protocol = protocol,
         re_Capability = pc_Capability c, re_Signature = pc_Signature c \<rparr>,
       vi_Body = body, vi_Now = now \<rparr>"

definition prune_nonces :: "corecluster \<Rightarrow> time \<Rightarrow> db \<Rightarrow> db" where
  "prune_nonces core now d = d\<lparr> cluster_nonces := del_where (\<lambda>n. text_less (no_seen n) (now - 2 * cc_ClockSkew core)) (cluster_nonces d) \<rparr>"

definition record_nonce :: "time \<Rightarrow> id \<Rightarrow> string \<Rightarrow> db \<Rightarrow> db" where
  "record_nonce now node nonce d = d\<lparr> cluster_nonces := cluster_nonces d @ [\<lparr> no_node = node, no_nonce = nonce, no_seen = now \<rparr>] \<rparr>"

definition accept_call :: "corecluster \<Rightarrow> time \<Rightarrow> id \<Rightarrow> string \<Rightarrow> bool \<Rightarrow> db \<Rightarrow> db \<times> (err + unit)" where
  "accept_call core now node nonce pending d = (case (if pending then exec (promote_member node) d else Inr d) of Inl e \<Rightarrow> (d, Inl e)
   | Inr d1 \<Rightarrow> let d2 = attempt (prune_nonces core now) d1 in
     (case exec (record_nonce now node nonce) d2 of
        Inl e \<Rightarrow> (d2, Inl (Err ''cluster replay rejected''))
      | Inr d3 \<Rightarrow> (d3, Inr ())))"

definition call_Authenticate :: "corecluster \<Rightarrow> time \<Rightarrow> string \<Rightarrow> PeerCall \<Rightarrow> db \<Rightarrow> db \<times> (err + AuthenticatedRequest)" where
  "call_Authenticate core now capability c d =
     (if pc_Node c = [] \<or> pc_Timestamp c = None \<or> pc_Nonce c = [] \<or> pc_RequestID c = [] \<or> pc_Signature c = []
      then (d, Inl (Err ''cluster authentication required''))
      else case pc_Protocol c of None \<Rightarrow> (d, Inl (Err ''incompatible cluster protocol''))
      | Some protocol \<Rightarrow> (case pc_Timestamp c of
          Some (Some tm) \<Rightarrow> (case loadMember (pc_Node c) d of Inl e \<Rightarrow> (d, Inl (Err ''cluster member unavailable''))
            | Inr m \<Rightarrow> (case pc_Body c of Inl e \<Rightarrow> (d, Inl e)
              | Inr full \<Rightarrow> let body = take (cc_MaxRequestBytes core + 1) full in
                (case cc_VerifyIncoming core (verify_input core now capability c protocol tm body m) of Inl e \<Rightarrow> (d, Inl e)
                 | Inr pending \<Rightarrow> (case accept_call core now (pc_Node c) (pc_Nonce c) pending d of (d', Inl e) \<Rightarrow> (d', Inl e)
                   | (d', Inr _) \<Rightarrow> (d', Inr \<lparr> rr_NodeID = pc_Node c, rr_RequestID = pc_RequestID c, rr_Capability = capability, rr_Body = body, rr_ReceivedAt = now \<rparr>)))))
        | _ \<Rightarrow> (d, Inl (Err ''invalid cluster timestamp''))))"

record OutgoingCall =
  oc_Target :: string
  oc_Method :: string
  oc_Authorization :: string
  oc_Node :: id
  oc_Timestamp :: time
  oc_Nonce :: string
  oc_RequestID :: string
  oc_Protocol :: int
  oc_Capability :: string
  oc_Signature :: string
  oc_Body :: string

text \<open>
  \<open>t.client.Do\<close> is \<open>send\<close>, \<open>later\<close> the clock after it; \<open>uri\<close> is what \<open>net/http\<close> makes of the target as the request URI, \<open>valid\<close> whether it parses.
\<close>

definition Do :: "corecluster \<Rightarrow> bool \<Rightarrow> time \<Rightarrow> time \<Rightarrow> err + (NodeIdentity \<times> string) \<Rightarrow> err + string \<Rightarrow> err + string \<Rightarrow> (string \<Rightarrow> string option) \<Rightarrow> (OutgoingCall \<Rightarrow> err + 'r) \<Rightarrow> id \<Rightarrow> string \<Rightarrow> string \<Rightarrow> string \<Rightarrow> string \<Rightarrow> db \<Rightarrow> db \<times> (err + 'r)" where
  "Do core insecurePlaintext now later generated drawnNonce drawnID uri send node meth path capability body d =
     (if length body > cc_MaxRequestBytes core then (d, Inl (Err ''cluster request too large''))
      else case loadMember node d of Inl e \<Rightarrow> (d, Inl e)
      | Inr m \<Rightarrow>
        if cm_state m \<noteq> ''active'' then (d, Inl (Err ''cluster member unavailable''))
        else if cm_protocol m \<noteq> cc_ProtocolVersion core then (d, Inl (Err ''incompatible cluster protocol''))
        else case cc_ValidatePublicEndpoint core (cm_endpoint m) insecurePlaintext of Inl e \<Rightarrow> (d, Inl e)
        | Inr _ \<Rightarrow> let target = TrimRight (cm_endpoint m) (CHR ''/'') @ (if has_prefix path ''/'' then path else ''/'' @ path) in
          (case uri target of None \<Rightarrow> (d, Inl (Err ''invalid request''))
           | Some u \<Rightarrow> (case Ensure core generated [] d of (d, Inl e) \<Rightarrow> (d, Inl e)
             | (d, Inr self) \<Rightarrow> (case bindE drawnNonce (\<lambda>nonce. bindE drawnID (\<lambda>rid.
                   send \<lparr> oc_Target = target, oc_Method = meth, oc_Authorization = ''Bearer '' @ cm_outbound m, oc_Node = ni_NodeID self, oc_Timestamp = now,
                     oc_Nonce = nonce, oc_RequestID = rid, oc_Protocol = cc_ProtocolVersion core, oc_Capability = capability,
                     oc_Signature = cc_Signature core (cm_outbound m) meth u now nonce rid capability body, oc_Body = body \<rparr>)) of
                 Inl e \<Rightarrow> (d, Inl e)
               | Inr resp \<Rightarrow> (attempt (\<lambda>d. d\<lparr> cluster_members := upd_where (\<lambda>m. cm_node m = node)
                     (\<lambda>m. m\<lparr> cm_last_seen := Some later, cm_latency := Some ((later - now) div 1000000) \<rparr>) (cluster_members d) \<rparr>) d, Inr resp)))))"

end
