(* ===== verification/Cluster_Safety.thy ===== *)
theory Cluster_Safety
  imports Cluster_Members
begin

text \<open>
  What the cluster components guarantee together: every operation a host serves, in any order. An invitation admits one node; a node is a member
  only when an administrator approved its request; a revoked member comes back only through a new approval; a call is accepted once; and the two
  sides of a completed join hold each other's credentials.
\<close>

section \<open>The operations of a host\<close>

datatype cluster_op =
    CInvite time "err + (id \<times> string \<times> time)" Entry
  | CSubmit bool time "err + (NodeIdentity \<times> string)" "err + id" "err + string" JoinSubmission
  | CDecide time "err + string" id bool Entry
  | CPoll time "err + (NodeIdentity \<times> string)" "err + string" id string
  | CEnable time id bool Entry
  | CRevoke time id Entry
  | CRemove time id Entry
  | CRotate time "err + string" id Entry
  | COutbound id string
  | CCall time string PeerCall

definition quiet :: "db \<times> (err + 'a) \<Rightarrow> db \<times> (err + unit)" where
  "quiet r = (fst r, map_sum id (\<lambda>_. ()) (snd r))"

fun cluster_step :: "corecluster \<Rightarrow> cluster_op \<Rightarrow> db \<Rightarrow> db \<times> (err + unit)" where
  "cluster_step core (CInvite now drawn e) d = quiet (cluster_Invite core now drawn e d)"
| "cluster_step core (CSubmit plain now g i s sub) d = quiet (SubmitJoin core plain now g i s sub d)"
| "cluster_step core (CDecide now drawn i approve e) d = quiet (cluster_Decide core now drawn i approve e d)"
| "cluster_step core (CPoll now g drawn i secret) d = quiet (cluster_Poll core now g drawn i secret d)"
| "cluster_step core (CEnable now node b e) d = member_SetEnabled core now node b e d"
| "cluster_step core (CRevoke now node e) d = member_Revoke core now node e d"
| "cluster_step core (CRemove now node e) d = member_Remove core now node e d"
| "cluster_step core (CRotate now drawn node e) d = quiet (RotateInbound core now drawn node e d)"
| "cluster_step core (COutbound node secret) d = SetOutboundCredential node secret d"
| "cluster_step core (CCall now capability c) d = quiet (call_Authenticate core now capability c d)"

lemma quiet_simps [simp]: "fst (quiet r) = fst r" "quiet r = (d', Inr ()) \<longleftrightarrow> (\<exists>x. r = (d', Inr x))"
  by (cases r; cases "snd r"; auto simp: quiet_def)+

section \<open>What each operation touches\<close>

text \<open>Rows of members edited in place: the nodes stay and a revoked one stays revoked.\<close>

definition tame :: "(member_row \<Rightarrow> member_row) \<Rightarrow> bool" where
  "tame f \<longleftrightarrow> (\<forall>m. cm_node (f m) = cm_node m \<and> (cm_state m = ''revoked'' \<longrightarrow> cm_state (f m) = ''revoked''))"

definition edits_members :: "db \<Rightarrow> db \<Rightarrow> bool" where
  "edits_members d d' \<longleftrightarrow> (\<exists>f. tame f \<and> cluster_members d' = map f (cluster_members d)) \<and> cluster_invitations d' = cluster_invitations d \<and>
     (constraints d \<longrightarrow> constraints d')"

lemma edits_refl [simp]: "edits_members d d"
  by (auto simp: edits_members_def tame_def intro!: exI [of _ id])

lemma upd_where_map: "upd_where P f xs = map (\<lambda>x. if P x then f x else x) xs"
  by (simp add: upd_where_def)

lemma edits_upd:
  assumes "\<And>m. P m \<Longrightarrow> cm_node (f m) = cm_node m \<and> (cm_state m = ''revoked'' \<longrightarrow> cm_state (f m) = ''revoked'')"
    and "cluster_members d' = upd_where P f (cluster_members d)" and "cluster_invitations d' = cluster_invitations d" and "constraints d'"
  shows "edits_members d d'"
  using assms unfolding edits_members_def upd_where_map tame_def by (auto intro!: exI [of _ "\<lambda>x. if P x then f x else x"])

lemma edits_trans: "edits_members d d' \<Longrightarrow> edits_members d' d'' \<Longrightarrow> edits_members d d''"
proof -
  assume a: "edits_members d d'" "edits_members d' d''"
  then obtain f g where "tame f" "cluster_members d' = map f (cluster_members d)" "tame g" "cluster_members d'' = map g (cluster_members d')"
    by (auto simp: edits_members_def)
  then have "tame (g \<circ> f) \<and> cluster_members d'' = map (g \<circ> f) (cluster_members d)" by (auto simp: tame_def)
  then show ?thesis using a unfolding edits_members_def by metis
qed

lemma constraints_identity [simp]: "constraints (d\<lparr> cluster_identity := x \<rparr>) = constraints d"
  by (simp add: constraint_defs)

lemma attempt_product [simp]: "d\<lparr> cluster_identity := cluster_identity (attempt (set_product v) d) \<rparr> = attempt (set_product v) d"
  using attempt_cases [of "set_product v" d] by (auto simp: set_product_def)

lemma ensureWithPrivate_frame: "ensureWithPrivate core g v d = (d', r) \<Longrightarrow> d\<lparr> cluster_identity := cluster_identity d' \<rparr> = d'"
  by (auto simp: ensureWithPrivate_def exec_def split: sum.splits if_splits option.splits)

lemma Ensure_frame: "Ensure core g v d = (d', r) \<Longrightarrow> d\<lparr> cluster_identity := cluster_identity d' \<rparr> = d'"
  by (auto simp: Ensure_def split: prod.splits sum.splits dest: ensureWithPrivate_frame)

lemma edits_identity: "edits_members d (d\<lparr> cluster_identity := x \<rparr>)"
  by (auto simp: edits_members_def tame_def intro!: exI [of _ id])

lemma update_member_Inr:
  "audited_tx now e (update_member hit f msg) d = (d', Inr ()) \<Longrightarrow>
   cluster_members d' = upd_where hit f (cluster_members d) \<and> cluster_invitations d' = cluster_invitations d \<and> constraints d'"
  by (auto simp: audited_tx_Inr update_member_def bindE_eq_Inr exec_eq_Inr Insert_eq_Inr)

lemma edits_audited:
  assumes "\<And>m. hit m \<Longrightarrow> cm_node (f m) = cm_node m \<and> (cm_state m = ''revoked'' \<longrightarrow> cm_state (f m) = ''revoked'')"
    and "audited_tx now e (update_member hit f msg) d = (d', r)"
  shows "edits_members d d'"
proof (cases r)
  case (Inl x)
  then show ?thesis using assms(2) audited_tx_Inl by fastforce
next
  case (Inr u)
  then show ?thesis using assms(2) update_member_Inr [of now e hit f msg d d'] edits_upd [OF assms(1), where d = d and d' = d'] by auto
qed

lemma edits_promote: "constraints (promote_member node d) \<Longrightarrow> edits_members d (promote_member node d)"
  by (rule edits_upd [where P = "\<lambda>m. cm_node m = node" and f = promoted_member]) (auto simp: promoted_member_def promote_member_def)

lemma edits_nonces: "constraints (d\<lparr> cluster_nonces := ns \<rparr>) \<Longrightarrow> edits_members d (d\<lparr> cluster_nonces := ns \<rparr>)"
  by (auto simp: edits_members_def tame_def intro!: exI [of _ id])

lemma edits_prune: "edits_members d (attempt (prune_nonces core now) d)"
  using attempt_cases [of "prune_nonces core now" d] edits_nonces by (auto simp: prune_nonces_def)

text \<open>What a call does: nothing, or the promotion, the pruning of old nonces and the record of the new one.\<close>

lemma accept_call_cases [consumes 1, case_names refused replay accepted]:
  assumes "accept_call core now node nonce pending d = (d', r)"
  obtains "d' = d" "isl r"
    | d1 e where "d1 = d \<or> d1 = promote_member node d \<and> constraints d1" "exec (record_nonce now node nonce) (attempt (prune_nonces core now) d1) = Inl e"
        "d' = attempt (prune_nonces core now) d1" "isl r"
    | d1 where "d1 = d \<or> d1 = promote_member node d \<and> constraints d1" "exec (record_nonce now node nonce) (attempt (prune_nonces core now) d1) = Inr d'" "r = Inr ()"
proof (cases "if pending then exec (promote_member node) d else Inr d")
  case (Inl e)
  then show ?thesis using assms that(1) by (auto simp: accept_call_def)
next
  case (Inr d1)
  have p: "d1 = d \<or> d1 = promote_member node d \<and> constraints d1" using Inr by (auto simp: exec_eq_Inr split: if_splits)
  show ?thesis
  proof (cases "exec (record_nonce now node nonce) (attempt (prune_nonces core now) d1)")
    case (Inl e)
    have "d' = attempt (prune_nonces core now) d1 \<and> isl r" using assms Inr Inl by (auto simp: accept_call_def Let_def)
    then show ?thesis using that(2) [OF p Inl] by blast
  next
    case (Inr d3)
    have "d3 = d' \<and> r = Inr ()" using assms \<open>_ = Inr d1\<close> Inr by (auto simp: accept_call_def Let_def)
    then show ?thesis using that(3) [OF p] Inr by blast
  qed
qed

lemma call_cases:
  assumes "call_Authenticate core now capability c d = (d', r)"
  shows "d' = d \<and> isl r \<or> (\<exists>m pending tm protocol body r'. loadMember (pc_Node c) d = Inr m \<and> pc_Timestamp c = Some (Some tm) \<and>
    cc_VerifyIncoming core (verify_input core now capability c protocol tm body m) = Inr pending \<and>
    accept_call core now (pc_Node c) (pc_Nonce c) pending d = (d', r') \<and> isl r' = isl r)"
  using assms unfolding call_Authenticate_def Let_def
  by (auto split: if_splits option.splits sum.splits prod.splits) force+

lemma edits_promoted: "d1 = d \<or> d1 = promote_member node d \<and> constraints d1 \<Longrightarrow> edits_members d (attempt (prune_nonces core now) d1)"
  using edits_promote edits_prune edits_trans by fastforce

lemma edits_accept:
  assumes "accept_call core now node nonce pending d = (d', r)"
  shows "edits_members d d'"
  using assms
proof (cases rule: accept_call_cases)
  case (accepted d1)
  have "edits_members (attempt (prune_nonces core now) d1) d'"
    using accepted(2) edits_nonces by (auto simp: exec_eq_Inr record_nonce_def)
  then show ?thesis using edits_promoted [OF accepted(1)] edits_trans by blast
qed (auto intro: edits_promoted)

lemma edits_call: "call_Authenticate core now capability c d = (d', r) \<Longrightarrow> edits_members d d'"
  using call_cases [of core now capability c d d' r] edits_accept by auto

text \<open>The operations that only edit members.\<close>

fun member_op :: "cluster_op \<Rightarrow> bool" where
  "member_op (CEnable now node b e) = True" | "member_op (CRevoke now node e) = True" | "member_op (CRotate now drawn node e) = True"
| "member_op (COutbound node secret) = True" | "member_op (CCall now capability c) = True" | "member_op _ = False"

lemma SetOutbound_cases:
  "SetOutboundCredential node secret d = (d', r) \<Longrightarrow> d' = d \<or> (\<exists>hit. cluster_members d' = upd_where hit (\<lambda>m. m\<lparr> cm_outbound := secret, cm_credential_version := cm_credential_version m + 1 \<rparr>) (cluster_members d) \<and>
     cluster_invitations d' = cluster_invitations d \<and> constraints d')"
  by (auto simp: SetOutboundCredential_def Let_def exec_def split: if_splits)

lemma member_op_edits:
  assumes "cluster_step core x d = (d', r)" and "member_op x"
  shows "edits_members d d'"
proof (cases x)
  case (CEnable now node b e)
  then show ?thesis using assms(1) by (auto simp: member_SetEnabled_def Let_def elim!: edits_audited [rotated])
next
  case (CRevoke now node e)
  then show ?thesis using assms(1) by (auto simp: member_Revoke_def elim!: edits_audited [rotated])
next
  case (CRotate now drawn node e)
  then show ?thesis using assms(1) by (auto simp: RotateInbound_def quiet_def split: sum.splits prod.splits elim!: edits_audited [rotated])
next
  case (COutbound node secret)
  then have "SetOutboundCredential node secret d = (d', r)" using assms(1) by simp
  then consider "d' = d" | hit where "cluster_members d' = upd_where hit (\<lambda>m. m\<lparr> cm_outbound := secret, cm_credential_version := cm_credential_version m + 1 \<rparr>) (cluster_members d)"
      "cluster_invitations d' = cluster_invitations d" "constraints d'"
    using SetOutbound_cases by blast
  then show ?thesis
  proof cases
    case (2 hit)
    show ?thesis by (rule edits_upd [OF _ 2]) simp
  qed simp
next
  case (CCall now capability c)
  then show ?thesis using assms(1) edits_call by (auto simp: quiet_def) (metis prod.collapse)
qed (use assms in simp_all)

section \<open>Invitations and requests\<close>

lemma submit_join_Inr:
  assumes "submit_join core now di ds self sub d = Inr (d', rc)"
  obtains v i secret public where "v \<in> set (cluster_invitations d)" "iv_token v = cc_SecretDigest core (js_InvitationToken sub)" "iv_state v = ''pending''"
    "iv_expires v > now" "di = Inr i" "ds = Inr secret" "b64_decode (ni_PublicKey (js_Identity sub)) = Some public" "constraints d'"
    "d' = consume_invitation now (iv_id v) (d\<lparr> cluster_join_requests := cluster_join_requests d @ [new_join core now i secret (iv_id v) public sub] \<rparr>)"
    "rc = \<lparr> jc_RequestID = i, jc_RequestSecret = secret, jc_State = ''pending'' \<rparr>"
proof -
  obtain v where v: "find (\<lambda>v. iv_token v = cc_SecretDigest core (js_InvitationToken sub)) (cluster_invitations d) = Some v"
    using assms by (auto simp: submit_join_def split: option.splits)
  have m: "v \<in> set (cluster_invitations d)" "iv_token v = cc_SecretDigest core (js_InvitationToken sub)" using find_set [OF v] by auto
  show ?thesis
    using assms v that [OF m] by (auto simp: submit_join_def bindE_eq_Inr exec_eq_Inr split: if_splits sum.splits option.splits)
qed

lemma SubmitJoin_cases:
  assumes "SubmitJoin core plain now g di ds sub d = (d', r)"
  shows "d' = d \<and> isl r \<or> (\<exists>d1 x. Ensure core g [] d = (d1, x) \<and> (d' = d1 \<and> isl r \<or>
    (\<exists>self rc. x = Inr self \<and> submit_join core now di ds self sub d1 = Inr (d', rc) \<and> r = Inr rc \<and> \<not> io_fault d1)))"
  using assms by (auto simp: SubmitJoin_def with_tx_def split: sum.splits if_splits prod.splits)

lemma upd_where_nodes: "(\<And>m. key (f m) = key m) \<Longrightarrow> map key (upd_where P f xs) = map key xs"
  by (induction xs) (auto simp: upd_where_map)

lemma cluster_Invite_cases:
  "cluster_Invite core now drawn e d = (d', r) \<Longrightarrow> d' = d \<and> isl r \<or>
   (\<exists>v. cluster_invitations d' = cluster_invitations d @ [v] \<and> cluster_members d' = cluster_members d \<and> constraints d')"
  by (cases r) (auto simp: cluster_Invite_def audited_tx_Inr bindE_eq_Inr exec_eq_Inr Insert_eq_Inr split: sum.splits prod.splits dest: audited_tx_Inl)

lemma upsert_member_frame [simp]: "cluster_invitations (upsert_member m d) = cluster_invitations d" "cluster_join_requests (upsert_member m d) = cluster_join_requests d"
  by (simp_all add: upsert_member_def)

lemma cluster_Decide_cases:
  assumes "cluster_Decide core now drawn i approve e d = (d', r)"
  shows "d' = d \<and> isl r \<or> (cluster_invitations d' = cluster_invitations d \<and> constraints d' \<and>
    (\<exists>q \<in> set (cluster_join_requests d). jr_id q = i \<and> jr_state q = ''pending'' \<and>
      (if approve then \<exists>inbound. cluster_members d' = cluster_members (upsert_member (paired_member now inbound q) d) else cluster_members d' = cluster_members d)))"
proof (cases r)
  case (Inl x)
  then show ?thesis using assms with_tx_rollback by (fastforce simp: cluster_Decide_def)
next
  case (Inr credential)
  obtain q where q: "find (\<lambda>r. jr_id r = i \<and> jr_state r = ''pending'') (cluster_join_requests d) = Some q"
    using assms Inr by (auto simp: cluster_Decide_def with_tx_commit split: option.splits)
  have q': "q \<in> set (cluster_join_requests d)" "jr_id q = i \<and> jr_state q = ''pending''" using find_set [OF q] by auto
  have "cluster_invitations d' = cluster_invitations d \<and> constraints d' \<and>
      (if approve then \<exists>inbound. cluster_members d' = cluster_members (upsert_member (paired_member now inbound q) d) else cluster_members d' = cluster_members d)"
    using assms Inr q by (auto simp: cluster_Decide_def with_tx_commit bindE_eq_Inr exec_eq_Inr Insert_eq_Inr decide_request_def split: if_splits prod.splits)
  then show ?thesis using q' by blast
qed

lemma cluster_Decide_Inl: "cluster_Decide core now drawn i approve e d = (d', r) \<Longrightarrow> isl r \<Longrightarrow> d' = d"
  by (cases r) (auto simp: cluster_Decide_def dest: with_tx_rollback)

lemma edits_inbound: "constraints (set_inbound node h d) \<Longrightarrow> edits_members d (set_inbound node h d)"
  by (rule edits_upd [where P = "\<lambda>m. cm_node m = node" and f = "\<lambda>m. m\<lparr> cm_inbound := h \<rparr>"]) (auto simp: set_inbound_def)

lemma edits_collect: "constraints (collect_request now i d) \<Longrightarrow> edits_members d (collect_request now i d)"
  by (auto simp: edits_members_def tame_def collect_request_def intro!: exI [of _ id])

lemma edits_poll: "poll_join core now drawn host i secret d = Inr (d', res) \<Longrightarrow> edits_members d d'"
  by (auto simp: poll_join_def bindE_eq_Inr exec_eq_Inr split: option.splits if_splits intro: edits_inbound edits_trans [OF edits_inbound edits_collect])

lemma cluster_Poll_edits: "cluster_Poll core now g drawn i secret d = (d', r) \<Longrightarrow> edits_members d d'"
proof -
  assume a: "cluster_Poll core now g drawn i secret d = (d', r)"
  obtain d1 x where e: "Ensure core g [] d = (d1, x)" by fastforce
  have 1: "edits_members d d1" using edits_identity [of d "cluster_identity d1"] Ensure_frame [OF e] by simp
  have "d' = d1 \<or> (\<exists>host res. poll_join core now drawn host i secret d1 = Inr (d', res))"
    using a e by (auto simp: cluster_Poll_def with_tx_def split: sum.splits if_splits)
  then show ?thesis using 1 edits_poll edits_trans by blast
qed

text \<open>A removal only drops rows.\<close>

lemma member_Remove_cases:
  assumes "member_Remove core now node e d = (d', r)"
  shows "d' = d \<and> isl r \<or> set (cluster_members d') \<subseteq> set (cluster_members d) \<and> cluster_invitations d' = cluster_invitations d \<and> constraints d'"
proof (cases r)
  case (Inl x)
  then show ?thesis using assms audited_tx_Inl by (fastforce simp: member_Remove_def)
next
  case (Inr u)
  then show ?thesis using assms
    by (auto simp: member_Remove_def audited_tx_Inr bindE_eq_Inr exec_eq_Inr Insert_eq_Inr del_members_def Let_def split: option.splits)
qed

section \<open>Invitations admit one node\<close>

definition invitation_spent :: "string \<Rightarrow> db \<Rightarrow> bool" where
  "invitation_spent k d = list_ex (\<lambda>v. iv_token v = k \<and> iv_state v \<noteq> ''pending'') (cluster_invitations d)"

fun admits :: "corecluster \<Rightarrow> cluster_op \<Rightarrow> unit \<Rightarrow> string set" where
  "admits core (CSubmit plain now g i s sub) _ = {cc_SecretDigest core (js_InvitationToken sub)}"
| "admits core _ _ = {}"

lemma spent_same: "cluster_invitations d' = cluster_invitations d \<Longrightarrow> invitation_spent k d' = invitation_spent k d"
  by (simp add: invitation_spent_def)

lemma edits_invitations: "edits_members d d' \<Longrightarrow> cluster_invitations d' = cluster_invitations d \<and> (constraints d \<longrightarrow> constraints d')"
  by (simp add: edits_members_def)

lemma spent_consume: "invitation_spent k d \<Longrightarrow> invitation_spent k (consume_invitation now i d)"
  by (auto simp: invitation_spent_def consume_invitation_def list_ex_iff upd_where_map)

lemma spent_consumed:
  assumes "v \<in> set (cluster_invitations d)" and "iv_state v = ''pending''"
  shows "invitation_spent (iv_token v) (consume_invitation now (iv_id v) d)"
proof -
  have "v\<lparr> iv_state := ''consumed'', iv_consumed := Some now \<rparr> \<in> set (cluster_invitations (consume_invitation now (iv_id v) d))"
    using assms unfolding consume_invitation_def by (simp add: set_upd_where del: if_image_distrib) (rule image_eqI [of _ _ v], simp_all)
  then show ?thesis unfolding invitation_spent_def list_ex_iff by (rule bexI [rotated]) simp
qed

lemma pending_not_spent:
  assumes "constraints d" and "v \<in> set (cluster_invitations d)" and "iv_state v = ''pending''"
  shows "\<not> invitation_spent (iv_token v) d"
proof -
  have "distinct (map iv_token (cluster_invitations d))" using assms(1) by (simp add: constraints_def keys_ok_def)
  then have "w = v" if "w \<in> set (cluster_invitations d)" "iv_token w = iv_token v" for w using that assms(2) by (metis distinct_map inj_onD)
  then show ?thesis using assms(3) by (auto simp: invitation_spent_def list_ex_iff)
qed

lemma submit_law:
  assumes c: "constraints d" and s: "SubmitJoin core plain now g di ds sub d = (d', r)"
  shows "constraints d' \<and> cluster_members d' = cluster_members d \<and> (invitation_spent k d \<longrightarrow> invitation_spent k d') \<and>
    (\<not> isl r \<longrightarrow> \<not> invitation_spent (cc_SecretDigest core (js_InvitationToken sub)) d \<and> invitation_spent (cc_SecretDigest core (js_InvitationToken sub)) d')"
proof (cases "d' = d \<and> isl r")
  case True
  then show ?thesis using c by simp
next
  case False
  then obtain d1 x where e: "Ensure core g [] d = (d1, x)" and alt: "d' = d1 \<and> isl r \<or> (\<exists>self rc. submit_join core now di ds self sub d1 = Inr (d', rc))"
    using SubmitJoin_cases [OF s] by blast
  obtain i where "d1 = d\<lparr> cluster_identity := i \<rparr>" using Ensure_frame [OF e] by metis
  then have 1: "constraints d1" "cluster_members d1 = cluster_members d" "cluster_invitations d1 = cluster_invitations d"
    using c by simp_all
  show ?thesis
    using alt
  proof (elim disjE exE conjE)
    assume "d' = d1" "isl r"
    then show ?thesis using 1 spent_same [of d1 d k] by simp
  next
    fix self rc
    assume "submit_join core now di ds self sub d1 = Inr (d', rc)"
    then show ?thesis
    proof (cases rule: submit_join_Inr)
      case (1 v i secret public)
      let ?d2 = "d1\<lparr> cluster_join_requests := cluster_join_requests d1 @ [new_join core now i secret (iv_id v) public sub] \<rparr>"
      have "cluster_invitations ?d2 = cluster_invitations d" "cluster_members d' = cluster_members d"
        using 1(9) \<open>cluster_invitations d1 = _\<close> \<open>cluster_members d1 = _\<close> by (simp_all add: consume_invitation_def)
      then show ?thesis
        using 1 spent_consumed [of v ?d2 now] spent_consume [of k ?d2 now "iv_id v"] pending_not_spent [OF c, of v] \<open>cluster_invitations d1 = _\<close> spent_same [of ?d2 d k]
        by simp
    qed
  qed
qed

lemma member_op_admits: "member_op x \<Longrightarrow> admits core x y = {}"
  by (cases x) simp_all

lemma step_law:
  assumes c: "constraints d" and s: "cluster_step core x d = (d', r)"
  shows "constraints d' \<and> (invitation_spent k d \<longrightarrow> invitation_spent k d') \<and> (\<forall>y. r = Inr y \<longrightarrow> k \<in> admits core x y \<longrightarrow> \<not> invitation_spent k d \<and> invitation_spent k d')"
proof (cases "member_op x")
  case True
  then have "cluster_invitations d' = cluster_invitations d" "constraints d'" using member_op_edits [OF s] c edits_invitations by blast+
  then show ?thesis using member_op_admits [OF True] spent_same [of d' d k] by simp
next
  case False
  then show ?thesis
  proof (cases x)
    case (CInvite now drawn e)
    then have "\<exists>r. cluster_Invite core now drawn e d = (d', r)" using s by (auto simp: quiet_def) (metis prod.collapse)
    then show ?thesis using CInvite c by (auto dest!: cluster_Invite_cases simp: invitation_spent_def)
  next
    case (CSubmit plain now g i t sub)
    then obtain r' where "SubmitJoin core plain now g i t sub d = (d', r')" "isl r' = isl r"
      using s by (cases "SubmitJoin core plain now g i t sub d") (auto simp: quiet_def isl_map_sum)
    then show ?thesis using CSubmit submit_law [OF c, of core plain now g i t sub d' r' k] by auto
  next
    case (CDecide now drawn i approve e)
    then have "\<exists>r. cluster_Decide core now drawn i approve e d = (d', r)" using s by (auto simp: quiet_def) (metis prod.collapse)
    then show ?thesis using CDecide c spent_same [of d' d k] by (auto dest!: cluster_Decide_cases)
  next
    case (CPoll now g drawn i secret)
    then have "\<exists>r. cluster_Poll core now g drawn i secret d = (d', r)" using s by (auto simp: quiet_def) (metis prod.collapse)
    then show ?thesis using CPoll c edits_invitations spent_same [of d' d k] by (auto dest!: cluster_Poll_edits)
  next
    case (CRemove now node e)
    then show ?thesis using s c member_Remove_cases [of core now node e d d' r] spent_same [of d' d k] by auto
  qed simp_all
qed

interpretation invitations: single_use "cluster_step core" constraints "\<lambda>_. True" "admits core" invitation_spent for core
  by unfold_locales (use step_law in blast)+

section \<open>Members are approved\<close>

definition trusted :: "db \<Rightarrow> id set" where
  "trusted d = {cm_node m | m. m \<in> set (cluster_members d) \<and> cm_state m \<noteq> ''revoked''}"

fun approved_node :: "cluster_op \<Rightarrow> db \<Rightarrow> id set" where
  "approved_node (CDecide now drawn i True e) d = jr_node ` {q \<in> set (cluster_join_requests d). jr_id q = i}"
| "approved_node _ d = {}"

fun approvals :: "corecluster \<Rightarrow> cluster_op list \<Rightarrow> db \<Rightarrow> id set" where
  "approvals core [] d = {}"
| "approvals core (x # xs) d = (if isl (snd (cluster_step core x d)) then {} else approved_node x d) \<union> approvals core xs (fst (cluster_step core x d))"

lemma edits_trusted: "edits_members d d' \<Longrightarrow> trusted d' \<subseteq> trusted d"
  by (fastforce simp: edits_members_def tame_def trusted_def)

lemma upsert_trusted: "trusted (upsert_member m d) \<subseteq> insert (cm_node m) (trusted d)"
  by (auto simp: trusted_def upsert_member_def upd_where_map repaired_member_def split: if_splits)

lemma step_trusted:
  assumes c: "constraints d" and s: "cluster_step core x d = (d', r)"
  shows "trusted d' \<subseteq> trusted d \<union> (if isl r then {} else approved_node x d)"
proof (cases "member_op x")
  case True
  then show ?thesis using member_op_edits [OF s] edits_trusted by blast
next
  case False
  then show ?thesis
  proof (cases x)
    case (CInvite now drawn e)
    then have "\<exists>r. cluster_Invite core now drawn e d = (d', r)" using s by (auto simp: quiet_def) (metis prod.collapse)
    then show ?thesis using CInvite c by (auto dest!: cluster_Invite_cases simp: trusted_def)
  next
    case (CSubmit plain now g i t sub)
    then have "\<exists>r. SubmitJoin core plain now g i t sub d = (d', r)" using s by (auto simp: quiet_def) (metis prod.collapse)
    then show ?thesis using submit_law [OF c] by (auto simp: trusted_def)
  next
    case (CDecide now drawn i approve e)
    then obtain r' where "cluster_Decide core now drawn i approve e d = (d', r')" "isl r' = isl r"
      using s by (cases "cluster_Decide core now drawn i approve e d") (auto simp: quiet_def isl_map_sum)
    then consider "d' = d" | q where "q \<in> set (cluster_join_requests d)" "jr_id q = i" "\<not> isl r"
        "if approve then \<exists>inbound. cluster_members d' = cluster_members (upsert_member (paired_member now inbound q) d) else cluster_members d' = cluster_members d"
      using cluster_Decide_cases [of core now drawn i approve e d d' r'] cluster_Decide_Inl [of core now drawn i approve e d d' r'] by blast
    then show ?thesis
    proof cases
      case (2 q)
      show ?thesis
      proof (cases approve)
        case True
        then obtain inbound where "cluster_members d' = cluster_members (upsert_member (paired_member now inbound q) d)" using 2(4) by auto
        then have "trusted d' \<subseteq> insert (jr_node q) (trusted d)"
          using upsert_trusted [of "paired_member now inbound q" d] by (simp add: trusted_def paired_member_def)
        then show ?thesis using True 2 CDecide by auto
      next
        case False
        then show ?thesis using 2(4) by (simp add: trusted_def)
      qed
    qed simp
  next
    case (CPoll now g drawn i secret)
    then have "\<exists>r. cluster_Poll core now g drawn i secret d = (d', r)" using s by (auto simp: quiet_def) (metis prod.collapse)
    then show ?thesis using edits_trusted cluster_Poll_edits by blast
  next
    case (CRemove now node e)
    then show ?thesis using s member_Remove_cases [of core now node e d d' r] by (auto simp: trusted_def)
  qed simp_all
qed

lemma run_trusted:
  "constraints d \<Longrightarrow> trusted (fst (run (cluster_step core) xs d)) \<subseteq> trusted d \<union> approvals core xs d"
proof (induction xs arbitrary: d)
  case (Cons x xs)
  obtain d' r where s: "cluster_step core x d = (d', r)" by fastforce
  have "constraints d'" using step_law [OF Cons.prems s] by blast
  then show ?case using Cons.IH [of d'] step_trusted [OF Cons.prems s] s by (auto simp: case_prod_beta split: if_splits)
qed simp

section \<open>Calls are accepted once\<close>

type_synonym call = "time \<times> string \<times> PeerCall"

fun call_step :: "corecluster \<Rightarrow> call \<Rightarrow> db \<Rightarrow> db \<times> (err + AuthenticatedRequest)" where
  "call_step core (now, capability, c) d = call_Authenticate core now capability c d"

fun call_key :: "call \<Rightarrow> AuthenticatedRequest \<Rightarrow> (id \<times> string) set" where
  "call_key (now, capability, c) _ = {(pc_Node c, pc_Nonce c)}"

fun call_within :: "corecluster \<Rightarrow> time \<Rightarrow> call \<Rightarrow> bool" where
  "call_within core start (now, capability, c) \<longleftrightarrow> start \<le> now \<and> now + second \<le> start + 2 * cc_ClockSkew core"

definition call_seen :: "time \<Rightarrow> id \<times> string \<Rightarrow> db \<Rightarrow> bool" where
  "call_seen start k d = list_ex (\<lambda>n. no_node n = fst k \<and> no_nonce n = snd k \<and> start \<le> no_seen n) (cluster_nonces d)"

lemma call_seen_iff: "call_seen start k d \<longleftrightarrow> (\<exists>n \<in> set (cluster_nonces d). no_node n = fst k \<and> no_nonce n = snd k \<and> start \<le> no_seen n)"
  by (simp add: call_seen_def list_ex_iff)

lemma recent_not_pruned:
  assumes "n \<in> set (cluster_nonces d)" and "start \<le> no_seen n" and "now + second \<le> start + 2 * cc_ClockSkew core"
  shows "n \<in> set (cluster_nonces (attempt (prune_nonces core now) d))"
  using assms text_less_bound [of "no_seen n" "now - 2 * cc_ClockSkew core"] attempt_cases [of "prune_nonces core now" d]
  by (auto simp: prune_nonces_def)

lemma promoted_nonces: "d1 = d \<or> d1 = promote_member node d \<and> constraints d1 \<Longrightarrow> cluster_nonces d1 = cluster_nonces d"
  by (auto simp: promote_member_def)

lemma accept_call_law:
  assumes c: "constraints d" and a: "accept_call core now node nonce pending d = (d', r)"
    and w: "start \<le> now" "now + second \<le> start + 2 * cc_ClockSkew core"
  shows "constraints d' \<and> (call_seen start k d \<longrightarrow> call_seen start k d') \<and> (\<not> isl r \<longrightarrow> \<not> call_seen start (node, nonce) d \<and> call_seen start (node, nonce) d')"
proof -
  have c': "constraints d'" using edits_accept [OF a] c edits_invitations by blast
  have kept: "n \<in> set (cluster_nonces (attempt (prune_nonces core now) d1))"
    if "d1 = d \<or> d1 = promote_member node d \<and> constraints d1" "n \<in> set (cluster_nonces d)" "start \<le> no_seen n" for d1 n
    using recent_not_pruned [OF _ that(3) w(2), of d1] promoted_nonces [OF that(1)] that(2) by simp
  show ?thesis
    using a
  proof (cases rule: accept_call_cases)
    case refused
    then show ?thesis using c by simp
  next
    case (replay d1 e)
    then show ?thesis using c' kept [OF replay(1)] by (auto simp: call_seen_iff)
  next
    case (accepted d1)
    let ?d2 = "attempt (prune_nonces core now) d1" and ?n = "\<lparr> no_node = node, no_nonce = nonce, no_seen = now \<rparr>"
    have d': "cluster_nonces d' = cluster_nonces ?d2 @ [?n]" using accepted(2) by (auto simp: exec_eq_Inr record_nonce_def)
    have "distinct (map (\<lambda>n. (no_node n, no_nonce n)) (cluster_nonces d'))" using c' by (simp add: constraints_def keys_ok_def)
    then have fresh: "(no_node n, no_nonce n) \<noteq> (node, nonce)" if "n \<in> set (cluster_nonces ?d2)" for n using that d' by auto
    have "\<not> call_seen start (node, nonce) d" using kept [OF accepted(1)] fresh by (auto simp: call_seen_iff)
    moreover have "call_seen start (node, nonce) d'" using d' w(1) by (auto simp: call_seen_iff)
    moreover have "call_seen start k d \<Longrightarrow> call_seen start k d'" using d' kept [OF accepted(1)] by (auto simp: call_seen_iff)
    ultimately show ?thesis using c' by blast
  qed
qed

lemma call_law:
  assumes c: "constraints d" and a: "call_step core x d = (d', r)" and w: "call_within core start x"
  shows "constraints d' \<and> (call_seen start k d \<longrightarrow> call_seen start k d') \<and> (\<forall>y. r = Inr y \<longrightarrow> k \<in> call_key x y \<longrightarrow> \<not> call_seen start k d \<and> call_seen start k d')"
proof -
  obtain now capability cl where x: "x = (now, capability, cl)" by (cases x)
  have "call_Authenticate core now capability cl d = (d', r)" using a x by simp
  from call_cases [OF this] show ?thesis
  proof (elim disjE exE conjE)
    assume "d' = d" "isl r"
    then show ?thesis using c by auto
  next
    fix pending r'
    assume r': "accept_call core now (pc_Node cl) (pc_Nonce cl) pending d = (d', r')" "isl r' = isl r"
    show ?thesis using accept_call_law [OF c r'(1), of start] w x r'(2) by auto
  qed
qed

interpretation calls: single_use "call_step core" constraints "call_within core start" call_key "call_seen start" for core start
  by unfold_locales (use call_law in blast)+

section \<open>The two sides of a join agree\<close>

lemma upsert_member_row:
  assumes "cm_state m = ''active''"
  shows "\<exists>m' \<in> set (cluster_members (upsert_member m d)). cm_node m' = cm_node m \<and> cm_inbound m' = cm_inbound m \<and> cm_outbound m' = cm_outbound m \<and> cm_state m' = ''active''"
proof (cases "list_ex (\<lambda>o'. cm_node o' = cm_node m) (cluster_members d)")
  case True
  then obtain o' where "o' \<in> set (cluster_members d)" "cm_node o' = cm_node m" by (auto simp: list_ex_iff)
  then have "repaired_member m o' \<in> set (cluster_members (upsert_member m d))"
    using True unfolding upsert_member_def by (simp add: set_upd_where del: if_image_distrib) (rule image_eqI [of _ _ o'], simp_all)
  then show ?thesis using \<open>cm_node o' = cm_node m\<close> by (intro bexI) (simp_all add: repaired_member_def)
next
  case False
  then show ?thesis using assms by (auto simp: upsert_member_def)
qed

lemma set_inbound_row:
  assumes "m \<in> set (cluster_members d)"
  shows "m\<lparr> cm_inbound := h \<rparr> \<in> set (cluster_members (set_inbound (cm_node m) h d))"
  using assms unfolding set_inbound_def by (simp add: set_upd_where del: if_image_distrib) (rule image_eqI [of _ _ m], simp_all)

lemma find_unique:
  assumes "distinct (map key xs)" and "x \<in> set xs" and "P x" and "\<And>y. P y \<Longrightarrow> key y = key x"
  shows "find P xs = Some x"
proof (cases "find P xs")
  case None
  then show ?thesis using assms(2,3) by (auto simp: find_None_iff)
next
  case (Some y)
  then have "y \<in> set xs" "key y = key x" using find_set [OF Some] assms(4) by auto
  then show ?thesis using Some assms(1,2) by (metis distinct_map inj_onD)
qed

text \<open>What each step of a completed join leaves behind.\<close>

lemma submitted_request:
  assumes "SubmitJoin core plain now g (Inr rid) (Inr rsecret) sub h = (h', Inr receipt)"
  shows "\<exists>q \<in> set (cluster_join_requests h'). jr_id q = rid \<and> jr_secret q = cc_SecretDigest core rsecret \<and> jr_node q = ni_NodeID (js_Identity sub) \<and>
    jr_credential q = js_CredentialForHost sub \<and> jr_state q = ''pending'' \<and> jr_consumed q = None" and "constraints h'" and "receipt = \<lparr> jc_RequestID = rid, jc_RequestSecret = rsecret, jc_State = ''pending'' \<rparr>"
proof -
  obtain d1 self where "submit_join core now (Inr rid) (Inr rsecret) self sub d1 = Inr (h', receipt)"
    using SubmitJoin_cases [OF assms] by auto
  then show "\<exists>q \<in> set (cluster_join_requests h'). jr_id q = rid \<and> jr_secret q = cc_SecretDigest core rsecret \<and> jr_node q = ni_NodeID (js_Identity sub) \<and>
      jr_credential q = js_CredentialForHost sub \<and> jr_state q = ''pending'' \<and> jr_consumed q = None" "constraints h'"
      "receipt = \<lparr> jc_RequestID = rid, jc_RequestSecret = rsecret, jc_State = ''pending'' \<rparr>"
    by (cases rule: submit_join_Inr; simp add: consume_invitation_def new_join_def Let_def)+
qed

lemma approved_request:
  assumes "cluster_Decide core now drawn rid True e h = (h', Inr c)" and "constraints h" and q: "q \<in> set (cluster_join_requests h)" "jr_id q = rid" "jr_state q = ''pending''"
  shows "\<exists>m \<in> set (cluster_members h'). cm_node m = jr_node q \<and> cm_outbound m = jr_credential q \<and> cm_state m = ''active''"
    and "q\<lparr> jr_state := ''approved'', jr_decided := Some now \<rparr> \<in> set (cluster_join_requests h')" and "constraints h'"
proof -
  have k: "distinct (map jr_id (cluster_join_requests h))" using assms(2) by (simp add: constraints_def keys_ok_def)
  have f: "find (\<lambda>r. jr_id r = rid \<and> jr_state r = ''pending'') (cluster_join_requests h) = Some q"
    using find_unique [OF k q(1), of "\<lambda>r. jr_id r = rid \<and> jr_state r = ''pending''"] q(2,3) by auto
  let ?m = "paired_member now (cc_SecretDigest core c) q"
  have h': "cluster_members h' = cluster_members (upsert_member ?m h)" "cluster_join_requests h' = cluster_join_requests (decide_request now rid ''approved'' h)" "constraints h'"
    using assms(1) f by (auto simp: cluster_Decide_def with_tx_commit bindE_eq_Inr exec_eq_Inr Insert_eq_Inr decide_request_def split: prod.splits)
  show "\<exists>m \<in> set (cluster_members h'). cm_node m = jr_node q \<and> cm_outbound m = jr_credential q \<and> cm_state m = ''active''"
    unfolding h'(1) using upsert_member_row [of ?m h] by (auto simp: paired_member_def)
  show "q\<lparr> jr_state := ''approved'', jr_decided := Some now \<rparr> \<in> set (cluster_join_requests h')"
    using q unfolding h'(2) decide_request_def by (simp add: set_upd_where del: if_image_distrib) (rule image_eqI [of _ _ q], simp_all)
  show "constraints h'" by (rule h'(3))
qed

lemma collected_request:
  assumes "cluster_Poll core now g (Inr c) rid rsecret h = (h', Inr result)" and "constraints h"
    and q: "q \<in> set (cluster_join_requests h)" "jr_id q = rid" "jr_secret q = cc_SecretDigest core rsecret" "jr_state q = ''approved''" "jr_consumed q = None"
    and m: "m \<in> set (cluster_members h)" "cm_node m = jr_node q"
  shows "m\<lparr> cm_inbound := cc_SecretDigest core c \<rparr> \<in> set (cluster_members h')"
    and "\<exists>host. Ensure core g [] h = (h\<lparr> cluster_identity := cluster_identity h' \<rparr>, Inr host) \<and> result = \<lparr> pl_State = ''approved'', pl_Remote = Some host, pl_Credential = c \<rparr>"
proof -
  obtain d1 host where e: "Ensure core g [] h = (d1, Inr host)" and p: "poll_join core now (Inr c) host rid rsecret d1 = Inr (h', result)"
    using assms(1) by (auto simp: cluster_Poll_def with_tx_commit split: prod.splits sum.splits)
  obtain i where d1: "d1 = h\<lparr> cluster_identity := i \<rparr>" using Ensure_frame [OF e] by metis
  have k: "distinct (map jr_id (cluster_join_requests h))" using assms(2) by (simp add: constraints_def keys_ok_def)
  have f: "find (\<lambda>r. jr_id r = rid \<and> jr_secret r = cc_SecretDigest core rsecret) (cluster_join_requests d1) = Some q"
    using find_unique [OF k q(1), of "\<lambda>r. jr_id r = rid \<and> jr_secret r = cc_SecretDigest core rsecret"] q(2,3) d1 by auto
  have "list_ex (\<lambda>m. cm_node m = jr_node q) (cluster_members d1)" using m d1 by (auto simp: list_ex_iff)
  then have h': "h' = collect_request now rid (set_inbound (jr_node q) (cc_SecretDigest core c) d1)" "result = \<lparr> pl_State = ''approved'', pl_Remote = Some host, pl_Credential = c \<rparr>"
    using p f q(4,5) by (auto simp: poll_join_def bindE_eq_Inr exec_eq_Inr)
  show "m\<lparr> cm_inbound := cc_SecretDigest core c \<rparr> \<in> set (cluster_members h')"
    using set_inbound_row [of m d1 "cc_SecretDigest core c"] m d1 by (simp add: h'(1) collect_request_def)
  show "\<exists>host. Ensure core g [] h = (h\<lparr> cluster_identity := cluster_identity h' \<rparr>, Inr host) \<and> result = \<lparr> pl_State = ''approved'', pl_Remote = Some host, pl_Credential = c \<rparr>"
    using e h' d1 by (simp add: collect_request_def set_inbound_def)
qed

lemma begun_outbound:
  assumes "BeginOutbound core plain now g (Inr cred) (Inr oid) post url token j = (j', Inr oj)" and "Ensure core g [] j = (j0, Inr self)"
    and "\<And>u. post u \<lparr> js_InvitationToken = token, js_Identity = self, js_CredentialForHost = cred \<rparr> = Inr receipt"
  shows "\<exists>o' \<in> set (cluster_outbound_joins j'). oj_id o' = oid \<and> oj_request o' = jc_RequestID receipt \<and> oj_secret o' = jc_RequestSecret receipt \<and>
    oj_credential o' = cred \<and> oj_state o' = ''pending''" and "constraints j'"
  using assms by (auto simp: BeginOutbound_def Let_def bindE_eq_Inr exec_eq_Inr split: sum.splits if_splits prod.splits)

lemma collected_outbound:
  assumes "CollectOutbound core now fetch oid j = (j', Inr oj)" and "constraints j"
    and o': "o' \<in> set (cluster_outbound_joins j)" "oj_id o' = oid" "oj_state o' = ''pending''"
    and "fetch (oj_url o') (oj_request o') (oj_secret o') = Inr \<lparr> pl_State = ''approved'', pl_Remote = Some host, pl_Credential = c \<rparr>"
  shows "\<exists>m \<in> set (cluster_members j'). cm_node m = ni_NodeID host \<and> cm_inbound m = cc_SecretDigest core (oj_credential o') \<and> cm_outbound m = c \<and> cm_state m = ''active''"
proof -
  have k: "distinct (map oj_id (cluster_outbound_joins j))" using assms(2) by (simp add: constraints_def keys_ok_def)
  have f: "find (\<lambda>j. oj_id j = oid) (cluster_outbound_joins j) = Some o'"
    using find_unique [OF k o'(1), of "\<lambda>j. oj_id j = oid"] o'(2) by auto
  obtain d where a: "AcceptRemote core now host c (oj_credential o') j = (d, Inr ())" and j': "cluster_members j' = cluster_members d"
    using assms(1,6) f o'(3) by (auto simp: CollectOutbound_def exec_eq_Inr finish_outbound_def split: sum.splits if_splits prod.splits)
  obtain m where m: "d = upsert_member m j" "cm_node m = ni_NodeID host" "cm_inbound m = cc_SecretDigest core (oj_credential o')" "cm_outbound m = c" "cm_state m = ''active''"
    using a by (auto simp: AcceptRemote_def exec_eq_Inr split: sum.splits if_splits option.splits)
  show ?thesis unfolding j' m(1) using upsert_member_row [OF m(5), of j] m by auto
qed

text \<open>
  The seal on a collected result is the presence of a nonce of the member, and nonces are pruned: once every nonce of an authenticated member is older than two clock
  skews and some call has pruned them, a poll with the request secret replaces the credential the member lives on.
\<close>

lemma constraints_prune: "constraints d \<Longrightarrow> constraints (prune_nonces core now d)"
  unfolding prune_nonces_def by (simp add: del_simps)

lemma constraints_set_inbound: "constraints d \<Longrightarrow> constraints (set_inbound node h d)"
  unfolding set_inbound_def by (auto simp: constraint_defs Let_def list_all_iff set_upd_where)

lemma idle_member_credential_replaced:
  assumes c: "constraints d" and io: "\<not> io_fault d" and i: "cluster_identity d = Some i"
    and q: "q \<in> set (cluster_join_requests d)" "jr_id q = rid" "jr_secret q = cc_SecretDigest core rsecret" "jr_state q = ''consumed''" "jr_consumed q \<noteq> None"
    and idle: "\<And>n. n \<in> set (cluster_nonces d) \<Longrightarrow> no_node n = jr_node q \<Longrightarrow> text_less (no_seen n) (now - 2 * cc_ClockSkew core)"
    and m: "m \<in> set (cluster_members d)" "cm_node m = jr_node q"
  shows "\<exists>d' result. cluster_Poll core t g (Inr credential) rid rsecret (prune_nonces core now d) = (d', Inr result) \<and>
    m\<lparr> cm_inbound := cc_SecretDigest core credential \<rparr> \<in> set (cluster_members d')"
proof -
  let ?d = "prune_nonces core now d"
  have e: "Ensure core g [] ?d = (?d, Inr (identity_of i))"
    using i io by (simp add: Ensure_def ensureWithPrivate_def loadWithPrivate_def prune_nonces_def bindE_def)
  have k: "distinct (map jr_id (cluster_join_requests d))" using c by (simp add: constraints_def keys_ok_def)
  have f: "find (\<lambda>r. jr_id r = rid \<and> jr_secret r = cc_SecretDigest core rsecret) (cluster_join_requests ?d) = Some q"
    using find_unique [OF k q(1), of "\<lambda>r. jr_id r = rid \<and> jr_secret r = cc_SecretDigest core rsecret"] q(2,3) by (auto simp: prune_nonces_def)
  have n: "count_where (\<lambda>n. no_node n = jr_node q) (cluster_nonces ?d) = 0"
    using idle by (auto simp: count_where_def filter_empty_conv prune_nonces_def)
  have "poll_join core t (Inr credential) (identity_of i) rid rsecret ?d =
      Inr (set_inbound (jr_node q) (cc_SecretDigest core credential) ?d, \<lparr> pl_State = ''approved'', pl_Remote = Some (identity_of i), pl_Credential = credential \<rparr>)"
    using f n q io constraints_set_inbound [OF constraints_prune [OF c, of core now]] by (simp add: poll_join_def exec_ok prune_nonces_def bindE_def)
  moreover have "\<not> io_fault ?d" using io by (simp add: prune_nonces_def)
  ultimately have "cluster_Poll core t g (Inr credential) rid rsecret ?d =
      (set_inbound (jr_node q) (cc_SecretDigest core credential) ?d, Inr \<lparr> pl_State = ''approved'', pl_Remote = Some (identity_of i), pl_Credential = credential \<rparr>)"
    using e by (simp add: cluster_Poll_def with_tx_def)
  moreover have "m \<in> set (cluster_members ?d)" using m by (simp add: prune_nonces_def)
  ultimately show ?thesis using set_inbound_row [of m ?d] m(2) by metis
qed

section \<open>A sample\<close>

definition sample_core :: corecluster where
  "sample_core = \<lparr> cc_ProtocolVersion = 1, cc_PairingLifetime = 10 * minute, cc_RotationLifetime = 10 * minute, cc_ClockSkew = 5 * minute, cc_MaxRequestBytes = 100,
     cc_SecretDigest = (\<lambda>s. ''#'' @ s), cc_NormalizeCapabilities = (\<lambda>cs. cs), cc_ValidatePublicEndpoint = (\<lambda>_ _. Inr ()),
     cc_ValidateJoinSubmission = (\<lambda>_ _ _. Inr ()), cc_Compatible = (\<lambda>_ _ _ _ _. True),
     cc_VerifyIncoming = (\<lambda>v. if am_State (vi_Material v) = ''active'' \<and> ''#'' @ vi_PresentedSecret v = am_CurrentHash (vi_Material v) then Inr False else Inl (Err ''refused'')),
     cc_Signature = (\<lambda>_ _ _ _ _ _ _ _. []), cc_Fingerprint = (\<lambda>k. k), cc_audit = (\<lambda>_. ''cluster'') \<rparr>"

definition sample_identity :: "id \<Rightarrow> identity_row" where
  "sample_identity n = \<lparr> ir_node = n, ir_installation = ''i'' @ n, ir_name = n, ir_endpoint = ''https://'' @ n, ir_public = ''k'', ir_private = ''p'', ir_caps = Some [''replication''],
     ir_protocol = 1, ir_product = [], ir_created = 0, ir_paired = None, ir_seen = None, ir_revoked = None \<rparr>"

definition sample_host :: db where
  "sample_host = empty_db\<lparr> cluster_identity := Some (sample_identity ''h''), cluster_invitations := [\<lparr> iv_id = ''v'', iv_token = ''#t'', iv_state = ''pending'',
     iv_expires = minute, iv_created = 0, iv_consumed = None \<rparr>] \<rparr>"

definition sample_joiner :: db where
  "sample_joiner = empty_db\<lparr> cluster_identity := Some (sample_identity ''j'') \<rparr>"

definition sample_entry :: Entry where
  "sample_entry = \<lparr> en_ActorID = 0, en_Action = [], en_ObjectType = [], en_ObjectID = [], en_Detail = [] \<rparr>"

definition sample_credential :: string where
  "sample_credential = replicate 32 (CHR ''c'')"

definition sample_submission :: JoinSubmission where
  "sample_submission = \<lparr> js_InvitationToken = ''t'', js_Identity = identity_of (sample_identity ''j''), js_CredentialForHost = sample_credential \<rparr>"

definition sample_joined :: "db \<times> (err + JoinReceipt)" where
  "sample_joined = SubmitJoin sample_core False 0 (Inl IOFault) (Inr ''r'') (Inr ''s'') sample_submission sample_host"

lemma sample_members_ok: "constraints sample_host" "constraints sample_joiner"
  by (simp_all add: sample_host_def sample_joiner_def empty_db_def constraint_defs)

definition sample_decided :: "db \<times> (err + string)" where
  "sample_decided = cluster_Decide sample_core 1 (Inr ''x'') ''r'' True sample_entry (fst sample_joined)"

definition sample_polled :: "db \<times> (err + PairingResult)" where
  "sample_polled = cluster_Poll sample_core 2 (Inl IOFault) (Inr ''live'') ''r'' ''s'' (fst sample_decided)"

definition sample_begun :: "db \<times> (err + OutboundJoin)" where
  "sample_begun = BeginOutbound sample_core False 0 (Inl IOFault) (Inr sample_credential) (Inr ''o'') (\<lambda>_ _. snd sample_joined) ''https://h'' ''t'' sample_joiner"

definition sample_collected :: "db \<times> (err + OutboundJoin)" where
  "sample_collected = CollectOutbound sample_core 3 (\<lambda>_ _ _. snd sample_polled) ''o'' (fst sample_begun)"

lemma sample_join_ok: "\<not> isl (snd sample_joined)" "\<not> isl (snd sample_decided)" "\<not> isl (snd sample_polled)" "\<not> isl (snd sample_begun)" "\<not> isl (snd sample_collected)"
  by code_simp+

lemma sample_Inr: "\<not> isl (snd x) \<Longrightarrow> x = (fst x, Inr (projr (snd x)))"
  by (cases x; cases "snd x") auto

lemma Ensure_self: "Ensure core g v d = (d', Inr i) \<Longrightarrow> \<exists>row. cluster_identity d' = Some row \<and> ir_node row = ni_NodeID i"
  using attempt_cases [of "set_product v" d]
  by (auto simp: Ensure_def ensureWithPrivate_def loadWithPrivate_def identity_of_def set_product_def bindE_eq_Inr
      split: prod.splits sum.splits if_splits option.splits)

section \<open>Properties\<close>

text \<open>
  An invitation admits one node: whatever a host is asked to do and in whatever order, of all the join requests submitted with one invitation token at most one is
  accepted.
\<close>

theorem invitation_admits_one_node:
  assumes "constraints d"
  shows "redemptions (admits core) (cc_SecretDigest core token) xs (snd (run (cluster_step core) xs d)) \<le> 1"
  using assms by (intro invitations.run_once) (simp_all add: list_all_iff)

theorem invitation_admits_one_node_witness:
  "let xs = [CSubmit False 0 (Inl IOFault) (Inr ''r'') (Inr ''s'') sample_submission, CSubmit False 1 (Inl IOFault) (Inr ''q'') (Inr ''z'') sample_submission]
   in redemptions (admits sample_core) (cc_SecretDigest sample_core ''t'') xs (snd (run (cluster_step sample_core) xs sample_host)) \<le> 1"
  unfolding Let_def by (rule invitation_admits_one_node) (rule sample_members_ok)




definition sample_call :: PeerCall where
  "sample_call = \<lparr> pc_Node = ''j'', pc_Timestamp = Some (Some 5), pc_Nonce = ''n'', pc_RequestID = ''q'', pc_Signature = ''sig'', pc_Protocol = Some 1, pc_Capability = ''cluster.health'',
     pc_Authorization = ''Bearer live'', pc_Method = ''GET'', pc_URI = ''/x'', pc_Body = Inr [] \<rparr>"


text \<open>
  When a join has run to its end, with the joining node's submission accepted, an administrator's approval and the collection of the result, both nodes hold each
  other as active members, and each accepts exactly the credential the other presents: the digest a node stores for its peer is that of the
  secret the peer was given.
\<close>

theorem joined_nodes_share_credentials:
  assumes self: "Ensure core gj [] j = (j0, Inr self)"
    and sub: "SubmitJoin core plain t1 gh (Inr rid) (Inr rsecret) \<lparr> js_InvitationToken = token, js_Identity = self, js_CredentialForHost = credJ \<rparr> h = (h1, Inr receipt)"
    and post: "\<And>u. post u \<lparr> js_InvitationToken = token, js_Identity = self, js_CredentialForHost = credJ \<rparr> = Inr receipt"
    and begin': "BeginOutbound core plain' t2 gj (Inr credJ) (Inr oid) post url token j = (j1, Inr oj)"
    and decide: "cluster_Decide core t3 drawn rid True e h1 = (h2, Inr c)"
    and poll: "cluster_Poll core t4 gh' (Inr credH) rid rsecret h2 = (h3, Inr result)"
    and fetch: "\<And>u. fetch u rid rsecret = Inr result"
    and collect: "CollectOutbound core t5 fetch oid j1 = (j2, Inr oj')"
  shows "\<exists>mh \<in> set (cluster_members h3). \<exists>mj \<in> set (cluster_members j2).
    cm_node mh = ni_NodeID self \<and> (\<exists>i. cluster_identity h3 = Some i \<and> ir_node i = cm_node mj) \<and> cm_state mh = ''active'' \<and> cm_state mj = ''active'' \<and>
    cm_inbound mh = cc_SecretDigest core (cm_outbound mj) \<and> cm_inbound mj = cc_SecretDigest core (cm_outbound mh)"
proof -
  note s = submitted_request [OF sub]
  obtain q where q: "q \<in> set (cluster_join_requests h1)" "jr_id q = rid" "jr_secret q = cc_SecretDigest core rsecret" "jr_node q = ni_NodeID self" "jr_credential q = credJ"
      "jr_state q = ''pending''" "jr_consumed q = None"
    using s(1) by auto
  note a = approved_request [OF decide s(2) q(1,2,6)]
  obtain m where m: "m \<in> set (cluster_members h2)" "cm_node m = jr_node q" "cm_outbound m = credJ" "cm_state m = ''active''" using a(1) q(5) by auto
  note p = collected_request [OF poll a(3,2), of m]
  have mh: "m\<lparr> cm_inbound := cc_SecretDigest core credH \<rparr> \<in> set (cluster_members h3)" using p(1) q m by simp
  obtain host where host: "Ensure core gh' [] h2 = (h2\<lparr> cluster_identity := cluster_identity h3 \<rparr>, Inr host)"
      "result = \<lparr> pl_State = ''approved'', pl_Remote = Some host, pl_Credential = credH \<rparr>" using p(2) q m by auto
  obtain i where i: "cluster_identity h3 = Some i" "ir_node i = ni_NodeID host" using Ensure_self [OF host(1)] by auto
  obtain o' where o': "o' \<in> set (cluster_outbound_joins j1)" "oj_id o' = oid" "oj_request o' = rid" "oj_secret o' = rsecret" "oj_credential o' = credJ" "oj_state o' = ''pending''"
    using begun_outbound(1) [OF begin' self post] s(3) by auto
  have "fetch (oj_url o') (oj_request o') (oj_secret o') = Inr \<lparr> pl_State = ''approved'', pl_Remote = Some host, pl_Credential = credH \<rparr>"
    using fetch o'(3,4) host(2) by simp
  then obtain mj where mj: "mj \<in> set (cluster_members j2)" "cm_node mj = ni_NodeID host" "cm_inbound mj = cc_SecretDigest core credJ" "cm_outbound mj = credH" "cm_state mj = ''active''"
    using collected_outbound [OF collect begun_outbound(2) [OF begin' self post] o'(1,2,6)] o'(5) by auto
  show ?thesis by (rule bexI [OF _ mh], rule bexI [OF _ mj(1)]) (use i m q mj in simp)
qed

theorem joined_nodes_share_credentials_witness:
  "\<exists>mh \<in> set (cluster_members (fst sample_polled)). \<exists>mj \<in> set (cluster_members (fst sample_collected)).
    cm_node mh = ''j'' \<and> cm_inbound mh = cc_SecretDigest sample_core (cm_outbound mj) \<and> cm_inbound mj = cc_SecretDigest sample_core (cm_outbound mh)"
proof -
  let ?self = "identity_of (sample_identity ''j'')"
  have self: "Ensure sample_core (Inl IOFault) [] sample_joiner = (sample_joiner, Inr ?self)"
    by (simp add: Ensure_def ensureWithPrivate_def loadWithPrivate_def sample_joiner_def empty_db_def bindE_def)
  have 1: "SubmitJoin sample_core False 0 (Inl IOFault) (Inr ''r'') (Inr ''s'') \<lparr> js_InvitationToken = ''t'', js_Identity = ?self, js_CredentialForHost = sample_credential \<rparr> sample_host
      = (fst sample_joined, Inr (projr (snd sample_joined)))"
    using sample_Inr [OF sample_join_ok(1)] by (simp add: sample_joined_def sample_submission_def)
  have 2: "snd sample_joined = Inr (projr (snd sample_joined))" "snd sample_polled = Inr (projr (snd sample_polled))"
    using sample_Inr [OF sample_join_ok(1)] sample_Inr [OF sample_join_ok(3)] by (metis snd_conv)+
  have 3: "BeginOutbound sample_core False 0 (Inl IOFault) (Inr sample_credential) (Inr ''o'') (\<lambda>_ _. snd sample_joined) ''https://h'' ''t'' sample_joiner
      = (fst sample_begun, Inr (projr (snd sample_begun)))" by (fold sample_begun_def) (rule sample_Inr [OF sample_join_ok(4)])
  have 4: "cluster_Decide sample_core 1 (Inr ''x'') ''r'' True sample_entry (fst sample_joined) = (fst sample_decided, Inr (projr (snd sample_decided)))"
    by (fold sample_decided_def) (rule sample_Inr [OF sample_join_ok(2)])
  have 5: "cluster_Poll sample_core 2 (Inl IOFault) (Inr ''live'') ''r'' ''s'' (fst sample_decided) = (fst sample_polled, Inr (projr (snd sample_polled)))"
    by (fold sample_polled_def) (rule sample_Inr [OF sample_join_ok(3)])
  have 6: "CollectOutbound sample_core 3 (\<lambda>_ _ _. snd sample_polled) ''o'' (fst sample_begun) = (fst sample_collected, Inr (projr (snd sample_collected)))"
    by (fold sample_collected_def) (rule sample_Inr [OF sample_join_ok(5)])
  have "ni_NodeID ?self = ''j''" by (simp add: identity_of_def sample_identity_def)
  then show ?thesis using joined_nodes_share_credentials [OF self 1 2(1) 3 4 5 2(2) 6] by auto
qed

end
