(* ===== verification/Actions.thy ===== *)
theory Actions
  imports Audit_Log Single_Use
begin

text \<open>
  Typed actions (\<open>internal/actions/actions.go\<close>): a registry of definitions, and requests that are made, approved by a second
  person where the definition asks for it, claimed and executed. \<open>Execute\<close> is not one transaction: it reads the request, claims it with an
  \<open>UPDATE\<close> that is conditional on the state, calls the definition and records the result, and other calls may run between these
  steps. The steps are definitions of their own, \<open>Execute\<close> is their composition, and \<open>action_step\<close> interleaves the steps of any number of concurrent executions with
  requests and approvals. A nil parameter map is the empty one; the functions of a definition are never nil.
\<close>

section \<open>The registry\<close>

type_synonym params = "(string \<times> json) list"

record Definition =
  de_NeedsApproval :: bool
  de_Validate :: "params \<Rightarrow> err + unit"
  de_Execute :: "id \<Rightarrow> params \<Rightarrow> db \<Rightarrow> db \<times> (err + params)"

type_synonym registry = "string \<Rightarrow> Definition option"

definition Register :: "string \<Rightarrow> Definition \<Rightarrow> registry \<Rightarrow> registry \<times> (err + unit)" where
  "Register ty de reg = (if ty = [] then (reg, Inl (Err ''invalid action definition''))
     else if reg ty \<noteq> None then (reg, Inl (Err ''duplicate action''))
     else (reg(ty \<mapsto> de), Inr ()))"

section \<open>Requests\<close>

definition nullable_text :: "string \<Rightarrow> string option" where
  "nullable_text v = (if v = [] then None else Some v)"

definition coalesce_text :: "string option \<Rightarrow> string" where
  "coalesce_text v = (case v of None \<Rightarrow> [] | Some s \<Rightarrow> s)"

definition unmarshal_params :: "json \<Rightarrow> params" where
  "unmarshal_params j = (case j of JObj ps \<Rightarrow> ps | _ \<Rightarrow> [])"

record RequestRecord =
  rq_ID :: nat
  rq_Type :: string
  rq_PostID :: id
  rq_Parameters :: params
  rq_State :: string
  rq_RequestedBy :: nat
  rq_ApprovedBy :: "nat option"
  rq_RequestedAt :: time
  rq_UpdatedAt :: time
  rq_Result :: params

definition request_of_row :: "action_row \<Rightarrow> RequestRecord" where
  "request_of_row r = \<lparr> rq_ID = aq_id r, rq_Type = aq_type r, rq_PostID = coalesce_text (aq_post r), rq_Parameters = unmarshal_params (aq_parameters r),
     rq_State = aq_state r, rq_RequestedBy = aq_requested_by r, rq_ApprovedBy = aq_approved_by r, rq_RequestedAt = aq_requested r, rq_UpdatedAt = aq_updated r,
     rq_Result = unmarshal_params (aq_result r) \<rparr>"

definition ListRequests :: "int \<Rightarrow> db \<Rightarrow> err + RequestRecord list" where
  "ListRequests limit d = bindE (ensure (1 \<le> limit \<and> limit \<le> 500) (Err ''invalid limit'')) (\<lambda>_.
     query (\<lambda>d. map request_of_row (take (nat limit) (rev (sort_key aq_id (action_requests d))))) d)"

definition action_entry :: "Entry \<Rightarrow> nat \<Rightarrow> Entry" where
  "action_entry e i = e\<lparr> en_ObjectType := ''action'', en_ObjectID := show_nat i \<rparr>"

definition new_request :: "time \<Rightarrow> string \<Rightarrow> id \<Rightarrow> params \<Rightarrow> string \<Rightarrow> nat \<Rightarrow> string \<Rightarrow> db \<Rightarrow> action_row" where
  "new_request now ty post ps st user key d = \<lparr> aq_id = next_id (map aq_id (action_requests d)), aq_type = ty, aq_post = nullable_text post, aq_parameters = JObj ps, aq_state = st,
     aq_requested_by = user, aq_approved_by = None, aq_requested = now, aq_updated = now, aq_key = key, aq_result = JObj [] \<rparr>"

definition Request :: "registry \<Rightarrow> time \<Rightarrow> string \<Rightarrow> id \<Rightarrow> params \<Rightarrow> nat \<Rightarrow> string \<Rightarrow> Entry \<Rightarrow> db \<Rightarrow> db \<times> (err + nat)" where
  "Request reg now ty post ps user key e d = (case reg ty of None \<Rightarrow> (d, Inl (Err ''unknown action or missing idempotency key''))
     | Some de \<Rightarrow> if key = [] then (d, Inl (Err ''unknown action or missing idempotency key''))
       else case de_Validate de ps of Inl x \<Rightarrow> (d, Inl x)
       | Inr u \<Rightarrow>
         let row = new_request now ty post ps (if de_NeedsApproval de then ''pending'' else ''approved'') user key d
         in audited_tx now (action_entry (e\<lparr> en_ActorID := user \<rparr>) (aq_id row)) (\<lambda>d.
              bindE (exec (\<lambda>d. d\<lparr> action_requests := action_requests d @ [row] \<rparr>) d) (\<lambda>d. Inr (d, aq_id row))) d)"

definition approvable :: "nat \<Rightarrow> nat \<Rightarrow> action_row \<Rightarrow> bool" where
  "approvable i approver r \<longleftrightarrow> aq_id r = i \<and> aq_state r = ''pending'' \<and> aq_requested_by r \<noteq> approver"

definition Approve :: "time \<Rightarrow> nat \<Rightarrow> nat \<Rightarrow> Entry \<Rightarrow> db \<Rightarrow> db \<times> (err + unit)" where
  "Approve now i approver e = audited_tx now (action_entry (e\<lparr> en_ActorID := approver \<rparr>) i) (\<lambda>d.
     bindE (exec (\<lambda>d. d\<lparr> action_requests := upd_where (approvable i approver)
              (\<lambda>r. r\<lparr> aq_state := ''approved'', aq_approved_by := Some approver, aq_updated := now \<rparr>) (action_requests d) \<rparr>) d) (\<lambda>d'.
     bindE (ensure (count_where (approvable i approver) (action_requests d) = 1) (Err ''action cannot be approved'')) (\<lambda>_. Inr (d', ()))))"

section \<open>Execution\<close>

text \<open>The four steps of \<open>Execute\<close>: read the request, claim it, call the definition, record the outcome.\<close>

definition exec_begin :: "nat \<Rightarrow> db \<Rightarrow> err + (string \<times> id \<times> json)" where
  "exec_begin i d = bindE (query (\<lambda>d. find (\<lambda>r. aq_id r = i) (action_requests d)) d) (\<lambda>row. case row of None \<Rightarrow> Inl ErrNoRows
     | Some r \<Rightarrow> bindE (ensure (aq_state r = ''approved'') (Err ''action is not approved'')) (\<lambda>_. Inr (aq_type r, coalesce_text (aq_post r), aq_parameters r)))"

definition claimed :: "nat \<Rightarrow> action_row \<Rightarrow> bool" where
  "claimed i r \<longleftrightarrow> aq_id r = i \<and> aq_state r = ''approved''"

definition exec_claim :: "registry \<Rightarrow> time \<Rightarrow> nat \<Rightarrow> string \<Rightarrow> db \<Rightarrow> db \<times> (err + Definition)" where
  "exec_claim reg now i kind d = (case exec (\<lambda>d. d\<lparr> action_requests := upd_where (claimed i) (\<lambda>r. r\<lparr> aq_state := ''executing'', aq_updated := now \<rparr>) (action_requests d) \<rparr>) d of
     Inl e \<Rightarrow> (d, Inl e)
   | Inr d' \<Rightarrow> if count_where (claimed i) (action_requests d) \<noteq> 1 then (d', Inl (Err ''action execution already claimed''))
       else case reg kind of None \<Rightarrow> (d', Inl (Err ''action definition unavailable'')) | Some de \<Rightarrow> (d', Inr de))"

text \<open>The outcome of the definition: the result it returned, or an object with its error text, and that error.\<close>

definition outcome :: "(err \<Rightarrow> string) \<Rightarrow> err + params \<Rightarrow> string \<times> params \<times> err option" where
  "outcome text r = (case r of Inl e \<Rightarrow> (''failed'', [(''error'', JStr (text e))], Some e) | Inr ps \<Rightarrow> (''completed'', ps, None))"

definition in_execution :: "nat \<Rightarrow> action_row \<Rightarrow> bool" where
  "in_execution i r \<longleftrightarrow> aq_id r = i \<and> aq_state r = ''executing''"

definition exec_finish :: "time \<Rightarrow> nat \<Rightarrow> Entry \<Rightarrow> string \<Rightarrow> params \<Rightarrow> db \<Rightarrow> db \<times> (err + unit)" where
  "exec_finish now i e st result = audited_tx now (action_entry e i) (\<lambda>d.
     bindE (exec (\<lambda>d. d\<lparr> action_requests := upd_where (in_execution i) (\<lambda>r. r\<lparr> aq_state := st, aq_result := JObj result, aq_updated := now \<rparr>) (action_requests d) \<rparr>) d)
       (\<lambda>d. Inr (d, ())))"

definition Execute :: "registry \<Rightarrow> (err \<Rightarrow> string) \<Rightarrow> time \<Rightarrow> time \<Rightarrow> nat \<Rightarrow> Entry \<Rightarrow> db \<Rightarrow> db \<times> (err + params \<times> err option)" where
  "Execute reg text t1 t2 i e d = (case exec_begin i d of Inl x \<Rightarrow> (d, Inl x)
     | Inr (kind, post, encoded) \<Rightarrow> case exec_claim reg t1 i kind d of (d1, Inl x) \<Rightarrow> (d1, Inl x)
       | (d1, Inr de) \<Rightarrow> case de_Execute de post (unmarshal_params encoded) d1 of (d2, r) \<Rightarrow>
           case outcome text r of (st, result, failure) \<Rightarrow>
             case exec_finish t2 i e st result d2 of (d3, Inl x) \<Rightarrow> (d3, Inl x) | (d3, Inr u) \<Rightarrow> (d3, Inr (result, failure)))"

section \<open>Concurrent executions\<close>

datatype exec_phase = Claiming nat string id json | Executing nat Definition id json | Finishing nat string params

record action_site =
  as_db :: db
  as_threads :: "nat \<Rightarrow> exec_phase option"

datatype action_op =
    OpRequest time string id params nat string Entry
  | OpApprove time nat nat Entry
  | OpBegin nat nat
  | OpClaim nat time
  | OpRun nat
  | OpFinish nat time Entry

definition lift_db :: "action_site \<Rightarrow> db \<times> (err + 'a) \<Rightarrow> action_site \<times> (err + nat option)" where
  "lift_db s r = (s\<lparr> as_db := fst r \<rparr>, case snd r of Inl e \<Rightarrow> Inl e | Inr x \<Rightarrow> Inr None)"

definition set_thread :: "nat \<Rightarrow> exec_phase option \<Rightarrow> db \<Rightarrow> action_site \<Rightarrow> action_site" where
  "set_thread t p d s = s\<lparr> as_db := d, as_threads := (as_threads s)(t := p) \<rparr>"

text \<open>A step answers \<open>Some i\<close> when it called the definition of request \<open>i\<close>.\<close>

fun action_step :: "registry \<Rightarrow> (err \<Rightarrow> string) \<Rightarrow> action_op \<Rightarrow> action_site \<Rightarrow> action_site \<times> (err + nat option)" where
  "action_step reg text (OpRequest now ty post ps user key e) s = lift_db s (Request reg now ty post ps user key e (as_db s))"
| "action_step reg text (OpApprove now i approver e) s = lift_db s (Approve now i approver e (as_db s))"
| "action_step reg text (OpBegin t i) s = (if as_threads s t \<noteq> None then (s, Inl (Err ''busy''))
     else case exec_begin i (as_db s) of Inl x \<Rightarrow> (s, Inl x) | Inr (kind, post, encoded) \<Rightarrow> (set_thread t (Some (Claiming i kind post encoded)) (as_db s) s, Inr None))"
| "action_step reg text (OpClaim t now) s = (case as_threads s t of Some (Claiming i kind post encoded) \<Rightarrow>
       (case exec_claim reg now i kind (as_db s) of (d, Inl x) \<Rightarrow> (set_thread t None d s, Inl x)
        | (d, Inr de) \<Rightarrow> (set_thread t (Some (Executing i de post encoded)) d s, Inr None))
     | _ \<Rightarrow> (s, Inl (Err ''idle'')))"
| "action_step reg text (OpRun t) s = (case as_threads s t of Some (Executing i de post encoded) \<Rightarrow>
       (case de_Execute de post (unmarshal_params encoded) (as_db s) of (d, r) \<Rightarrow>
          case outcome text r of (st, result, failure) \<Rightarrow> (set_thread t (Some (Finishing i st result)) d s, Inr (Some i)))
     | _ \<Rightarrow> (s, Inl (Err ''idle'')))"
| "action_step reg text (OpFinish t now e) s = (case as_threads s t of Some (Finishing i st result) \<Rightarrow>
       (case exec_finish now i e st result (as_db s) of (d, r) \<Rightarrow> (set_thread t None d s, map_sum id (\<lambda>_. None) r))
     | _ \<Rightarrow> (s, Inl (Err ''idle'')))"

section \<open>The life of a request\<close>

text \<open>A request is settled when it is past its claim: it can be neither approved nor claimed any more.\<close>

definition settled :: "nat \<Rightarrow> db \<Rightarrow> bool" where
  "settled k d \<longleftrightarrow> (\<exists>r\<in>set (action_requests d). aq_id r = k) \<and> (\<forall>r\<in>set (action_requests d). aq_id r = k \<longrightarrow> aq_state r \<notin> {''pending'', ''approved''})"

text \<open>A request that left the pending state was approved by somebody other than its requester, unless its action needs no approval.\<close>

definition cleared :: "registry \<Rightarrow> action_row \<Rightarrow> bool" where
  "cleared reg r \<longleftrightarrow> (aq_state r \<noteq> ''pending'' \<longrightarrow> (case reg (aq_type r) of None \<Rightarrow> True
     | Some de \<Rightarrow> de_NeedsApproval de \<longrightarrow> (\<exists>a. aq_approved_by r = Some a \<and> a \<noteq> aq_requested_by r)))"

definition leaves_requests :: "registry \<Rightarrow> bool" where
  "leaves_requests reg \<longleftrightarrow> (\<forall>ty de post ps d. reg ty = Some de \<longrightarrow> action_requests (fst (de_Execute de post ps d)) = action_requests d)"

definition phase_ok :: "registry \<Rightarrow> db \<Rightarrow> exec_phase \<Rightarrow> bool" where
  "phase_ok reg d p = (case p of Claiming i kind post encoded \<Rightarrow> True
     | Executing i de post encoded \<Rightarrow> settled i d \<and> de \<in> ran reg
     | Finishing i st result \<Rightarrow> st = ''failed'' \<or> st = ''completed'')"

definition executing_id :: "exec_phase option \<Rightarrow> nat option" where
  "executing_id p = (case p of Some (Executing i de post encoded) \<Rightarrow> Some i | _ \<Rightarrow> None)"

definition action_inv :: "registry \<Rightarrow> action_site \<Rightarrow> bool" where
  "action_inv reg s \<longleftrightarrow> leaves_requests reg \<and> distinct (map aq_id (action_requests (as_db s))) \<and> (\<forall>r\<in>set (action_requests (as_db s)). cleared reg r) \<and>
     (\<forall>t p. as_threads s t = Some p \<longrightarrow> phase_ok reg (as_db s) p) \<and>
     (\<forall>t t' k. executing_id (as_threads s t) = Some k \<longrightarrow> executing_id (as_threads s t') = Some k \<longrightarrow> t = t')"

definition done_once :: "nat \<Rightarrow> action_site \<Rightarrow> bool" where
  "done_once k s \<longleftrightarrow> settled k (as_db s) \<and> (\<forall>t. executing_id (as_threads s t) \<noteq> Some k)"

definition executed :: "action_op \<Rightarrow> nat option \<Rightarrow> nat set" where
  "executed x y = set_option y"

text \<open>How each operation changes the table of requests.\<close>

definition request_table :: "registry \<Rightarrow> action_row list \<Rightarrow> action_row list \<Rightarrow> bool" where
  "request_table reg rs rs' \<longleftrightarrow> map aq_id rs' = map aq_id rs \<and> (\<forall>r'\<in>set rs'. \<exists>r\<in>set rs. aq_id r' = aq_id r \<and>
     (aq_state r \<notin> {''pending'', ''approved''} \<longrightarrow> aq_state r' \<notin> {''pending'', ''approved''}) \<and> (cleared reg r \<longrightarrow> cleared reg r'))
   \<or> (\<exists>row. rs' = rs @ [row] \<and> aq_id row = next_id (map aq_id rs) \<and> cleared reg row)"

lemma request_table_refl [simp]: "request_table reg rs rs"
  by (auto simp: request_table_def)

lemma request_table_upd:
  assumes "\<And>r. P r \<Longrightarrow> aq_id (f r) = aq_id r \<and> aq_state r \<in> S \<and> (aq_state r \<notin> {''pending'', ''approved''} \<longrightarrow> aq_state (f r) \<notin> {''pending'', ''approved''}) \<and>
      (cleared reg r \<longrightarrow> cleared reg (f r))"
  shows "request_table reg rs (upd_where P f rs)"
  using assms unfolding request_table_def by (auto simp: set_upd_where)

lemma request_table_distinct:
  assumes "request_table reg rs rs'" and "distinct (map aq_id rs)"
  shows "distinct (map aq_id rs')"
  using assms by (auto simp: request_table_def)

lemma request_table_cleared:
  assumes "request_table reg rs rs'" and "\<forall>r\<in>set rs. cleared reg r"
  shows "\<forall>r\<in>set rs'. cleared reg r"
  using assms unfolding request_table_def by (elim disjE) (blast, auto)

lemma request_table_settled:
  assumes table: "request_table reg (action_requests d) (action_requests d')" and k: "settled k d"
  shows "settled k d'"
  using table unfolding request_table_def
proof (elim disjE conjE exE)
  assume ids: "map aq_id (action_requests d') = map aq_id (action_requests d)"
    and rows: "\<forall>r'\<in>set (action_requests d'). \<exists>r\<in>set (action_requests d). aq_id r' = aq_id r \<and>
      (aq_state r \<notin> {''pending'', ''approved''} \<longrightarrow> aq_state r' \<notin> {''pending'', ''approved''}) \<and> (cleared reg r \<longrightarrow> cleared reg r')"
  have "k \<in> set (map aq_id (action_requests d'))"
    unfolding ids using k by (auto simp: settled_def)
  moreover have "aq_state r' \<notin> {''pending'', ''approved''}" if "r' \<in> set (action_requests d')" "aq_id r' = k" for r'
    using rows k that unfolding settled_def by metis
  ultimately show ?thesis
    by (auto simp: settled_def)
next
  fix row
  assume "action_requests d' = action_requests d @ [row]" "aq_id row = next_id (map aq_id (action_requests d))"
  moreover from this have "aq_id row \<noteq> k"
    using k next_id_map_fresh [of aq_id "action_requests d"] by (auto simp: settled_def simp del: next_id_map_fresh)
  ultimately show ?thesis
    using k by (auto simp: settled_def)
qed

lemma Request_table: "request_table reg (action_requests d) (action_requests (fst (Request reg now ty post ps user key e d)))"
proof (cases "Request reg now ty post ps user key e d")
  case (Pair d' r)
  show ?thesis
  proof (cases r)
    case (Inl x)
    then have "d' = d"
      using Pair by (auto simp: Request_def Let_def split: option.splits if_splits sum.splits dest: audited_tx_Inl)
    then show ?thesis
      using Pair by simp
  next
    case (Inr i)
    then obtain de where "reg ty = Some de" and "\<exists>d1. exec (\<lambda>d. d\<lparr> action_requests := action_requests d @
        [new_request now ty post ps (if de_NeedsApproval de then ''pending'' else ''approved'') user key d] \<rparr>) d = Inr d1 \<and> action_requests d' = action_requests d1"
      using Pair by (fastforce simp: Request_def Let_def audited_tx_Inr bindE_eq_Inr Insert_eq_Inr exec_eq_Inr split: option.splits if_splits sum.splits)
    then show ?thesis
      using Pair by (auto simp: request_table_def exec_eq_Inr new_request_def cleared_def)
  qed
qed

lemma Approve_table: "request_table reg (action_requests d) (action_requests (fst (Approve now i a e d)))"
proof (cases "Approve now i a e d")
  case (Pair d' r)
  show ?thesis
  proof (cases r)
    case (Inl x)
    then show ?thesis
      using Pair by (auto simp: Approve_def dest: audited_tx_Inl)
  next
    case (Inr u)
    then have "action_requests d' = upd_where (approvable i a) (\<lambda>r. r\<lparr> aq_state := ''approved'', aq_approved_by := Some a, aq_updated := now \<rparr>) (action_requests d)"
      using Pair by (auto simp: Approve_def audited_tx_Inr bindE_eq_Inr Insert_eq_Inr exec_eq_Inr)
    then show ?thesis
      using Pair by (auto intro!: request_table_upd [of _ _ UNIV] simp: approvable_def cleared_def split: option.splits)
  qed
qed

lemma exec_claim_requests:
  assumes "exec_claim reg now i kind d = (d', r)"
  shows "action_requests d' = action_requests d \<or>
    action_requests d' = upd_where (claimed i) (\<lambda>r. r\<lparr> aq_state := ''executing'', aq_updated := now \<rparr>) (action_requests d)"
  using assms by (auto simp: exec_claim_def exec_eq_Inr split: sum.splits if_splits option.splits)

lemma exec_claim_table:
  assumes "exec_claim reg now i kind d = (d', r)"
  shows "request_table reg' (action_requests d) (action_requests d')"
  using exec_claim_requests [OF assms]
  by (auto intro!: request_table_upd [of _ _ UNIV] simp: claimed_def cleared_def split: option.splits)

lemma exec_claim_settles:
  assumes "exec_claim reg now i kind d = (d', Inr de)" and "distinct (map aq_id (action_requests d))"
  shows "settled i d'" and "\<not> settled i d" and "de \<in> ran reg"
proof -
  have *: "action_requests d' = upd_where (claimed i) (\<lambda>r. r\<lparr> aq_state := ''executing'', aq_updated := now \<rparr>) (action_requests d)"
    "count_where (claimed i) (action_requests d) = 1" "reg kind = Some de"
    using assms(1) by (auto simp: exec_claim_def exec_eq_Inr split: sum.splits if_splits option.splits)
  then obtain r where r: "r \<in> set (action_requests d)" "claimed i r"
    using count_where_pos [of "claimed i" "action_requests d"] by auto
  have all: "claimed i q" if "q \<in> set (action_requests d)" "aq_id q = i" for q
    using that r assms(2) by (metis claimed_def find_key_unique option.inject)
  have "aq_state q = ''executing''" if "q \<in> set (action_requests d')" "aq_id q = i" for q
  proof -
    obtain p where "p \<in> set (action_requests d)" "q = (if claimed i p then p\<lparr> aq_state := ''executing'', aq_updated := now \<rparr> else p)"
      using \<open>q \<in> set (action_requests d')\<close> unfolding *(1) set_upd_where by blast
    then show ?thesis
      using that(2) all [of p] by (cases "claimed i p") auto
  qed
  moreover have "i \<in> set (map aq_id (action_requests d'))"
    using r *(1) by (auto simp: claimed_def)
  ultimately show "settled i d'"
    by (auto simp: settled_def)
  show "\<not> settled i d"
    using r by (auto simp: settled_def claimed_def)
  show "de \<in> ran reg"
    using *(3) by (rule ranI)
qed

lemma exec_finish_table:
  assumes "exec_finish now i e st result d = (d', r)" and "st = ''failed'' \<or> st = ''completed''"
  shows "request_table reg (action_requests d) (action_requests d')"
proof (cases r)
  case (Inl x)
  then show ?thesis
    using assms(1) by (auto simp: exec_finish_def dest: audited_tx_Inl)
next
  case (Inr u)
  then have "action_requests d' = upd_where (in_execution i) (\<lambda>r. r\<lparr> aq_state := st, aq_result := JObj result, aq_updated := now \<rparr>) (action_requests d)"
    using assms(1) by (auto simp: exec_finish_def audited_tx_Inr bindE_eq_Inr Insert_eq_Inr exec_eq_Inr)
  then show ?thesis
    using assms(2) by (auto intro!: request_table_upd [of _ _ UNIV] simp: in_execution_def cleared_def split: option.splits)
qed

section \<open>Every interleaving\<close>

lemma phase_ok_simps [simp]:
  "phase_ok reg d (Claiming i kind post encoded)"
  "phase_ok reg d (Executing i de post encoded) \<longleftrightarrow> settled i d \<and> de \<in> ran reg"
  "phase_ok reg d (Finishing i st result) \<longleftrightarrow> st = ''failed'' \<or> st = ''completed''"
  by (simp_all add: phase_ok_def)

lemma executing_id_simps [simp]:
  "executing_id None = None" "executing_id (Some (Claiming i kind post encoded)) = None"
  "executing_id (Some (Executing i de post encoded)) = Some i" "executing_id (Some (Finishing i st result)) = None"
  by (simp_all add: executing_id_def)

lemma executing_id_Some: "executing_id p = Some k \<longleftrightarrow> (\<exists>de post encoded. p = Some (Executing k de post encoded))"
  by (auto simp: executing_id_def split: option.splits exec_phase.splits)

lemma action_invD: "action_inv reg s \<Longrightarrow> as_threads s t = Some p \<Longrightarrow> phase_ok reg (as_db s) p"
  by (simp add: action_inv_def)

lemma phase_ok_mono:
  assumes "request_table reg (action_requests d) (action_requests d')" and "phase_ok reg d p"
  shows "phase_ok reg d' p"
  using assms request_table_settled [OF assms(1)] by (auto simp: phase_ok_def split: exec_phase.splits)

text \<open>A step edits the requests as above and moves one thread on; a thread starts to execute only a request that was not settled.\<close>

definition moves :: "registry \<Rightarrow> action_site \<Rightarrow> action_site \<Rightarrow> bool" where
  "moves reg s s' \<longleftrightarrow> request_table reg (action_requests (as_db s)) (action_requests (as_db s')) \<and> (\<exists>t p. as_threads s' = (as_threads s)(t := p) \<and>
     (\<forall>q. p = Some q \<longrightarrow> phase_ok reg (as_db s') q) \<and> (\<forall>k. executing_id p = Some k \<longrightarrow> executing_id (as_threads s t) = Some k \<or> \<not> settled k (as_db s)))"

lemma moves_inv:
  assumes inv: "action_inv reg s" and moves: "moves reg s s'"
  shows "action_inv reg s'"
proof -
  obtain t p where table: "request_table reg (action_requests (as_db s)) (action_requests (as_db s'))"
    and thread: "as_threads s' = (as_threads s)(t := p)" and new: "\<And>q. p = Some q \<Longrightarrow> phase_ok reg (as_db s') q"
    and fresh: "\<And>k. executing_id p = Some k \<Longrightarrow> executing_id (as_threads s t) = Some k \<or> \<not> settled k (as_db s)"
    using moves unfolding moves_def by blast
  have running: "settled k (as_db s)" if "executing_id (as_threads s u) = Some k" for u k
    using that action_invD [OF inv] by (fastforce simp: executing_id_Some)
  have unique: "\<forall>u u' k. executing_id (as_threads s u) = Some k \<longrightarrow> executing_id (as_threads s u') = Some k \<longrightarrow> u = u'"
    using inv by (simp add: action_inv_def)
  have "u = u'" if "executing_id (as_threads s' u) = Some k" "executing_id (as_threads s' u') = Some k" for u u' k
    using that fresh [of k] unique running unfolding thread by (metis fun_upd_apply)
  moreover have "phase_ok reg (as_db s') q" if "as_threads s' u = Some q" for u q
    using that inv new phase_ok_mono [OF table] unfolding thread action_inv_def by (metis fun_upd_apply)
  ultimately show ?thesis
    using inv request_table_distinct [OF table] request_table_cleared [OF table] unfolding action_inv_def by blast
qed

lemma moves_done:
  assumes "moves reg s s'" and "done_once k s"
  shows "done_once k s'"
  using assms request_table_settled unfolding moves_def done_once_def by (metis fun_upd_apply)

lemma moves_db: "request_table reg (action_requests (as_db s)) (action_requests d) \<Longrightarrow> action_inv reg s \<Longrightarrow> moves reg s (s\<lparr> as_db := d \<rparr>)"
  unfolding moves_def by (intro conjI exI [of _ 0] exI [of _ "as_threads s 0"]) (auto simp: action_inv_def intro: phase_ok_mono)

lemma moves_thread:
  assumes "request_table reg (action_requests (as_db s)) (action_requests d)" and "\<And>q. p = Some q \<Longrightarrow> phase_ok reg d q"
    and "\<And>k. executing_id p = Some k \<Longrightarrow> \<not> settled k (as_db s)"
  shows "moves reg s (set_thread t p d s)"
  using assms unfolding moves_def set_thread_def by auto

lemma action_step_moves:
  assumes "action_inv reg s" and "action_step reg text x s = (s', r)"
  shows "moves reg s s'"
proof -
  have id: "moves reg s s"
    using moves_db [of reg s "as_db s"] assms(1) by simp
  show ?thesis
  proof (cases x)
    case (OpRequest now ty post ps user key e)
    then show ?thesis
      using assms moves_db [OF Request_table] by (auto simp: lift_db_def)
  next
    case (OpApprove now i a e)
    then show ?thesis
      using assms moves_db [OF Approve_table] by (auto simp: lift_db_def)
  next
    case (OpBegin t i)
    then show ?thesis
      using assms id by (auto intro!: moves_thread split: if_splits sum.splits prod.splits)
  next
    case (OpClaim t now)
    have distinct: "distinct (map aq_id (action_requests (as_db s)))"
      using assms(1) by (simp add: action_inv_def)
    show ?thesis
      using assms(2) OpClaim id exec_claim_table exec_claim_settles [OF _ distinct]
      by (auto intro!: moves_thread split: option.splits exec_phase.splits prod.splits sum.splits)
  next
    case (OpRun t)
    show ?thesis
    proof (cases "\<exists>i de post encoded. as_threads s t = Some (Executing i de post encoded)")
      case True
      then obtain i de post encoded where thread: "as_threads s t = Some (Executing i de post encoded)"
        by blast
      then have "de \<in> ran reg"
        using action_invD [OF assms(1) thread] by simp
      moreover have "leaves_requests reg"
        using assms(1) by (simp add: action_inv_def)
      ultimately have "action_requests (fst (de_Execute de post (unmarshal_params encoded) (as_db s))) = action_requests (as_db s)"
        by (auto simp: leaves_requests_def ran_def)
      then show ?thesis
        using assms(2) OpRun thread
        by (auto intro!: moves_thread simp: outcome_def split: prod.splits sum.splits)
    next
      case False
      then show ?thesis
        using assms(2) OpRun id by (auto split: option.splits exec_phase.splits)
    qed
  next
    case (OpFinish t now e)
    have "st = ''failed'' \<or> st = ''completed''" if "as_threads s t = Some (Finishing i st result)" for i st result
      using action_invD [OF assms(1) that] by simp
    then show ?thesis
      using assms(2) OpFinish id exec_finish_table
      by (auto intro!: moves_thread split: option.splits exec_phase.splits prod.splits)
  qed
qed

lemma action_step_executes:
  assumes inv: "action_inv reg s" and step: "action_step reg text x s = (s', Inr (Some k))"
  shows "\<not> done_once k s \<and> done_once k s'"
proof -
  obtain t de post encoded st result where t: "as_threads s t = Some (Executing k de post encoded)" and s': "as_threads s' = (as_threads s)(t \<mapsto> Finishing k st result)"
    using step by (cases x) (auto simp: lift_db_def set_thread_def map_sum_def split: if_splits sum.splits option.splits exec_phase.splits prod.splits)
  have "executing_id (as_threads s t) = Some k"
    using t by (simp add: executing_id_def)
  moreover from this have "executing_id (as_threads s' u) \<noteq> Some k" for u
    using s' inv unfolding action_inv_def by (metis executing_id_simps(4) fun_upd_apply option.distinct(1))
  moreover have "settled k (as_db s)"
    using action_invD [OF inv t] by simp
  then have "settled k (as_db s')"
    using action_step_moves [OF inv step] request_table_settled by (auto simp: moves_def)
  ultimately show ?thesis
    by (auto simp: done_once_def)
qed

interpretation action: single_use "action_step reg msg" "action_inv reg" "\<lambda>x. True" executed done_once for reg msg
proof unfold_locales
  show "action_inv reg s \<Longrightarrow> True \<Longrightarrow> action_step reg msg x s = (s', r) \<Longrightarrow> action_inv reg s'" for s x s' r
    using action_step_moves moves_inv by blast
  show "action_inv reg s \<Longrightarrow> True \<Longrightarrow> action_step reg msg x s = (s', Inr y) \<Longrightarrow> k \<in> executed x y \<Longrightarrow> \<not> done_once k s \<and> done_once k s'" for s x s' y k
    by (cases y) (auto simp: executed_def dest: action_step_executes)
  show "action_inv reg s \<Longrightarrow> True \<Longrightarrow> action_step reg msg x s = (s', r) \<Longrightarrow> done_once k s \<Longrightarrow> done_once k s'" for s x s' r k
    using action_step_moves moves_done by blast
qed

text \<open>\<open>Execute\<close> is the uninterrupted run of its steps on an idle thread.\<close>

lemma Execute_as_steps:
  assumes "as_threads s t = None"
  shows "fst (Execute reg msg t1 t2 i e (as_db s)) = as_db (fst (run (action_step reg msg) [OpBegin t i, OpClaim t t1, OpRun t, OpFinish t t2 e] s))"
  using assms by (auto simp: Execute_def set_thread_def split: sum.splits prod.splits)

text \<open>C22: However requests, approvals and the steps of concurrent executions interleave, the definition of a request is called at most once.\<close>

theorem action_runs_once:
  assumes "action_inv reg s"
  shows "redemptions executed k xs (snd (run (action_step reg msg) xs s)) \<le> 1"
  using assms by (rule action.run_once) (simp add: list_all_iff)

text \<open>
  C23: When the definition of a request was called, the request had left the pending state and, if its action needs approval, it had been approved
  by somebody other than the person who made it.
\<close>

theorem action_needs_second_person:
  assumes "action_inv reg s" and "(x, Inr (Some k)) \<in> set (zip xs (snd (run (action_step reg msg) xs s)))"
  shows "\<exists>r\<in>set (action_requests (as_db (fst (run (action_step reg msg) xs s)))). aq_id r = k \<and> aq_state r \<noteq> ''pending'' \<and>
     (\<forall>de. reg (aq_type r) = Some de \<and> de_NeedsApproval de \<longrightarrow> (\<exists>a. aq_approved_by r = Some a \<and> a \<noteq> aq_requested_by r))"
proof -
  let ?s = "fst (run (action_step reg msg) xs s)"
  have "done_once k ?s"
    using action.run_redeemed [OF assms(1) _ assms(2), of k] by (simp add: list_all_iff executed_def)
  then obtain r where r: "r \<in> set (action_requests (as_db ?s))" "aq_id r = k" "aq_state r \<noteq> ''pending''"
    by (auto simp: done_once_def settled_def)
  moreover have "action_inv reg ?s"
    using assms(1) by (rule action.run_keeps) (simp add: list_all_iff)
  then have "cleared reg r"
    using r(1) by (simp add: action_inv_def)
  ultimately show ?thesis
    by (auto simp: cleared_def)
qed

section \<open>Witnesses\<close>

definition sample_users :: "user_row list" where
  "sample_users = [\<lparr> us_id = 1, us_username = ''ann'', us_email = ''ann@x'', us_password = [], us_role = ''operator'', us_created = 0 \<rparr>,
     \<lparr> us_id = 2, us_username = ''ben'', us_email = ''ben@x'', us_password = [], us_role = ''admin'', us_created = 0 \<rparr>]"

definition sample_registry :: registry where
  "sample_registry = [''reboot'' \<mapsto> \<lparr> de_NeedsApproval = True, de_Validate = (\<lambda>ps. Inr ()), de_Execute = (\<lambda>post ps d. (d, Inr [(''ok'', JBool True)])) \<rparr>]"

definition action_entry_0 :: Entry where
  "action_entry_0 = \<lparr> en_ActorID = 1, en_Action = ''action'', en_ObjectType = [], en_ObjectID = [], en_Detail = [] \<rparr>"

definition sample_site :: action_site where
  "sample_site = \<lparr> as_db = empty_db\<lparr> users := sample_users \<rparr>, as_threads = (\<lambda>t. None) \<rparr>"

text \<open>A request is approved by its requester, which is refused, then by a second person; two executions race for it.\<close>

definition sample_race :: "action_op list" where
  "sample_race = [OpRequest 5 ''reboot'' [] [] 1 ''k1'' action_entry_0, OpApprove 6 1 1 action_entry_0, OpApprove 7 1 2 action_entry_0,
     OpBegin 0 1, OpBegin 1 1, OpClaim 0 8, OpClaim 1 9, OpRun 0, OpRun 1, OpFinish 0 10 action_entry_0]"

lemma sample_race_answers:
  "snd (run (action_step sample_registry (\<lambda>e. [])) sample_race sample_site) =
     [Inr None, Inl (Err ''action cannot be approved''), Inr None, Inr None, Inr None, Inr None, Inl (Err ''action execution already claimed''), Inr (Some 1), Inl (Err ''idle''), Inr None]"
  by code_simp

lemma sample_site_inv: "action_inv sample_registry sample_site"
  by (auto simp: action_inv_def sample_site_def sample_registry_def empty_db_def leaves_requests_def)

lemma sample_race_types: "map aq_type (action_requests (as_db (fst (run (action_step sample_registry (\<lambda>e. [])) sample_race sample_site)))) = [''reboot'']"
  by code_simp

theorem action_runs_once_witness:
  "redemptions executed 1 sample_race (snd (run (action_step sample_registry (\<lambda>e. [])) sample_race sample_site)) \<le> 1 \<and>
   Inr (Some 1) \<in> set (snd (run (action_step sample_registry (\<lambda>e. [])) sample_race sample_site))"
  using action_runs_once [OF sample_site_inv, of 1 sample_race "\<lambda>e. []"] by (simp add: sample_race_answers)

theorem action_needs_second_person_witness:
  "\<exists>r\<in>set (action_requests (as_db (fst (run (action_step sample_registry (\<lambda>e. [])) sample_race sample_site)))). aq_id r = 1 \<and>
     (\<exists>a. aq_approved_by r = Some a \<and> a \<noteq> aq_requested_by r)"
proof -
  let ?s = "fst (run (action_step sample_registry (\<lambda>e. [])) sample_race sample_site)"
  have "(OpRun 0, Inr (Some 1)) \<in> set (zip sample_race (snd (run (action_step sample_registry (\<lambda>e. [])) sample_race sample_site)))"
    by (simp add: sample_race_answers) (simp add: sample_race_def)
  from action_needs_second_person [OF sample_site_inv this]
  obtain r where r: "r \<in> set (action_requests (as_db ?s))" "aq_id r = 1"
    "\<And>de. sample_registry (aq_type r) = Some de \<Longrightarrow> de_NeedsApproval de \<Longrightarrow> \<exists>a. aq_approved_by r = Some a \<and> a \<noteq> aq_requested_by r"
    by blast
  have "aq_type r \<in> set (map aq_type (action_requests (as_db ?s)))"
    unfolding set_map using r(1) by (rule imageI)
  then have "aq_type r = ''reboot''"
    unfolding sample_race_types by simp
  then show ?thesis
    using r by (auto simp: sample_registry_def)
qed

end
