(* ===== verification/Incidents.thy ===== *)
theory Incidents
  imports Audit_Log Texts
begin

text \<open>
  Incidents (\<open>internal/incidents/incidents.go\<close>): a row per incident, the alerts linked to it and a timeline. The specification is event sourced: \<open>replay\<close> computes an
  incident from its timeline alone, and every operation keeps the row equal to the replay of its timeline, so the timeline is a complete account of the incident. Every
  operation is audited.
\<close>

section \<open>Operations\<close>

record Incident =
  ic_ID :: nat
  ic_Title :: string
  ic_Severity :: string
  ic_Status :: string
  ic_Owner :: string
  ic_Summary :: string
  ic_CreatedAt :: time
  ic_UpdatedAt :: time
  ic_ResolvedAt :: "time option"

record incident_entry =
  ie_ID :: nat
  ie_IncidentID :: nat
  ie_At :: time
  ie_Kind :: string
  ie_Actor :: string
  ie_Body :: string

definition incident_of_row :: "incident_row \<Rightarrow> Incident" where
  "incident_of_row r = \<lparr> ic_ID = in_id r, ic_Title = in_title r, ic_Severity = in_severity r, ic_Status = in_status r, ic_Owner = in_owner r, ic_Summary = in_summary r,
     ic_CreatedAt = in_created r, ic_UpdatedAt = in_updated r, ic_ResolvedAt = in_resolved r \<rparr>"

definition incident_audit :: "Entry \<Rightarrow> nat \<Rightarrow> Entry" where
  "incident_audit e i = e\<lparr> en_ObjectType := ''incident'', en_ObjectID := show_nat i \<rparr>"

definition add_timeline :: "nat \<Rightarrow> time \<Rightarrow> string \<Rightarrow> string \<Rightarrow> string \<Rightarrow> db \<Rightarrow> db" where
  "add_timeline i now kind actor body d = d\<lparr> incident_timeline := incident_timeline d @
     [\<lparr> tl_id = next_id (map tl_id (incident_timeline d)), tl_incident = i, tl_at = now, tl_kind = kind, tl_actor = actor, tl_body = body \<rparr>] \<rparr>"

definition new_incident :: "time \<Rightarrow> string \<Rightarrow> string \<Rightarrow> db \<Rightarrow> incident_row" where
  "new_incident now title severity d = \<lparr> in_id = next_id (map in_id (incidents d)), in_title = title, in_severity = severity, in_status = ''open'', in_owner = [], in_summary = [],
     in_created = now, in_updated = now, in_resolved = None \<rparr>"

definition link_alert :: "nat \<Rightarrow> nat \<Rightarrow> db \<Rightarrow> err + db" where
  "link_alert i alert = exec (\<lambda>d. d\<lparr> incident_alerts := incident_alerts d @ [(i, alert)] \<rparr>)"

definition incident_Create :: "time \<Rightarrow> string \<Rightarrow> string \<Rightarrow> string \<Rightarrow> nat list \<Rightarrow> Entry \<Rightarrow> db \<Rightarrow> db \<times> (err + Incident)" where
  "incident_Create now title severity actor alertIDs e d = (if title = [] \<or> severity \<notin> set [''info'', ''warning'', ''critical''] then (d, Inl (Err ''invalid incident''))
     else let row = new_incident now title severity d; i = in_id row
       in audited_tx now (incident_audit e i) (\<lambda>d.
            bindE (exec (\<lambda>d. d\<lparr> incidents := incidents d @ [row] \<rparr>) d) (\<lambda>d.
            bindE (foldE (link_alert i) alertIDs d) (\<lambda>d.
            bindE (exec (add_timeline i now ''created'' actor title) d) (\<lambda>d. Inr (d, incident_of_row row))))) d)"

definition incident_Get :: "nat \<Rightarrow> db \<Rightarrow> err + Incident" where
  "incident_Get i d = bindE (query (\<lambda>d. find (\<lambda>r. in_id r = i) (incidents d)) d) (\<lambda>r. case r of None \<Rightarrow> Inl ErrNoRows | Some r \<Rightarrow> Inr (incident_of_row r))"

text \<open>The read that follows the commit.\<close>

definition then_incident :: "nat \<Rightarrow> db \<times> (err + unit) \<Rightarrow> db \<times> (err + Incident)" where
  "then_incident i r = (case r of (d, Inl e) \<Rightarrow> (d, Inl e) | (d, Inr u) \<Rightarrow> (d, incident_Get i d))"

definition incident_edit :: "time \<Rightarrow> Entry \<Rightarrow> nat \<Rightarrow> (incident_row \<Rightarrow> incident_row) \<Rightarrow> string \<Rightarrow> string \<Rightarrow> string \<Rightarrow> db \<Rightarrow> db \<times> (err + unit)" where
  "incident_edit now e i f kind actor body = audited_tx now (incident_audit e i) (\<lambda>d.
     bindE (exec (\<lambda>d. d\<lparr> incidents := upd_where (\<lambda>r. in_id r = i) f (incidents d) \<rparr>) d) (\<lambda>d1.
     bindE (ensure (count_where (\<lambda>r. in_id r = i) (incidents d) = 1) (Err ''incident not found'')) (\<lambda>_.
     bindE (exec (add_timeline i now kind actor body) d1) (\<lambda>d2. Inr (d2, ())))))"

definition set_status :: "time \<Rightarrow> string \<Rightarrow> string \<Rightarrow> incident_row \<Rightarrow> incident_row" where
  "set_status now status summary r = r\<lparr> in_status := status, in_summary := summary, in_updated := now, in_resolved := (if status = ''resolved'' then Some now else None) \<rparr>"

definition incident_statuses :: "string list" where
  "incident_statuses = [''open'', ''investigating'', ''mitigated'', ''resolved'']"

definition Transition :: "time \<Rightarrow> nat \<Rightarrow> string \<Rightarrow> string \<Rightarrow> string \<Rightarrow> Entry \<Rightarrow> db \<Rightarrow> db \<times> (err + Incident)" where
  "Transition now i status actor summary e d = (if status \<notin> set incident_statuses then (d, Inl (Err ''invalid status''))
     else then_incident i (incident_edit now e i (set_status now status summary) ''status'' actor (status @ '': '' @ summary) d))"

definition AddNote :: "time \<Rightarrow> nat \<Rightarrow> string \<Rightarrow> string \<Rightarrow> Entry \<Rightarrow> db \<Rightarrow> db \<times> (err + unit)" where
  "AddNote now i actor body e d = (if body = [] \<or> length body > 10000 then (d, Inl (Err ''invalid note''))
     else audited_tx now (incident_audit e i) (\<lambda>d. bindE (exec (add_timeline i now ''note'' actor body) d) (\<lambda>d. Inr (d, ()))) d)"

definition set_owner :: "time \<Rightarrow> string \<Rightarrow> incident_row \<Rightarrow> incident_row" where
  "set_owner now owner r = r\<lparr> in_owner := owner, in_updated := now \<rparr>"

definition Assign :: "time \<Rightarrow> nat \<Rightarrow> string \<Rightarrow> string \<Rightarrow> Entry \<Rightarrow> db \<Rightarrow> db \<times> (err + Incident)" where
  "Assign now i owner actor e d = (if owner = [] \<or> length owner > 254 then (d, Inl (Err ''invalid owner''))
     else then_incident i (incident_edit now e i (set_owner now owner) ''assignment'' actor owner d))"

text \<open>\<open>ORDER BY updated_at DESC, id DESC\<close> and \<open>ORDER BY at, id\<close>.\<close>

definition ListIncidents :: "int \<Rightarrow> db \<Rightarrow> err + Incident list" where
  "ListIncidents limit d = bindE (ensure (1 \<le> limit \<and> limit \<le> 1000) (Err ''invalid limit'')) (\<lambda>_.
     query (\<lambda>d. map incident_of_row (take (nat limit) (rev (sort_key (\<lambda>r. text_key (in_updated r)) (sort_key in_id (incidents d)))))) d)"

definition timeline_entry :: "timeline_row \<Rightarrow> incident_entry" where
  "timeline_entry t = \<lparr> ie_ID = tl_id t, ie_IncidentID = tl_incident t, ie_At = tl_at t, ie_Kind = tl_kind t, ie_Actor = tl_actor t, ie_Body = tl_body t \<rparr>"

definition Timeline :: "nat \<Rightarrow> int \<Rightarrow> db \<Rightarrow> err + incident_entry list" where
  "Timeline i limit d = bindE (ensure (1 \<le> limit \<and> limit \<le> 1000) (Err ''invalid limit'')) (\<lambda>_.
     query (\<lambda>d. map timeline_entry (take (nat limit) (sort_key (\<lambda>t. text_key (tl_at t)) (sort_key tl_id (filter (\<lambda>t. tl_incident t = i) (incident_timeline d)))))) d)"

section \<open>The incident as the replay of its timeline\<close>

text \<open>What an entry of the timeline does to an incident: the first creates it; a status entry carries the status, a colon and the summary.\<close>

definition entry_status :: "string \<Rightarrow> string" where
  "entry_status body = takeWhile (\<lambda>c. c \<noteq> CHR '':'') body"

definition entry_summary :: "string \<Rightarrow> string" where
  "entry_summary body = drop (length (entry_status body) + 2) body"

definition replay_entry :: "timeline_row \<Rightarrow> incident_row \<Rightarrow> incident_row" where
  "replay_entry t r = (if tl_kind t = ''created'' then r\<lparr> in_title := tl_body t, in_status := ''open'', in_created := tl_at t, in_updated := tl_at t \<rparr>
     else if tl_kind t = ''status'' then set_status (tl_at t) (entry_status (tl_body t)) (entry_summary (tl_body t)) r
     else if tl_kind t = ''assignment'' then set_owner (tl_at t) (tl_body t) r
     else r)"

definition replay :: "nat \<Rightarrow> string \<Rightarrow> timeline_row list \<Rightarrow> incident_row" where
  "replay i severity ts = fold replay_entry ts \<lparr> in_id = i, in_title = [], in_severity = severity, in_status = [], in_owner = [], in_summary = [], in_created = 0, in_updated = 0,
     in_resolved = None \<rparr>"

definition timeline_of :: "nat \<Rightarrow> db \<Rightarrow> timeline_row list" where
  "timeline_of i d = filter (\<lambda>t. tl_incident t = i) (incident_timeline d)"

definition faithful :: "db \<Rightarrow> bool" where
  "faithful d \<longleftrightarrow> (\<forall>r\<in>set (incidents d). r = replay (in_id r) (in_severity r) (timeline_of (in_id r) d))"

datatype incident_op =
    OpIncident time string string string "nat list" Entry
  | OpTransition time nat string string string Entry
  | OpNote time nat string string Entry
  | OpAssign time nat string string Entry

definition forget :: "db \<times> (err + 'a) \<Rightarrow> db \<times> (err + unit)" where
  "forget r = (fst r, map_sum id (\<lambda>_. ()) (snd r))"

fun incident_step :: "incident_op \<Rightarrow> db \<Rightarrow> db \<times> (err + unit)" where
  "incident_step (OpIncident now title severity actor alertIDs e) d = forget (incident_Create now title severity actor alertIDs e d)"
| "incident_step (OpTransition now i status actor summary e) d = forget (Transition now i status actor summary e d)"
| "incident_step (OpNote now i actor body e) d = AddNote now i actor body e d"
| "incident_step (OpAssign now i owner actor e) d = forget (Assign now i owner actor e d)"

section \<open>Every operation keeps the account complete\<close>

lemma add_timeline_frame [simp]:
  "incidents (add_timeline i now kind actor body d) = incidents d" "audit_log (add_timeline i now kind actor body d) = audit_log d"
  "timeline_of j (add_timeline i now kind actor body d) = timeline_of j d @
     (if j = i then [\<lparr> tl_id = next_id (map tl_id (incident_timeline d)), tl_incident = i, tl_at = now, tl_kind = kind, tl_actor = actor, tl_body = body \<rparr>] else [])"
  by (simp_all add: add_timeline_def timeline_of_def)

lemma replay_snoc: "replay i sev (ts @ [t]) = replay_entry t (replay i sev ts)"
  by (simp add: replay_def)

lemma timeline_of_frame:
  "timeline_of j (d\<lparr> incidents := x \<rparr>) = timeline_of j d" "timeline_of j (d\<lparr> audit_log := y \<rparr>) = timeline_of j d"
  by (simp_all add: timeline_of_def)

lemma faithful_audit: "faithful (d\<lparr> audit_log := x \<rparr>) = faithful d"
  by (simp add: faithful_def timeline_of_frame)

lemma link_alerts_frame:
  assumes "foldE (link_alert i) as d = Inr d'"
  shows "incidents d' = incidents d \<and> incident_timeline d' = incident_timeline d \<and> audit_log d' = audit_log d"
  using foldE_invariant [OF assms, of "\<lambda>x. incidents x = incidents d \<and> incident_timeline x = incident_timeline d \<and> audit_log x = audit_log d"]
  by (auto simp: link_alert_def exec_eq_Inr)

lemma entry_of_status:
  assumes "CHR '':'' \<notin> set status"
  shows "entry_status (status @ '': '' @ summary) = status" and "entry_summary (status @ '': '' @ summary) = summary"
proof -
  show *: "entry_status (status @ '': '' @ summary) = status"
    unfolding entry_status_def using assms by (subst takeWhile_append2) (auto simp: in_set_conv_decomp)
  show "entry_summary (status @ '': '' @ summary) = summary"
    using * by (simp add: entry_summary_def)
qed

text \<open>An edit of the row that its timeline entry describes.\<close>

lemma faithful_edit:
  assumes "faithful d" and "\<And>t r. tl_at t = now \<Longrightarrow> tl_kind t = kind \<Longrightarrow> tl_body t = body \<Longrightarrow> replay_entry t r = f r" and "\<And>r. in_id (f r) = in_id r \<and> in_severity (f r) = in_severity r"
  shows "faithful (add_timeline i now kind actor body (d\<lparr> incidents := upd_where (\<lambda>r. in_id r = i) f (incidents d) \<rparr>))"
  unfolding faithful_def
proof
  fix q
  let ?d = "add_timeline i now kind actor body (d\<lparr> incidents := upd_where (\<lambda>r. in_id r = i) f (incidents d) \<rparr>)"
  assume "q \<in> set (incidents ?d)"
  then obtain r where r: "r \<in> set (incidents d)" and q: "q = (if in_id r = i then f r else r)"
    unfolding add_timeline_frame by (auto simp: set_upd_where)
  have replayed: "r = replay (in_id r) (in_severity r) (timeline_of (in_id r) d)"
    using assms(1) r by (simp add: faithful_def)
  show "q = replay (in_id q) (in_severity q) (timeline_of (in_id q) ?d)"
  proof (cases "in_id r = i")
    case True
    then have "in_id q = i" "in_severity q = in_severity r"
      using q assms(3) [of r] by auto
    then show ?thesis
      using True q replayed assms(2) by (simp add: replay_snoc timeline_of_frame)
  next
    case False
    then show ?thesis
      using q replayed by (simp add: timeline_of_frame)
  qed
qed

lemma incident_edit_Inr:
  "incident_edit now e i f kind actor body d = (d', Inr u) \<longleftrightarrow> \<not> io_fault d \<and> count_where (\<lambda>r. in_id r = i) (incidents d) = 1 \<and>
    (\<exists>d1 d2. exec (\<lambda>d. d\<lparr> incidents := upd_where (\<lambda>r. in_id r = i) f (incidents d) \<rparr>) d = Inr d1 \<and> exec (add_timeline i now kind actor body) d1 = Inr d2 \<and>
       Insert now (incident_audit e i) d2 = Inr d')"
  by (auto simp: incident_edit_def audited_tx_Inr bindE_eq_Inr)

lemma incident_edit_faithful:
  assumes "faithful d" and "incident_edit now e i f kind actor body d = (d', r)"
    and "\<And>t r. tl_at t = now \<Longrightarrow> tl_kind t = kind \<Longrightarrow> tl_body t = body \<Longrightarrow> replay_entry t r = f r" and "\<And>r. in_id (f r) = in_id r \<and> in_severity (f r) = in_severity r"
  shows "faithful d'"
proof (cases r)
  case (Inl x)
  then show ?thesis
    using assms(1,2) by (auto simp: incident_edit_def dest: audited_tx_Inl)
next
  case (Inr u)
  then show ?thesis
    using assms(2) faithful_edit [OF assms(1,3,4), where i = i and actor = actor] by (auto simp: incident_edit_Inr exec_eq_Inr Insert_eq_Inr faithful_audit)
qed

text \<open>The read after a committed edit finds the incident.\<close>

lemma then_incident_edit:
  assumes "\<And>r. in_id (f r) = in_id r"
  shows "forget (then_incident i (incident_edit now e i f kind actor body d)) = forget (incident_edit now e i f kind actor body d)"
proof (cases "incident_edit now e i f kind actor body d")
  case (Pair d' r)
  show ?thesis
  proof (cases r)
    case (Inr u)
    then have found: "incidents d' = upd_where (\<lambda>r. in_id r = i) f (incidents d)" "\<not> io_fault d'" "count_where (\<lambda>r. in_id r = i) (incidents d) = 1"
      using Pair by (auto simp: incident_edit_Inr exec_eq_Inr Insert_eq_Inr)
    then obtain q where "q \<in> set (incidents d)" "in_id q = i"
      using count_where_pos [of "\<lambda>r. in_id r = i" "incidents d"] by auto
    then have "find (\<lambda>r. in_id r = i) (incidents d') \<noteq> None"
      unfolding found(1) using assms by (auto simp: find_None_iff set_upd_where)
    then show ?thesis
      using Pair Inr found(2) by (auto simp: then_incident_def incident_Get_def query_def forget_def)
  qed (simp add: Pair then_incident_def forget_def)
qed

lemma Create_faithful:
  assumes "constraints d" and "faithful d" and "incident_Create now title sev actor as e d = (d', r)"
  shows "faithful d'"
proof (cases r)
  case (Inl x)
  then show ?thesis
    using assms by (auto simp: incident_Create_def Let_def split: if_splits dest: audited_tx_Inl)
next
  case (Inr u)
  let ?row = "new_incident now title sev d" and ?i = "next_id (map in_id (incidents d))"
  obtain d1 d2 d3 where d1: "d1 = d\<lparr> incidents := incidents d @ [?row] \<rparr>" and d2: "foldE (link_alert ?i) as d1 = Inr d2"
    and d3: "d3 = add_timeline ?i now ''created'' actor title d2" and d': "d' = d3\<lparr> audit_log := audit_log d3 @ [audit_row_of now (incident_audit e ?i) d3] \<rparr>"
    using assms(3) Inr by (auto simp: incident_Create_def new_incident_def Let_def audited_tx_Inr bindE_eq_Inr exec_eq_Inr Insert_eq_Inr split: if_splits)
  have rows: "incidents d3 = incidents d @ [?row]" and times: "timeline_of j d2 = timeline_of j d" for j
    using link_alerts_frame [OF d2] d1 d3 by (auto simp: timeline_of_def)
  have fresh: "timeline_of ?i d = []"
  proof -
    have "tl_incident t \<in> in_id ` set (incidents d)" if "t \<in> set (incident_timeline d)" for t
      using assms(1) that by (auto simp: constraint_defs fk_iff)
    then show ?thesis
      using next_id_map_fresh [of in_id "incidents d"] unfolding timeline_of_def filter_empty_conv by metis
  qed
  have "q = replay (in_id q) (in_severity q) (timeline_of (in_id q) d3)" if "q \<in> set (incidents d)" for q
  proof -
    have "in_id q \<noteq> ?i"
      using that next_id_map_fresh [of in_id "incidents d"] by (metis imageI)
    then show ?thesis
      using that assms(2) by (simp add: d3 times faithful_def)
  qed
  moreover have "?row = replay (in_id ?row) (in_severity ?row) (timeline_of (in_id ?row) d3)"
    by (simp add: d3 times fresh new_incident_def replay_def replay_entry_def)
  ultimately have "faithful d3"
    by (simp add: faithful_def rows)
  then show ?thesis
    by (simp add: d' faithful_audit)
qed

lemma forget_edit: "forget (incident_edit now e i f kind actor body d) = incident_edit now e i f kind actor body d"
  by (cases "incident_edit now e i f kind actor body d") (auto simp: forget_def map_sum_def split: sum.splits)

lemma forget_simps [simp]: "forget (d, Inl e) = (d, Inl e)" "forget (d, Inr x) = (d, Inr ())"
  by (simp_all add: forget_def)

lemma incident_step_edits:
  "incident_step (OpTransition now i status actor summary e) d = (if status \<notin> set incident_statuses then (d, Inl (Err ''invalid status''))
     else incident_edit now e i (set_status now status summary) ''status'' actor (status @ '': '' @ summary) d)"
  "incident_step (OpAssign now i owner actor e) d = (if owner = [] \<or> length owner > 254 then (d, Inl (Err ''invalid owner''))
     else incident_edit now e i (set_owner now owner) ''assignment'' actor owner d)"
proof -
  have "in_id (set_status now status summary r) = in_id r" "in_id (set_owner now owner r) = in_id r" for r
    by (simp_all add: set_status_def set_owner_def)
  then show
    "incident_step (OpTransition now i status actor summary e) d = (if status \<notin> set incident_statuses then (d, Inl (Err ''invalid status''))
       else incident_edit now e i (set_status now status summary) ''status'' actor (status @ '': '' @ summary) d)"
    "incident_step (OpAssign now i owner actor e) d = (if owner = [] \<or> length owner > 254 then (d, Inl (Err ''invalid owner''))
       else incident_edit now e i (set_owner now owner) ''assignment'' actor owner d)"
    by (simp_all add: Transition_def Assign_def then_incident_edit forget_edit)
qed

lemma incident_step_faithful:
  assumes "constraints d" and "faithful d" and "incident_step x d = (d', r)"
  shows "faithful d'"
proof (cases x)
  case (OpIncident now title sev actor as e)
  then show ?thesis
    using assms Create_faithful by (cases "incident_Create now title sev actor as e d") (auto simp: forget_def)
next
  case (OpTransition now i status actor summary e)
  show ?thesis
  proof (cases "status \<in> set incident_statuses")
    case True
    then have "CHR '':'' \<notin> set status"
      by (auto simp: incident_statuses_def)
    note body = entry_of_status [OF this, of summary]
    have "incident_edit now e i (set_status now status summary) ''status'' actor (status @ '': '' @ summary) d = (d', r)"
      using assms(3) OpTransition True by (simp only: incident_step_edits simp_thms if_True if_False)
    then show ?thesis
      by (rule incident_edit_faithful [OF assms(2)]) (auto simp: replay_entry_def body set_status_def simp del: append_Cons append.simps)
  next
    case False
    then show ?thesis
      using assms OpTransition by (simp only: incident_step_edits simp_thms if_True) simp
  qed
next
  case (OpNote now i actor body e)
  show ?thesis
  proof (cases r)
    case (Inl y)
    then show ?thesis
      using assms OpNote by (auto simp: AddNote_def split: if_splits dest: audited_tx_Inl)
  next
    case (Inr u)
    have "faithful (add_timeline i now ''note'' actor body d)"
      using assms(2) by (auto simp: faithful_def replay_snoc replay_entry_def)
    then show ?thesis
      using assms(3) OpNote Inr by (auto simp: AddNote_def audited_tx_Inr bindE_eq_Inr exec_eq_Inr Insert_eq_Inr faithful_audit split: if_splits)
  qed
next
  case (OpAssign now i owner actor e)
  show ?thesis
  proof (cases "owner = [] \<or> length owner > 254")
    case True
    then show ?thesis
      using assms OpAssign by (simp only: incident_step_edits if_True) simp
  next
    case False
    then have "incident_edit now e i (set_owner now owner) ''assignment'' actor owner d = (d', r)"
      using assms(3) OpAssign by (simp only: incident_step_edits if_False)
    then show ?thesis
      by (rule incident_edit_faithful [OF assms(2)]) (auto simp: replay_entry_def set_owner_def)
  qed
qed

section \<open>Every operation is audited\<close>

lemma one_row_forget [simp]: "one_row d (forget r) = one_row d r"
  by (auto simp: one_row_def forget_def map_sum_def split: prod.splits sum.splits)

lemma one_row_edit: "one_row d (incident_edit now e i f kind actor body d)"
  unfolding incident_edit_def by (rule one_row_tx) (auto simp: bindE_eq_Inr exec_eq_Inr)

lemma one_row_step: "one_row d (incident_step x d)"
proof (cases x)
  case (OpIncident now title sev actor as e)
  have "one_row d (incident_Create now title sev actor as e d)"
    unfolding incident_Create_def Let_def
    by (auto simp: one_row_def [of d "(d, Inl e')" for e'] intro!: one_row_tx simp: bindE_eq_Inr exec_eq_Inr dest!: link_alerts_frame)
  then show ?thesis
    using OpIncident by simp
next
  case (OpTransition now i status actor summary e)
  then show ?thesis
    using one_row_edit by (simp only: incident_step_edits split: if_split) (simp add: one_row_def)
next
  case (OpNote now i actor body e)
  have "one_row d (AddNote now i actor body e d)"
    unfolding AddNote_def by (auto simp: one_row_def [of d "(d, Inl e')" for e'] intro!: one_row_tx simp: bindE_eq_Inr exec_eq_Inr)
  then show ?thesis
    using OpNote by simp
next
  case (OpAssign now i owner actor e)
  then show ?thesis
    using one_row_edit by (simp only: incident_step_edits split: if_split) (simp add: one_row_def)
qed

lemma incident_step_audited:
  "incident_step x d = (d', Inl y) \<Longrightarrow> d' = d"
  "incident_step x d = (d', Inr u) \<Longrightarrow> constraints d' \<and> (\<exists>row. audit_log d' = audit_log d @ [row])"
  using one_row_step [of d x] by (simp_all add: one_row_def)

interpretation incident: audited incident_step
  by unfold_locales (use incident_step_audited in blast)+

lemma incident_run_faithful:
  assumes "constraints d" and "faithful d"
  shows "constraints (fst (run incident_step xs d)) \<and> faithful (fst (run incident_step xs d))"
  using assms
proof (induction xs arbitrary: d)
  case (Cons x xs)
  obtain d1 r where step: "incident_step x d = (d1, r)"
    by fastforce
  have "constraints d1"
    using step Cons.prems(1) incident_step_audited by (cases r) blast+
  moreover have "faithful d1"
    using step Cons.prems incident_step_faithful by blast
  ultimately show ?case
    using Cons.IH step by (simp add: run_Cons del: run.simps(2) incident_step.simps)
qed simp

text \<open>
  C26: Starting from a consistent database, after any sequence of creations, transitions, notes and assignments, refused ones included, each incident equals the replay of its
  timeline: its title, status, summary, owner and times can be computed from the timeline alone, and the audit log grew by one row per accepted operation.
\<close>

theorem incident_is_its_timeline:
  assumes "constraints d" and "faithful d"
  shows "(\<forall>r\<in>set (incidents (fst (run incident_step xs d))). r = replay (in_id r) (in_severity r) (timeline_of (in_id r) (fst (run incident_step xs d)))) \<and>
    (\<exists>rows. audit_log (fst (run incident_step xs d)) = audit_log d @ rows \<and> length rows = length (filter (\<lambda>r. \<not> isl r) (snd (run incident_step xs d))))"
  using incident_run_faithful [OF assms, of xs] incident.run_audit [of xs d] unfolding faithful_def by blast

definition incident_entry_0 :: Entry where
  "incident_entry_0 = \<lparr> en_ActorID = 0, en_Action = ''incident'', en_ObjectType = [], en_ObjectID = [], en_Detail = [] \<rparr>"

theorem incident_is_its_timeline_witness:
  "(let d = fst (run incident_step [OpIncident 5 ''Outage'' ''critical'' ''ann'' [] incident_entry_0, OpAssign 6 1 ''ben'' ''ann'' incident_entry_0,
       OpTransition 7 1 ''resolved'' ''ben'' ''disk: replaced'' incident_entry_0, OpNote 8 1 ''ben'' ''done'' incident_entry_0] empty_db)
    in incidents d = [replay 1 ''critical'' (timeline_of 1 d)] \<and> map in_status (incidents d) = [''resolved''] \<and> length (audit_log d) = 4)"
proof -
  let ?xs = "[OpIncident 5 ''Outage'' ''critical'' ''ann'' [] incident_entry_0, OpAssign 6 1 ''ben'' ''ann'' incident_entry_0,
       OpTransition 7 1 ''resolved'' ''ben'' ''disk: replaced'' incident_entry_0, OpNote 8 1 ''ben'' ''done'' incident_entry_0]"
  have "constraints empty_db" "faithful empty_db"
    by (simp_all add: constraints_empty faithful_def) (simp add: empty_db_def)
  note all = incident_is_its_timeline [OF this, of ?xs]
  have "map (\<lambda>r. (in_id r, in_severity r, in_status r)) (incidents (fst (run incident_step ?xs empty_db))) = [(1, ''critical'', ''resolved'')]"
    "length (audit_log (fst (run incident_step ?xs empty_db))) = 4"
    by code_simp+
  then show ?thesis
    using all unfolding Let_def by (auto simp: map_eq_Cons_conv simp del: run.simps)
qed

end
