(* ===== verification/Notifications.thy ===== *)
theory Notifications
  imports Audit_Log Single_Use Texts
begin

text \<open>
  Notification routes and the delivery queue (\<open>internal/notify/notify.go\<close>). An alert is queued once per enabled route; a delivery is attempted when it
  is due, and put off by a delay that doubles with every failed attempt up to 64 minutes. The sender is a parameter: \<open>send n\<close> is the outcome of
  the \<open>n\<close>-th call of a batch, \<open>None\<close> for success and the text of the error otherwise; \<open>clock n\<close> is the time read after that call. \<open>DeliverDue\<close> also
  returns the calls of the sender, which the code does not keep.
\<close>

section \<open>Routes\<close>

record Route =
  ro_ID :: id
  ro_Kind :: string
  ro_Destination :: string
  ro_Secret :: string
  ro_Enabled :: bool

record Message =
  me_AlertID :: nat
  me_PostID :: id
  me_State :: string
  me_Severity :: string

record RouteStatus =
  rs_ID :: id
  rs_Kind :: string
  rs_Destination :: string
  rs_Enabled :: bool
  rs_Pending :: nat
  rs_Retrying :: nat
  rs_Delivered :: nat

definition route_status :: "db \<Rightarrow> route_row \<Rightarrow> RouteStatus" where
  "route_status d r = (let count = (\<lambda>st. count_where (\<lambda>x. dl_route x = rt_id r \<and> dl_state x = st) (notification_deliveries d))
     in \<lparr> rs_ID = rt_id r, rs_Kind = rt_kind r, rs_Destination = rt_destination r, rs_Enabled = rt_enabled r,
          rs_Pending = count ''pending'', rs_Retrying = count ''retry'', rs_Delivered = count ''delivered'' \<rparr>)"

definition ListRoutes :: "db \<Rightarrow> err + RouteStatus list" where
  "ListRoutes d = query (\<lambda>d. map (route_status d) (sort_key rt_id (notification_routes d))) d"

definition CreateRoute :: "time \<Rightarrow> Route \<Rightarrow> Entry \<Rightarrow> db \<Rightarrow> db \<times> (err + unit)" where
  "CreateRoute now r e d = (if ro_ID r = [] \<or> \<not> (ro_Kind r = ''webhook'' \<or> ro_Kind r = ''email'') \<or> ro_Destination r = [] then (d, Inl (Err ''invalid route''))
     else audited_tx now (e\<lparr> en_ObjectType := ''notification_route'', en_ObjectID := ro_ID r \<rparr>) (\<lambda>d.
       bindE (exec (\<lambda>d. d\<lparr> notification_routes := notification_routes d @
                [\<lparr> rt_id = ro_ID r, rt_kind = ro_Kind r, rt_destination = ro_Destination r, rt_secret = ro_Secret r, rt_enabled = ro_Enabled r \<rparr>] \<rparr>) d)
         (\<lambda>d. Inr (d, ()))) d)"

section \<open>The sender of the process\<close>

text \<open>
  The client of the webhooks, the URL parser and the mail server are parameters: \<open>ne_post\<close> answers the status of a request that carries the message
  and, when the route has a secret, an authorization header; \<open>ne_mail\<close> sends a text from one address to another through a server.
\<close>

record NetworkSender =
  ne_scheme :: "string \<Rightarrow> string option"
  ne_post :: "string \<Rightarrow> string option \<Rightarrow> Message \<Rightarrow> string + int"
  ne_SMTPAddress :: string
  ne_mail :: "string \<Rightarrow> string \<Rightarrow> string \<Rightarrow> string \<Rightarrow> string option"

definition webhook :: "NetworkSender \<Rightarrow> Route \<Rightarrow> Message \<Rightarrow> string option" where
  "webhook n r m = (case ne_scheme n (ro_Destination r) of None \<Rightarrow> Some ''invalid webhook URL''
     | Some scheme \<Rightarrow> if scheme \<noteq> ''https'' \<and> scheme \<noteq> ''http'' then Some ''invalid webhook URL''
       else case ne_post n (ro_Destination r) (if ro_Secret r \<noteq> [] then Some (''Bearer '' @ ro_Secret r) else None) m of
         Inl e \<Rightarrow> Some e
       | Inr status \<Rightarrow> if status < 200 \<or> status \<ge> 300 then Some (''webhook status '' @ show_int status) else None)"

definition crlf :: string where
  "crlf = [CHR 0x0D, CHR 0x0A]"

definition mail_text :: "string \<Rightarrow> string \<Rightarrow> Message \<Rightarrow> string" where
  "mail_text sender receiver m = ''To: '' @ receiver @ crlf @ ''From: '' @ sender @ crlf @ ''Subject: Watchpost alert '' @ show_nat (me_AlertID m) @ crlf @ crlf @
     ''Post '' @ me_PostID m @ '' is '' @ me_State m @ '' ('' @ me_Severity m @ '').'' @ crlf"

definition email :: "NetworkSender \<Rightarrow> Route \<Rightarrow> Message \<Rightarrow> string option" where
  "email n r m = (case split_at (CHR ''|'') (ro_Destination r) of [sender, receiver] \<Rightarrow> ne_mail n (ne_SMTPAddress n) sender receiver (mail_text sender receiver m)
     | _ \<Rightarrow> Some ''email destination must be from|to'')"

definition Send :: "NetworkSender \<Rightarrow> Route \<Rightarrow> Message \<Rightarrow> string option" where
  "Send n r m = (if ro_Kind r = ''webhook'' then webhook n r m else if ro_Kind r = ''email'' then email n r m else Some ''unsupported route'')"

text \<open>The process sets no mail server. A mail library that refuses an empty server refuses every alert of an email route.\<close>

lemma unconfigured_mail_fails:
  assumes "ro_Kind r = ''email''" and "ne_SMTPAddress n = []" and "\<And>sender receiver m. ne_mail n [] sender receiver m \<noteq> None"
  shows "Send n r m \<noteq> None"
  using assms by (auto simp: Send_def email_def split: list.splits)

section \<open>The queue\<close>

text \<open>\<open>INSERT OR IGNORE\<close> of one delivery: a row whose alert and route are queued already is left out.\<close>

definition queue_delivery :: "time \<Rightarrow> nat \<Rightarrow> id \<Rightarrow> delivery_row list \<Rightarrow> delivery_row list" where
  "queue_delivery now alert route xs = (if list_ex (\<lambda>x. dl_alert x = alert \<and> dl_route x = route) xs then xs
     else xs @ [\<lparr> dl_id = next_id (map dl_id xs), dl_alert = alert, dl_route = route, dl_state = ''pending'', dl_attempts = 0, dl_next = now, dl_delivered = None, dl_error = [] \<rparr>])"

definition Queue :: "time \<Rightarrow> nat \<Rightarrow> db \<Rightarrow> err + db" where
  "Queue now alert d = exec (\<lambda>d. d\<lparr> notification_deliveries :=
     fold (queue_delivery now alert) (map rt_id (filter rt_enabled (notification_routes d))) (notification_deliveries d) \<rparr>) d"

section \<open>Delivery\<close>

record delivery_item =
  di_id :: nat
  di_attempts :: nat
  di_route :: Route
  di_message :: Message

definition delivery_item_of :: "db \<Rightarrow> delivery_row \<Rightarrow> delivery_item option" where
  "delivery_item_of d x = (case (find (\<lambda>r. rt_id r = dl_route x) (notification_routes d), find (\<lambda>a. al_id a = dl_alert x) (alerts d)) of
     (Some r, Some a) \<Rightarrow> Some \<lparr> di_id = dl_id x, di_attempts = dl_attempts x,
        di_route = \<lparr> ro_ID = rt_id r, ro_Kind = rt_kind r, ro_Destination = rt_destination r, ro_Secret = rt_secret r, ro_Enabled = rt_enabled r \<rparr>,
        di_message = \<lparr> me_AlertID = dl_alert x, me_PostID = al_post a, me_State = al_state a, me_Severity = al_severity a \<rparr> \<rparr>
   | _ \<Rightarrow> None)"

definition is_due :: "time \<Rightarrow> delivery_row \<Rightarrow> bool" where
  "is_due now x \<longleftrightarrow> (dl_state x = ''pending'' \<or> dl_state x = ''retry'') \<and> text_le (dl_next x) now"

definition due_items :: "time \<Rightarrow> nat \<Rightarrow> db \<Rightarrow> delivery_item list" where
  "due_items now limit d = take limit (somes (delivery_item_of d) (sort_key dl_id (filter (is_due now) (notification_deliveries d))))"

definition notify_min :: "nat \<Rightarrow> nat \<Rightarrow> nat" where
  "notify_min a b = (if a < b then a else b)"

definition truncate_error :: "string \<Rightarrow> nat \<Rightarrow> string" where
  "truncate_error v n = (if length v > n then take n v else v)"

definition retry_delay :: "nat \<Rightarrow> time" where
  "retry_delay attempts = 2 ^ notify_min attempts 6 * minute"

definition delivered :: "time \<Rightarrow> delivery_row \<Rightarrow> delivery_row" where
  "delivered now x = x\<lparr> dl_state := ''delivered'', dl_attempts := dl_attempts x + 1, dl_delivered := Some now, dl_error := [] \<rparr>"

definition put_off :: "time \<Rightarrow> nat \<Rightarrow> string \<Rightarrow> delivery_row \<Rightarrow> delivery_row" where
  "put_off now attempts failure x = x\<lparr> dl_state := ''retry'', dl_attempts := dl_attempts x + 1, dl_next := now + retry_delay attempts, dl_error := truncate_error failure 300 \<rparr>"

definition record_attempt :: "time \<Rightarrow> delivery_item \<Rightarrow> string option \<Rightarrow> db \<Rightarrow> db" where
  "record_attempt now i r d = (let f = (case r of None \<Rightarrow> delivered now | Some failure \<Rightarrow> put_off now (di_attempts i) failure)
     in case exec (\<lambda>d. d\<lparr> notification_deliveries := upd_where (\<lambda>x. dl_id x = di_id i) f (notification_deliveries d) \<rparr>) d of Inl e \<Rightarrow> d | Inr d' \<Rightarrow> d')"

type_synonym send_log = "(Route \<times> Message \<times> string option) list"

fun deliver_items :: "(nat \<Rightarrow> Route \<Rightarrow> Message \<Rightarrow> string option) \<Rightarrow> (nat \<Rightarrow> time) \<Rightarrow> nat \<Rightarrow> delivery_item list \<Rightarrow> db \<Rightarrow> db \<times> send_log" where
  "deliver_items send clock n [] d = (d, [])"
| "deliver_items send clock n (i # is) d = (let r = send n (di_route i) (di_message i)
     in case deliver_items send clock (Suc n) is (record_attempt (clock n) i r d) of (d', calls) \<Rightarrow> (d', (di_route i, di_message i, r) # calls))"

definition DeliverDue :: "(nat \<Rightarrow> Route \<Rightarrow> Message \<Rightarrow> string option) \<Rightarrow> (nat \<Rightarrow> time) \<Rightarrow> time \<Rightarrow> int \<Rightarrow> db \<Rightarrow> db \<times> (err + send_log)" where
  "DeliverDue send clock now limit d = (if limit < 1 \<or> limit > 100 then (d, Inl (Err ''invalid delivery limit''))
     else case query (due_items now (nat limit)) d of Inl e \<Rightarrow> (d, Inl e)
     | Inr items \<Rightarrow> case deliver_items send clock 0 items d of (d', calls) \<Rightarrow> (d', Inr calls))"

section \<open>Operations\<close>

datatype notify_op =
    OpCreateRoute time Route Entry
  | OpQueue time nat
  | OpDeliver "nat \<Rightarrow> Route \<Rightarrow> Message \<Rightarrow> string option" "nat \<Rightarrow> time" time int

fun notify_step :: "notify_op \<Rightarrow> db \<Rightarrow> db \<times> (err + send_log)" where
  "notify_step (OpCreateRoute now r e) d = (case CreateRoute now r e d of (d', x) \<Rightarrow> (d', map_sum id (\<lambda>_. []) x))"
| "notify_step (OpQueue now alert) d = (case Queue now alert d of Inl e \<Rightarrow> (d, Inl e) | Inr d' \<Rightarrow> (d', Inr []))"
| "notify_step (OpDeliver send clock now limit) d = DeliverDue send clock now limit d"

section \<open>One attempt\<close>

lemma constraints_edit_deliveries:
  assumes "constraints d" and "\<And>x. x \<in> set (notification_deliveries d) \<Longrightarrow> P x \<Longrightarrow> dl_id (f x) = dl_id x \<and> dl_alert (f x) = dl_alert x \<and> dl_route (f x) = dl_route x"
  shows "constraints (d\<lparr> notification_deliveries := upd_where P f (notification_deliveries d) \<rparr>)"
  using assms by (simp add: constraint_defs Let_def)

definition attempted :: "time \<Rightarrow> delivery_item \<Rightarrow> string option \<Rightarrow> delivery_row \<Rightarrow> delivery_row" where
  "attempted now i r = (case r of None \<Rightarrow> delivered now | Some failure \<Rightarrow> put_off now (di_attempts i) failure)"

lemma attempted_frame [simp]:
  "dl_id (attempted now i r x) = dl_id x" "dl_alert (attempted now i r x) = dl_alert x" "dl_route (attempted now i r x) = dl_route x"
  "dl_state (attempted now i r x) = (if r = None then ''delivered'' else ''retry'')"
  by (auto simp: attempted_def delivered_def put_off_def split: option.splits)

definition sending :: "db \<Rightarrow> bool" where
  "sending d \<longleftrightarrow> constraints d \<and> \<not> io_fault d"

lemma record_attempt_eq:
  assumes "sending d"
  shows "record_attempt now i r d = d\<lparr> notification_deliveries := upd_where (\<lambda>x. dl_id x = di_id i) (attempted now i r) (notification_deliveries d) \<rparr>"
proof -
  have "constraints (d\<lparr> notification_deliveries := upd_where (\<lambda>x. dl_id x = di_id i) (attempted now i r) (notification_deliveries d) \<rparr>)"
    using assms by (intro constraints_edit_deliveries) (simp_all add: sending_def)
  then show ?thesis
    using assms by (simp add: record_attempt_def attempted_def [symmetric] exec_def sending_def)
qed

lemma sending_attempt:
  assumes "sending d"
  shows "sending (record_attempt now i r d)"
  using assms constraints_edit_deliveries [of d "\<lambda>x. dl_id x = di_id i" "attempted now i r"] by (simp add: record_attempt_eq) (simp add: sending_def)

section \<open>Delivered at most once\<close>

definition delivery_key :: "delivery_row \<Rightarrow> nat \<times> id" where
  "delivery_key x = (dl_alert x, dl_route x)"

definition item_key :: "delivery_item \<Rightarrow> nat \<times> id" where
  "item_key i = (me_AlertID (di_message i), ro_ID (di_route i))"

definition call_key :: "Route \<times> Message \<times> string option \<Rightarrow> nat \<times> id" where
  "call_key c = (case c of (r, m, x) \<Rightarrow> (me_AlertID m, ro_ID r))"

definition was_delivered :: "nat \<times> id \<Rightarrow> db \<Rightarrow> bool" where
  "was_delivered k d \<longleftrightarrow> (\<exists>x\<in>set (notification_deliveries d). delivery_key x = k \<and> dl_state x = ''delivered'')"

definition notified :: "notify_op \<Rightarrow> send_log \<Rightarrow> (nat \<times> id) set" where
  "notified x calls = {k. \<exists>c\<in>set calls. call_key c = k \<and> snd (snd c) = None}"

definition item_open :: "db \<Rightarrow> delivery_item \<Rightarrow> bool" where
  "item_open d i \<longleftrightarrow> (\<exists>x\<in>set (notification_deliveries d). dl_id x = di_id i \<and> delivery_key x = item_key i \<and> dl_state x \<noteq> ''delivered'')"

lemma sendingD:
  assumes "sending d"
  shows "distinct (map dl_id (notification_deliveries d))" and "distinct (map delivery_key (notification_deliveries d))"
  using assms by (simp_all add: sending_def constraint_defs delivery_key_def [abs_def])

lemma item_open_attempt:
  assumes "sending d" and "item_open d j" and "di_id j \<noteq> di_id i"
  shows "item_open (record_attempt now i r d) j"
proof -
  obtain x where "x \<in> set (notification_deliveries d)" "dl_id x = di_id j" "delivery_key x = item_key j" "dl_state x \<noteq> ''delivered''"
    using assms(2) by (auto simp: item_open_def)
  then show ?thesis
    using assms(1,3) unfolding item_open_def record_attempt_eq [OF assms(1)] by (intro bexI [of _ x]) (auto simp: set_upd_where intro!: image_eqI [of _ _ x])
qed

lemma delivered_stays:
  assumes "sending d" and "was_delivered k d" and "item_open d i"
  shows "was_delivered k (record_attempt now i r d)"
proof -
  obtain x where x: "x \<in> set (notification_deliveries d)" "delivery_key x = k" "dl_state x = ''delivered''"
    using assms(2) by (auto simp: was_delivered_def)
  moreover have "dl_id x \<noteq> di_id i"
    using assms(3) x sendingD(1) [OF assms(1)] unfolding item_open_def by (metis find_key_unique option.inject)
  ultimately show ?thesis
    unfolding was_delivered_def record_attempt_eq [OF assms(1)] by (intro bexI [of _ x]) (auto simp: set_upd_where intro!: image_eqI [of _ _ x])
qed

lemma open_not_delivered:
  assumes "sending d" and "item_open d i"
  shows "\<not> was_delivered (item_key i) d"
  using assms(2) sendingD(2) [OF assms(1)] unfolding item_open_def was_delivered_def by (metis find_key_unique option.inject)

lemma attempt_delivers:
  assumes "sending d" and "item_open d i"
  shows "was_delivered (item_key i) (record_attempt now i None d)"
proof -
  obtain x where x: "x \<in> set (notification_deliveries d)" "dl_id x = di_id i" "delivery_key x = item_key i"
    using assms(2) by (auto simp: item_open_def)
  then show ?thesis
    unfolding was_delivered_def record_attempt_eq [OF assms(1)]
    by (intro bexI [of _ "attempted now i None x"]) (auto simp: set_upd_where delivery_key_def intro!: image_eqI [of _ _ x])
qed

lemma deliver_items_law:
  assumes "sending d" and "distinct (map di_id is)" and "\<And>i. i \<in> set is \<Longrightarrow> item_open d i" and "deliver_items send clock n is d = (d', calls)"
  shows "sending d' \<and> map call_key calls = map item_key is \<and> (\<forall>k. was_delivered k d \<longrightarrow> was_delivered k d') \<and>
    (\<forall>c\<in>set calls. snd (snd c) = None \<longrightarrow> \<not> was_delivered (call_key c) d \<and> was_delivered (call_key c) d')"
  using assms
proof (induction "is" arbitrary: n d d' calls)
  case (Cons i "is")
  define r where "r = send n (di_route i) (di_message i)"
  let ?d = "record_attempt (clock n) i r d"
  obtain rest where rest: "deliver_items send clock (Suc n) is ?d = (d', rest)" and calls: "calls = (di_route i, di_message i, r) # rest"
    using Cons.prems(4) by (auto simp: Let_def r_def split: prod.splits)
  have opened: "item_open d i"
    using Cons.prems(3) by simp
  have stays: "\<forall>k. was_delivered k d \<longrightarrow> was_delivered k ?d"
    using delivered_stays [OF Cons.prems(1) _ opened] by blast
  have IH: "sending d' \<and> map call_key rest = map item_key is \<and> (\<forall>k. was_delivered k ?d \<longrightarrow> was_delivered k d') \<and>
      (\<forall>c\<in>set rest. snd (snd c) = None \<longrightarrow> \<not> was_delivered (call_key c) ?d \<and> was_delivered (call_key c) d')"
  proof (rule Cons.IH [OF _ _ _ rest])
    show "sending ?d"
      by (rule sending_attempt [OF Cons.prems(1)])
    show "item_open ?d j" if "j \<in> set is" for j
      using that Cons.prems(1-3) by (intro item_open_attempt) (auto simp: rev_image_eqI)
  qed (use Cons.prems(2) in simp)
  have key: "call_key (di_route i, di_message i, r) = item_key i"
    by (simp add: call_key_def item_key_def)
  have first: "\<not> was_delivered (item_key i) d \<and> was_delivered (item_key i) ?d" if "r = None"
    using open_not_delivered [OF Cons.prems(1) opened] attempt_delivers [OF Cons.prems(1) opened] that by simp
  show ?case
  proof (intro conjI allI impI ballI)
    show "sending d'" "map call_key calls = map item_key (i # is)"
      using IH key by (simp_all add: calls)
    show "was_delivered k d'" if "was_delivered k d" for k
      using that stays IH by blast
    show "\<not> was_delivered (call_key c) d" "was_delivered (call_key c) d'" if "c \<in> set calls" "snd (snd c) = None" for c
      using that first key stays IH unfolding calls by (metis set_ConsD snd_conv)+
  qed
qed simp

lemma item_of_row:
  assumes "delivery_item_of d x = Some i"
  shows "di_id i = dl_id x" and "item_key i = delivery_key x" and "di_attempts i = dl_attempts x"
  using assms by (auto simp: delivery_item_of_def item_key_def delivery_key_def split: option.splits dest!: find_set)

lemma map_somes:
  assumes "\<And>x i. f x = Some i \<Longrightarrow> g i = h x" and "distinct (map h xs)"
  shows "distinct (map g (somes f xs))"
  using assms(2)
proof (induction xs)
  case (Cons x xs)
  have "h x \<notin> g ` set (somes f xs)"
  proof
    assume "h x \<in> g ` set (somes f xs)"
    then obtain y i where "y \<in> set xs" "f y = Some i" "h x = g i"
      by auto
    then show False
      using Cons.prems assms(1) [of y i] by auto
  qed
  then show ?case
    using Cons assms(1) [of x] by (cases "f x") auto
qed simp

lemma distinct_sort_key: "distinct (map h xs) \<Longrightarrow> distinct (map h (sort_key f xs))"
  by (metis distinct_map distinct_sort set_sort)

lemma due_items_open:
  assumes "sending d"
  shows "distinct (map di_id (due_items now n d))" and "distinct (map item_key (due_items now n d))" and "i \<in> set (due_items now n d) \<Longrightarrow> item_open d i"
proof -
  let ?xs = "sort_key dl_id (filter (is_due now) (notification_deliveries d))"
  have "distinct (map dl_id ?xs)" "distinct (map delivery_key ?xs)"
    using sendingD [OF assms] by (simp_all add: distinct_sort_key distinct_map_filter)
  then have "distinct (map di_id (somes (delivery_item_of d) ?xs))" "distinct (map item_key (somes (delivery_item_of d) ?xs))"
    using item_of_row by (blast intro: map_somes)+
  then show "distinct (map di_id (due_items now n d))" "distinct (map item_key (due_items now n d))"
    unfolding due_items_def by (simp_all add: take_map [symmetric])
  show "item_open d i" if "i \<in> set (due_items now n d)"
  proof -
    obtain x where "x \<in> set (notification_deliveries d)" "is_due now x" "delivery_item_of d x = Some i"
      using \<open>i \<in> set (due_items now n d)\<close> unfolding due_items_def by (auto dest!: in_set_takeD)
    then show ?thesis
      unfolding item_open_def by (intro bexI [of _ x]) (auto simp: item_of_row is_due_def)
  qed
qed

lemma DeliverDue_law:
  assumes "sending d" and "DeliverDue send clock now limit d = (d', Inr calls)"
  shows "sending d' \<and> distinct (map call_key calls) \<and> (\<forall>k. was_delivered k d \<longrightarrow> was_delivered k d') \<and>
    (\<forall>c\<in>set calls. snd (snd c) = None \<longrightarrow> \<not> was_delivered (call_key c) d \<and> was_delivered (call_key c) d')"
proof -
  have "deliver_items send clock 0 (due_items now (nat limit) d) d = (d', calls)"
    using assms by (auto simp: DeliverDue_def query_def sending_def split: if_splits prod.splits)
  then show ?thesis
    using deliver_items_law [OF assms(1)] due_items_open [OF assms(1)] by metis
qed

lemma DeliverDue_Inl: "DeliverDue send clock now limit d = (d', Inl e) \<Longrightarrow> d' = d"
  by (auto simp: DeliverDue_def split: if_splits sum.splits prod.splits)

lemma queue_keeps: "set xs \<subseteq> set (fold (queue_delivery now alert) rs xs)"
proof (induction rs arbitrary: xs)
  case (Cons r rs)
  have "set xs \<subseteq> set (queue_delivery now alert r xs)"
    by (auto simp: queue_delivery_def)
  then show ?case
    using Cons [of "queue_delivery now alert r xs"] by simp
qed simp

lemma notify_step_law:
  assumes "sending d" and "notify_step x d = (d', r)"
  shows "sending d' \<and> (\<forall>k. was_delivered k d \<longrightarrow> was_delivered k d')"
proof (cases x)
  case (OpCreateRoute now route e)
  obtain y where y: "CreateRoute now route e d = (d', y)"
    using assms(2) OpCreateRoute by (auto split: prod.splits)
  show ?thesis
  proof (cases y)
    case (Inl e)
    then have "d' = d"
      using y by (auto simp: CreateRoute_def split: if_splits dest: audited_tx_Inl)
    then show ?thesis
      using assms(1) by simp
  next
    case (Inr u)
    then show ?thesis
      using y assms(1) by (auto simp: CreateRoute_def audited_tx_Inr bindE_eq_Inr exec_eq_Inr Insert_eq_Inr sending_def was_delivered_def split: if_splits)
  qed
next
  case (OpQueue now alert)
  then show ?thesis
    using assms subsetD [OF queue_keeps]
    by (auto simp: Queue_def exec_eq_Inr sending_def was_delivered_def split: sum.splits simp del: split_paired_All intro!: bexI)
next
  case (OpDeliver send clock now limit)
  then show ?thesis
    using assms DeliverDue_law DeliverDue_Inl by (cases r) (simp_all del: split_paired_All, blast+)
qed

interpretation notify: single_use notify_step sending "\<lambda>x. True" notified was_delivered
proof unfold_locales
  show "sending d \<Longrightarrow> True \<Longrightarrow> notify_step x d = (d', r) \<Longrightarrow> sending d'" for d x d' r
    using notify_step_law by blast
  show "sending d \<Longrightarrow> True \<Longrightarrow> notify_step x d = (d', Inr y) \<Longrightarrow> k \<in> notified x y \<Longrightarrow> \<not> was_delivered k d \<and> was_delivered k d'" for d x d' y k
  proof (cases x)
    case (OpDeliver send clock now limit)
    assume "sending d" "notify_step x d = (d', Inr y)" "k \<in> notified x y"
    then show ?thesis
      using DeliverDue_law OpDeliver by (auto simp: notified_def simp del: split_paired_All split_paired_Ex) 
  qed (auto simp: notified_def map_sum_def split: prod.splits sum.splits)
  show "sending d \<Longrightarrow> True \<Longrightarrow> notify_step x d = (d', r) \<Longrightarrow> was_delivered k d \<Longrightarrow> was_delivered k d'" for d x d' r k
    using notify_step_law by blast
qed


section \<open>The queue drains\<close>

definition open_delivery :: "delivery_row \<Rightarrow> bool" where
  "open_delivery x \<longleftrightarrow> dl_state x = ''pending'' \<or> dl_state x = ''retry''"

text \<open>Every row is kept, unchanged or delivered.\<close>

definition settles :: "(delivery_row \<Rightarrow> delivery_row) \<Rightarrow> delivery_row list \<Rightarrow> bool" where
  "settles g xs \<longleftrightarrow> (\<forall>x\<in>set xs. g x = x \<or> dl_id (g x) = dl_id x \<and> dl_state (g x) = ''delivered'')"

lemma settles_comp: "settles g xs \<Longrightarrow> settles h (map g xs) \<Longrightarrow> settles (\<lambda>x. h (g x)) xs"
  by (force simp: settles_def)

lemma deliver_all:
  assumes "sending d" and "distinct (map di_id is)" and "deliver_items (\<lambda>n r m. None) clock n is d = (d', calls)"
  shows "\<exists>g. notification_deliveries d' = map g (notification_deliveries d) \<and>
     (\<forall>x. if dl_id x \<in> di_id ` set is then dl_id (g x) = dl_id x \<and> dl_state (g x) = ''delivered'' else g x = x)"
  using assms
proof (induction "is" arbitrary: n d calls)
  case Nil
  then show ?case
    by (intro exI [of _ "\<lambda>x. x"]) simp
next
  case (Cons i "is")
  let ?d = "record_attempt (clock n) i None d" and ?g = "\<lambda>x. if dl_id x = di_id i then attempted (clock n) i None x else x"
  obtain rest where rest: "deliver_items (\<lambda>n r m. None) clock (Suc n) is ?d = (d', rest)"
    using Cons.prems(3) by (auto simp: Let_def split: prod.splits)
  obtain g where g: "notification_deliveries d' = map g (notification_deliveries ?d)"
    "\<forall>x. if dl_id x \<in> di_id ` set is then dl_id (g x) = dl_id x \<and> dl_state (g x) = ''delivered'' else g x = x"
    using Cons.IH [OF sending_attempt [OF Cons.prems(1)] _ rest] Cons.prems(2) by auto
  have "notification_deliveries d' = map (g \<circ> ?g) (notification_deliveries d)"
    using g(1) by (simp add: record_attempt_eq [OF Cons.prems(1)] upd_where_def)
  moreover have "di_id i \<notin> di_id ` set is"
    using Cons.prems(2) by auto
  then have "if dl_id x \<in> di_id ` set (i # is) then dl_id ((g \<circ> ?g) x) = dl_id x \<and> dl_state ((g \<circ> ?g) x) = ''delivered'' else (g \<circ> ?g) x = x" for x
    using g(2) [rule_format, of x] g(2) [rule_format, of "attempted (clock n) i None x"] by auto
  ultimately show ?case
    by blast
qed

lemma due_joined:
  assumes "sending d" and "x \<in> set (notification_deliveries d)"
  shows "\<exists>i. delivery_item_of d x = Some i \<and> di_id i = dl_id x"
proof -
  have "dl_route x \<in> rt_id ` set (notification_routes d)" "dl_alert x \<in> al_id ` set (alerts d)"
    using assms by (auto simp: sending_def constraint_defs fk_iff)
  then have "find (\<lambda>r. rt_id r = dl_route x) (notification_routes d) \<noteq> None" "find (\<lambda>a. al_id a = dl_alert x) (alerts d) \<noteq> None"
    by (auto simp: find_None_iff)
  then show ?thesis
    by (auto simp: delivery_item_of_def)
qed

lemma map_somes_id:
  assumes "\<And>x. x \<in> set xs \<Longrightarrow> \<exists>i. f x = Some i \<and> g i = h x"
  shows "map g (somes f xs) = map h xs"
  using assms by (induction xs) fastforce+

lemma due_items_ids:
  assumes "sending d"
  shows "map di_id (due_items now n d) = take n (map dl_id (sort_key dl_id (filter (is_due now) (notification_deliveries d))))"
  using map_somes_id [of "sort_key dl_id (filter (is_due now) (notification_deliveries d))" "delivery_item_of d" di_id dl_id] due_joined [OF assms]
  by (auto simp: due_items_def simp flip: take_map)

lemma count_settled:
  assumes "distinct (map dl_id xs)" and "\<And>x. x \<in> set xs \<Longrightarrow> if dl_id x \<in> S then \<not> open_delivery (g x) \<and> open_delivery x else g x = x"
    and "S \<subseteq> dl_id ` set xs"
  shows "count_where open_delivery (map g xs) + card S = count_where open_delivery xs"
  using assms
proof (induction xs arbitrary: S)
  case (Cons x xs)
  have "count_where open_delivery (map g xs) + card (S - {dl_id x}) = count_where open_delivery xs"
  proof (rule Cons.IH)
    fix y
    assume y: "y \<in> set xs"
    then have "dl_id y \<noteq> dl_id x"
      using Cons.prems(1) by (auto simp: rev_image_eqI)
    then show "if dl_id y \<in> S - {dl_id x} then \<not> open_delivery (g y) \<and> open_delivery y else g y = y"
      using Cons.prems(2) [of y] y by auto
  qed (use Cons.prems in auto)
  moreover have "finite S"
    using Cons.prems(3) finite_surj by blast
  ultimately show ?case
    using Cons.prems(2) [of x] by (cases "dl_id x \<in> S") (auto simp: card_Suc_Diff1 [symmetric] simp del: card_Diff_insert)
qed simp

lemma deliver_round:
  assumes "sending d" and "1 \<le> limit" and "limit \<le> 100" and "DeliverDue (\<lambda>n r m. None) clock now limit d = (d', r)"
  shows "\<exists>g. notification_deliveries d' = map g (notification_deliveries d) \<and> settles g (notification_deliveries d) \<and>
     ((\<forall>x\<in>set (notification_deliveries d). is_due now x \<longrightarrow> dl_state (g x) = ''delivered'') \<or>
      count_where open_delivery (notification_deliveries d') + nat limit = count_where open_delivery (notification_deliveries d))"
proof -
  let ?items = "due_items now (nat limit) d" and ?xs = "notification_deliveries d"
  let ?due = "map dl_id (sort_key dl_id (filter (is_due now) ?xs))"
  obtain calls where calls: "deliver_items (\<lambda>n r m. None) clock 0 ?items d = (d', calls)"
    using assms by (auto simp: DeliverDue_def query_def sending_def split: prod.splits)
  obtain g where g: "notification_deliveries d' = map g ?xs"
    "\<forall>x. if dl_id x \<in> di_id ` set ?items then dl_id (g x) = dl_id x \<and> dl_state (g x) = ''delivered'' else g x = x"
    using deliver_all [OF assms(1) due_items_open(1) [OF assms(1)] calls] by blast
  have settles: "settles g ?xs"
    unfolding settles_def using g(2) by metis
  have ids: "di_id ` set ?items = set (take (nat limit) ?due)"
    using due_items_ids [OF assms(1), of now "nat limit"] by (metis list.set_map)
  have distinct: "distinct ?due"
    using sendingD(1) [OF assms(1)] by (simp add: distinct_sort_key distinct_map_filter)
  show ?thesis
  proof (cases "length ?due \<le> nat limit")
    case True
    then have "dl_state (g x) = ''delivered''" if "x \<in> set ?xs" "is_due now x" for x
      using that g(2) [rule_format, of x] by (auto simp: ids)
    then show ?thesis
      using g(1) settles by blast
  next
    case False
    have "count_where open_delivery (map g ?xs) + card (di_id ` set ?items) = count_where open_delivery ?xs"
    proof (rule count_settled [OF sendingD(1) [OF assms(1)]])
      show "di_id ` set ?items \<subseteq> dl_id ` set ?xs"
        unfolding ids using set_take_subset [of "nat limit" ?due] by fastforce
      fix x
      assume x: "x \<in> set ?xs"
      show "if dl_id x \<in> di_id ` set ?items then \<not> open_delivery (g x) \<and> open_delivery x else g x = x"
      proof (cases "dl_id x \<in> di_id ` set ?items")
        case True
        then have "dl_id x \<in> set ?due"
          unfolding ids by (rule in_set_takeD)
        then obtain y where y: "y \<in> set ?xs" "is_due now y" "dl_id y = dl_id x"
          by auto
        then have "y = x"
          using x sendingD(1) [OF assms(1)] by (metis find_key_unique option.inject)
        then show ?thesis
          using True y(2) g(2) [rule_format, of x] by (auto simp: open_delivery_def is_due_def)
      qed (use g(2) [rule_format, of x] in auto)
    qed
    moreover have "card (di_id ` set ?items) = nat limit"
      unfolding ids using False distinct by (simp add: distinct_card distinct_take)
    ultimately show ?thesis
      using g(1) settles by auto
  qed
qed

lemma text_le_trans: "text_le a b \<Longrightarrow> text_le b c \<Longrightarrow> text_le a c"
  by (auto simp: text_le_def text_less_def)

abbreviation deliver_tick :: "(nat \<Rightarrow> time) \<times> time \<Rightarrow> notify_op" where
  "deliver_tick t \<equiv> OpDeliver (\<lambda>n r m. None) (fst t) (snd t) 25"

lemma deliver_tick_round:
  assumes "sending d" and "notify_step (deliver_tick t) d = (d', r)"
  shows "sending d'" and "\<exists>g. notification_deliveries d' = map g (notification_deliveries d) \<and> settles g (notification_deliveries d) \<and>
     ((\<forall>x\<in>set (notification_deliveries d). is_due (snd t) x \<longrightarrow> dl_state (g x) = ''delivered'') \<or>
      count_where open_delivery (notification_deliveries d') + 25 = count_where open_delivery (notification_deliveries d))"
  using notify_step_law [OF assms] deliver_round [OF assms(1), of 25 "fst t" "snd t" d' r] assms(2) by simp_all

lemma rounds_settle:
  assumes "sending d"
  shows "\<exists>g. notification_deliveries (fst (run notify_step (map deliver_tick ts) d)) = map g (notification_deliveries d) \<and> settles g (notification_deliveries d)"
  using assms
proof (induction ts arbitrary: d)
  case Nil
  then show ?case
    by (intro exI [of _ "\<lambda>x. x"]) (simp add: settles_def)
next
  case (Cons t ts)
  obtain d1 r where step: "notify_step (deliver_tick t) d = (d1, r)"
    by fastforce
  obtain g where g: "notification_deliveries d1 = map g (notification_deliveries d)" "settles g (notification_deliveries d)"
    using deliver_tick_round(2) [OF Cons.prems step] by blast
  obtain h where "notification_deliveries (fst (run notify_step (map deliver_tick ts) d1)) = map h (notification_deliveries d1)" "settles h (notification_deliveries d1)"
    using Cons.IH deliver_tick_round(1) [OF Cons.prems step] by blast
  then show ?case
    using g step settles_comp by (intro exI [of _ "\<lambda>x. h (g x)"]) (simp add: case_prod_beta del: notify_step.simps)
qed

lemma rounds_deliver:
  assumes "sending d" and "\<And>t. t \<in> set ts \<Longrightarrow> text_le t0 (snd t)" and "count_where open_delivery (notification_deliveries d) \<le> 25 * length ts"
  shows "\<exists>g. notification_deliveries (fst (run notify_step (map deliver_tick ts) d)) = map g (notification_deliveries d) \<and> settles g (notification_deliveries d) \<and>
     (\<forall>x\<in>set (notification_deliveries d). is_due t0 x \<longrightarrow> dl_state (g x) = ''delivered'')"
  using assms
proof (induction ts arbitrary: d)
  case Nil
  then show ?case
    by (intro exI [of _ "\<lambda>x. x"]) (auto simp: settles_def open_delivery_def is_due_def)
next
  case (Cons t ts)
  obtain d1 r where step: "notify_step (deliver_tick t) d = (d1, r)"
    by fastforce
  have s1: "sending d1"
    by (rule deliver_tick_round(1) [OF Cons.prems(1) step])
  obtain g where g: "notification_deliveries d1 = map g (notification_deliveries d)" "settles g (notification_deliveries d)"
    and either: "(\<forall>x\<in>set (notification_deliveries d). is_due (snd t) x \<longrightarrow> dl_state (g x) = ''delivered'') \<or>
      count_where open_delivery (notification_deliveries d1) + 25 = count_where open_delivery (notification_deliveries d)"
    using deliver_tick_round(2) [OF Cons.prems(1) step] by blast
  have due: "is_due (snd t) x" if "is_due t0 x" for x
    using that Cons.prems(2) [of t] text_le_trans unfolding is_due_def by auto
  have "\<exists>h. notification_deliveries (fst (run notify_step (map deliver_tick ts) d1)) = map h (notification_deliveries d1) \<and> settles h (notification_deliveries d1) \<and>
      (\<forall>x\<in>set (notification_deliveries d). is_due t0 x \<longrightarrow> dl_state (h (g x)) = ''delivered'')"
    using either
  proof
    assume all: "\<forall>x\<in>set (notification_deliveries d). is_due (snd t) x \<longrightarrow> dl_state (g x) = ''delivered''"
    obtain h where h: "notification_deliveries (fst (run notify_step (map deliver_tick ts) d1)) = map h (notification_deliveries d1)" "settles h (notification_deliveries d1)"
      using rounds_settle [OF s1] by blast
    have "dl_state (h (g x)) = ''delivered''" if "x \<in> set (notification_deliveries d)" "is_due t0 x" for x
    proof -
      have "h (g x) = g x \<or> dl_state (h (g x)) = ''delivered''"
        using h(2) that(1) unfolding settles_def g(1) by auto
      then show ?thesis
        using all that due [of x] by auto
    qed
    then show ?thesis
      using h by blast
  next
    assume "count_where open_delivery (notification_deliveries d1) + 25 = count_where open_delivery (notification_deliveries d)"
    then obtain h where h: "notification_deliveries (fst (run notify_step (map deliver_tick ts) d1)) = map h (notification_deliveries d1)" "settles h (notification_deliveries d1)"
      "\<forall>x\<in>set (notification_deliveries d1). is_due t0 x \<longrightarrow> dl_state (h x) = ''delivered''"
      using Cons.IH [OF s1] Cons.prems(2,3) by auto
    have "dl_state (h (g x)) = ''delivered''" if "x \<in> set (notification_deliveries d)" "is_due t0 x" for x
    proof -
      have "g x \<in> set (notification_deliveries d1)" "g x = x \<or> dl_state (g x) = ''delivered''"
        using g that(1) by (auto simp: settles_def)
      then show ?thesis
        using h(2,3) that(2) unfolding settles_def by metis
    qed
    then show ?thesis
      using h(1,2) by blast
  qed
  then obtain h where h: "notification_deliveries (fst (run notify_step (map deliver_tick ts) d1)) = map h (notification_deliveries d1)" "settles h (notification_deliveries d1)"
    and "\<forall>x\<in>set (notification_deliveries d). is_due t0 x \<longrightarrow> dl_state (h (g x)) = ''delivered''"
    by blast
  then show ?case
    using g h step settles_comp by (intro exI [of _ "\<lambda>x. h (g x)"]) (simp add: case_prod_beta del: notify_step.simps)
qed

text \<open>
  C25: While the sender succeeds, the queue drains: after as many ticks as there are batches of 25 open deliveries, every delivery that was due at the first tick is delivered,
  whatever else became due meanwhile.
\<close>

theorem delivery_queue_drains:
  assumes "sending d" and "\<And>t. t \<in> set ts \<Longrightarrow> text_le t0 (snd t)" and "count_where open_delivery (notification_deliveries d) \<le> 25 * length ts"
    and "x \<in> set (notification_deliveries d)" and "is_due t0 x"
  shows "\<exists>y\<in>set (notification_deliveries (fst (run notify_step (map deliver_tick ts) d))). dl_id y = dl_id x \<and> dl_state y = ''delivered''"
proof -
  obtain g where g: "notification_deliveries (fst (run notify_step (map deliver_tick ts) d)) = map g (notification_deliveries d)"
    "settles g (notification_deliveries d)" "dl_state (g x) = ''delivered''"
    using rounds_deliver [OF assms(1-3)] assms(4,5) by blast
  moreover have "dl_id (g x) = dl_id x"
    using g(2) assms(4) unfolding settles_def by metis
  ultimately show ?thesis
    using assms(4) by auto
qed

section \<open>Witnesses\<close>

definition sample_firing :: db where
  "sample_firing = empty_db\<lparr>
     posts := [\<lparr> po_id = ''web'', po_name = ''Web'', po_kind = ''host'', po_address = [], po_owner = [], po_labels = LObj [], po_maintenance = False, po_archived = False,
        po_version = 1, po_created = [], po_updated = [] \<rparr>],
     rules := [\<lparr> ru_id = ''cpu'', ru_post = ''web'', ru_signal = ''cpu.percent'', ru_operator = ''gt'', ru_threshold = Num 90, ru_duration = 0, ru_recovery = None,
        ru_missing = ''unknown'', ru_severity = ''warning'', ru_enabled = True, ru_version = 1 \<rparr>],
     alerts := [\<lparr> al_id = 1, al_rule = ''cpu'', al_post = ''web'', al_state = ''firing'', al_severity = ''warning'', al_opened = 0, al_updated = 0, al_acknowledged = None,
        al_resolved = None, al_value = None \<rparr>],
     notification_routes := [\<lparr> rt_id = ''mail'', rt_kind = ''email'', rt_destination = ''a|b'', rt_secret = [], rt_enabled = True \<rparr>,
        \<lparr> rt_id = ''hook'', rt_kind = ''webhook'', rt_destination = ''http://h'', rt_secret = [], rt_enabled = True \<rparr>] \<rparr>"

lemma sample_firing_sending: "sending sample_firing"
  by (simp add: sending_def sample_firing_def empty_db_def constraint_defs nocase_def fk_def)

text \<open>The first call of the first batch fails, the delivery is put off by a minute and succeeds then; the alert is queued twice.\<close>

definition sample_notifications :: "notify_op list" where
  "sample_notifications = [OpQueue 5 1, OpDeliver (\<lambda>n r m. if n = 0 then Some ''down'' else None) (\<lambda>n. 7) 6 25, OpQueue 8 1, OpDeliver (\<lambda>n r m. None) (\<lambda>n. 9) 8 25,
     OpDeliver (\<lambda>n r m. None) (\<lambda>n. 2 * minute) (2 * minute) 25]"

lemma sample_notified: "map (map_sum id (map (\<lambda>(r, m, x). (ro_ID r, x)))) (snd (run notify_step sample_notifications sample_firing)) =
   [Inr [], Inr [(''mail'', Some ''down''), (''hook'', None)], Inr [], Inr [], Inr [(''mail'', None)]]"
  by code_simp


definition sample_queued :: db where
  "sample_queued = sample_firing\<lparr> notification_deliveries := [\<lparr> dl_id = 1, dl_alert = 1, dl_route = ''mail'', dl_state = ''retry'', dl_attempts = 3, dl_next = 4, dl_delivered = None, dl_error = [] \<rparr>] \<rparr>"

theorem delivery_queue_drains_witness:
  "\<exists>y\<in>set (notification_deliveries (fst (run notify_step [deliver_tick (\<lambda>n. 6, 5)] sample_queued))). dl_id y = 1 \<and> dl_state y = ''delivered''"
proof -
  let ?x = "\<lparr> dl_id = 1, dl_alert = 1, dl_route = ''mail'', dl_state = ''retry'', dl_attempts = 3, dl_next = 4, dl_delivered = None, dl_error = [] \<rparr> :: delivery_row"
  have "sending sample_queued"
    by (simp add: sending_def sample_queued_def sample_firing_def empty_db_def constraint_defs nocase_def fk_def)
  moreover have "is_due 5 ?x"
    by code_simp
  moreover have "text_le 5 5"
    by code_simp
  ultimately show ?thesis
    using delivery_queue_drains [of sample_queued "[(\<lambda>n. 6, 5)]" 5 ?x] by (simp add: sample_queued_def del: notify_step.simps run.simps)
qed

end
