(* ===== verification/Checks.thy ===== *)
theory Checks
  imports Rules Ingest Notifications Texts
begin

text \<open>
  Central checks: the target policy (\<open>internal/checks/policy.go\<close>), the runner (\<open>internal/checks/checks.go\<close>), schedules and their execution
  (\<open>internal/checks/schedules.go\<close>), the observation envelope (\<open>internal/contract/contract.go\<close>) and the pipeline that turns a result into
  observations, alerts and queued notifications (\<open>ingestCheckResult\<close> of \<open>internal/server/server.go\<close>).

  The network is the record \<open>network\<close>: what a resolver, a dialer, a TLS handshake, an HTTP request and an ICMP echo answer. \<open>url.Parse\<close> and \<open>net.ParseCIDR\<close> are
  parameters too: a URL is given by its scheme and host. A duration in milliseconds or days is the exact quotient.
\<close>

section \<open>Addresses\<close>

type_synonym ip = "8 word list"

record ipnet =
  nt_ip :: ip
  nt_mask :: "8 word list"

definition To4 :: "ip \<Rightarrow> ip option" where
  "To4 a = (if length a = 4 then Some a
     else if length a = 16 \<and> take 10 a = replicate 10 0 \<and> take 2 (drop 10 a) = [0xff, 0xff] then Some (drop 12 a) else None)"

text \<open>\<open>networkNumberAndMask\<close> and \<open>IPNet.Contains\<close>.\<close>

definition number_and_mask :: "ipnet \<Rightarrow> (ip \<times> 8 word list) option" where
  "number_and_mask n = (case (case To4 (nt_ip n) of Some a \<Rightarrow> Some a | None \<Rightarrow> if length (nt_ip n) = 16 then Some (nt_ip n) else None) of
     None \<Rightarrow> None
   | Some a \<Rightarrow> if length (nt_mask n) = 4 then if length a = 4 then Some (a, nt_mask n) else None
       else if length (nt_mask n) = 16 then Some (a, if length a = 4 then drop 12 (nt_mask n) else nt_mask n)
       else None)"

definition masked :: "8 word list \<Rightarrow> 8 word list \<Rightarrow> 8 word list" where
  "masked a m = map2 and a m"

definition Contains :: "ipnet \<Rightarrow> ip \<Rightarrow> bool" where
  "Contains n a = (case number_and_mask n of None \<Rightarrow> a = []
     | Some (nn, m) \<Rightarrow> let a = (case To4 a of None \<Rightarrow> a | Some x \<Rightarrow> x) in length a = length nn \<and> masked nn m = masked a m)"

section \<open>The policy\<close>

record Policy =
  pl_allows :: "ipnet list option"
  pl_denies :: "ipnet list option"
  pl_denyPorts :: "int list"

definition parse_nets :: "(string \<Rightarrow> ipnet option) \<Rightarrow> string list \<Rightarrow> err + ipnet list" where
  "parse_nets cidr vs = foldE (\<lambda>v ns. case cidr (TrimSpace v) of None \<Rightarrow> Inl (Err ''invalid check-policy CIDR'') | Some n \<Rightarrow> Inr (ns @ [n])) vs []"

definition NewPolicy :: "(string \<Rightarrow> ipnet option) \<Rightarrow> string list \<Rightarrow> string list \<Rightarrow> int list \<Rightarrow> err + Policy" where
  "NewPolicy cidr allowCIDRs denyCIDRs denyPorts =
     bindE (parse_nets cidr allowCIDRs) (\<lambda>allows.
     bindE (parse_nets cidr denyCIDRs) (\<lambda>denies.
     bindE (ensure (list_all (\<lambda>p. 1 \<le> p \<and> p \<le> 65535) denyPorts) (Err ''invalid denied port'')) (\<lambda>_.
     Inr \<lparr> pl_allows = Some allows, pl_denies = Some denies, pl_denyPorts = denyPorts \<rparr>)))"

definition nets :: "ipnet list option \<Rightarrow> ipnet list" where
  "nets ns = (case ns of None \<Rightarrow> [] | Some l \<Rightarrow> l)"

definition policyMatches :: "ipnet list \<Rightarrow> ip \<Rightarrow> bool" where
  "policyMatches ns a = list_ex (\<lambda>n. Contains n a) ns"

definition splitHostPort :: "string \<Rightarrow> string \<times> int" where
  "splitHostPort v = (case SplitHostPort v of None \<Rightarrow> (v, 0)
     | Some (host, port) \<Rightarrow> case ParseInt port of Inl e \<Rightarrow> (v, 0) | Inr p \<Rightarrow> (host, p))"

text \<open>The host and port a target stands for, as \<open>Validate\<close> reads them.\<close>

definition target_of :: "(string \<Rightarrow> (string \<times> string) option) \<Rightarrow> string \<Rightarrow> int \<Rightarrow> string \<times> int" where
  "target_of url host port =
     (let host = TrimSpace host;
          host = (case url host of Some (scheme, h) \<Rightarrow> if scheme \<noteq> [] \<and> h \<noteq> [] then h else host | None \<Rightarrow> host);
          host = TrimSet host ''[]'';
          parsed = splitHostPort host
      in if snd parsed \<noteq> 0 then parsed else (host, port))"

fun check_ips :: "Policy \<Rightarrow> ip list \<Rightarrow> err + unit" where
  "check_ips p [] = Inr ()"
| "check_ips p (a # as) = (if a = [] then check_ips p as
     else if policyMatches (nets (pl_denies p)) a then Inl (Err ''target denied by check policy'')
     else if nets (pl_allows p) \<noteq> [] \<and> \<not> policyMatches (nets (pl_allows p)) a then Inl (Err ''target not allowed by check policy'')
     else check_ips p as)"

definition Validate :: "(string \<Rightarrow> (string \<times> string) option) \<Rightarrow> (string \<Rightarrow> ip list option) \<Rightarrow> Policy option \<Rightarrow> string \<Rightarrow> int \<Rightarrow> err + unit" where
  "Validate url lookup pol host port = (case pol of None \<Rightarrow> Inr ()
     | Some p \<Rightarrow> case target_of url host port of (host, port) \<Rightarrow>
         if port \<in> set (pl_denyPorts p) then Inl (Err ''target port denied by check policy'')
         else if pl_allows p = None \<and> pl_denies p = None then Inr ()
         else case lookup host of None \<Rightarrow> Inr () | Some ips \<Rightarrow> check_ips p ips)"

section \<open>The runner\<close>

record Result =
  re_Kind :: string
  re_Address :: string
  re_OK :: bool
  re_Latency :: time
  re_Status :: int
  re_ExpiresAt :: "time option"
  re_Failure :: string

record network =
  nw_url :: "string \<Rightarrow> (string \<times> string) option"
  nw_ips :: "string \<Rightarrow> ip list option"
  nw_hosts :: "string \<Rightarrow> string + string list"
  nw_dial :: "string \<Rightarrow> string + unit"
  nw_tls :: "string \<Rightarrow> string \<Rightarrow> string + time list"
  nw_http :: "string \<Rightarrow> string + int"
  nw_ip4 :: "string \<Rightarrow> ip list option"
  nw_listen :: "string option"
  nw_send :: "ip \<Rightarrow> string option"
  nw_reply :: "ip \<Rightarrow> string + bool"
  nw_latency :: "string \<Rightarrow> string \<Rightarrow> time"

definition blank_result :: "string \<Rightarrow> string \<Rightarrow> Result" where
  "blank_result kind address = \<lparr> re_Kind = kind, re_Address = address, re_OK = False, re_Latency = 0, re_Status = 0, re_ExpiresAt = None, re_Failure = [] \<rparr>"

definition timed_result :: "network \<Rightarrow> string \<Rightarrow> string \<Rightarrow> Result" where
  "timed_result net kind address = (blank_result kind address)\<lparr> re_Latency := nw_latency net kind address \<rparr>"

definition TCP :: "network \<Rightarrow> string \<Rightarrow> Result" where
  "TCP net address = (case nw_dial net address of Inl e \<Rightarrow> (timed_result net ''tcp'' address)\<lparr> re_Failure := e \<rparr>
     | Inr u \<Rightarrow> (timed_result net ''tcp'' address)\<lparr> re_OK := True \<rparr>)"

definition DNS :: "network \<Rightarrow> string \<Rightarrow> Result" where
  "DNS net name = (case nw_hosts net name of Inl e \<Rightarrow> (timed_result net ''dns'' name)\<lparr> re_Failure := e \<rparr>
     | Inr ips \<Rightarrow> if ips = [] then (timed_result net ''dns'' name)\<lparr> re_Failure := ''no addresses'' \<rparr> else (timed_result net ''dns'' name)\<lparr> re_OK := True \<rparr>)"

text \<open>A reply is an error of the socket, or whether it was an echo reply.\<close>

definition ICMP :: "network \<Rightarrow> string \<Rightarrow> Result" where
  "ICMP net address = (case nw_ip4 net address of None \<Rightarrow> (blank_result ''icmp'' address)\<lparr> re_Failure := ''resolve ICMP address'' \<rparr>
     | Some [] \<Rightarrow> (blank_result ''icmp'' address)\<lparr> re_Failure := ''resolve ICMP address'' \<rparr>
     | Some (a # as) \<Rightarrow> case nw_listen net of Some e \<Rightarrow> (blank_result ''icmp'' address)\<lparr> re_Failure := ''ICMP unavailable: '' @ e \<rparr>
     | None \<Rightarrow> case nw_send net a of Some e \<Rightarrow> (blank_result ''icmp'' address)\<lparr> re_Failure := e \<rparr>
     | None \<Rightarrow> case nw_reply net a of Inl e \<Rightarrow> (timed_result net ''icmp'' address)\<lparr> re_Failure := e \<rparr>
       | Inr False \<Rightarrow> (timed_result net ''icmp'' address)\<lparr> re_Failure := ''invalid ICMP reply'' \<rparr>
       | Inr True \<Rightarrow> (timed_result net ''icmp'' address)\<lparr> re_OK := True \<rparr>)"

definition HTTPCheck :: "network \<Rightarrow> string \<Rightarrow> Result" where
  "HTTPCheck net address = (if (case nw_url net address of None \<Rightarrow> True | Some (scheme, host) \<Rightarrow> \<not> (scheme = ''http'' \<or> scheme = ''https'') \<or> host = [])
     then (blank_result ''http'' address)\<lparr> re_Failure := ''invalid HTTP URL'' \<rparr>
     else case nw_http net address of Inl e \<Rightarrow> (timed_result net ''http'' address)\<lparr> re_Failure := e \<rparr>
     | Inr status \<Rightarrow> (timed_result net ''http'' address)\<lparr> re_Status := status, re_OK := (200 \<le> status \<and> status < 400) \<rparr>)"

definition TLS :: "network \<Rightarrow> string \<Rightarrow> string \<Rightarrow> Result" where
  "TLS net address serverName = (case nw_tls net address serverName of Inl e \<Rightarrow> (timed_result net ''tls'' address)\<lparr> re_Failure := e \<rparr>
     | Inr [] \<Rightarrow> (timed_result net ''tls'' address)\<lparr> re_Failure := ''no peer certificate'' \<rparr>
     | Inr (notAfter # _) \<Rightarrow> (timed_result net ''tls'' address)\<lparr> re_ExpiresAt := Some notAfter, re_OK := True \<rparr>)"

definition Run :: "network \<Rightarrow> string \<Rightarrow> string \<Rightarrow> string \<Rightarrow> Result" where
  "Run net kind address serverName = (if kind = ''http'' then HTTPCheck net address else if kind = ''tcp'' then TCP net address
     else if kind = ''tls'' then TLS net address serverName else if kind = ''dns'' then DNS net address else if kind = ''icmp'' then ICMP net address
     else (blank_result kind address)\<lparr> re_Failure := ''unsupported check'' \<rparr>)"

section \<open>Schedules\<close>

record StoredResult =
  sr_CheckedAt :: time
  sr_OK :: bool
  sr_LatencyMS :: rat
  sr_Status :: int
  sr_ExpiresAt :: "time option"
  sr_Failure :: string

record Schedule =
  sc_ID :: id
  sc_PostID :: id
  sc_Kind :: string
  sc_Address :: string
  sc_ServerName :: string
  sc_IntervalSeconds :: int
  sc_Enabled :: bool
  sc_NextRunAt :: time
  sc_Last :: "StoredResult option"

definition check_kinds :: "string list" where
  "check_kinds = [''http'', ''tcp'', ''tls'', ''dns'', ''icmp'']"

definition source_key :: "id \<Rightarrow> id \<Rightarrow> string \<Rightarrow> string \<Rightarrow> collector_key" where
  "source_key i post marker kind = (new_key i post (sha256 (marker @ i)))\<lparr> ck_kind := kind \<rparr>"

text \<open>\<open>INSERT .. ON CONFLICT(id) DO NOTHING\<close>.\<close>

definition add_source :: "collector_key \<Rightarrow> db \<Rightarrow> db" where
  "add_source k d = (if ck_id k \<in> ck_id ` set (collector_keys d) then d else d\<lparr> collector_keys := collector_keys d @ [k] \<rparr>)"

definition Save :: "network \<Rightarrow> Policy option \<Rightarrow> time \<Rightarrow> Schedule \<Rightarrow> Entry \<Rightarrow> db \<Rightarrow> db \<times> (err + unit)" where
  "Save net pol now v e d = (if sc_ID v = [] \<or> sc_PostID v = [] \<or> sc_Address v = [] \<or> sc_IntervalSeconds v < 30 \<or> sc_IntervalSeconds v > 86400
     then (d, Inl (Err ''invalid check schedule''))
     else if sc_Kind v \<notin> set check_kinds then (d, Inl (Err ''unsupported check kind''))
     else case Validate (nw_url net) (nw_ips net) pol (sc_Address v) 0 of Inl x \<Rightarrow> (d, Inl x)
     | Inr u \<Rightarrow> audited_tx now (e\<lparr> en_ObjectType := ''check_schedule'', en_ObjectID := sc_ID v \<rparr>) (\<lambda>d.
         bindE (exec (\<lambda>d. d\<lparr> check_schedules := check_schedules d @ [\<lparr> cs_id = sc_ID v, cs_post = sc_PostID v, cs_kind = sc_Kind v, cs_address = sc_Address v,
            cs_server = sc_ServerName v, cs_interval = sc_IntervalSeconds v, cs_enabled = True, cs_next_run = now, cs_created = now \<rparr>] \<rparr>) d) (\<lambda>d.
         bindE (exec (add_source (source_key (sc_ID v) (sc_PostID v) ''central-check:'' ''central_check'')) d) (\<lambda>d. Inr (d, ())))) d)"

definition schedule_of_row :: "check_schedule \<Rightarrow> Schedule" where
  "schedule_of_row s = \<lparr> sc_ID = cs_id s, sc_PostID = cs_post s, sc_Kind = cs_kind s, sc_Address = cs_address s, sc_ServerName = cs_server s,
     sc_IntervalSeconds = cs_interval s, sc_Enabled = cs_enabled s, sc_NextRunAt = 0, sc_Last = None \<rparr>"

definition schedule_Get :: "id \<Rightarrow> db \<Rightarrow> err + Schedule" where
  "schedule_Get i d = bindE (query (\<lambda>d. find (\<lambda>s. cs_id s = i) (check_schedules d)) d) (\<lambda>r. case r of None \<Rightarrow> Inl ErrNoRows | Some s \<Rightarrow> Inr (schedule_of_row s))"

definition latest_result :: "id \<Rightarrow> db \<Rightarrow> check_result option" where
  "latest_result i d = (case sort_key (\<lambda>r. text_key (cr_checked r)) (filter (\<lambda>r. cr_schedule r = i) (check_results d)) of [] \<Rightarrow> None | rs \<Rightarrow>
     find (\<lambda>r. text_key (cr_checked r) = text_key (cr_checked (last rs))) rs)"

definition stored_result :: "check_result \<Rightarrow> StoredResult" where
  "stored_result r = \<lparr> sr_CheckedAt = cr_checked r, sr_OK = cr_ok r, sr_LatencyMS = cr_latency r, sr_Status = cr_status r, sr_ExpiresAt = cr_expires r, sr_Failure = cr_failure r \<rparr>"

definition ListSchedules :: "db \<Rightarrow> err + Schedule list" where
  "ListSchedules d = query (\<lambda>d. map (\<lambda>s. (schedule_of_row s)\<lparr> sc_NextRunAt := cs_next_run s, sc_Last := map_option stored_result (latest_result (cs_id s) d) \<rparr>)
     (sort_key (\<lambda>s. (cs_post s, cs_id s)) (check_schedules d))) d"

section \<open>Running what is due\<close>

record DueResult =
  du_Schedule :: Schedule
  du_Result :: Result

text \<open>The text of a policy error is the failure of the check.\<close>

definition err_text :: "err \<Rightarrow> string" where
  "err_text e = (case e of Err m \<Rightarrow> m | _ \<Rightarrow> [])"

definition runWithPolicy :: "network \<Rightarrow> Policy option \<Rightarrow> check_schedule \<Rightarrow> Result" where
  "runWithPolicy net pol v = (case Validate (nw_url net) (nw_ips net) pol (cs_address v) 0 of
     Inl e \<Rightarrow> (blank_result (cs_kind v) (cs_address v))\<lparr> re_Failure := err_text e \<rparr>
   | Inr u \<Rightarrow> Run net (cs_kind v) (cs_address v) (cs_server v))"

definition due_schedules :: "time \<Rightarrow> db \<Rightarrow> check_schedule list" where
  "due_schedules now d = take 32 (sort_key (\<lambda>s. text_key (cs_next_run s)) (filter (\<lambda>s. cs_enabled s \<and> text_le (cs_next_run s) now) (check_schedules d)))"

definition due_result :: "network \<Rightarrow> Policy option \<Rightarrow> check_schedule \<Rightarrow> DueResult" where
  "due_result net pol v = \<lparr> du_Schedule = (schedule_of_row v)\<lparr> sc_Enabled := False \<rparr>, du_Result = runWithPolicy net pol v \<rparr>"

definition milliseconds :: "time \<Rightarrow> rat" where
  "milliseconds t = of_int t / 1000000"

definition result_row :: "time \<Rightarrow> check_schedule \<Rightarrow> Result \<Rightarrow> db \<Rightarrow> check_result" where
  "result_row now v r d = \<lparr> cr_id = next_id (map cr_id (check_results d)), cr_schedule = cs_id v, cr_checked = now, cr_ok = re_OK r, cr_latency = milliseconds (re_Latency r),
     cr_status = re_Status r, cr_expires = re_ExpiresAt r, cr_failure = re_Failure r \<rparr>"

definition store_result :: "time \<Rightarrow> check_schedule \<Rightarrow> Result \<Rightarrow> db \<Rightarrow> db \<times> (err + unit)" where
  "store_result now v r = with_tx (\<lambda>d.
     bindE (exec (\<lambda>d. d\<lparr> check_results := check_results d @ [result_row now v r d] \<rparr>) d) (\<lambda>d.
     bindE (exec (\<lambda>d. d\<lparr> check_schedules := upd_where (\<lambda>s. cs_id s = cs_id v) (\<lambda>s. s\<lparr> cs_next_run := now + cs_interval v * second \<rparr>) (check_schedules d) \<rparr>) d) (\<lambda>d.
     Inr (d, ()))))"

fun store_results :: "time \<Rightarrow> (check_schedule \<times> DueResult) list \<Rightarrow> db \<Rightarrow> db \<times> (err + unit)" where
  "store_results now [] d = (d, Inr ())"
| "store_results now ((v, r) # vs) d = (case store_result now v (du_Result r) d of (d', Inl e) \<Rightarrow> (d', Inl e) | (d', Inr u) \<Rightarrow> store_results now vs d')"

text \<open>The worker pool fills one slot per schedule, so the results do not depend on the number of workers or on their order.\<close>

definition RunDue :: "network \<Rightarrow> Policy option \<Rightarrow> time \<Rightarrow> db \<Rightarrow> db \<times> (err + DueResult list)" where
  "RunDue net pol now d = (case query (due_schedules now) d of Inl e \<Rightarrow> (d, Inl e)
     | Inr work \<Rightarrow> let results = map (due_result net pol) work
       in case store_results now (zip work results) d of (d', Inl e) \<Rightarrow> (d', Inl e) | (d', Inr u) \<Rightarrow> (d', Inr results))"

section \<open>Observations\<close>

record Method =
  mt_ID :: id
  mt_Kind :: string
  mt_PostID :: id

record contract_observation =
  co_PostID :: id
  co_Source :: id
  co_Signal :: string
  co_Value :: "f64 option"
  co_Unit :: string
  co_Quality :: string
  co_ObservedAt :: time
  co_FreshUntil :: time

definition check_observation :: "Method \<Rightarrow> time \<Rightarrow> string \<Rightarrow> rat \<Rightarrow> string \<Rightarrow> contract_observation" where
  "check_observation m observedAt signal v u = \<lparr> co_PostID = mt_PostID m, co_Source = mt_ID m, co_Signal = signal, co_Value = Some (Num v), co_Unit = u, co_Quality = ''good'',
     co_ObservedAt = observedAt, co_FreshUntil = observedAt + hour \<rparr>"

definition Observations :: "Result \<Rightarrow> Method \<Rightarrow> time \<Rightarrow> contract_observation list" where
  "Observations r m observedAt =
     [check_observation m observedAt (re_Kind r @ ''.ok'') (if re_OK r then 1 else 0) ''boolean'',
      check_observation m observedAt (re_Kind r @ ''.latency_ms'') (milliseconds (re_Latency r)) ''ms''] @
     (case re_ExpiresAt r of None \<Rightarrow> [] | Some t \<Rightarrow> if re_Kind r = ''tls''
        then [check_observation m observedAt ''tls.expires_in_days'' (of_int (t - observedAt) / of_int (24 * hour)) ''days''] else [])"

section \<open>The pipeline\<close>

definition observation_of :: "id \<Rightarrow> int \<Rightarrow> contract_observation \<Rightarrow> Observation" where
  "observation_of source n o' = \<lparr> o_Version = 1, o_PostID = co_PostID o', o_CollectorID = source, o_ObservedAt = co_ObservedAt o', o_Sequence = n, o_Signal = co_Signal o',
     o_Value = co_Value o', o_Unit = co_Unit o', o_Quality = co_Quality o', o_Labels = Some [] \<rparr>"

fun insert_contract :: "time \<Rightarrow> id \<Rightarrow> int \<Rightarrow> nat \<Rightarrow> contract_observation list \<Rightarrow> db \<Rightarrow> err + db" where
  "insert_contract now source prev index [] d = Inr d"
| "insert_contract now source prev index (o' # os) d =
     bindE (insert_observation now (observation_of source (int64 (int64 (prev + int index) + 1)) o') d) (insert_contract now source prev (Suc index) os)"

definition mark_source :: "time \<Rightarrow> bool \<Rightarrow> int \<Rightarrow> collector_key \<Rightarrow> collector_key" where
  "mark_source now clear prev k = k\<lparr> ck_last_sequence := prev, ck_last_seen := Some now, ck_last_observed := Some now,
     ck_last_error := (if clear then [] else ck_last_error k) \<rparr>"

definition store_contract :: "time \<Rightarrow> bool \<Rightarrow> id \<Rightarrow> contract_observation list \<Rightarrow> db \<Rightarrow> db \<times> (err + unit)" where
  "store_contract now clear source os = with_tx (\<lambda>d.
     bindE (query (\<lambda>d. find (\<lambda>k. ck_id k = source) (collector_keys d)) d) (\<lambda>key. case key of None \<Rightarrow> Inl ErrNoRows
     | Some k \<Rightarrow> bindE (insert_contract now source (ck_last_sequence k) 0 os d) (\<lambda>d.
         bindE (exec (\<lambda>d. d\<lparr> collector_keys := upd_where (\<lambda>k. ck_id k = source) (mark_source now clear (int64 (ck_last_sequence k + int (length os)))) (collector_keys d) \<rparr>) d)
           (\<lambda>d. Inr (d, ())))))"

text \<open>The firing alerts of one evaluation are queued; an error of the queue is dropped.\<close>

definition queue_firing :: "time \<Rightarrow> Alert list \<Rightarrow> db \<Rightarrow> db" where
  "queue_firing now as d = fold (\<lambda>a d. if a_State a = ''firing'' then case Queue now (a_ID a) d of Inl e \<Rightarrow> d | Inr d' \<Rightarrow> d' else d) as d"

fun evaluate_contract :: "time \<Rightarrow> contract_observation list \<Rightarrow> db \<Rightarrow> db \<times> (err + Alert list)" where
  "evaluate_contract now [] d = (d, Inr [])"
| "evaluate_contract now (o' # os) d =
     (case EvaluateObservation (co_PostID o') (co_Signal o') (co_ObservedAt o') (co_Value o') (co_Quality o') d of
        (d', Inl e) \<Rightarrow> (d', Inl e)
      | (d', Inr as) \<Rightarrow> (case evaluate_contract now os (queue_firing now as d') of (d'', Inl e) \<Rightarrow> (d'', Inl e) | (d'', Inr bs) \<Rightarrow> (d'', Inr (as @ bs))))"

text \<open>\<open>ingestContractObservations\<close>, and \<open>ingestCheckResult\<close> whose text differs only in that it leaves \<open>last_error\<close> alone. The alerts the evaluations answered are returned.\<close>

definition ingest_observations :: "time \<Rightarrow> bool \<Rightarrow> id \<Rightarrow> contract_observation list \<Rightarrow> db \<Rightarrow> db \<times> (err + Alert list)" where
  "ingest_observations now clear source os d = (case store_contract now clear source os d of (d', Inl e) \<Rightarrow> (d', Inl e) | (d', Inr u) \<Rightarrow> evaluate_contract now os d')"

definition ingestContractObservations :: "time \<Rightarrow> id \<Rightarrow> contract_observation list \<Rightarrow> db \<Rightarrow> db \<times> (err + Alert list)" where
  "ingestContractObservations now source os = ingest_observations now True source os"

definition ingestCheckResult :: "DueResult \<Rightarrow> time \<Rightarrow> db \<Rightarrow> db \<times> (err + Alert list)" where
  "ingestCheckResult due now = ingest_observations now False (sc_ID (du_Schedule due))
     (Observations (du_Result due) \<lparr> mt_ID = sc_ID (du_Schedule due), mt_Kind = ''central_check'', mt_PostID = sc_PostID (du_Schedule due) \<rparr> now)"

text \<open>One turn of \<open>checkLoop\<close>: a failed ingestion is logged and the next result follows.\<close>

definition check_tick :: "network \<Rightarrow> Policy option \<Rightarrow> time \<Rightarrow> db \<Rightarrow> db" where
  "check_tick net pol now d = (case RunDue net pol now d of (d', Inl e) \<Rightarrow> d' | (d', Inr results) \<Rightarrow> fold (\<lambda>r d. fst (ingestCheckResult r now d)) results d')"

section \<open>The budget of on-demand checks\<close>

definition limiter_allow :: "time \<Rightarrow> time \<Rightarrow> time list \<Rightarrow> time list \<times> bool" where
  "limiter_allow now later seen = (let kept = filter (\<lambda>t. t > now - minute) seen
     in if length kept \<ge> 60 then (kept, False) else (kept @ [later], True))"

section \<open>The policy decides what is probed\<close>

definition permitted :: "Policy \<Rightarrow> ip \<Rightarrow> bool" where
  "permitted p a \<longleftrightarrow> \<not> (\<exists>n\<in>set (nets (pl_denies p)). Contains n a) \<and> (nets (pl_allows p) = [] \<or> (\<exists>n\<in>set (nets (pl_allows p)). Contains n a))"

lemma check_ips_iff: "check_ips p as = Inr () \<longleftrightarrow> (\<forall>a\<in>set as. a \<noteq> [] \<longrightarrow> permitted p a)"
  by (induction as) (auto simp: permitted_def policyMatches_def list_ex_iff)

lemma check_ips_Inl: "check_ips p as = Inl e \<Longrightarrow> \<exists>m. e = Err m \<and> m \<noteq> []"
  by (induction as) (auto split: if_splits)


lemma dropWhile_hd: "xs \<noteq> [] \<Longrightarrow> \<not> P (hd xs) \<Longrightarrow> dropWhile P xs = xs"
  by (cases xs) auto

lemma TrimSpace_id: "s \<noteq> [] \<Longrightarrow> \<not> is_space (hd s) \<Longrightarrow> \<not> is_space (last s) \<Longrightarrow> TrimSpace s = s"
  by (simp add: TrimSpace_def dropWhile_hd hd_rev)

lemma TrimSet_head:
  assumes "c \<in> set cs" and "s \<noteq> []" and "hd s \<notin> set cs" and "last s \<notin> set cs"
  shows "TrimSet (c # s) cs = s"
  using assms by (simp add: TrimSet_def dropWhile_hd hd_rev)

lemma last_colon_append:
  assumes "CHR '':'' \<notin> set q"
  shows "last_colon (p @ CHR '':'' # q) = Some (length p)"
proof -
  have *: "takeWhile (\<lambda>c. c \<noteq> CHR '':'') (rev q @ CHR '':'' # rev p) = rev q"
    using assms by (subst takeWhile_append2) auto
  show ?thesis
    by (simp add: last_colon_def *)
qed

lemma SplitHostPort_colons:
  assumes "CHR '':'' \<in> set p" and "hd p \<noteq> CHR ''[''" and "CHR '':'' \<notin> set q"
  shows "SplitHostPort (p @ CHR '':'' # q) = None"
proof -
  have "p \<noteq> []"
    using assms(1) by auto
  then show ?thesis
    using assms by (simp add: SplitHostPort_def last_colon_append Let_def hd_append)
qed

lemma digits_plain: "list_all is_digit q \<Longrightarrow> c \<in> set q \<Longrightarrow> c \<noteq> CHR '':'' \<and> c \<noteq> CHR '']'' \<and> c \<noteq> CHR ''['' \<and> \<not> is_space c"
  by (auto simp: list_all_iff is_digit_def is_space_def)

lemma bracketed_target:
  assumes "CHR '':'' \<in> set h" and "CHR ''['' \<notin> set h" and "CHR '']'' \<notin> set h" and "list_all is_digit q" and "q \<noteq> []" and "url (''['' @ h @ '']:'' @ q) = None"
  shows "target_of url (''['' @ h @ '']:'' @ q) port = (h @ '']:'' @ q, port)"
proof -
  have h: "h \<noteq> []"
    using assms(1) by auto
  then have hd: "hd h \<notin> set ''[]''"
    using assms(2,3) hd_in_set [OF h] by (metis empty_iff empty_set set_ConsD)
  have q: "last q \<notin> set ''[]''" "\<not> is_space (last q)" "CHR '':'' \<notin> set q"
    using digits_plain [OF assms(4), of "last q"] digits_plain [OF assms(4)] assms(5) by auto
  have "TrimSpace (''['' @ h @ '']:'' @ q) = ''['' @ h @ '']:'' @ q"
    using q(2) assms(5) by (intro TrimSpace_id) (auto simp: is_space_def)
  moreover have "TrimSet (CHR ''['' # (h @ '']:'' @ q)) ''[]'' = h @ '']:'' @ q"
    using h hd q(1) assms(5) by (intro TrimSet_head) auto
  moreover have "SplitHostPort ((h @ '']'') @ CHR '':'' # q) = None"
    using h hd assms(1) q(3) by (intro SplitHostPort_colons) auto
  ultimately show ?thesis
    using assms(6) by (simp add: target_of_def splitHostPort_def Let_def)
qed

text \<open>
  The policy does not see a bracketed IPv6 address with a port. The brackets are stripped before the port is split off, so the text is left with a bracket and colons,
  has no port, and names no host a resolver knows: whatever networks and ports the policy denies, the target is accepted.
\<close>

theorem ipv6_target_escapes_policy:
  assumes "CHR '':'' \<in> set h" and "CHR ''['' \<notin> set h" and "CHR '']'' \<notin> set h" and "list_all is_digit q" and "q \<noteq> []"
    and "url (''['' @ h @ '']:'' @ q) = None" and "\<And>name. CHR '']'' \<in> set name \<Longrightarrow> lookup name = None" and "NewPolicy cidr allows denies ports = Inr p"
  shows "Validate url lookup (Some p) (''['' @ h @ '']:'' @ q) 0 = Inr ()"
proof -
  have "0 \<notin> set (pl_denyPorts p)"
    using assms(8) by (fastforce simp: NewPolicy_def bindE_eq_Inr list_all_iff)
  then show ?thesis
    using bracketed_target [of h q url 0] assms by (simp add: Validate_def)
qed

section \<open>The observations of a check are well formed\<close>

lemma Run_kind: "re_Kind (Run net kind address server) = kind"
  by (simp add: Run_def HTTPCheck_def TCP_def TLS_def DNS_def ICMP_def blank_result_def timed_result_def split: sum.splits option.splits list.splits bool.splits)

lemma runWithPolicy_kind: "re_Kind (runWithPolicy net pol v) = cs_kind v"
  by (simp add: runWithPolicy_def Run_kind blank_result_def split: sum.splits)

text \<open>
  What the pipeline stores for a scheduled check meets the contract telemetry is held to, although it does not pass through the checks of the ingestion endpoint: each
  observation has a bounded signal name, a known quality and a finite value, is within the clock bounds, and belongs to the post and the source of the schedule.
\<close>

theorem check_observations_well_formed:
  assumes "cs_kind v \<in> set check_kinds" and "o' \<in> set (Observations (runWithPolicy net pol v) m now)"
  shows "well_formed (observation_of (mt_ID m) n o') \<and> in_clock_bounds now (observation_of (mt_ID m) n o') \<and> co_PostID o' = mt_PostID m \<and> co_Source o' = mt_ID m"
proof -
  have kind: "length (cs_kind v) \<le> 4"
    using assms(1) by (auto simp: check_kinds_def)
  have "co_Signal o' \<in> {cs_kind v @ ''.ok'', cs_kind v @ ''.latency_ms'', ''tls.expires_in_days''} \<and> co_Quality o' = ''good'' \<and> (\<exists>q. co_Value o' = Some (Num q)) \<and>
      co_ObservedAt o' = now \<and> co_PostID o' = mt_PostID m \<and> co_Source o' = mt_ID m"
    using assms(2) unfolding Observations_def runWithPolicy_kind by (auto simp: check_observation_def split: option.splits if_splits)
  then show ?thesis
    using kind by (auto simp: well_formed_def observation_of_def observation_qualities_def is_finite_def in_clock_bounds_def time_units)
qed

section \<open>A firing alert is queued for every enabled route\<close>

definition queued :: "nat \<Rightarrow> db \<Rightarrow> bool" where
  "queued alert d \<longleftrightarrow> (\<forall>r\<in>set (notification_routes d). rt_enabled r \<longrightarrow> (\<exists>x\<in>set (notification_deliveries d). dl_alert x = alert \<and> dl_route x = rt_id r))"

definition queue_ok :: "delivery_row list \<Rightarrow> bool" where
  "queue_ok xs \<longleftrightarrow> distinct (map dl_id xs) \<and> distinct (map (\<lambda>x. (dl_alert x, dl_route x)) xs)"

lemma queue_delivery_ok:
  assumes "queue_ok xs"
  shows "queue_ok (queue_delivery now alert rt xs)" and "\<exists>x\<in>set (queue_delivery now alert rt xs). dl_alert x = alert \<and> dl_route x = rt"
    and "x \<in> set (queue_delivery now alert rt xs) \<Longrightarrow> x \<in> set xs \<or> dl_alert x = alert \<and> dl_route x = rt"
  using assms by (auto simp: queue_delivery_def queue_ok_def list_ex_iff split: if_splits)

lemma queue_fold:
  assumes "queue_ok xs"
  shows "queue_ok (fold (queue_delivery now alert) rs xs) \<and> (\<forall>r\<in>set rs. \<exists>x\<in>set (fold (queue_delivery now alert) rs xs). dl_alert x = alert \<and> dl_route x = r) \<and>
    (\<forall>x\<in>set (fold (queue_delivery now alert) rs xs). x \<in> set xs \<or> dl_alert x = alert \<and> dl_route x \<in> set rs)"
  using assms
proof (induction rs arbitrary: xs)
  case (Cons r rs)
  note q = queue_delivery_ok [OF Cons.prems, where now = now and alert = alert and rt = r]
  have "\<exists>x\<in>set (fold (queue_delivery now alert) rs (queue_delivery now alert r xs)). dl_alert x = alert \<and> dl_route x = r"
    using q(2) queue_keeps by (meson subsetD)
  then show ?case
    using Cons.IH [OF q(1)] q(3) by auto
qed simp

lemma constraints_deliveries:
  assumes "constraints d" and "queue_ok xs" and "\<And>x. x \<in> set xs \<Longrightarrow> dl_alert x \<in> al_id ` set (alerts d) \<and> dl_route x \<in> rt_id ` set (notification_routes d)"
  shows "constraints (d\<lparr> notification_deliveries := xs \<rparr>)"
proof -
  have "fk (map dl_alert xs) (map al_id (alerts d))" "fk (map dl_route xs) (map rt_id (notification_routes d))"
    using assms(3) by (auto simp: fk_iff)
  then show ?thesis
    using assms(1,2) by (simp add: constraint_defs queue_ok_def Let_def)
qed

lemma Queue_ok:
  assumes "sending d" and "alert \<in> al_id ` set (alerts d)"
  obtains d' where "Queue now alert d = Inr d'" "sending d'" "queued alert d'" "alerts d' = alerts d" "notification_routes d' = notification_routes d"
    "set (notification_deliveries d) \<subseteq> set (notification_deliveries d')"
proof -
  let ?rs = "map rt_id (filter rt_enabled (notification_routes d))" and ?xs = "notification_deliveries d"
  let ?d = "d\<lparr> notification_deliveries := fold (queue_delivery now alert) ?rs ?xs \<rparr>"
  have ok: "queue_ok ?xs"
    using assms(1) by (simp add: sending_def constraint_defs queue_ok_def)
  note f = queue_fold [OF ok, of now alert ?rs]
  have "constraints ?d"
  proof (rule constraints_deliveries)
    show "dl_alert x \<in> al_id ` set (alerts d) \<and> dl_route x \<in> rt_id ` set (notification_routes d)" if "x \<in> set (fold (queue_delivery now alert) ?rs ?xs)" for x
    proof -
      have "x \<in> set ?xs \<or> dl_alert x = alert \<and> dl_route x \<in> set ?rs"
        using f that by blast
      moreover have "dl_alert x \<in> al_id ` set (alerts d) \<and> dl_route x \<in> rt_id ` set (notification_routes d)" if "x \<in> set ?xs"
        using that assms(1) by (auto simp: sending_def constraint_defs fk_iff)
      ultimately show ?thesis
        using assms(2) by auto
    qed
  qed (use assms(1) f in \<open>auto simp: sending_def\<close>)
  moreover from this have "Queue now alert d = Inr ?d"
    using assms(1) by (simp add: Queue_def exec_def sending_def)
  moreover have "queued alert ?d"
    using f by (auto simp: queued_def)
  ultimately show thesis
    using assms(1) queue_keeps by (intro that [of ?d]) (auto simp: sending_def)
qed

text \<open>What evaluations and the queue keep: alerts and deliveries are only added, routes stay.\<close>

definition grows :: "db \<Rightarrow> db \<Rightarrow> bool" where
  "grows d d' \<longleftrightarrow> sending d' \<and> al_id ` set (alerts d) \<subseteq> al_id ` set (alerts d') \<and> notification_routes d' = notification_routes d \<and>
     set (notification_deliveries d) \<subseteq> set (notification_deliveries d')"

lemma grows_refl: "sending d \<Longrightarrow> grows d d"
  by (simp add: grows_def)

lemma grows_trans: "grows d d1 \<Longrightarrow> grows d1 d2 \<Longrightarrow> grows d d2"
  by (auto simp: grows_def)

lemma queued_grows: "grows d d' \<Longrightarrow> queued alert d \<Longrightarrow> queued alert d'"
  unfolding grows_def queued_def by (metis subsetD)

lemma queue_firing_ok:
  assumes "sending d" and "\<And>a. a \<in> set as \<Longrightarrow> a_State a = ''firing'' \<Longrightarrow> a_ID a \<in> al_id ` set (alerts d)"
  shows "grows d (queue_firing now as d) \<and> (\<forall>a\<in>set as. a_State a = ''firing'' \<longrightarrow> queued (a_ID a) (queue_firing now as d))"
  using assms
proof (induction as arbitrary: d)
  case Nil
  then show ?case
    by (simp add: queue_firing_def grows_refl)
next
  case (Cons a as)
  define d1 where "d1 = queue_firing now [a] d"
  have split: "queue_firing now (a # as) d = queue_firing now as d1"
    by (simp add: queue_firing_def d1_def)
  have d1: "grows d d1 \<and> (a_State a = ''firing'' \<longrightarrow> queued (a_ID a) d1)"
  proof (cases "a_State a = ''firing''")
    case True
    with Cons.prems have "a_ID a \<in> al_id ` set (alerts d)"
      by simp
    then obtain d' where "Queue now (a_ID a) d = Inr d'" "sending d'" "queued (a_ID a) d'" "alerts d' = alerts d" "notification_routes d' = notification_routes d"
      "set (notification_deliveries d) \<subseteq> set (notification_deliveries d')"
      by (rule Queue_ok [OF Cons.prems(1)])
    then show ?thesis
      using True by (simp add: d1_def queue_firing_def grows_def)
  qed (use Cons.prems in \<open>simp add: d1_def queue_firing_def grows_refl\<close>)
  then have "grows d1 (queue_firing now as d1) \<and> (\<forall>a\<in>set as. a_State a = ''firing'' \<longrightarrow> queued (a_ID a) (queue_firing now as d1))"
    using Cons.prems by (intro Cons.IH) (auto simp: grows_def)
  then show ?case
    using d1 grows_trans [of d d1] queued_grows [of d1] unfolding split by (simp add: ball_simps)
qed

text \<open>An alert an evaluation answers as firing is a row of the table.\<close>

definition rows_of :: "Alert list \<Rightarrow> db \<Rightarrow> bool" where
  "rows_of as d \<longleftrightarrow> (\<forall>a\<in>set as. a_State a = ''firing'' \<longrightarrow> a_ID a \<in> al_id ` set (alerts d))"

lemma insert_alert_row:
  assumes "insert_alert r desired opened tm v d = Inr (d', a)" and "sending d"
  shows "grows d d' \<and> rows_of [a] d'"
  using assms by (auto simp: insert_alert_def bindE_eq_Inr exec_eq_Inr Let_def grows_def sending_def rows_of_def)

lemma latest_alert_row: "latest_alert rule post d = Some c \<Longrightarrow> al_id c \<in> al_id ` set (alerts d)"
  using latest_alert_set by blast

lemma Evaluate_row:
  assumes "sending d" and "Evaluate i tm v quality d = (d', r)"
  shows "grows d d' \<and> (case r of Inl e \<Rightarrow> True | Inr a \<Rightarrow> rows_of [a] d')"
proof (cases r)
  case (Inl e)
  then have "d' = d"
    using assms(2) with_tx_rollback unfolding Evaluate_def by blast
  then show ?thesis
    using assms(1) grows_refl Inl by simp
next
  case (Inr a)
  then have "evaluate_body i tm v quality d = Inr (d', a)"
    using assms(2) by (simp add: Evaluate_def with_tx_commit)
  then show ?thesis
    using assms(1) Inr by (auto simp: evaluate_body_def bindE_eq_Inr Let_def rows_of_def grows_refl latest_alert_row
        dest: insert_alert_row split: option.splits if_splits)
qed

lemma rows_of_grows: "grows d d' \<Longrightarrow> rows_of as d \<Longrightarrow> rows_of as d'"
  by (auto simp: grows_def rows_of_def)

lemma rows_of_simps [simp]: "rows_of [] d" "rows_of (a # as) d \<longleftrightarrow> (a_State a = ''firing'' \<longrightarrow> a_ID a \<in> al_id ` set (alerts d)) \<and> rows_of as d"
  by (auto simp: rows_of_def)

lemma grows_sending: "grows d d' \<Longrightarrow> sending d'"
  by (simp add: grows_def)

lemma evaluate_all_rows:
  assumes "sending d" and "evaluate_all is tm v quality d = (d', r)"
  shows "grows d d' \<and> (case r of Inl e \<Rightarrow> True | Inr as \<Rightarrow> rows_of as d')"
  using assms
proof (induction "is" arbitrary: d d' r)
  case (Cons i "is")
  obtain d1 r1 where e: "Evaluate i tm v quality d = (d1, r1)"
    by fastforce
  note first = Evaluate_row [OF Cons.prems(1) e]
  show ?case
  proof (cases r1)
    case (Inr a)
    obtain d2 r2 where e2: "evaluate_all is tm v quality d1 = (d2, r2)"
      by fastforce
    have "grows d1 d2 \<and> (case r2 of Inl e \<Rightarrow> True | Inr as \<Rightarrow> rows_of as d2)"
      using first grows_sending [of d d1] by (intro Cons.IH [OF _ e2]) auto
    then show ?thesis
      using first Inr e e2 Cons.prems(2) grows_trans [of d d1 d2] rows_of_grows [of d1 d2 "[a]"] by (auto split: sum.splits)
  qed (use first e Cons.prems(2) in auto)
qed (simp add: grows_refl)

lemma EvaluateObservation_rows:
  assumes "sending d" and "EvaluateObservation post signal tm v quality d = (d', r)"
  shows "grows d d' \<and> (case r of Inl e \<Rightarrow> True | Inr as \<Rightarrow> rows_of as d')"
  using assms evaluate_all_rows by (auto simp: EvaluateObservation_def sending_def)

lemma evaluate_contract_queues:
  assumes "sending d" and "evaluate_contract now os d = (d', r)"
  shows "grows d d' \<and> (case r of Inl e \<Rightarrow> True | Inr as \<Rightarrow> \<forall>a\<in>set as. a_State a = ''firing'' \<longrightarrow> queued (a_ID a) d')"
  using assms
proof (induction os arbitrary: d d' r)
  case (Cons o' os)
  obtain d1 r1 where e: "EvaluateObservation (co_PostID o') (co_Signal o') (co_ObservedAt o') (co_Value o') (co_Quality o') d = (d1, r1)"
    by fastforce
  note first = EvaluateObservation_rows [OF Cons.prems(1) e]
  show ?case
  proof (cases r1)
    case (Inr as)
    define dq where "dq = queue_firing now as d1"
    obtain d2 r2 where e2: "evaluate_contract now os dq = (d2, r2)"
      by fastforce
    have q: "grows d1 dq \<and> (\<forall>a\<in>set as. a_State a = ''firing'' \<longrightarrow> queued (a_ID a) dq)"
      unfolding dq_def using first Inr by (intro queue_firing_ok) (auto simp: grows_sending rows_of_def)
    then have "sending dq"
      using grows_sending by blast
    then have step: "grows dq d2 \<and> (case r2 of Inl e \<Rightarrow> True | Inr as \<Rightarrow> \<forall>a\<in>set as. a_State a = ''firing'' \<longrightarrow> queued (a_ID a) d2)"
      by (rule Cons.IH [OF _ e2])
    have "grows d d2"
      using first q step grows_trans by blast
    moreover have "\<forall>a\<in>set as. a_State a = ''firing'' \<longrightarrow> queued (a_ID a) d2"
      using q step queued_grows by blast
    ultimately show ?thesis
      using step Inr e e2 Cons.prems(2) by (auto simp: dq_def [symmetric] split: sum.splits)
  qed (use first e Cons.prems(2) in auto)
qed (simp add: grows_refl)

lemma insert_contract_keeps:
  assumes "sending d" and "insert_contract now source prev index os d = Inr d'"
  shows "grows d d'"
  using assms
proof (induction os arbitrary: index d)
  case (Cons o' os)
  then obtain d1 where d1: "insert_observation now (observation_of source (int64 (int64 (prev + int index) + 1)) o') d = Inr d1"
    "insert_contract now source prev (Suc index) os d1 = Inr d'"
    by (auto simp: bindE_eq_Inr)
  then have "grows d d1"
    using Cons.prems(1) by (auto simp: insert_observation_def exec_eq_Inr grows_def sending_def)
  then show ?case
    using Cons.IH [OF _ d1(2)] grows_trans grows_sending by blast
qed (simp add: grows_refl)

lemma store_contract_keeps:
  assumes "sending d" and "store_contract now clear source os d = (d', r)"
  shows "grows d d'"
proof (cases r)
  case (Inl e)
  then have "d' = d"
    using assms(2) with_tx_rollback unfolding store_contract_def by blast
  then show ?thesis
    using assms(1) grows_refl by blast
next
  case (Inr u)
  then obtain n d1 ks where d1: "insert_contract now source n 0 os d = Inr d1" "constraints d'" "d' = d1\<lparr> collector_keys := ks \<rparr>" "\<not> io_fault d1"
    using assms(2) by (auto simp: store_contract_def with_tx_commit bindE_eq_Inr exec_eq_Inr split: option.splits)
  then have "grows d1 d'"
    by (simp add: grows_def sending_def)
  then show ?thesis
    using insert_contract_keeps [OF assms(1) d1(1)] grows_trans by blast
qed

text \<open>
  C28: No firing alert of a check is lost between the pipeline and the notifier: when the ingestion of a result succeeds, every alert its evaluations answered as firing has,
  for every enabled route, a delivery in the queue, also when the alert was firing before, and no delivery that was queued earlier is taken out.
\<close>

theorem firing_alert_is_queued:
  assumes "constraints d" and "\<not> io_fault d" and "ingestCheckResult due now d = (d', Inr as)"
  shows "(\<forall>a\<in>set as. \<forall>r\<in>set (notification_routes d). a_State a = ''firing'' \<and> rt_enabled r \<longrightarrow>
      (\<exists>x\<in>set (notification_deliveries d'). dl_alert x = a_ID a \<and> dl_route x = rt_id r)) \<and>
    set (notification_deliveries d) \<subseteq> set (notification_deliveries d')"
proof -
  have d: "sending d"
    using assms(1,2) by (simp add: sending_def)
  obtain os d1 u where s: "store_contract now False (sc_ID (du_Schedule due)) os d = (d1, Inr u)" "evaluate_contract now os d1 = (d', Inr as)"
    using assms(3) by (auto simp: ingestCheckResult_def ingest_observations_def split: prod.splits sum.splits)
  have g: "grows d d1"
    using store_contract_keeps [OF d s(1)] .
  have "grows d1 d' \<and> (\<forall>a\<in>set as. a_State a = ''firing'' \<longrightarrow> queued (a_ID a) d')"
    using evaluate_contract_queues [OF grows_sending [OF g] s(2)] by simp
  then have "grows d d'" and "\<forall>a\<in>set as. a_State a = ''firing'' \<longrightarrow> queued (a_ID a) d'"
    using g grows_trans by blast+
  then show ?thesis
    by (auto simp: grows_def queued_def)
qed

section \<open>Witnesses\<close>

definition sample_network :: network where
  "sample_network = \<lparr> nw_url = (\<lambda>_. None), nw_ips = (\<lambda>h. if h = ''db'' then Some [[127, 0, 0, 1]] else None), nw_hosts = (\<lambda>_. Inl ''no such host''), nw_dial = (\<lambda>_. Inr ()),
     nw_tls = (\<lambda>_ _. Inr []), nw_http = (\<lambda>_. Inr 200), nw_ip4 = (\<lambda>_. None), nw_listen = None, nw_send = (\<lambda>_. None), nw_reply = (\<lambda>_. Inr True), nw_latency = (\<lambda>_ _. 3000000) \<rparr>"

definition sample_check :: check_schedule where
  "sample_check = \<lparr> cs_id = ''db-up'', cs_post = ''a'', cs_kind = ''tcp'', cs_address = ''db:5432'', cs_server = [], cs_interval = 60, cs_enabled = True, cs_next_run = 0, cs_created = 0 \<rparr>"

definition sample_policy :: Policy where
  "sample_policy = \<lparr> pl_allows = Some [], pl_denies = Some [\<lparr> nt_ip = [127, 0, 0, 0], nt_mask = [255, 0, 0, 0] \<rparr>], pl_denyPorts = [] \<rparr>"

lemma sample_denied:
  "target_of (nw_url sample_network) (cs_address sample_check) 0 = (''db'', 5432) \<and> nw_ips sample_network ''db'' = Some [[127, 0, 0, 1]] \<and>
   list_ex (\<lambda>n. Contains n [127, 0, 0, 1]) (nets (pl_denies sample_policy)) \<and> pl_denies sample_policy \<noteq> None \<and> pl_denyPorts sample_policy = []"
  by code_simp


theorem ipv6_target_escapes_policy_witness:
  "\<exists>p. NewPolicy (\<lambda>_. Some \<lparr> nt_ip = replicate 15 0 @ [1], nt_mask = replicate 16 255 \<rparr>) [] [''::1/128''] [22] = Inr p \<and>
     Validate (\<lambda>_. None) (\<lambda>n. if n = ''::1'' then Some [replicate 15 0 @ [1]] else None) (Some p) ''[::1]:22'' 0 = Inr () \<and>
     Validate (\<lambda>_. None) (\<lambda>n. if n = ''::1'' then Some [replicate 15 0 @ [1]] else None) (Some p) ''::1'' 0 \<noteq> Inr ()"
proof -
  define cidr :: "string \<Rightarrow> ipnet option" where "cidr = (\<lambda>_. Some \<lparr> nt_ip = replicate 15 0 @ [1], nt_mask = replicate 16 255 \<rparr>)"
  define p :: Policy where "p = \<lparr> pl_allows = Some [], pl_denies = Some [\<lparr> nt_ip = replicate 15 0 @ [1], nt_mask = replicate 16 255 \<rparr>], pl_denyPorts = [22] \<rparr>"
  let ?lookup = "\<lambda>n. if n = ''::1'' then Some [replicate 15 0 @ [1]] else None"
  have p: "NewPolicy cidr [] [''::1/128''] [22] = Inr p"
    by (simp add: NewPolicy_def parse_nets_def cidr_def p_def foldE_def ensure_def)
  moreover have "Validate (\<lambda>_. None) ?lookup (Some p) (''['' @ ''::1'' @ '']:'' @ ''22'') 0 = Inr ()"
    by (rule ipv6_target_escapes_policy [OF _ _ _ _ _ _ _ p]) (auto simp: is_digit_def)
  then have "Validate (\<lambda>_. None) ?lookup (Some p) ''[::1]:22'' 0 = Inr ()"
    by (simp only: append.simps)
  moreover have "Validate (\<lambda>_. None) ?lookup (Some p) ''::1'' 0 \<noteq> Inr ()"
    unfolding p_def by code_simp
  ultimately show ?thesis
    unfolding cidr_def by blast
qed

theorem check_observations_well_formed_witness:
  "\<exists>o'\<in>set (Observations (runWithPolicy sample_network None sample_check) \<lparr> mt_ID = ''db-up'', mt_Kind = ''central_check'', mt_PostID = ''a'' \<rparr> 9).
     co_Signal o' = ''tcp.ok'' \<and> well_formed (observation_of ''db-up'' 1 o') \<and> co_PostID o' = ''a''"
proof -
  let ?m = "\<lparr> mt_ID = ''db-up'', mt_Kind = ''central_check'', mt_PostID = ''a'' \<rparr>"
  let ?o = "check_observation ?m 9 ''tcp.ok'' 1 ''boolean''"
  have "?o \<in> set (Observations (runWithPolicy sample_network None sample_check) ?m 9)"
    by (simp add: Observations_def runWithPolicy_def Validate_def sample_check_def Run_def TCP_def sample_network_def timed_result_def blank_result_def)
  moreover have "cs_kind sample_check \<in> set check_kinds"
    by (simp add: sample_check_def check_kinds_def)
  ultimately show ?thesis
    using check_observations_well_formed [of sample_check ?o sample_network None ?m 9 1] by (intro bexI [of _ ?o]) (simp_all add: check_observation_def)
qed

definition sample_watched :: db where
  "sample_watched = sample_posts\<lparr> rules := [sample_rule\<lparr> ru_signal := ''tcp.ok'', ru_operator := ''lt'', ru_threshold := Num 1, ru_duration := 0 \<rparr>],
     notification_routes := [\<lparr> rt_id = ''mail'', rt_kind = ''email'', rt_destination = ''ops@example.org'', rt_secret = [], rt_enabled = True \<rparr>],
     collector_keys := [new_key ''db-up'' ''a'' ''hash''], check_schedules := [sample_check] \<rparr>"

definition sample_due :: DueResult where
  "sample_due = due_result (sample_network\<lparr> nw_dial := (\<lambda>_. Inl ''connection refused'') \<rparr>) None sample_check"

lemma sample_watched_run:
  "constraints sample_watched \<and> \<not> io_fault sample_watched \<and>
   map_sum id (map (\<lambda>a. (a_ID a, a_State a))) (snd (ingestCheckResult sample_due 9 sample_watched)) = Inr [(1, ''firing'')]"
  by code_simp

theorem firing_alert_is_queued_witness:
  "\<exists>x\<in>set (notification_deliveries (fst (ingestCheckResult sample_due 9 sample_watched))). dl_alert x = 1 \<and> dl_route x = ''mail''"
proof -
  obtain d' r where e: "ingestCheckResult sample_due 9 sample_watched = (d', r)"
    by fastforce
  then obtain a where r: "r = Inr [a]" and a: "a_ID a = 1" "a_State a = ''firing''"
    using sample_watched_run by (cases r) auto
  have "\<exists>r\<in>set (notification_routes sample_watched). rt_enabled r \<and> rt_id r = ''mail''"
    by (simp add: sample_watched_def)
  then show ?thesis
    using firing_alert_is_queued [OF _ _ e [unfolded r]] sample_watched_run a e by fastforce
qed

end
