(* ===== verification/Devices.thy ===== *)
theory Devices
  imports Checks
begin

text \<open>
  Stored device credentials (\<open>internal/secrets/secrets.go\<close>), device profiles (\<open>internal/devices/store.go\<close>), the reading of devices
  (\<open>internal/devices/snmp.go\<close>, \<open>internal/devices/adapters.go\<close>) and the recurring polls of \<open>internal/server/server.go\<close>.

  The AEAD cipher of the standard library is the record \<open>aead\<close>, with the property of an AEAD as the predicate \<open>opens\<close>; random nonces are arguments, \<open>None\<close> when
  the source of randomness fails. The SNMP client is the record \<open>snmp\<close>: how a connection ends and what a device answers to a list of object identifiers.
\<close>

section \<open>Credentials at rest\<close>

record aead =
  ae_seal :: "string \<Rightarrow> string \<Rightarrow> string \<Rightarrow> string"
  ae_open :: "string \<Rightarrow> string \<Rightarrow> string \<Rightarrow> string option"

definition opens :: "aead \<Rightarrow> bool" where
  "opens c \<longleftrightarrow> (\<forall>k n p. ae_open c k n (ae_seal c k n p) = Some p)"

definition NonceSize :: nat where
  "NonceSize = 12"

record Box =
  bx_key :: string
  bx_on :: bool

definition secrets_New :: "string \<Rightarrow> Box" where
  "secrets_New masterKey = (if masterKey \<noteq> [] then \<lparr> bx_key = sha256 masterKey, bx_on = True \<rparr> else \<lparr> bx_key = replicate 32 (CHR 0x00), bx_on = False \<rparr>)"

definition Enabled :: "Box \<Rightarrow> bool" where
  "Enabled b = bx_on b"

definition Encrypt :: "aead \<Rightarrow> string option \<Rightarrow> Box \<Rightarrow> string \<Rightarrow> err + string" where
  "Encrypt c nonce b plain = (if \<not> Enabled b then Inl (Err ''no master key configured; credentials cannot be stored at rest'')
     else case nonce of None \<Rightarrow> Inl IOFault | Some n \<Rightarrow> Inr (n @ ae_seal c (bx_key b) n plain))"

definition Decrypt :: "aead \<Rightarrow> Box \<Rightarrow> string \<Rightarrow> err + string" where
  "Decrypt c b blob = (if \<not> Enabled b then Inl (Err ''no master key configured; stored credentials cannot be read'')
     else if length blob < NonceSize then Inl (Err ''encrypted credential malformed'')
     else case ae_open c (bx_key b) (take NonceSize blob) (drop NonceSize blob) of None \<Rightarrow> Inl (Err ''cipher: message authentication failed'') | Some p \<Rightarrow> Inr p)"

section \<open>Profiles\<close>

record OID =
  oid_Name :: string
  oid_OID :: string
  oid_Unit :: string

record Profile =
  pf_ID :: id
  pf_Kind :: string
  pf_OIDs :: "OID list"

record SavedProfile =
  sv_ID :: id
  sv_PostID :: id
  sv_Kind :: string
  sv_Address :: string
  sv_Port :: nat
  sv_Username :: string
  sv_OIDs :: "OID list"
  sv_AuthPassword :: string
  sv_PrivacyPassword :: string
  sv_IntervalSeconds :: int
  sv_Enabled :: bool
  sv_NextRunAt :: "time option"

record V3Config =
  v3_Address :: string
  v3_Port :: nat
  v3_Username :: string
  v3_AuthPassword :: string
  v3_PrivacyPassword :: string
  v3_Timeout :: time

definition saved_Credentials :: "SavedProfile \<Rightarrow> nat \<Rightarrow> err + V3Config" where
  "saved_Credentials p port = (if sv_AuthPassword p = [] \<or> sv_PrivacyPassword p = [] then Inl (Err ''stored credentials unavailable'')
     else Inr \<lparr> v3_Address = sv_Address p, v3_Port = port, v3_Username = sv_Username p, v3_AuthPassword = sv_AuthPassword p, v3_PrivacyPassword = sv_PrivacyPassword p, v3_Timeout = 10 * second \<rparr>)"

definition device_kinds :: "string list" where
  "device_kinds = [''network_device'', ''ups'', ''environmental_sensor'', ''storage_appliance'']"

definition ValidateProfile :: "Profile \<Rightarrow> err + unit" where
  "ValidateProfile p = ensure (\<not> (pf_ID p = [] \<or> pf_Kind p \<notin> set device_kinds \<or> length (pf_OIDs p) > 64)) (Err ''invalid device profile'')"

text \<open>The two ciphertexts of a profile: none for a profile without credentials and interval.\<close>

definition seal_credentials :: "aead \<Rightarrow> string option \<Rightarrow> string option \<Rightarrow> Box \<Rightarrow> SavedProfile \<Rightarrow> err + (string option \<times> string option)" where
  "seal_credentials c n1 n2 box v =
     (if \<not> (sv_AuthPassword v \<noteq> [] \<or> sv_PrivacyPassword v \<noteq> [] \<or> sv_IntervalSeconds v > 0) then Inr (None, None)
      else bindE (ensure (Enabled box) (Err ''no master key configured (WATCHPOST_MASTER_KEY); credentials cannot be stored for recurring polling'')) (\<lambda>_.
      bindE (ensure (\<not> (sv_AuthPassword v = [] \<or> sv_PrivacyPassword v = [])) (Err ''both authentication and privacy passwords are required for recurring polling'')) (\<lambda>_.
      bindE (Encrypt c n1 box (sv_AuthPassword v)) (\<lambda>auth.
      bindE (Encrypt c n2 box (sv_PrivacyPassword v)) (\<lambda>privacy. Inr (Some auth, Some privacy))))))"

definition profile_row :: "time \<Rightarrow> SavedProfile \<Rightarrow> string option \<Rightarrow> string option \<Rightarrow> device_profile" where
  "profile_row now v auth privacy = \<lparr> dp_id = sv_ID v, dp_post = sv_PostID v, dp_kind = sv_Kind v, dp_address = sv_Address v, dp_port = sv_Port v, dp_username = sv_Username v,
     dp_created = now, dp_auth = auth, dp_privacy = privacy, dp_interval = sv_IntervalSeconds v, dp_next_run = Some now, dp_enabled = (sv_IntervalSeconds v > 0) \<rparr>"

definition oid_row :: "id \<Rightarrow> nat \<Rightarrow> OID \<Rightarrow> profile_oid" where
  "oid_row i position x = \<lparr> oi_profile = i, oi_position = position, oi_name = oid_Name x, oi_oid = oid_OID x, oi_unit = oid_Unit x \<rparr>"

fun insert_oids :: "id \<Rightarrow> nat \<Rightarrow> OID list \<Rightarrow> db \<Rightarrow> err + db" where
  "insert_oids i n [] d = Inr d"
| "insert_oids i n (x # xs) d = bindE (exec (\<lambda>d. d\<lparr> device_profile_oids := device_profile_oids d @ [oid_row i n x] \<rparr>) d) (insert_oids i (Suc n) xs)"

definition device_Save :: "aead \<Rightarrow> string option \<Rightarrow> string option \<Rightarrow> Box \<Rightarrow> time \<Rightarrow> SavedProfile \<Rightarrow> Entry \<Rightarrow> db \<Rightarrow> db \<times> (err + unit)" where
  "device_Save c n1 n2 box now v e d = (if sv_PostID v = [] \<or> sv_Address v = [] \<or> sv_Username v = [] \<or> sv_Port v = 0 then (d, Inl (Err ''invalid saved device profile''))
     else case ValidateProfile \<lparr> pf_ID = sv_ID v, pf_Kind = sv_Kind v, pf_OIDs = sv_OIDs v \<rparr> of Inl x \<Rightarrow> (d, Inl x)
     | Inr u \<Rightarrow> case seal_credentials c n1 n2 box v of Inl x \<Rightarrow> (d, Inl x)
     | Inr (auth, privacy) \<Rightarrow> audited_tx now (e\<lparr> en_ObjectType := ''device_profile'', en_ObjectID := sv_ID v \<rparr>) (\<lambda>d.
         bindE (exec (\<lambda>d. d\<lparr> device_profiles := device_profiles d @ [profile_row now v auth privacy] \<rparr>) d) (\<lambda>d.
         bindE (insert_oids (sv_ID v) 0 (sv_OIDs v) d) (\<lambda>d.
         bindE (if sv_IntervalSeconds v > 0 then exec (add_source (source_key (sv_ID v) (sv_PostID v) ''device-snmp:'' ''device_snmp'')) d else Inr d) (\<lambda>d. Inr (d, ()))))) d)"

definition saved_of_row :: "device_profile \<Rightarrow> SavedProfile" where
  "saved_of_row p = \<lparr> sv_ID = dp_id p, sv_PostID = dp_post p, sv_Kind = dp_kind p, sv_Address = dp_address p, sv_Port = dp_port p, sv_Username = dp_username p, sv_OIDs = [],
     sv_AuthPassword = [], sv_PrivacyPassword = [], sv_IntervalSeconds = dp_interval p, sv_Enabled = False, sv_NextRunAt = None \<rparr>"

definition next_run :: "device_profile \<Rightarrow> time" where
  "next_run p = (case dp_next_run p of None \<Rightarrow> 0 | Some t \<Rightarrow> t)"

definition device_Due :: "time \<Rightarrow> nat \<Rightarrow> db \<Rightarrow> err + SavedProfile list" where
  "device_Due now limit d = query (\<lambda>d. map saved_of_row (take limit (sort_key (\<lambda>p. text_key (next_run p))
     (filter (\<lambda>p. dp_enabled p \<and> (case dp_next_run p of None \<Rightarrow> False | Some t \<Rightarrow> text_le t now)) (device_profiles d))))) d"

text \<open>\<open>Scan\<close> reads a missing blob as an empty one.\<close>

definition blob :: "string option \<Rightarrow> string" where
  "blob x = (case x of None \<Rightarrow> [] | Some s \<Rightarrow> s)"

definition open_credentials :: "aead \<Rightarrow> Box \<Rightarrow> device_profile \<Rightarrow> err + (string \<times> string)" where
  "open_credentials c box p = (if blob (dp_auth p) = [] \<or> blob (dp_privacy p) = [] then Inl (Err ''stored credentials unavailable'')
     else bindE (Decrypt c box (blob (dp_auth p))) (\<lambda>auth. bindE (Decrypt c box (blob (dp_privacy p))) (\<lambda>privacy. Inr (auth, privacy))))"

definition device_Credentials :: "aead \<Rightarrow> Box \<Rightarrow> id \<Rightarrow> db \<Rightarrow> err + (SavedProfile \<times> V3Config)" where
  "device_Credentials c box i d = bindE (query (\<lambda>d. find (\<lambda>p. dp_id p = i) (device_profiles d)) d) (\<lambda>r. case r of None \<Rightarrow> Inl ErrNoRows
     | Some p \<Rightarrow> bindE (open_credentials c box p) (\<lambda>(auth, privacy).
         Inr ((saved_of_row p)\<lparr> sv_IntervalSeconds := 0, sv_AuthPassword := auth, sv_PrivacyPassword := privacy \<rparr>,
              \<lparr> v3_Address = dp_address p, v3_Port = dp_port p, v3_Username = dp_username p, v3_AuthPassword = auth, v3_PrivacyPassword = privacy, v3_Timeout = 10 * second \<rparr>)))"

definition Advance :: "id \<Rightarrow> int \<Rightarrow> time \<Rightarrow> db \<Rightarrow> db \<times> (err + unit)" where
  "Advance i interval now d = (let hit = (\<lambda>p. dp_id p = i \<and> dp_interval p = interval); n = count_where hit (device_profiles d) in
     case exec (\<lambda>d. d\<lparr> device_profiles := upd_where hit (\<lambda>p. p\<lparr> dp_next_run := Some (now + int64 (interval * second)) \<rparr>) (device_profiles d) \<rparr>) d of Inl e \<Rightarrow> (d, Inl e)
     | Inr d' \<Rightarrow> (d', if n \<noteq> 1 then Inl ErrNoRows else Inr ()))"

definition oid_of_row :: "profile_oid \<Rightarrow> OID" where
  "oid_of_row x = \<lparr> oid_Name = oi_name x, oid_OID = oi_oid x, oid_Unit = oi_unit x \<rparr>"

definition ListProfiles :: "db \<Rightarrow> err + SavedProfile list" where
  "ListProfiles d = query (\<lambda>d. map (\<lambda>p. (saved_of_row p)\<lparr> sv_Enabled := dp_enabled p,
     sv_OIDs := map oid_of_row (sort_key oi_position (filter (\<lambda>x. oi_profile x = dp_id p) (device_profile_oids d))) \<rparr>) (sort_key dp_id (device_profiles d))) d"

definition device_Delete :: "time \<Rightarrow> id \<Rightarrow> Entry \<Rightarrow> db \<Rightarrow> db \<times> (err + unit)" where
  "device_Delete now i e = audited_tx now (e\<lparr> en_ObjectType := ''device_profile'', en_ObjectID := i \<rparr>) (\<lambda>d.
     let n = count_where (\<lambda>p. dp_id p = i) (device_profiles d) in
     bindE (exec (del_device_profiles (\<lambda>p. dp_id p = i)) d) (\<lambda>d.
     bindE (ensure (n = 1) (Err ''device profile not found'')) (\<lambda>_. Inr (d, ()))))"

text \<open>One profile under the new key; the two nonces of a profile are drawn by its position.\<close>

definition rekey_row :: "aead \<Rightarrow> (nat \<Rightarrow> string option \<times> string option) \<Rightarrow> Box \<Rightarrow> Box \<Rightarrow> nat \<times> device_profile \<Rightarrow> db \<Rightarrow> err + db" where
  "rekey_row c draws oldBox newBox np d = (case np of (n, p) \<Rightarrow>
     bindE (Decrypt c oldBox (blob (dp_auth p))) (\<lambda>auth.
     bindE (Decrypt c oldBox (blob (dp_privacy p))) (\<lambda>privacy.
     bindE (Encrypt c (fst (draws n)) newBox auth) (\<lambda>nextAuth.
     bindE (Encrypt c (snd (draws n)) newBox privacy) (\<lambda>nextPrivacy.
     exec (\<lambda>d. d\<lparr> device_profiles := upd_where (\<lambda>q. dp_id q = dp_id p) (\<lambda>q. q\<lparr> dp_auth := Some nextAuth, dp_privacy := Some nextPrivacy \<rparr>) (device_profiles d) \<rparr>) d)))))"

definition RekeyCredentials :: "aead \<Rightarrow> (nat \<Rightarrow> string option \<times> string option) \<Rightarrow> string \<Rightarrow> string \<Rightarrow> db \<Rightarrow> db \<times> (err + nat)" where
  "RekeyCredentials c draws oldKey newKey d = (if oldKey = [] \<or> newKey = [] \<or> oldKey = newKey then (d, Inl (Err ''old and new master keys are required and must differ''))
     else let oldBox = secrets_New oldKey; newBox = secrets_New newKey in
       if \<not> Enabled oldBox \<or> \<not> Enabled newBox then (d, Inl (Err ''master keys unavailable''))
       else case query (\<lambda>d. filter (\<lambda>p. dp_auth p \<noteq> None) (device_profiles d)) d of Inl e \<Rightarrow> (d, Inl e)
       | Inr items \<Rightarrow> with_tx (\<lambda>d. bindE (foldE (rekey_row c draws oldBox newBox) (enumerate 0 items) d) (\<lambda>d. Inr (d, length items))) d)"

section \<open>Readings\<close>

text \<open>The dynamic types of an SNMP value that matter to \<open>floatValue\<close>: integers of any width, floats, and everything else.\<close>

datatype snmp_value = IntValue int | FloatValue f64 | OtherValue

datatype snmp_type = NoSuchObject | NoSuchInstance | OtherType

record snmp_variable =
  va_Name :: string
  va_Type :: snmp_type
  va_Value :: snmp_value

record Reading =
  rd_Name :: string
  rd_OID :: string
  rd_Unit :: string
  rd_Value :: snmp_value
  rd_Quality :: string
  rd_ObservedAt :: time
  rd_FreshUntil :: time

text \<open>\<open>float64(v)\<close> of an integer: 53 significant bits, ties to even.\<close>

fun bit_length :: "nat \<Rightarrow> nat" where
  "bit_length n = (if n = 0 then 0 else Suc (bit_length (n div 2)))"

definition round53 :: "nat \<Rightarrow> nat" where
  "round53 n = (if n < 2 ^ 53 then n
     else let u = 2 ^ (bit_length n - 53); q = n div u; r = n mod u
       in (if 2 * r > u \<or> 2 * r = u \<and> odd q then q + 1 else q) * u)"

definition float_of_int64 :: "int \<Rightarrow> f64" where
  "float_of_int64 i = Num (of_int (if i < 0 then - int (round53 (nat (- i))) else int (round53 (nat i))))"

definition floatValue :: "snmp_value \<Rightarrow> f64 option" where
  "floatValue v = (case v of IntValue i \<Rightarrow> Some (float_of_int64 i) | FloatValue f \<Rightarrow> Some f | OtherValue \<Rightarrow> None)"

text \<open>A later object identifier of a profile replaces an equal one before it.\<close>

definition oid_item :: "OID list \<Rightarrow> string \<Rightarrow> OID option" where
  "oid_item oids name = find (\<lambda>x. oid_OID x = name) (rev oids)"

definition reading_of :: "OID list \<Rightarrow> (nat \<Rightarrow> time) \<Rightarrow> nat \<times> snmp_variable \<Rightarrow> Reading option" where
  "reading_of oids clock nv = (case nv of (n, v) \<Rightarrow> case oid_item oids (va_Name v) of None \<Rightarrow> None
     | Some item \<Rightarrow> Some \<lparr> rd_Name = oid_Name item, rd_OID = oid_OID item, rd_Unit = oid_Unit item, rd_Value = va_Value v,
         rd_Quality = (if va_Type v = NoSuchObject \<or> va_Type v = NoSuchInstance then ''missing'' else ''good''), rd_ObservedAt = clock n, rd_FreshUntil = clock n + 5 * minute \<rparr>)"

definition device_Poll :: "(string list \<Rightarrow> string + snmp_variable list) \<Rightarrow> (nat \<Rightarrow> time) \<Rightarrow> Profile \<Rightarrow> err + Reading list" where
  "device_Poll getter clock profile = (if length (pf_OIDs profile) < 1 \<or> length (pf_OIDs profile) > 64 then Inl (Err ''profile OID count out of bounds'')
     else if list_ex (\<lambda>x. oid_Name x = [] \<or> oid_OID x = []) (pf_OIDs profile) then Inl (Err ''invalid OID profile'')
     else case getter (map oid_OID (pf_OIDs profile)) of Inl e \<Rightarrow> Inl (Err e)
     | Inr vs \<Rightarrow> Inr (List.map_filter (reading_of (pf_OIDs profile) clock) (enumerate 0 vs)))"

definition reading_Observation :: "Reading \<Rightarrow> Method \<Rightarrow> time \<Rightarrow> contract_observation" where
  "reading_Observation r m observedAt = \<lparr> co_PostID = mt_PostID m, co_Source = mt_ID m, co_Signal = rd_Name r, co_Value = floatValue (rd_Value r), co_Unit = rd_Unit r,
     co_Quality = (if rd_Quality r = ''missing'' then ''missing'' else if rd_Quality r = ''good'' then ''good'' else ''bad''), co_ObservedAt = observedAt, co_FreshUntil = rd_FreshUntil r \<rparr>"

definition PollOK :: "Method \<Rightarrow> bool \<Rightarrow> time \<Rightarrow> contract_observation" where
  "PollOK m ok observedAt = \<lparr> co_PostID = mt_PostID m, co_Source = mt_ID m, co_Signal = ''snmp.poll_ok'', co_Value = Some (Num (if ok then 1 else 0)), co_Unit = ''boolean'',
     co_Quality = ''good'', co_ObservedAt = observedAt, co_FreshUntil = observedAt + 5 * minute \<rparr>"

section \<open>Presets and adapters\<close>

record Preset =
  ps_Kind :: string
  ps_Name :: string
  ps_Description :: string
  ps_OIDs :: "OID list"

definition oid :: "string \<Rightarrow> string \<Rightarrow> string \<Rightarrow> OID" where
  "oid name x u = \<lparr> oid_Name = name, oid_OID = x, oid_Unit = u \<rparr>"

definition Presets :: "Preset list" where
  "Presets = [\<lparr> ps_Kind = ''network_device'', ps_Name = ''Network availability'', ps_Description = ''Uptime and interface inventory'',
       ps_OIDs = [oid ''uptime'' ''.1.3.6.1.2.1.1.3.0'' ''ticks'', oid ''interfaces'' ''.1.3.6.1.2.1.2.1.0'' ''count''] \<rparr>,
     \<lparr> ps_Kind = ''ups'', ps_Name = ''UPS or PDU'', ps_Description = ''Battery charge, input voltage and load'',
       ps_OIDs = [oid ''battery_charge'' ''.1.3.6.1.2.1.33.1.2.4.0'' ''percent'', oid ''input_voltage'' ''.1.3.6.1.2.1.33.1.3.3.1.3.1'' ''volts'', oid ''output_load'' ''.1.3.6.1.2.1.33.1.4.4.1.5.1'' ''percent''] \<rparr>,
     \<lparr> ps_Kind = ''environmental_sensor'', ps_Name = ''Environment'', ps_Description = ''Vendor-neutral placeholder for temperature and humidity OIDs'', ps_OIDs = [] \<rparr>,
     \<lparr> ps_Kind = ''storage_appliance'', ps_Name = ''Storage appliance'', ps_Description = ''Uptime plus vendor-specific capacity and health OIDs'',
       ps_OIDs = [oid ''uptime'' ''.1.3.6.1.2.1.1.3.0'' ''ticks''] \<rparr>]"

record AdapterDescriptor =
  ad_ID :: id
  ad_Name :: string
  ad_Authority :: string
  ad_PostKinds :: "string list"
  ad_Capabilities :: "string list"

definition Adapters :: "AdapterDescriptor list" where
  "Adapters = [\<lparr> ad_ID = ''snmpv3'', ad_Name = ''SNMPv3 authPriv'', ad_Authority = ''read_only'',
     ad_PostKinds = [''network_device'', ''ups'', ''environmental_sensor'', ''storage_appliance''], ad_Capabilities = [''poll_oids'', ''test_connection''] \<rparr>]"

definition device_Adapter :: "id \<Rightarrow> err + AdapterDescriptor" where
  "device_Adapter i = (case find (\<lambda>a. ad_ID a = i) Adapters of None \<Rightarrow> Inl (Err ''device adapter not found'') | Some a \<Rightarrow> Inr a)"

text \<open>A profile made from a preset is valid, and an adapter serves every kind of device; a reading that is no number is stored as a good one without a value.\<close>

lemma presets_valid: "p \<in> set Presets \<Longrightarrow> i \<noteq> [] \<Longrightarrow> ValidateProfile \<lparr> pf_ID = i, pf_Kind = ps_Kind p, pf_OIDs = ps_OIDs p \<rparr> = Inr ()"
  by (auto simp: Presets_def ValidateProfile_def device_kinds_def ensure_def)

lemma adapters_serve_all: "a \<in> set Adapters \<Longrightarrow> set (ad_PostKinds a) = set device_kinds"
  by (auto simp: Adapters_def device_kinds_def)

lemma text_reading_is_good:
  assumes "reading_of oids clock (n, v) = Some r" and "va_Type v = OtherType" and "va_Value v = OtherValue"
  shows "co_Quality (reading_Observation r m t) = ''good'' \<and> co_Value (reading_Observation r m t) = None"
  using assms by (auto simp: reading_of_def reading_Observation_def floatValue_def split: option.splits)

section \<open>Recurring polls\<close>

text \<open>A failed connection leaves a socket or none; the code closes it in both cases, and to close none ends the process.\<close>

datatype connect = Connected | NotConnected | NoSocket

record snmp =
  sn_connect :: "V3Config \<Rightarrow> connect"
  sn_get :: "V3Config \<Rightarrow> string list \<Rightarrow> string + snmp_variable list"

datatype poll_outcome = Polled "err + unit" | Panicked

definition NewV3 :: "V3Config \<Rightarrow> err + V3Config" where
  "NewV3 config = (if v3_Address config = [] \<or> v3_Username config = [] \<or> v3_AuthPassword config = [] \<or> v3_PrivacyPassword config = [] then Inl (Err ''SNMPv3 authPriv credentials required'')
     else if v3_Timeout config \<le> 0 \<or> v3_Timeout config > 30 * second then Inl (Err ''invalid SNMP timeout'')
     else Inr (config\<lparr> v3_Port := (if v3_Port config = 0 then 161 else v3_Port config) \<rparr>))"

definition device_method :: "SavedProfile \<Rightarrow> Method" where
  "device_method p = \<lparr> mt_ID = sv_ID p, mt_Kind = ''device_snmp'', mt_PostID = sv_PostID p \<rparr>"

definition emitDevicePoll :: "SavedProfile \<Rightarrow> bool \<Rightarrow> Reading list \<Rightarrow> time \<Rightarrow> db \<Rightarrow> db \<times> (err + unit)" where
  "emitDevicePoll p ok readings now d =
     (case ingestContractObservations now (sv_ID p) (PollOK (device_method p) ok now # map (\<lambda>r. reading_Observation r (device_method p) now) readings) d of
        (d', r) \<Rightarrow> (d', map_sum id (\<lambda>_. ()) r))"

definition pollDeviceProfile :: "aead \<Rightarrow> Box \<Rightarrow> snmp \<Rightarrow> (nat \<Rightarrow> time) \<Rightarrow> SavedProfile \<Rightarrow> time \<Rightarrow> db \<Rightarrow> db \<times> poll_outcome" where
  "pollDeviceProfile c box net clock p now d =
     (let advanced = fst (Advance (sv_ID p) (sv_IntervalSeconds p) now d);
          failed = (case emitDevicePoll p False [] now advanced of (d', r) \<Rightarrow> (d', Polled r)) in
      case bindE (device_Credentials c box (sv_ID p) d) (\<lambda>(_, config). NewV3 config) of
        Inl e \<Rightarrow> (advanced, Polled (Inl e))
      | Inr client \<Rightarrow> case sn_connect net client of
          NoSocket \<Rightarrow> (d, Panicked)
        | NotConnected \<Rightarrow> failed
        | Connected \<Rightarrow> case device_Poll (sn_get net client) clock \<lparr> pf_ID = sv_ID p, pf_Kind = sv_Kind p, pf_OIDs = sv_OIDs p \<rparr> of
            Inl e \<Rightarrow> failed
          | Inr readings \<Rightarrow> case emitDevicePoll p True readings now d of
              (d', Inl e) \<Rightarrow> (d', Polled (Inl e))
            | (d', Inr u) \<Rightarrow> case Advance (sv_ID p) (sv_IntervalSeconds p) now d' of (d'', r) \<Rightarrow> (d'', Polled r))"

fun poll_profiles :: "aead \<Rightarrow> Box \<Rightarrow> snmp \<Rightarrow> (nat \<Rightarrow> time) \<Rightarrow> SavedProfile list \<Rightarrow> time \<Rightarrow> db \<Rightarrow> db \<times> poll_outcome" where
  "poll_profiles c box net clock [] now d = (d, Polled (Inr ()))"
| "poll_profiles c box net clock (p # ps) now d = (case pollDeviceProfile c box net clock p now d of (d', Panicked) \<Rightarrow> (d', Panicked)
     | (d', Polled r) \<Rightarrow> poll_profiles c box net clock ps now d')"

definition runDueSNMP :: "aead \<Rightarrow> Box \<Rightarrow> snmp \<Rightarrow> (nat \<Rightarrow> time) \<Rightarrow> time \<Rightarrow> db \<Rightarrow> db \<times> poll_outcome" where
  "runDueSNMP c box net clock now d = (case device_Due now 16 d of Inl e \<Rightarrow> (d, Polled (Inl e)) | Inr ps \<Rightarrow> poll_profiles c box net clock ps now d)"

section \<open>Round trips of credentials\<close>

lemma Decrypt_Encrypt:
  assumes "opens c" and "Encrypt c (Some n) b p = Inr x" and "length n = NonceSize"
  shows "Decrypt c b x = Inr p" and "x \<noteq> []"
  using assms by (auto simp: Encrypt_def Decrypt_def opens_def NonceSize_def split: if_splits)

lemma Encrypt_ok: "Enabled b \<Longrightarrow> Encrypt c (Some n) b p = Inr (n @ ae_seal c (bx_key b) n p)"
  by (simp add: Encrypt_def)

lemma Decrypt_nonempty: "Decrypt c b x = Inr p \<Longrightarrow> x \<noteq> []"
  by (auto simp: Decrypt_def NonceSize_def split: if_splits)

lemma New_Enabled: "Enabled (secrets_New k) \<longleftrightarrow> k \<noteq> []"
  by (simp add: Enabled_def secrets_New_def)

lemma find_map_key: "(\<And>x. f (g x) = f x) \<Longrightarrow> find (\<lambda>x. f x = i) (map g xs) = map_option g (find (\<lambda>x. f x = i) xs)"
  by (induction xs) auto

lemma constraints_edit_profiles:
  assumes "constraints d" and "\<And>p. dp_id (g p) = dp_id p \<and> dp_post (g p) = dp_post p"
  shows "constraints (d\<lparr> device_profiles := map g (device_profiles d) \<rparr>)"
proof -
  have "dp_id \<circ> g = dp_id" "dp_post \<circ> g = dp_post"
    using assms(2) by auto
  then show ?thesis
    using assms(1) by (simp add: constraint_defs Let_def)
qed

text \<open>What a rotation does to a profile: its ciphertexts are replaced by ones that open to the same passwords under the new key.\<close>

definition resealed :: "aead \<Rightarrow> Box \<Rightarrow> Box \<Rightarrow> device_profile \<Rightarrow> device_profile \<Rightarrow> bool" where
  "resealed c old new p q \<longleftrightarrow> (\<exists>a b. q = p\<lparr> dp_auth := Some a, dp_privacy := Some b \<rparr>) \<and> open_credentials c new q = open_credentials c old p"

definition nonces_ok :: "(nat \<Rightarrow> string option \<times> string option) \<Rightarrow> bool" where
  "nonces_ok draws \<longleftrightarrow> (\<forall>n. \<exists>a b. draws n = (Some a, Some b) \<and> length a = NonceSize \<and> length b = NonceSize)"

lemma rekey_row_cases:
  assumes "opens c" and "nonces_ok draws" and "Enabled new" and "sending d"
  shows "(\<exists>e. rekey_row c draws old new (n, p) d = Inl e \<and> (\<exists>e. open_credentials c old p = Inl e)) \<or>
    (\<exists>a b. rekey_row c draws old new (n, p) d =
        Inr (d\<lparr> device_profiles := map (\<lambda>q. if dp_id q = dp_id p then q\<lparr> dp_auth := Some a, dp_privacy := Some b \<rparr> else q) (device_profiles d) \<rparr>) \<and>
      (\<exists>x. open_credentials c old p = Inr x) \<and> open_credentials c new (p\<lparr> dp_auth := Some a, dp_privacy := Some b \<rparr>) = open_credentials c old p)"
proof (cases "Decrypt c old (blob (dp_auth p))")
  case (Inl e)
  then show ?thesis
    by (simp add: rekey_row_def open_credentials_def)
next
  case auth: (Inr auth)
  show ?thesis
  proof (cases "Decrypt c old (blob (dp_privacy p))")
    case (Inl e)
    then show ?thesis
      using auth by (simp add: rekey_row_def open_credentials_def)
  next
    case privacy: (Inr privacy)
    obtain m1 m2 where m: "draws n = (Some m1, Some m2)" "length m1 = NonceSize" "length m2 = NonceSize"
      using assms(2) unfolding nonces_ok_def by blast
    obtain a b where ab: "Encrypt c (Some m1) new auth = Inr a" "Encrypt c (Some m2) new privacy = Inr b"
      using Encrypt_ok [OF assms(3)] by blast
    let ?g = "\<lambda>q. if dp_id q = dp_id p then q\<lparr> dp_auth := Some a, dp_privacy := Some b \<rparr> else q"
    have "constraints (d\<lparr> device_profiles := map ?g (device_profiles d) \<rparr>)"
      using assms(4) by (intro constraints_edit_profiles) (simp_all add: sending_def)
    then have "rekey_row c draws old new (n, p) d = Inr (d\<lparr> device_profiles := map ?g (device_profiles d) \<rparr>)"
      using assms(4) auth privacy m ab by (simp add: rekey_row_def upd_where_def sending_def exec_ok)
    moreover have "open_credentials c old p = Inr (auth, privacy)"
      using auth privacy Decrypt_nonempty [OF auth] Decrypt_nonempty [OF privacy] by (simp add: open_credentials_def)
    moreover have "open_credentials c new (p\<lparr> dp_auth := Some a, dp_privacy := Some b \<rparr>) = Inr (auth, privacy)"
      using Decrypt_Encrypt [OF assms(1) ab(1) m(2)] Decrypt_Encrypt [OF assms(1) ab(2) m(3)] by (simp add: open_credentials_def blob_def)
    ultimately show ?thesis
      by (intro disjI2 exI [of _ a] exI [of _ b]) simp
  qed
qed

lemma rekey_rows:
  assumes "opens c" and "nonces_ok draws" and "Enabled new" and "sending d" and "distinct (map dp_id items)"
  shows "case foldE (rekey_row c draws old new) (enumerate k items) d of
      Inl e \<Rightarrow> \<exists>p\<in>set items. \<exists>e. open_credentials c old p = Inl e
    | Inr d' \<Rightarrow> \<exists>g. d' = d\<lparr> device_profiles := map g (device_profiles d) \<rparr> \<and> sending d' \<and> (\<forall>q. dp_id (g q) = dp_id q) \<and>
        (\<forall>q. dp_id q \<notin> dp_id ` set items \<longrightarrow> g q = q) \<and> (\<forall>p\<in>set items. resealed c old new p (g p))"
  using assms(4,5)
proof (induction items arbitrary: k d)
  case Nil
  have "d = d\<lparr> device_profiles := map (\<lambda>q. q) (device_profiles d) \<rparr>"
    by simp
  then have "\<exists>g. d = d\<lparr> device_profiles := map g (device_profiles d) \<rparr> \<and> sending d \<and> (\<forall>q. dp_id (g q) = dp_id q) \<and> (\<forall>q. dp_id q \<notin> dp_id ` set [] \<longrightarrow> g q = q)"
    using Nil(1) by blast
  then show ?case
    by simp
next
  case (Cons p items)
  note step = rekey_row_cases [OF assms(1-3) Cons.prems(1), of old k p]
  show ?case
  proof (cases "rekey_row c draws old new (k, p) d")
    case (Inl e)
    then show ?thesis
      using step by auto
  next
    case (Inr d1)
    then obtain a b where d1: "d1 = d\<lparr> device_profiles := map (\<lambda>q. if dp_id q = dp_id p then q\<lparr> dp_auth := Some a, dp_privacy := Some b \<rparr> else q) (device_profiles d) \<rparr>"
      and p: "open_credentials c new (p\<lparr> dp_auth := Some a, dp_privacy := Some b \<rparr>) = open_credentials c old p"
      using step by auto
    define h :: "device_profile \<Rightarrow> device_profile" where "h = (\<lambda>q. if dp_id q = dp_id p then q\<lparr> dp_auth := Some a, dp_privacy := Some b \<rparr> else q)"
    have d1h: "d1 = d\<lparr> device_profiles := map h (device_profiles d) \<rparr>"
      using d1 by (simp add: h_def)
    have "sending d1"
      using Cons.prems(1) constraints_edit_profiles [of d h] unfolding d1h sending_def by (simp add: h_def)
    then have IH: "case foldE (rekey_row c draws old new) (enumerate (Suc k) items) d1 of
      Inl e \<Rightarrow> \<exists>p\<in>set items. \<exists>e. open_credentials c old p = Inl e
    | Inr d' \<Rightarrow> \<exists>g. d' = d1\<lparr> device_profiles := map g (device_profiles d1) \<rparr> \<and> sending d' \<and> (\<forall>q. dp_id (g q) = dp_id q) \<and>
        (\<forall>q. dp_id q \<notin> dp_id ` set items \<longrightarrow> g q = q) \<and> (\<forall>p\<in>set items. resealed c old new p (g p))"
      using Cons.IH [of d1 "Suc k"] Cons.prems(2) by simp
    show ?thesis
    proof (cases "foldE (rekey_row c draws old new) (enumerate (Suc k) items) d1")
      case (Inl e)
      then show ?thesis
        using IH Inr by auto
    next
      case res: (Inr d')
      then obtain g where g: "d' = d1\<lparr> device_profiles := map g (device_profiles d1) \<rparr>" "sending d'" "\<And>q. dp_id (g q) = dp_id q"
        "\<And>q. dp_id q \<notin> dp_id ` set items \<Longrightarrow> g q = q" "\<And>p. p \<in> set items \<Longrightarrow> resealed c old new p (g p)"
        using IH by auto
      have fresh: "dp_id p \<notin> dp_id ` set items"
        using Cons.prems(2) by auto
      have hid: "dp_id (h q) = dp_id q" for q
        by (simp add: h_def)
      have "d' = d\<lparr> device_profiles := map (g \<circ> h) (device_profiles d) \<rparr>"
        using g(1) by (simp add: d1h)
      moreover have "g (h q) = q" if "dp_id q \<notin> dp_id ` set (p # items)" for q
        using that g(4) [of q] by (auto simp: h_def)
      moreover have "resealed c old new p (g (h p))"
        using g(4) [of "h p"] fresh p by (simp add: hid) (auto simp: h_def resealed_def)
      moreover have "resealed c old new q (g (h q))" if "q \<in> set items" for q
      proof -
        have "dp_id q \<noteq> dp_id p"
          using fresh that by (metis image_eqI)
        then show ?thesis
          using g(5) [OF that] by (simp add: h_def)
      qed
      ultimately show ?thesis
        using Inr res g(2,3) hid by (auto intro!: exI [of _ "g \<circ> h"])
    qed
  qed
qed

text \<open>
  C29: A rotation of the master key keeps every stored credential readable: it answers the number of profiles with credentials, and every profile then opens under the new key
  to what it opened to under the old one, profiles without credentials and unknown ones included. It is refused, with nothing changed, only when some stored credential does
  not open under the old key.
\<close>

theorem rekey_keeps_credentials:
  assumes "opens c" and "nonces_ok draws" and "constraints d" and "\<not> io_fault d" and "oldKey \<noteq> []" and "newKey \<noteq> []" and "oldKey \<noteq> newKey"
  shows "case RekeyCredentials c draws oldKey newKey d of
      (d', Inl e) \<Rightarrow> d' = d \<and> (\<exists>p\<in>set (device_profiles d). dp_auth p \<noteq> None \<and> (\<exists>e. open_credentials c (secrets_New oldKey) p = Inl e))
    | (d', Inr n) \<Rightarrow> n = count_where (\<lambda>p. dp_auth p \<noteq> None) (device_profiles d) \<and>
        (\<forall>i. device_Credentials c (secrets_New newKey) i d' = device_Credentials c (secrets_New oldKey) i d)"
proof -
  let ?items = "filter (\<lambda>p. dp_auth p \<noteq> None) (device_profiles d)" and ?old = "secrets_New oldKey" and ?new = "secrets_New newKey"
  have on: "Enabled ?old" "Enabled ?new"
    using assms(5,6) by (simp_all add: New_Enabled)
  have ids: "distinct (map dp_id (device_profiles d))"
    using assms(3) by (simp add: constraint_defs)
  then have dist: "inj_on dp_id (set (device_profiles d))"
    by (simp add: distinct_map)
  have di: "distinct (map dp_id ?items)"
    using ids by (rule distinct_map_filter)
  have d: "sending d"
    using assms(3,4) by (simp add: sending_def)
  note rows = rekey_rows [OF assms(1,2) on(2) d di, of ?old 0]
  have run: "RekeyCredentials c draws oldKey newKey d = with_tx (\<lambda>d. bindE (foldE (rekey_row c draws ?old ?new) (enumerate 0 ?items) d) (\<lambda>d. Inr (d, length ?items))) d"
    using assms(4-7) on by (simp add: RekeyCredentials_def)
  show ?thesis
  proof (cases "foldE (rekey_row c draws ?old ?new) (enumerate 0 ?items) d")
    case (Inl e)
    then have "RekeyCredentials c draws oldKey newKey d = (d, Inl e)"
      using assms(4) by (simp add: run with_tx_def)
    moreover obtain p e' where "p \<in> set ?items" "open_credentials c ?old p = Inl e'"
      using rows Inl by auto
    ultimately show ?thesis
      by auto
  next
    case (Inr d')
    then obtain g where g: "d' = d\<lparr> device_profiles := map g (device_profiles d) \<rparr>" "\<And>q. dp_id (g q) = dp_id q"
      "\<And>q. dp_id q \<notin> dp_id ` set ?items \<Longrightarrow> g q = q" "\<And>p. p \<in> set ?items \<Longrightarrow> resealed c ?old ?new p (g p)"
      using rows by auto
    have eq: "RekeyCredentials c draws oldKey newKey d = (d', Inr (length ?items))"
      using assms(4) Inr by (simp add: run with_tx_def)
    have "device_Credentials c ?new i d' = device_Credentials c ?old i d" for i
    proof (cases "find (\<lambda>p. dp_id p = i) (device_profiles d)")
      case None
      then show ?thesis
        using assms(4) by (simp add: device_Credentials_def g(1) find_map_key [of dp_id g, OF g(2)])
    next
      case (Some p)
      then have p: "p \<in> set (device_profiles d)"
        by (metis find_Some_iff nth_mem)
      have found: "find (\<lambda>p. dp_id p = i) (device_profiles d') = Some (g p)"
        using Some by (simp add: g(1) find_map_key [of dp_id g, OF g(2)])
      have "open_credentials c ?new (g p) = open_credentials c ?old p \<and> (\<exists>a b. g p = p\<lparr> dp_auth := a, dp_privacy := b \<rparr>)"
      proof (cases "dp_auth p")
        case None
        have "dp_id p \<notin> dp_id ` set ?items"
        proof
          assume "dp_id p \<in> dp_id ` set ?items"
          then obtain q where q: "q \<in> set ?items" "dp_id p = dp_id q"
            by (rule imageE)
          then have "q = p"
            using p inj_onD [OF dist, of q p] by simp
          then show False
            using q(1) None by simp
        qed
        then have same: "g p = p"
          by (rule g(3))
        have "p = p\<lparr> dp_auth := dp_auth p, dp_privacy := dp_privacy p \<rparr>"
          by simp
        then have "\<exists>a b. p = p\<lparr> dp_auth := a, dp_privacy := b \<rparr>"
          by blast
        moreover have "open_credentials c ?new p = open_credentials c ?old p"
          using None by (simp add: open_credentials_def blob_def)
        ultimately show ?thesis
          unfolding same by blast
      next
        case (Some a)
        then show ?thesis
          using g(4) [of p] p by (auto simp: resealed_def)
      qed
      then show ?thesis
        using Some found assms(4) g(1) by (auto simp: device_Credentials_def saved_of_row_def)
    qed
    then show ?thesis
      by (simp add: eq count_where_def)
  qed
qed

section \<open>The operations are audited\<close>

datatype device_op =
    OpSave "string option" "string option" Box time SavedProfile Entry
  | OpDeleteProfile time id Entry

fun device_step :: "aead \<Rightarrow> device_op \<Rightarrow> db \<Rightarrow> db \<times> (err + unit)" where
  "device_step c (OpSave n1 n2 box now v e) d = device_Save c n1 n2 box now v e d"
| "device_step c (OpDeleteProfile now i e) d = device_Delete now i e d"

lemma insert_oids_keeps:
  "insert_oids i n xs d = Inr d' \<Longrightarrow> audit_log d' = audit_log d \<and> device_profiles d' = device_profiles d"
  by (induction xs arbitrary: n d) (auto simp: bindE_eq_Inr exec_eq_Inr)

lemma add_source_keeps: "audit_log (add_source k d) = audit_log d \<and> device_profiles (add_source k d) = device_profiles d"
  by (simp add: add_source_def)

lemma one_row_device: "one_row d (device_step c x d)"
proof (cases x)
  case (OpSave n1 n2 box now v e)
  then show ?thesis
    by (auto simp: device_Save_def one_row_def [of d "(d, Inl _)"] bindE_eq_Inr exec_eq_Inr add_source_keeps dest!: insert_oids_keeps
        intro!: one_row_tx split: sum.split if_splits)
next
  case (OpDeleteProfile now i e)
  then show ?thesis
    by (auto simp: device_Delete_def bindE_eq_Inr exec_eq_Inr del_device_profiles_def Let_def intro!: one_row_tx)
qed

interpretation device: audited "device_step c" for c
  by unfold_locales (use one_row_device in \<open>fastforce simp: one_row_def split: prod.splits sum.splits\<close>)+

section \<open>What is saved is read back\<close>

lemma find_last_key: "distinct (map f (xs @ [a])) \<Longrightarrow> find (\<lambda>x. f x = f a) (xs @ [a]) = Some a"
  by (induction xs) auto

text \<open>
  The credentials of a profile are read back as they were given: after a profile with passwords was saved, they open under the same master key, with the address, port
  and user name of the profile, while neither the list of profiles nor the polls due carry them.
\<close>

theorem saved_credentials_read_back:
  assumes "opens c" and "length n1 = NonceSize" and "length n2 = NonceSize" and "device_Save c (Some n1) (Some n2) box now v e d = (d', Inr ())" and "sv_AuthPassword v \<noteq> []"
  shows "(\<exists>s. device_Credentials c box (sv_ID v) d' = Inr (s, \<lparr> v3_Address = sv_Address v, v3_Port = sv_Port v, v3_Username = sv_Username v,
      v3_AuthPassword = sv_AuthPassword v, v3_PrivacyPassword = sv_PrivacyPassword v, v3_Timeout = 10 * second \<rparr>)) \<and>
    (\<forall>ps. ListProfiles d' = Inr ps \<or> device_Due now' limit d' = Inr ps \<longrightarrow> (\<forall>p\<in>set ps. sv_AuthPassword p = [] \<and> sv_PrivacyPassword p = []))"
proof -
  obtain auth privacy where sealed: "seal_credentials c (Some n1) (Some n2) box v = Inr (auth, privacy)"
    using assms(4) by (auto simp: device_Save_def split: if_splits sum.splits)
  then obtain a b where ab: "auth = Some a" "privacy = Some b" "Encrypt c (Some n1) box (sv_AuthPassword v) = Inr a" "Encrypt c (Some n2) box (sv_PrivacyPassword v) = Inr b"
    using assms(5) by (auto simp: seal_credentials_def bindE_eq_Inr split: if_splits)
  let ?row = "profile_row now v (Some a) (Some b)"
  have d': "device_profiles d' = device_profiles d @ [?row]" "constraints d'" "\<not> io_fault d'"
    using assms(4) sealed ab(1,2)
    by (auto simp: device_Save_def audited_tx_Inr Insert_eq_Inr bindE_eq_Inr exec_eq_Inr add_source_keeps dest!: insert_oids_keeps split: if_splits sum.splits)
  have "find (\<lambda>p. dp_id p = sv_ID v) (device_profiles d') = Some ?row"
    using find_last_key [of dp_id "device_profiles d" ?row] d'(1,2) by (simp add: constraint_defs profile_row_def)
  moreover have "open_credentials c box ?row = Inr (sv_AuthPassword v, sv_PrivacyPassword v)"
    using Decrypt_Encrypt [OF assms(1) ab(3) assms(2)] Decrypt_Encrypt [OF assms(1) ab(4) assms(3)] by (simp add: open_credentials_def profile_row_def blob_def)
  ultimately show ?thesis
    using d'(3) by (auto simp: device_Credentials_def ListProfiles_def device_Due_def saved_of_row_def profile_row_def dest: in_set_takeD)
qed

section \<open>Recurring polls read no object\<close>

lemma due_no_oids: "device_Due now limit d = Inr ps \<Longrightarrow> p \<in> set ps \<Longrightarrow> sv_OIDs p = []"
  by (auto simp: device_Due_def saved_of_row_def dest: in_set_takeD)

lemma evaluate_all_observations: "evaluate_all is tm v quality d = (d', r) \<Longrightarrow> observations d' = observations d"
proof (induction "is" arbitrary: d d' r)
  case (Cons i "is")
  obtain d1 r1 where e: "Evaluate i tm v quality d = (d1, r1)"
    by fastforce
  have "observations d1 = observations d"
  proof (cases r1)
    case (Inl x)
    then have "d1 = d"
      using e with_tx_rollback unfolding Evaluate_def by blast
    then show ?thesis
      by simp
  next
    case (Inr a)
    then have "evaluate_body i tm v quality d = Inr (d1, a)"
      using e by (simp add: Evaluate_def with_tx_commit)
    then show ?thesis
      by (cases rule: evaluate_body_cases) (auto simp: insert_alert_def bindE_eq_Inr exec_eq_Inr Let_def)
  qed
  moreover have "d' = d1 \<or> (\<exists>r2. evaluate_all is tm v quality d1 = (d', r2))"
    using Cons.prems e by (auto split: sum.splits prod.splits)
  ultimately show ?case
    using Cons.IH by metis
qed simp

lemma queue_firing_observations: "observations (queue_firing now as d) = observations d"
proof (induction as arbitrary: d)
  case (Cons a as)
  have "observations (queue_firing now [a] d) = observations d"
    by (auto simp: queue_firing_def Queue_def exec_eq_Inr split: sum.splits)
  moreover have "queue_firing now (a # as) d = queue_firing now as (queue_firing now [a] d)"
    by (simp add: queue_firing_def)
  ultimately show ?case
    using Cons.IH by simp
qed (simp add: queue_firing_def)

lemma evaluate_contract_observations: "evaluate_contract now os d = (d', r) \<Longrightarrow> observations d' = observations d"
proof (induction os arbitrary: d d' r)
  case (Cons o' os)
  obtain d1 r1 where e: "EvaluateObservation (co_PostID o') (co_Signal o') (co_ObservedAt o') (co_Value o') (co_Quality o') d = (d1, r1)"
    by fastforce
  then have "observations d1 = observations d"
    using evaluate_all_observations by (auto simp: EvaluateObservation_def split: sum.splits)
  moreover have "d' = d1 \<or> (\<exists>as r2. evaluate_contract now os (queue_firing now as d1) = (d', r2))"
    using Cons.prems e by (auto split: sum.splits prod.splits)
  ultimately show ?case
    using Cons.IH queue_firing_observations by metis
qed simp

lemma emit_failed_poll:
  assumes "emitDevicePoll p False [] now d = (d', Inr ())"
  shows "\<exists>x. observations d' = observations d @ [x] \<and> ob_signal x = ''snmp.poll_ok'' \<and> ob_value x = Some (Num 0) \<and> ob_post x = sv_PostID p"
proof -
  obtain as d1 u where s: "store_contract now True (sv_ID p) [PollOK (device_method p) False now] d = (d1, Inr u)" "evaluate_contract now [PollOK (device_method p) False now] d1 = (d', Inr as)"
    using assms by (auto simp: emitDevicePoll_def ingestContractObservations_def ingest_observations_def split: prod.splits sum.splits)
  have "\<exists>x. observations d1 = observations d @ [x] \<and> ob_signal x = ''snmp.poll_ok'' \<and> ob_value x = Some (Num 0) \<and> ob_post x = sv_PostID p"
    using s(1) by (auto simp: store_contract_def with_tx_commit bindE_eq_Inr exec_eq_Inr insert_observation_def new_observation_def observation_of_def PollOK_def device_method_def
        split: option.splits)
  then show ?thesis
    using evaluate_contract_observations [OF s(2)] by simp
qed

text \<open>
  A recurring poll reads no object of its device. The profiles that are due are selected without their object identifiers, and a poll of none is refused before the device
  is asked, so the poll of a device that answers is stored as a failed one: one observation that says the device did not answer, and nothing else.
\<close>

theorem due_poll_reads_nothing:
  assumes "device_Due now limit d0 = Inr ps" and "p \<in> set ps" and "device_Credentials c box (sv_ID p) d = Inr (s, config)" and "NewV3 config = Inr client"
    and "sn_connect net client = Connected"
  shows "pollDeviceProfile c box net clock p now d =
      (case emitDevicePoll p False [] now (fst (Advance (sv_ID p) (sv_IntervalSeconds p) now d)) of (d', r) \<Rightarrow> (d', Polled r)) \<and>
    (\<forall>d'. pollDeviceProfile c box net clock p now d = (d', Polled (Inr ())) \<longrightarrow>
      (\<exists>x. observations d' = observations d @ [x] \<and> ob_signal x = ''snmp.poll_ok'' \<and> ob_value x = Some (Num 0) \<and> ob_post x = sv_PostID p))"
proof -
  let ?adv = "fst (Advance (sv_ID p) (sv_IntervalSeconds p) now d)"
  have eq: "pollDeviceProfile c box net clock p now d = (case emitDevicePoll p False [] now ?adv of (d', r) \<Rightarrow> (d', Polled r))"
    using assms due_no_oids [OF assms(1,2)] by (simp add: pollDeviceProfile_def device_Poll_def Let_def)
  have "observations ?adv = observations d"
    by (auto simp: Advance_def Let_def exec_eq_Inr split: sum.splits)
  then have "\<exists>x. observations d' = observations d @ [x] \<and> ob_signal x = ''snmp.poll_ok'' \<and> ob_value x = Some (Num 0) \<and> ob_post x = sv_PostID p"
    if "pollDeviceProfile c box net clock p now d = (d', Polled (Inr ()))" for d'
    using that emit_failed_poll [of p now ?adv d'] unfolding eq by (auto split: prod.splits)
  then show ?thesis
    using eq by blast
qed

section \<open>Witnesses\<close>

text \<open>A cipher for the witnesses: the ciphertext is the key, the nonce and the text.\<close>

definition sample_aead :: aead where
  "sample_aead = \<lparr> ae_seal = (\<lambda>k n p. k @ n @ p), ae_open = (\<lambda>k n x. if take (length (k @ n)) x = k @ n then Some (drop (length (k @ n)) x) else None) \<rparr>"

lemma sample_opens: "opens sample_aead"
  by (simp add: opens_def sample_aead_def)

definition sample_nonce :: string where
  "sample_nonce = replicate 12 (CHR ''n'')"

lemma sample_nonce_length: "length sample_nonce = NonceSize"
  by (simp add: sample_nonce_def NonceSize_def)

definition sample_device :: SavedProfile where
  "sample_device = \<lparr> sv_ID = ''ups-1'', sv_PostID = ''a'', sv_Kind = ''ups'', sv_Address = ''10.0.0.9'', sv_Port = 161, sv_Username = ''monitor'',
     sv_OIDs = [\<lparr> oid_Name = ''battery_charge'', oid_OID = ''.1.3.6.1.2.1.33.1.2.4.0'', oid_Unit = ''percent'' \<rparr>],
     sv_AuthPassword = ''open'', sv_PrivacyPassword = ''sesame'', sv_IntervalSeconds = 0, sv_Enabled = True, sv_NextRunAt = None \<rparr>"

definition sample_box :: Box where
  "sample_box = \<lparr> bx_key = ''k'', bx_on = True \<rparr>"

definition device_entry_0 :: Entry where
  "device_entry_0 = \<lparr> en_ActorID = 0, en_Action = ''device.create'', en_ObjectType = [], en_ObjectID = [], en_Detail = [] \<rparr>"

lemma sample_saved: "isOK (snd (device_Save sample_aead (Some sample_nonce) (Some sample_nonce) sample_box 5 sample_device device_entry_0 sample_posts))"
  by code_simp

theorem saved_credentials_read_back_witness:
  "\<exists>d' s config. device_Save sample_aead (Some sample_nonce) (Some sample_nonce) sample_box 5 sample_device device_entry_0 sample_posts = (d', Inr ()) \<and>
     device_Credentials sample_aead sample_box ''ups-1'' d' = Inr (s, config) \<and> v3_AuthPassword config = ''open'' \<and> v3_PrivacyPassword config = ''sesame''"
proof -
  obtain d' where e: "device_Save sample_aead (Some sample_nonce) (Some sample_nonce) sample_box 5 sample_device device_entry_0 sample_posts = (d', Inr ())"
    using sample_saved by (cases "device_Save sample_aead (Some sample_nonce) (Some sample_nonce) sample_box 5 sample_device device_entry_0 sample_posts") (auto simp: isOK_def split: sum.splits)
  then show ?thesis
    using saved_credentials_read_back [OF sample_opens sample_nonce_length sample_nonce_length e] by (fastforce simp: sample_device_def)
qed

definition sealed_device :: device_profile where
  "sealed_device = profile_row 5 (sample_device\<lparr> sv_IntervalSeconds := 60 \<rparr>) (Some (sample_nonce @ ae_seal sample_aead (bx_key (secrets_New ''old'')) sample_nonce ''open''))
     (Some (sample_nonce @ ae_seal sample_aead (bx_key (secrets_New ''old'')) sample_nonce ''sesame''))"

definition sealed_devices :: db where
  "sealed_devices = sample_posts\<lparr> device_profiles := [sealed_device], collector_keys := [new_key ''ups-1'' ''a'' ''hash''] \<rparr>"

lemma sealed_device_fields: "dp_id sealed_device = ''ups-1''" "dp_post sealed_device = ''a''" "dp_auth sealed_device \<noteq> None" "dp_interval sealed_device = 60"
  "dp_enabled sealed_device" "dp_next_run sealed_device = Some 5" "dp_address sealed_device = ''10.0.0.9''" "dp_username sealed_device = ''monitor''" "dp_port sealed_device = 161"
  by (simp_all add: sealed_device_def profile_row_def sample_device_def)

lemma sealed_device_opens: "open_credentials sample_aead (secrets_New ''old'') sealed_device = Inr (''open'', ''sesame'')"
proof -
  have "Enabled (secrets_New ''old'')"
    by (simp add: New_Enabled)
  note e = Encrypt_ok [OF this, of sample_aead sample_nonce]
  show ?thesis
    using Decrypt_Encrypt [OF sample_opens e sample_nonce_length] by (simp add: open_credentials_def sealed_device_def profile_row_def blob_def sample_nonce_def)
qed

lemma sealed_devices_ok: "constraints sealed_devices" "\<not> io_fault sealed_devices" "device_profiles sealed_devices = [sealed_device]"
  by (simp_all add: sealed_devices_def sealed_device_fields sample_posts_def empty_db_def new_post_def new_key_def constraint_defs Let_def)

theorem rekey_keeps_credentials_witness:
  "\<exists>d' s config. RekeyCredentials sample_aead (\<lambda>_. (Some sample_nonce, Some sample_nonce)) ''old'' ''new'' sealed_devices = (d', Inr 1) \<and>
     device_Credentials sample_aead (secrets_New ''new'') ''ups-1'' d' = Inr (s, config) \<and> v3_AuthPassword config = ''open''"
proof -
  have draws: "nonces_ok (\<lambda>_. (Some sample_nonce, Some sample_nonce))"
    by (simp add: nonces_ok_def sample_nonce_length)
  obtain d' r where e: "RekeyCredentials sample_aead (\<lambda>_. (Some sample_nonce, Some sample_nonce)) ''old'' ''new'' sealed_devices = (d', r)"
    by fastforce
  have "case r of Inl e \<Rightarrow> False | Inr n \<Rightarrow> n = 1 \<and> (\<forall>i. device_Credentials sample_aead (secrets_New ''new'') i d' = device_Credentials sample_aead (secrets_New ''old'') i sealed_devices)"
    using rekey_keeps_credentials [OF sample_opens draws sealed_devices_ok(1,2), of "''old''" "''new''"] sealed_device_opens sealed_device_fields(3)
    by (simp add: e sealed_devices_ok(3) split: sum.splits)
  moreover have "\<exists>s config. device_Credentials sample_aead (secrets_New ''old'') ''ups-1'' sealed_devices = Inr (s, config) \<and> v3_AuthPassword config = ''open''"
    using sealed_devices_ok sealed_device_opens by (simp add: device_Credentials_def sealed_device_fields)
  ultimately show ?thesis
    using e by (auto split: sum.splits)
qed

definition sample_snmp :: snmp where
  "sample_snmp = \<lparr> sn_connect = (\<lambda>_. Connected), sn_get = (\<lambda>_ names. Inr (map (\<lambda>n. \<lparr> va_Name = n, va_Type = OtherType, va_Value = IntValue 97 \<rparr>) names)) \<rparr>"

theorem due_poll_reads_nothing_witness:
  "\<exists>p. device_Due 9 16 sealed_devices = Inr [p] \<and> pollDeviceProfile sample_aead (secrets_New ''old'') sample_snmp (\<lambda>_. 9) p 9 sealed_devices =
     (case emitDevicePoll p False [] 9 (fst (Advance ''ups-1'' 60 9 sealed_devices)) of (d', r) \<Rightarrow> (d', Polled r))"
proof -
  let ?p = "saved_of_row sealed_device"
  have "text_le 5 9"
    by code_simp
  then have due: "device_Due 9 16 sealed_devices = Inr [?p]"
    using sealed_devices_ok by (simp add: device_Due_def sealed_device_fields)
  obtain s config where c: "device_Credentials sample_aead (secrets_New ''old'') ''ups-1'' sealed_devices = Inr (s, config)" "NewV3 config = Inr config"
    using sealed_devices_ok sealed_device_opens by (simp add: device_Credentials_def sealed_device_fields NewV3_def second_def)
  have "sv_ID ?p = ''ups-1''" "sv_IntervalSeconds ?p = 60"
    by (simp_all add: saved_of_row_def sealed_device_fields)
  then show ?thesis
    using due_poll_reads_nothing [OF due, of ?p sample_aead "secrets_New ''old''" sealed_devices s config config sample_snmp "\<lambda>_. 9"] c due by (simp add: sample_snmp_def)
qed

end
