(* ===== verification/Config.thy ===== *)
theory Config
  imports Accounts Retention Checks
begin

text \<open>
  The configuration of a node (\<open>internal/config/config.go\<close>): the environment, files and command line overrides, the parser of durations and the validation
  that a loaded configuration has passed. The environment is a function from names to values, empty for an unset one; the reader of files answers the content or nothing.
  \<open>strconv.ParseFloat\<close> is a parameter, and so is the timing profile of gantry-core. Where the code walks a map, the order of the walk only decides which of several
  errors is reported; the order of the text is taken.
\<close>

section \<open>Durations\<close>

text \<open>Rounding of a non-negative rational to 53 significant bits, ties to even: the arithmetic of \<open>float64\<close> within its range.\<close>

fun bit_size :: "nat \<Rightarrow> nat" where
  "bit_size n = (if n = 0 then 0 else Suc (bit_size (n div 2)))"

definition scaled :: "rat \<Rightarrow> int \<Rightarrow> rat" where
  "scaled q k = (if k \<ge> 0 then q / 2 ^ nat k else q * 2 ^ nat (- k))"

definition half_even :: "rat \<Rightarrow> int" where
  "half_even q = (let n = \<lfloor>q\<rfloor>; r = q - of_int n in if r > 1 / 2 \<or> r = 1 / 2 \<and> odd n then n + 1 else n)"

definition fl :: "rat \<Rightarrow> rat" where
  "fl q = (if q \<le> 0 then 0
     else let (a, b) = quotient_of q; k = int (bit_size (nat a)) - int (bit_size (nat b)) - 53; k = (if scaled q k \<ge> 2 ^ 53 then k + 1 else k)
       in scaled (of_int (half_even (scaled q k))) (- k))"

text \<open>\<open>time.ParseDuration\<close>: the integer and the fraction before a unit, with the bounds of 64 bits.\<close>

fun leadingInt :: "nat \<Rightarrow> string \<Rightarrow> (nat \<times> string) option" where
  "leadingInt x [] = Some (x, [])"
| "leadingInt x (c # cs) = (if \<not> is_digit c then Some (x, c # cs)
     else if x > 2 ^ 63 div 10 then None
     else let y = 10 * x + (of_char c - 48) in if y > 2 ^ 63 then None else leadingInt y cs)"

fun leadingFraction :: "nat \<Rightarrow> rat \<Rightarrow> bool \<Rightarrow> string \<Rightarrow> nat \<times> rat \<times> string" where
  "leadingFraction x scale over [] = (x, scale, [])"
| "leadingFraction x scale over (c # cs) = (if \<not> is_digit c then (x, scale, c # cs)
     else if over \<or> x > (2 ^ 63 - 1) div 10 then leadingFraction x scale True cs
     else let y = 10 * x + (of_char c - 48) in if y > 2 ^ 63 then leadingFraction x scale True cs else leadingFraction y (fl (10 * scale)) False cs)"

definition unitMap :: "string \<Rightarrow> nat option" where
  "unitMap u = (if u = ''ns'' then Some 1 else if u = ''us'' \<or> u = [CHR 0xC2, CHR 0xB5, CHR ''s''] \<or> u = [CHR 0xCE, CHR 0xBC, CHR ''s''] then Some 1000
     else if u = ''ms'' then Some 1000000 else if u = ''s'' then Some 1000000000 else if u = ''m'' then Some 60000000000 else if u = ''h'' then Some 3600000000000 else None)"

definition unit_char :: "char \<Rightarrow> bool" where
  "unit_char c \<longleftrightarrow> c \<noteq> CHR ''.'' \<and> \<not> is_digit c"

text \<open>One number with its unit: the nanoseconds it stands for and what follows.\<close>

definition duration_part :: "string \<Rightarrow> (nat \<times> string) option" where
  "duration_part s = (case leadingInt 0 s of None \<Rightarrow> None
     | Some (v, s1) \<Rightarrow>
        let pre = (length s1 \<noteq> length s);
            dot = (case s1 of [] \<Rightarrow> False | c # _ \<Rightarrow> c = CHR ''.'');
            (f, scale, s2) = (if dot then leadingFraction 0 1 False (tl s1) else (0, 1, s1));
            post = (dot \<and> length s2 \<noteq> length (tl s1));
            u = takeWhile unit_char s2; rest = dropWhile unit_char s2
        in if \<not> pre \<and> \<not> post \<or> u = [] then None
           else case unitMap u of None \<Rightarrow> None
           | Some n \<Rightarrow> if v > 2 ^ 63 div n then None
               else let w = v * n + (if f > 0 then nat \<lfloor>fl (fl (of_nat f) * fl (of_nat n / scale))\<rfloor> else 0)
                 in if w > 2 ^ 63 then None else Some (w, rest))"

lemma leadingInt_length: "leadingInt x s = Some (y, r) \<Longrightarrow> length r \<le> length s"
  by (induction s arbitrary: x) (auto simp: Let_def le_SucI split: if_splits)

lemma leadingFraction_length: "leadingFraction x scale over s = (y, z, r) \<Longrightarrow> length r \<le> length s"
  by (induction s arbitrary: x scale over) (auto simp: Let_def le_SucI split: if_splits)

lemma drop_unit_length: "takeWhile P s \<noteq> [] \<Longrightarrow> length (dropWhile P s) < length s"
  by (cases s) (auto split: if_splits simp: le_imp_less_Suc length_dropWhile_le)

lemma duration_part_shorter:
  assumes "duration_part s = Some (w, r)"
  shows "length r < length s"
proof -
  obtain v s1 where s1: "leadingInt 0 s = Some (v, s1)"
    using assms by (auto simp: duration_part_def split: option.splits)
  define dot where "dot = (case s1 of [] \<Rightarrow> False | c # _ \<Rightarrow> c = CHR ''.'')"
  obtain f scale s2 where s2: "(if dot then leadingFraction 0 1 False (tl s1) else (0, 1, s1)) = (f, scale, s2)"
    by (metis prod_cases3)
  have "length s2 \<le> length s1"
    using s2 leadingFraction_length [of 0 1 False "tl s1" f scale s2] by (auto split: if_splits)
  moreover have "takeWhile unit_char s2 \<noteq> [] \<and> r = dropWhile unit_char s2"
    using assms s1 s2 by (auto simp: duration_part_def Let_def dot_def [symmetric] split: if_splits option.splits)
  ultimately show ?thesis
    using drop_unit_length [of unit_char s2] leadingInt_length [OF s1] by auto
qed

function duration_loop :: "nat \<Rightarrow> string \<Rightarrow> nat option" where
  "duration_loop d s = (if s = [] then Some d else case duration_part s of None \<Rightarrow> None
     | Some (w, rest) \<Rightarrow> let d' = (d + w) mod 2 ^ 64 in if d' > 2 ^ 63 then None else duration_loop d' rest)"
  by pat_completeness auto

termination duration_loop
  by (relation "measure (\<lambda>(d, s). length s)") (auto dest: duration_part_shorter)

definition ParseDuration :: "string \<Rightarrow> int option" where
  "ParseDuration s = (let neg = (case s of [] \<Rightarrow> False | c # _ \<Rightarrow> c = CHR ''-'');
       t = (case s of [] \<Rightarrow> [] | c # cs \<Rightarrow> if c = CHR ''-'' \<or> c = CHR ''+'' then cs else s)
     in if t = ''0'' then Some 0 else if t = [] then None
        else case duration_loop 0 t of None \<Rightarrow> None
        | Some d \<Rightarrow> if neg then Some (int64 (- int d)) else if d > 2 ^ 63 - 1 then None else Some (int d))"

definition ParseRetentionDuration :: "string \<Rightarrow> err + int" where
  "ParseRetentionDuration v = (let v = TrimSpace v in
     if v = [] \<or> v = ''0'' then Inr 0
     else if has_suffix v ''d'' then (case ParseInt (butlast v) of Inl e \<Rightarrow> Inl (Err ''invalid day retention'')
       | Inr days \<Rightarrow> if days < 0 then Inl (Err ''invalid day retention'') else Inr (int64 (int64 (days * 24) * hour)))
     else case ParseDuration v of None \<Rightarrow> Inl (Err ''invalid retention'')
       | Some t \<Rightarrow> if t < 0 then Inl (Err ''invalid retention'') else Inr t)"

section \<open>The records\<close>

record ReplicationConfig =
  rc_Enabled :: bool
  rc_NodeID :: string
  rc_Bootstrap :: bool
  rc_Listen :: string
  rc_TLSCert :: string
  rc_TLSKey :: string
  rc_TLSCA :: string
  rc_InsecurePlaintext :: bool
  rc_HeartbeatTimeout :: int
  rc_ElectionTimeout :: int
  rc_LeaderLeaseTimeout :: int
  rc_CommitTimeout :: int
  rc_ProposeTimeout :: int

record Backup =
  bk_Dir :: string
  bk_Schedule :: int
  bk_PassphraseFile :: string
  bk_Retain :: int

record CheckPolicy =
  cp_AllowCIDRs :: "string list"
  cp_DenyCIDRs :: "string list"
  cp_DenyPorts :: "int list"

record Storage =
  st_MaxDBBytes :: int
  st_MinFreeBytes :: int
  st_MinFreePercent :: f64

record Config =
  cf_Listen :: string
  cf_DataDir :: string
  cf_SecureCookies :: bool
  cf_Retention :: Retention
  cf_Storage :: Storage
  cf_SetupToken :: string
  cf_SetupTokenTTL :: int
  cf_CheckPolicy :: CheckPolicy
  cf_MasterKey :: string
  cf_Backup :: Backup
  cf_CheckWorkers :: int
  cf_IngestRate :: int
  cf_Replication :: ReplicationConfig

record Overrides =
  ov_Listen :: string
  ov_DataDir :: string
  ov_SecureCookies :: bool

definition DefaultListen :: string where
  "DefaultListen = ''127.0.0.1:7334''"

definition DefaultStorage :: Storage where
  "DefaultStorage = \<lparr> st_MaxDBBytes = 2 * 2 ^ 30, st_MinFreeBytes = 512 * 2 ^ 20, st_MinFreePercent = Num 5 \<rparr>"

definition DefaultRetention :: Retention where
  "DefaultRetention = \<lparr> rt_Observations = 30 * 24 * hour, rt_CheckResults = 90 * 24 * hour, rt_Logs = 30 * 24 * hour, rt_Changes = 2 * 365 * 24 * hour,
     rt_AlertsResolved = 365 * 24 * hour, rt_Deliveries = 30 * 24 * hour, rt_PairingTokens = 7 * 24 * hour, rt_PairingRequests = 7 * 24 * hour,
     rt_FederationInbox = 7 * 24 * hour, rt_FederationOutbox = 30 * 24 * hour, rt_Conversations = 180 * 24 * hour, rt_Interval = hour, rt_Batch = 1000 \<rparr>"

definition no_replication :: ReplicationConfig where
  "no_replication = \<lparr> rc_Enabled = False, rc_NodeID = [], rc_Bootstrap = False, rc_Listen = [], rc_TLSCert = [], rc_TLSKey = [], rc_TLSCA = [], rc_InsecurePlaintext = False,
     rc_HeartbeatTimeout = 0, rc_ElectionTimeout = 0, rc_LeaderLeaseTimeout = 0, rc_CommitTimeout = 0, rc_ProposeTimeout = 0 \<rparr>"

definition initial_config :: "string \<Rightarrow> Config" where
  "initial_config dir = \<lparr> cf_Listen = DefaultListen, cf_DataDir = dir, cf_SecureCookies = False, cf_Retention = DefaultRetention, cf_Storage = DefaultStorage, cf_SetupToken = [],
     cf_SetupTokenTTL = hour, cf_CheckPolicy = \<lparr> cp_AllowCIDRs = [], cp_DenyCIDRs = [], cp_DenyPorts = [] \<rparr>, cf_MasterKey = [],
     cf_Backup = \<lparr> bk_Dir = [], bk_Schedule = 24 * hour, bk_PassphraseFile = [], bk_Retain = 7 \<rparr>, cf_CheckWorkers = 4, cf_IngestRate = 3600, cf_Replication = no_replication \<rparr>"

section \<open>The environment\<close>

type_synonym env = "string \<Rightarrow> string"

text \<open>A variable that is set is parsed and stored; one that is not leaves the configuration alone.\<close>

definition env_set :: "env \<Rightarrow> string \<Rightarrow> (string \<Rightarrow> err + 'a) \<Rightarrow> ('a \<Rightarrow> 'c \<Rightarrow> 'c) \<Rightarrow> 'c \<Rightarrow> err + 'c" where
  "env_set env name parse store cfg = (if env name = [] then Inr cfg else bindE (parse (env name)) (\<lambda>v. Inr (store v cfg)))"

definition env_text :: "env \<Rightarrow> string \<Rightarrow> (string \<Rightarrow> 'c \<Rightarrow> 'c) \<Rightarrow> 'c \<Rightarrow> 'c" where
  "env_text env name store cfg = (if env name = [] then cfg else store (env name) cfg)"

definition env_flag :: "env \<Rightarrow> string \<Rightarrow> bool" where
  "env_flag env name \<longleftrightarrow> env name = ''1'' \<or> env name = ''true''"

definition bounded_int :: "string \<Rightarrow> int \<Rightarrow> int \<Rightarrow> string \<Rightarrow> err + int" where
  "bounded_int msg lo hi v = (case ParseInt v of Inl e \<Rightarrow> Inl (Err msg) | Inr n \<Rightarrow> if n < lo \<or> n > hi then Inl (Err msg) else Inr n)"

definition positive_duration :: "string \<Rightarrow> string \<Rightarrow> err + int" where
  "positive_duration name v = (case ParseRetentionDuration v of Inl e \<Rightarrow> Inl (Err (name @ '': invalid value'')) | Inr t \<Rightarrow> if t \<le> 0 then Inl (Err (name @ '': invalid value'')) else Inr t)"

definition line_end :: string where
  "line_end = [CHR 0x0D, CHR 0x0A]"

definition applyOpsEnv :: "env \<Rightarrow> Config \<Rightarrow> err + Config" where
  "applyOpsEnv env cfg =
     bindE (env_set env ''WATCHPOST_CHECK_WORKERS'' (bounded_int ''WATCHPOST_CHECK_WORKERS: invalid value'' 1 64) (\<lambda>v c. c\<lparr> cf_CheckWorkers := v \<rparr>) cfg)
       (env_set env ''WATCHPOST_INGEST_MAX_SAMPLES_PER_MINUTE'' (bounded_int ''WATCHPOST_INGEST_MAX_SAMPLES_PER_MINUTE: invalid value'' 1 1000000) (\<lambda>v c. c\<lparr> cf_IngestRate := v \<rparr>))"

definition applyBackupEnv :: "env \<Rightarrow> Config \<Rightarrow> err + Config" where
  "applyBackupEnv env cfg =
     (let b1 = env_text env ''WATCHPOST_BACKUP_DIR'' (\<lambda>v b. b\<lparr> bk_Dir := v \<rparr>) (cf_Backup cfg) in
      bindE (env_set env ''WATCHPOST_BACKUP_SCHEDULE'' (positive_duration ''WATCHPOST_BACKUP_SCHEDULE'') (\<lambda>v b. b\<lparr> bk_Schedule := v \<rparr>) b1) (\<lambda>b2.
      let b3 = env_text env ''WATCHPOST_BACKUP_PASSPHRASE_FILE'' (\<lambda>v b. b\<lparr> bk_PassphraseFile := v \<rparr>) b2 in
      bindE (env_set env ''WATCHPOST_BACKUP_RETAIN'' (bounded_int ''WATCHPOST_BACKUP_RETAIN: invalid value'' 1 100) (\<lambda>v b. b\<lparr> bk_Retain := v \<rparr>) b3) (\<lambda>b4.
      Inr (cfg\<lparr> cf_Backup := b4 \<rparr>))))"

definition applyMasterKeyEnv :: "(string \<Rightarrow> string option) \<Rightarrow> env \<Rightarrow> Config \<Rightarrow> err + Config" where
  "applyMasterKeyEnv readFile env cfg =
     (if env ''WATCHPOST_MASTER_KEY'' \<noteq> [] then Inr (cfg\<lparr> cf_MasterKey := TrimRightSet (env ''WATCHPOST_MASTER_KEY'') line_end \<rparr>)
      else if env ''WATCHPOST_MASTER_KEY_FILE'' \<noteq> [] then (case readFile (env ''WATCHPOST_MASTER_KEY_FILE'') of None \<Rightarrow> Inl (Wrapped ''WATCHPOST_MASTER_KEY_FILE'' IOFault)
        | Some content \<Rightarrow> Inr (cfg\<lparr> cf_MasterKey := TrimRightSet content line_end \<rparr>))
      else Inr cfg)"

definition split_list :: "string \<Rightarrow> string list" where
  "split_list v = (if v = [] then [] else filter (\<lambda>p. p \<noteq> []) (map TrimSpace (split_at (CHR '','') v)))"

definition deny_port :: "string \<Rightarrow> int list \<Rightarrow> err + int list" where
  "deny_port part ports = bindE (bounded_int ''WATCHPOST_CHECK_DENY_PORTS: invalid port'' 1 65535 part) (\<lambda>p. Inr (ports @ [p]))"

definition applyCheckPolicyEnv :: "env \<Rightarrow> Config \<Rightarrow> err + Config" where
  "applyCheckPolicyEnv env cfg = bindE (foldE deny_port (split_list (env ''WATCHPOST_CHECK_DENY_PORTS'')) (cp_DenyPorts (cf_CheckPolicy cfg))) (\<lambda>ports.
     Inr (cfg\<lparr> cf_CheckPolicy := \<lparr> cp_AllowCIDRs = split_list (env ''WATCHPOST_CHECK_ALLOW_CIDRS''), cp_DenyCIDRs = split_list (env ''WATCHPOST_CHECK_DENY_CIDRS''), cp_DenyPorts = ports \<rparr> \<rparr>))"

definition applySetupEnv :: "(string \<Rightarrow> string option) \<Rightarrow> env \<Rightarrow> Config \<Rightarrow> err + Config" where
  "applySetupEnv readFile env cfg =
     (let c1 = env_text env ''WATCHPOST_SETUP_TOKEN'' (\<lambda>v c. c\<lparr> cf_SetupToken := TrimRightSet v line_end \<rparr>) cfg in
      bindE (env_set env ''WATCHPOST_SETUP_TOKEN_FILE'' (\<lambda>path. case readFile path of None \<Rightarrow> Inl (Wrapped ''WATCHPOST_SETUP_TOKEN_FILE'' IOFault) | Some content \<Rightarrow> Inr content)
        (\<lambda>v c. c\<lparr> cf_SetupToken := TrimRightSet v line_end \<rparr>) c1)
      (env_set env ''WATCHPOST_SETUP_TOKEN_TTL'' (positive_duration ''WATCHPOST_SETUP_TOKEN_TTL'') (\<lambda>v c. c\<lparr> cf_SetupTokenTTL := v \<rparr>)))"

text \<open>A percentage is refused when it compares below 0 or above 100; a value that is not a number does neither.\<close>

definition percentage :: "(string \<Rightarrow> f64 option) \<Rightarrow> string \<Rightarrow> err + f64" where
  "percentage parseFloat v = (case parseFloat v of None \<Rightarrow> Inl (Err ''WATCHPOST_MIN_FREE_PERCENT: invalid value'')
     | Some f \<Rightarrow> if f64_less f (Num 0) \<or> f64_less (Num 100) f then Inl (Err ''WATCHPOST_MIN_FREE_PERCENT: invalid value'') else Inr f)"

definition applyStorageEnv :: "(string \<Rightarrow> f64 option) \<Rightarrow> env \<Rightarrow> Config \<Rightarrow> err + Config" where
  "applyStorageEnv parseFloat env cfg =
     bindE (env_set env ''WATCHPOST_MAX_DB_BYTES'' (bounded_int ''WATCHPOST_MAX_DB_BYTES: invalid value'' 0 (2 ^ 63 - 1)) (\<lambda>v s. s\<lparr> st_MaxDBBytes := v \<rparr>) (cf_Storage cfg)) (\<lambda>s.
     bindE (env_set env ''WATCHPOST_MIN_FREE_BYTES'' (bounded_int ''WATCHPOST_MIN_FREE_BYTES: invalid value'' 0 (2 ^ 63 - 1)) (\<lambda>v s. s\<lparr> st_MinFreeBytes := v \<rparr>) s) (\<lambda>s.
     bindE (env_set env ''WATCHPOST_MIN_FREE_PERCENT'' (percentage parseFloat) (\<lambda>v s. s\<lparr> st_MinFreePercent := v \<rparr>) s) (\<lambda>s. Inr (cfg\<lparr> cf_Storage := s \<rparr>))))"

definition retention_targets :: "(string \<times> (int \<Rightarrow> Retention \<Rightarrow> Retention)) list" where
  "retention_targets = [(''OBSERVATIONS'', \<lambda>v r. r\<lparr> rt_Observations := v \<rparr>), (''CHECK_RESULTS'', \<lambda>v r. r\<lparr> rt_CheckResults := v \<rparr>), (''LOGS'', \<lambda>v r. r\<lparr> rt_Logs := v \<rparr>),
     (''CHANGES'', \<lambda>v r. r\<lparr> rt_Changes := v \<rparr>), (''ALERTS_RESOLVED'', \<lambda>v r. r\<lparr> rt_AlertsResolved := v \<rparr>), (''DELIVERIES'', \<lambda>v r. r\<lparr> rt_Deliveries := v \<rparr>),
     (''PAIRING_TOKENS'', \<lambda>v r. r\<lparr> rt_PairingTokens := v \<rparr>), (''PAIRING_REQUESTS'', \<lambda>v r. r\<lparr> rt_PairingRequests := v \<rparr>),
     (''FEDERATION_INBOX'', \<lambda>v r. r\<lparr> rt_FederationInbox := v \<rparr>), (''FEDERATION_OUTBOX'', \<lambda>v r. r\<lparr> rt_FederationOutbox := v \<rparr>),
     (''CONVERSATIONS'', \<lambda>v r. r\<lparr> rt_Conversations := v \<rparr>), (''INTERVAL'', \<lambda>v r. r\<lparr> rt_Interval := v \<rparr>)]"

definition set_retention :: "env \<Rightarrow> string \<times> (int \<Rightarrow> Retention \<Rightarrow> Retention) \<Rightarrow> Retention \<Rightarrow> err + Retention" where
  "set_retention env t r = env_set env (''WATCHPOST_RETENTION_'' @ fst t)
     (\<lambda>v. case ParseRetentionDuration v of Inl e \<Rightarrow> Inl (Wrapped (''WATCHPOST_RETENTION_'' @ fst t) e) | Inr n \<Rightarrow> Inr n) (snd t) r"

definition applyRetentionEnv :: "env \<Rightarrow> Config \<Rightarrow> err + Config" where
  "applyRetentionEnv env cfg =
     bindE (foldE (set_retention env) retention_targets (cf_Retention cfg)) (\<lambda>r.
     bindE (env_set env ''WATCHPOST_RETENTION_BATCH'' (bounded_int ''WATCHPOST_RETENTION_BATCH: invalid batch'' 1 10000) (\<lambda>v r. r\<lparr> rt_Batch := v \<rparr>) r) (\<lambda>r.
     bindE (ensure (\<not> rt_Interval r < 0) (Err ''WATCHPOST_RETENTION_INTERVAL: cannot be negative'')) (\<lambda>_. Inr (cfg\<lparr> cf_Retention := r \<rparr>))))"

definition replication_texts :: "(string \<times> (string \<Rightarrow> ReplicationConfig \<Rightarrow> ReplicationConfig)) list" where
  "replication_texts = [(''NODE_ID'', \<lambda>v r. r\<lparr> rc_NodeID := v \<rparr>), (''LISTEN'', \<lambda>v r. r\<lparr> rc_Listen := v \<rparr>), (''TLS_CERT'', \<lambda>v r. r\<lparr> rc_TLSCert := v \<rparr>),
     (''TLS_KEY'', \<lambda>v r. r\<lparr> rc_TLSKey := v \<rparr>), (''TLS_CA'', \<lambda>v r. r\<lparr> rc_TLSCA := v \<rparr>)]"

definition replication_durations :: "(string \<times> (int \<Rightarrow> ReplicationConfig \<Rightarrow> ReplicationConfig)) list" where
  "replication_durations = [(''HEARTBEAT_TIMEOUT'', \<lambda>v r. r\<lparr> rc_HeartbeatTimeout := v \<rparr>), (''ELECTION_TIMEOUT'', \<lambda>v r. r\<lparr> rc_ElectionTimeout := v \<rparr>),
     (''LEADER_LEASE_TIMEOUT'', \<lambda>v r. r\<lparr> rc_LeaderLeaseTimeout := v \<rparr>), (''COMMIT_TIMEOUT'', \<lambda>v r. r\<lparr> rc_CommitTimeout := v \<rparr>),
     (''PROPOSE_TIMEOUT'', \<lambda>v r. r\<lparr> rc_ProposeTimeout := v \<rparr>)]"

definition raft_duration :: "string \<Rightarrow> string \<Rightarrow> err + int" where
  "raft_duration name v = (case ParseDuration v of None \<Rightarrow> Inl (Err (name @ '': invalid duration'')) | Some t \<Rightarrow> if t \<le> 0 then Inl (Err (name @ '': invalid duration'')) else Inr t)"

definition applyReplicationEnv :: "env \<Rightarrow> Config \<Rightarrow> err + Config" where
  "applyReplicationEnv env cfg =
     (let r = cf_Replication cfg;
          r = r\<lparr> rc_Enabled := rc_Enabled r \<or> env_flag env ''WATCHPOST_REPLICATION_ENABLED'', rc_Bootstrap := rc_Bootstrap r \<or> env_flag env ''WATCHPOST_REPLICATION_BOOTSTRAP'',
             rc_InsecurePlaintext := rc_InsecurePlaintext r \<or> env_flag env ''WATCHPOST_REPLICATION_INSECURE_PLAINTEXT'' \<rparr>;
          r = fold (\<lambda>(name, store). env_text env (''WATCHPOST_REPLICATION_'' @ name) store) replication_texts r in
      bindE (foldE (\<lambda>(name, store). env_set env (''WATCHPOST_REPLICATION_'' @ name) (raft_duration (''WATCHPOST_REPLICATION_'' @ name)) store) replication_durations r) (\<lambda>r.
      Inr (cfg\<lparr> cf_Replication := r \<rparr>)))"

section \<open>Validation\<close>

definition tls_provided :: "ReplicationConfig \<Rightarrow> bool" where
  "tls_provided r \<longleftrightarrow> rc_TLSCert r \<noteq> [] \<or> rc_TLSKey r \<noteq> [] \<or> rc_TLSCA r \<noteq> []"

definition validateReplication :: "ReplicationConfig \<Rightarrow> err + unit" where
  "validateReplication r = (if \<not> rc_Enabled r then Inr ()
     else if rc_Listen r = [] then Inl (Err ''replication enabled requires a stable listen/advertise address (WATCHPOST_REPLICATION_LISTEN)'')
     else if SplitHostPort (rc_Listen r) = None then Inl (Err ''invalid replication listen address'')
     else if rc_InsecurePlaintext r then (if tls_provided r then Inl (Err ''replication TLS and insecure plaintext are contradictory; configure one'') else Inr ())
     else if \<not> tls_provided r then Inl (Err ''replication enabled requires the TLS cert/key/CA triplet or an explicit insecure plaintext opt-in'')
     else if rc_TLSCert r = [] \<or> rc_TLSKey r = [] \<or> rc_TLSCA r = [] then Inl (Err ''replication TLS requires the complete cert/key/CA triplet (mutual TLS contract)'')
     else Inr ())"

definition IsAbs :: "string \<Rightarrow> bool" where
  "IsAbs p = has_prefix p ''/''"

definition validate :: "Config \<Rightarrow> err + unit" where
  "validate cfg = (if SplitHostPort (cf_Listen cfg) = None then Inl (Err ''invalid listen address'')
     else if \<not> IsAbs (cf_DataDir cfg) then Inl (Err ''data directory must be absolute'')
     else validateReplication (cf_Replication cfg))"

definition base_config :: "env \<Rightarrow> Overrides \<Rightarrow> string \<Rightarrow> Config" where
  "base_config env ov dir =
     (let c = initial_config dir; listen = (if ov_Listen ov \<noteq> [] then ov_Listen ov else if env ''WATCHPOST_LISTEN'' \<noteq> [] then env ''WATCHPOST_LISTEN'' else cf_Listen c);
          data = (if ov_DataDir ov \<noteq> [] then ov_DataDir ov else if env ''WATCHPOST_DATA_DIR'' \<noteq> [] then env ''WATCHPOST_DATA_DIR'' else cf_DataDir c)
      in c\<lparr> cf_Listen := listen, cf_DataDir := data, cf_SecureCookies := (env_flag env ''WATCHPOST_SECURE_COOKIES'' \<or> ov_SecureCookies ov) \<rparr>)"

text \<open>\<open>dir\<close> is the default data directory, missing when the home directory is not known.\<close>

definition Load :: "string option \<Rightarrow> (string \<Rightarrow> string option) \<Rightarrow> (string \<Rightarrow> f64 option) \<Rightarrow> env \<Rightarrow> Overrides \<Rightarrow> err + Config" where
  "Load dir readFile parseFloat env ov = (case dir of None \<Rightarrow> Inl (Wrapped ''resolve user config directory'' IOFault)
     | Some dir \<Rightarrow>
       bindE (applyRetentionEnv env (base_config env ov dir)) (\<lambda>c.
       bindE (applyStorageEnv parseFloat env c) (\<lambda>c.
       bindE (applySetupEnv readFile env c) (\<lambda>c.
       bindE (applyCheckPolicyEnv env c) (\<lambda>c.
       bindE (applyMasterKeyEnv readFile env c) (\<lambda>c.
       bindE (applyBackupEnv env c) (\<lambda>c.
       bindE (applyOpsEnv env c) (\<lambda>c.
       bindE (applyReplicationEnv env c) (\<lambda>c.
       bindE (validate c) (\<lambda>_. Inr c))))))))))"

text \<open>The timing of the raft node: a profile of five durations with the configured ones in place.\<close>

record Timing =
  ti_Heartbeat :: int
  ti_Election :: int
  ti_LeaderLease :: int
  ti_Commit :: int
  ti_Propose :: int

definition config_Timing :: "Timing \<Rightarrow> ReplicationConfig \<Rightarrow> Timing" where
  "config_Timing t r = \<lparr> ti_Heartbeat = (if rc_HeartbeatTimeout r > 0 then rc_HeartbeatTimeout r else ti_Heartbeat t),
     ti_Election = (if rc_ElectionTimeout r > 0 then rc_ElectionTimeout r else ti_Election t), ti_LeaderLease = (if rc_LeaderLeaseTimeout r > 0 then rc_LeaderLeaseTimeout r else ti_LeaderLease t),
     ti_Commit = (if rc_CommitTimeout r > 0 then rc_CommitTimeout r else ti_Commit t), ti_Propose = (if rc_ProposeTimeout r > 0 then rc_ProposeTimeout r else ti_Propose t) \<rparr>"

section \<open>What a loaded configuration satisfies\<close>

lemma env_set_keeps:
  assumes "env_set env name parse store c = Inr c'" and "P c" and "\<And>v. P c \<Longrightarrow> parse (env name) = Inr v \<Longrightarrow> P (store v c)"
  shows "P c'"
  using assms by (auto simp: env_set_def bindE_eq_Inr split: if_splits)

lemma env_text_keeps: "P c \<Longrightarrow> (\<And>v. P (store v c)) \<Longrightarrow> P (env_text env name store c)"
  by (simp add: env_text_def)

lemma bounded_int_bounds: "bounded_int msg lo hi v = Inr n \<Longrightarrow> lo \<le> n \<and> n \<le> hi"
  by (auto simp: bounded_int_def split: sum.splits if_splits)

lemma positive_duration_pos: "positive_duration name v = Inr t \<Longrightarrow> 0 < t"
  by (auto simp: positive_duration_def split: sum.splits if_splits)

definition retention_ok :: "Retention \<Rightarrow> bool" where
  "retention_ok r \<longleftrightarrow> 1 \<le> rt_Batch r \<and> rt_Batch r \<le> 10000"

definition storage_ok :: "Storage \<Rightarrow> bool" where
  "storage_ok s \<longleftrightarrow> 0 \<le> st_MaxDBBytes s \<and> 0 \<le> st_MinFreeBytes s \<and> \<not> f64_less (st_MinFreePercent s) (Num 0) \<and> \<not> f64_less (Num 100) (st_MinFreePercent s)"

definition backup_ok :: "Backup \<Rightarrow> bool" where
  "backup_ok b \<longleftrightarrow> 0 < bk_Schedule b \<and> 1 \<le> bk_Retain b \<and> bk_Retain b \<le> 100"

definition limits_ok :: "Config \<Rightarrow> bool" where
  "limits_ok c \<longleftrightarrow> retention_ok (cf_Retention c) \<and> 0 \<le> rt_Interval (cf_Retention c) \<and> storage_ok (cf_Storage c) \<and> 0 < cf_SetupTokenTTL c \<and>
     list_all (\<lambda>p. 1 \<le> p \<and> p \<le> 65535) (cp_DenyPorts (cf_CheckPolicy c)) \<and> backup_ok (cf_Backup c) \<and>
     1 \<le> cf_CheckWorkers c \<and> cf_CheckWorkers c \<le> 64 \<and> 1 \<le> cf_IngestRate c \<and> cf_IngestRate c \<le> 1000000"

lemma base_limits: "limits_ok (base_config env ov dir)"
  by (simp add: limits_ok_def base_config_def initial_config_def Let_def DefaultRetention_def DefaultStorage_def retention_ok_def storage_ok_def backup_ok_def time_units)

lemma retention_targets_keep: "t \<in> set retention_targets \<Longrightarrow> rt_Batch (snd t v r) = rt_Batch r"
  by (auto simp: retention_targets_def)

lemma retention_limits:
  assumes "applyRetentionEnv env c = Inr c'" and "limits_ok c"
  shows "limits_ok c'"
proof -
  obtain r1 r2 where r: "foldE (set_retention env) retention_targets (cf_Retention c) = Inr r1"
    "env_set env ''WATCHPOST_RETENTION_BATCH'' (bounded_int ''WATCHPOST_RETENTION_BATCH: invalid batch'' 1 10000) (\<lambda>v r. r\<lparr> rt_Batch := v \<rparr>) r1 = Inr r2"
    "0 \<le> rt_Interval r2" "c' = c\<lparr> cf_Retention := r2 \<rparr>"
    using assms(1) by (auto simp: applyRetentionEnv_def bindE_eq_Inr ensure_def split: if_splits)
  have "retention_ok r1"
  proof (rule foldE_invariant [OF r(1)])
    show "retention_ok (cf_Retention c)"
      using assms(2) by (simp add: limits_ok_def)
    show "retention_ok s'" if "t \<in> set retention_targets" "retention_ok s" "set_retention env t s = Inr s'" for t s s'
      using that(3) unfolding set_retention_def by (rule env_set_keeps) (use that retention_targets_keep in \<open>simp_all add: retention_ok_def\<close>)
  qed
  with r(2) have "retention_ok r2"
    by (rule env_set_keeps) (auto dest: bounded_int_bounds simp: retention_ok_def)
  then show ?thesis
    using assms(2) r(3,4) by (simp add: limits_ok_def)
qed

lemma storage_limits:
  assumes "applyStorageEnv parseFloat env c = Inr c'" and "limits_ok c"
  shows "limits_ok c'"
proof -
  obtain s1 s2 s3 where s: "env_set env ''WATCHPOST_MAX_DB_BYTES'' (bounded_int ''WATCHPOST_MAX_DB_BYTES: invalid value'' 0 (2 ^ 63 - 1)) (\<lambda>v s. s\<lparr> st_MaxDBBytes := v \<rparr>) (cf_Storage c) = Inr s1"
    "env_set env ''WATCHPOST_MIN_FREE_BYTES'' (bounded_int ''WATCHPOST_MIN_FREE_BYTES: invalid value'' 0 (2 ^ 63 - 1)) (\<lambda>v s. s\<lparr> st_MinFreeBytes := v \<rparr>) s1 = Inr s2"
    "env_set env ''WATCHPOST_MIN_FREE_PERCENT'' (percentage parseFloat) (\<lambda>v s. s\<lparr> st_MinFreePercent := v \<rparr>) s2 = Inr s3" "c' = c\<lparr> cf_Storage := s3 \<rparr>"
    using assms(1) unfolding applyStorageEnv_def bindE_eq_Inr by blast
  have "storage_ok s1"
    using s(1) by (rule env_set_keeps) (use assms(2) in \<open>auto simp: limits_ok_def storage_ok_def dest: bounded_int_bounds\<close>)
  with s(2) have "storage_ok s2"
    by (rule env_set_keeps) (auto simp: storage_ok_def dest: bounded_int_bounds)
  with s(3) have "storage_ok s3"
    by (rule env_set_keeps) (auto simp: storage_ok_def percentage_def split: option.splits if_splits)
  then show ?thesis
    using assms(2) s(4) by (simp add: limits_ok_def)
qed

lemma setup_limits:
  assumes "applySetupEnv readFile env c = Inr c'" and "limits_ok c"
  shows "limits_ok c'"
proof -
  let ?store = "\<lambda>v c. c\<lparr> cf_SetupToken := TrimRightSet v line_end \<rparr>"
  obtain c2 parse where c: "env_set env ''WATCHPOST_SETUP_TOKEN_FILE'' parse ?store (env_text env ''WATCHPOST_SETUP_TOKEN'' ?store c) = Inr c2"
    "env_set env ''WATCHPOST_SETUP_TOKEN_TTL'' (positive_duration ''WATCHPOST_SETUP_TOKEN_TTL'') (\<lambda>v c. c\<lparr> cf_SetupTokenTTL := v \<rparr>) c2 = Inr c'"
    using assms(1) unfolding applySetupEnv_def Let_def bindE_eq_Inr by blast
  have "limits_ok (env_text env ''WATCHPOST_SETUP_TOKEN'' ?store c)"
    by (rule env_text_keeps) (use assms(2) in \<open>simp_all add: limits_ok_def\<close>)
  with c(1) have "limits_ok c2"
    by (rule env_set_keeps) (use \<open>limits_ok (env_text env ''WATCHPOST_SETUP_TOKEN'' ?store c)\<close> in \<open>simp add: limits_ok_def\<close>)
  with c(2) show ?thesis
    by (rule env_set_keeps) (use \<open>limits_ok c2\<close> in \<open>simp add: limits_ok_def positive_duration_pos\<close>)
qed

lemma policy_limits:
  assumes "applyCheckPolicyEnv env c = Inr c'" and "limits_ok c"
  shows "limits_ok c'"
proof -
  obtain ports where p: "foldE deny_port (split_list (env ''WATCHPOST_CHECK_DENY_PORTS'')) (cp_DenyPorts (cf_CheckPolicy c)) = Inr ports"
    "c' = c\<lparr> cf_CheckPolicy := \<lparr> cp_AllowCIDRs = split_list (env ''WATCHPOST_CHECK_ALLOW_CIDRS''), cp_DenyCIDRs = split_list (env ''WATCHPOST_CHECK_DENY_CIDRS''), cp_DenyPorts = ports \<rparr> \<rparr>"
    using assms(1) by (auto simp: applyCheckPolicyEnv_def bindE_eq_Inr)
  have "list_all (\<lambda>p. 1 \<le> p \<and> p \<le> 65535) ports"
    by (rule foldE_invariant [OF p(1)]) (use assms(2) in \<open>auto simp: limits_ok_def deny_port_def bindE_eq_Inr dest: bounded_int_bounds\<close>)
  then show ?thesis
    using assms(2) p(2) by (simp add: limits_ok_def)
qed

lemma key_limits: "applyMasterKeyEnv readFile env c = Inr c' \<Longrightarrow> limits_ok c \<Longrightarrow> limits_ok c'"
  by (auto simp: applyMasterKeyEnv_def limits_ok_def split: if_splits option.splits)

lemma backup_limits:
  assumes "applyBackupEnv env c = Inr c'" and "limits_ok c"
  shows "limits_ok c'"
proof -
  define b1 where "b1 = env_text env ''WATCHPOST_BACKUP_DIR'' (\<lambda>v b. b\<lparr> bk_Dir := v \<rparr>) (cf_Backup c)"
  obtain b2 b4 where b: "env_set env ''WATCHPOST_BACKUP_SCHEDULE'' (positive_duration ''WATCHPOST_BACKUP_SCHEDULE'') (\<lambda>v b. b\<lparr> bk_Schedule := v \<rparr>) b1 = Inr b2"
    "env_set env ''WATCHPOST_BACKUP_RETAIN'' (bounded_int ''WATCHPOST_BACKUP_RETAIN: invalid value'' 1 100) (\<lambda>v b. b\<lparr> bk_Retain := v \<rparr>)
       (env_text env ''WATCHPOST_BACKUP_PASSPHRASE_FILE'' (\<lambda>v b. b\<lparr> bk_PassphraseFile := v \<rparr>) b2) = Inr b4" "c' = c\<lparr> cf_Backup := b4 \<rparr>"
    using assms(1) unfolding applyBackupEnv_def Let_def bindE_eq_Inr b1_def by blast
  have "backup_ok b1"
    unfolding b1_def by (rule env_text_keeps) (use assms(2) in \<open>simp_all add: limits_ok_def backup_ok_def\<close>)
  with b(1) have b2: "backup_ok b2"
    by (rule env_set_keeps) (use \<open>backup_ok b1\<close> in \<open>simp add: backup_ok_def positive_duration_pos\<close>)
  have b3: "backup_ok (env_text env ''WATCHPOST_BACKUP_PASSPHRASE_FILE'' (\<lambda>v b. b\<lparr> bk_PassphraseFile := v \<rparr>) b2)"
    by (rule env_text_keeps [where P = backup_ok]) (use b2 in \<open>simp_all add: backup_ok_def\<close>)
  with b(2) have "backup_ok b4"
    by (rule env_set_keeps) (use b3 in \<open>auto simp: backup_ok_def dest: bounded_int_bounds\<close>)
  then show ?thesis
    using assms(2) b(3) by (simp add: limits_ok_def)
qed

lemma ops_limits:
  assumes "applyOpsEnv env c = Inr c'" and "limits_ok c"
  shows "limits_ok c'"
proof -
  obtain c1 where c: "env_set env ''WATCHPOST_CHECK_WORKERS'' (bounded_int ''WATCHPOST_CHECK_WORKERS: invalid value'' 1 64) (\<lambda>v c. c\<lparr> cf_CheckWorkers := v \<rparr>) c = Inr c1"
    "env_set env ''WATCHPOST_INGEST_MAX_SAMPLES_PER_MINUTE'' (bounded_int ''WATCHPOST_INGEST_MAX_SAMPLES_PER_MINUTE: invalid value'' 1 1000000) (\<lambda>v c. c\<lparr> cf_IngestRate := v \<rparr>) c1 = Inr c'"
    using assms(1) unfolding applyOpsEnv_def bindE_eq_Inr by blast
  have "limits_ok c1"
    using c(1) assms(2) by (rule env_set_keeps) (simp add: limits_ok_def bounded_int_bounds)
  with c(2) show ?thesis
    by (rule env_set_keeps) (simp add: limits_ok_def bounded_int_bounds)
qed

lemma replication_limits: "applyReplicationEnv env c = Inr c' \<Longrightarrow> limits_ok c \<Longrightarrow> limits_ok c'"
  by (auto simp: applyReplicationEnv_def Let_def bindE_eq_Inr limits_ok_def)

definition protected :: "ReplicationConfig \<Rightarrow> bool" where
  "protected r \<longleftrightarrow> SplitHostPort (rc_Listen r) \<noteq> None \<and>
     (if rc_InsecurePlaintext r then rc_TLSCert r = [] \<and> rc_TLSKey r = [] \<and> rc_TLSCA r = [] else rc_TLSCert r \<noteq> [] \<and> rc_TLSKey r \<noteq> [] \<and> rc_TLSCA r \<noteq> [])"

lemma validateReplication_iff: "validateReplication r = Inr () \<longleftrightarrow> (rc_Enabled r \<longrightarrow> rc_Listen r \<noteq> [] \<and> protected r)"
  by (auto simp: validateReplication_def protected_def tls_provided_def)


section \<open>Days\<close>

lemma int64_mult: "int64 (int64 a * b) = int64 (a * b)"
proof -
  have "((int64 a) * b) mod 2 ^ 64 = (a * b) mod 2 ^ 64"
    unfolding int64_def by (metis add_diff_cancel_right' mod_diff_left_eq mod_mult_left_eq)
  then show ?thesis
    unfolding int64_def by (metis mod_add_left_eq)
qed

lemma int64_fixed: "int64 x = x \<longleftrightarrow> - (2 ^ 63) \<le> x \<and> x < 2 ^ 63"
proof
  assume "int64 x = x"
  then show "- (2 ^ 63) \<le> x \<and> x < 2 ^ 63"
    unfolding int64_def using pos_mod_bound [of "2 ^ 64" "x + 2 ^ 63"] pos_mod_sign [of "2 ^ 64" "x + 2 ^ 63"] by simp
qed (simp add: int64_id)

lemma days_trimmed: "TrimSpace (show_nat n @ ''d'') = show_nat n @ ''d''"
proof -
  have "list_all is_digit (show_nat n)" "show_nat n \<noteq> []"
    using show_nat_digits by blast+
  then have "\<not> is_space (hd (show_nat n))"
    using digits_plain [of "show_nat n" "hd (show_nat n)"] hd_in_set by blast
  then show ?thesis
    using \<open>show_nat n \<noteq> []\<close> by (intro TrimSpace_id) (auto simp: hd_append is_space_def)
qed

text \<open>
  A retention in days is taken modulo 64 bits of nanoseconds: it is the time it says up to 106751 days, and beyond that it is another one, which may be negative or
  a few minutes; nothing refuses it.
\<close>

theorem day_retention_wraps:
  assumes "int n < 2 ^ 63"
  shows "ParseRetentionDuration (show_nat n @ ''d'') = Inr (int64 (int n * (24 * hour))) \<and>
    (ParseRetentionDuration (show_nat n @ ''d'') = Inr (int n * (24 * hour)) \<longleftrightarrow> n \<le> 106751)"
proof -
  have "has_suffix (show_nat n @ ''d'') ''d''" "show_nat n @ ''d'' \<noteq> ''0''"
    by (auto simp: has_suffix_def)
  then have eq: "ParseRetentionDuration (show_nat n @ ''d'') = Inr (int64 (int n * (24 * hour)))"
    using show_nat_ParseInt [OF assms] by (simp add: ParseRetentionDuration_def days_trimmed int64_mult mult.assoc)
  have "int64 (int n * (24 * hour)) = int n * (24 * hour) \<longleftrightarrow> n \<le> 106751"
    unfolding int64_fixed by (auto simp: time_units)
  then show ?thesis
    unfolding eq by simp
qed

theorem day_retention_wraps_witness:
  "ParseRetentionDuration (show_nat 213504 @ ''d'') = Inr (int64 (213504 * (24 * hour))) \<and> int64 (213504 * (24 * hour)) < 26 * minute"
  using day_retention_wraps [of 213504] by (simp add: int64_def time_units)


end
