(* ===== verification/Evidence.thy ===== *)
theory Evidence
  imports Posts Texts Audit_Log
begin

text \<open>
  Logs and changes (\<open>internal/evidence/evidence.go\<close>): the redaction of secrets, the search with SQLite's \<open>LIKE\<close>, and the snapshots that stand for evidence
  that retention has pruned. Texts are bytes; \<open>LIKE\<close> folds the case of ASCII letters, as SQLite does. A change keeps the instant it was given.
\<close>

section \<open>Data\<close>

record Log =
  lo_ID :: nat
  lo_PostID :: id
  lo_Source :: string
  lo_ObservedAt :: time
  lo_Severity :: string
  lo_Message :: string
  lo_Fields :: "(string \<times> string) list option"
  lo_Truncated :: bool

record Change =
  ca_ID :: nat
  ca_PostID :: id
  ca_Kind :: string
  ca_OccurredAt :: time
  ca_Actor :: string
  ca_Summary :: string
  ca_Detail :: json

record PurgedReference =
  pr_Kind :: string
  pr_ID :: nat
  pr_Summary :: string
  pr_CitedAt :: time
  pr_Reason :: string

text \<open>The zero value of \<open>time.Time\<close>.\<close>

definition zero_time :: time where
  "zero_time = - 62135596800 * second"

section \<open>Redaction\<close>

definition secret_word :: "string \<Rightarrow> bool" where
  "secret_word w \<longleftrightarrow> contains (ToLower w) ''password='' \<or> contains (ToLower w) ''token='' \<or> contains (ToLower w) ''authorization:''"

definition hide_word :: "string \<Rightarrow> string" where
  "hide_word w = (if secret_word w then if CHR ''='' \<in> set w then takeWhile (\<lambda>c. c \<noteq> CHR ''='') w @ ''=[REDACTED]'' else ''[REDACTED]'' else w)"

definition redact :: "string \<Rightarrow> string" where
  "redact v = Join (map hide_word (Fields v)) '' ''"

section \<open>Logs\<close>

definition log_fields :: "Log \<Rightarrow> (string \<times> string) list" where
  "log_fields l = (case lo_Fields l of None \<Rightarrow> [] | Some fs \<Rightarrow> fs)"

definition clean_log :: "Log \<Rightarrow> Log" where
  "clean_log l = l\<lparr> lo_Message := redact (take 8192 (lo_Message l)), lo_Truncated := (lo_Truncated l \<or> length (lo_Message l) > 8192),
     lo_Fields := map_option (map (\<lambda>(k, v). (k, redact v))) (lo_Fields l) \<rparr>"

definition log_row_of :: "time \<Rightarrow> Log \<Rightarrow> db \<Rightarrow> log_row" where
  "log_row_of now l d = \<lparr> lg_id = next_id (map lg_id (logs d)), lg_post = lo_PostID l, lg_source = lo_Source l, lg_observed = lo_ObservedAt l, lg_ingested = now,
     lg_severity = lo_Severity l, lg_message = lo_Message l, lg_fields = marshal_labels (lo_Fields l), lg_truncated = lo_Truncated l \<rparr>"

definition IngestLog :: "time \<Rightarrow> Log \<Rightarrow> db \<Rightarrow> db \<times> (err + Log)" where
  "IngestLog now l d = (if lo_PostID l = [] \<or> lo_Source l = [] \<or> lo_ObservedAt l = zero_time \<or> length (log_fields l) > 32 then (d, Inl (Err ''invalid log''))
     else if list_ex (\<lambda>(k, v). length k > 64 \<or> length v > 1024) (log_fields l) then (d, Inl (Err ''invalid log fields''))
     else case exec (\<lambda>d. d\<lparr> logs := logs d @ [log_row_of now (clean_log l) d] \<rparr>) d of Inl e \<Rightarrow> (d, Inl e)
     | Inr d' \<Rightarrow> (d', Inr ((clean_log l)\<lparr> lo_ID := next_id (map lg_id (logs d)) \<rparr>)))"

text \<open>A fields column that is not an object leaves the map nil.\<close>

definition log_of_row :: "log_row \<Rightarrow> Log" where
  "log_of_row r = \<lparr> lo_ID = lg_id r, lo_PostID = lg_post r, lo_Source = lg_source r, lo_ObservedAt = lg_observed r, lo_Severity = lg_severity r, lo_Message = lg_message r,
     lo_Fields = (case unmarshal_labels (lg_fields r) of Inl e \<Rightarrow> None | Inr ls \<Rightarrow> ls), lo_Truncated = lg_truncated r \<rparr>"

text \<open>SQLite's \<open>LIKE\<close> without an \<open>ESCAPE\<close> clause: a percent sign stands for any text, an underscore for one character, and a backslash for itself.\<close>

fun like :: "string \<Rightarrow> string \<Rightarrow> bool" where
  "like [] s = (s = [])"
| "like (p # ps) [] = (p = CHR ''%'' \<and> like ps [])"
| "like (p # ps) (c # cs) = (if p = CHR ''%'' then like ps (c # cs) \<or> like (p # ps) cs
     else if p = CHR ''_'' then like ps cs else nocase [p] = nocase [c] \<and> like ps cs)"

definition escape_percent :: "string \<Rightarrow> string" where
  "escape_percent q = concat (map (\<lambda>c. if c = CHR ''%'' then [CHR 0x5C, CHR ''%''] else [c]) q)"

definition search_pattern :: "string \<Rightarrow> string" where
  "search_pattern q = ''%'' @ escape_percent q @ ''%''"

definition SearchLogs :: "id \<Rightarrow> string \<Rightarrow> time \<Rightarrow> time \<Rightarrow> int \<Rightarrow> db \<Rightarrow> err + Log list" where
  "SearchLogs post q tfrom tto limit d = (if limit < 1 \<or> limit > 1000 \<or> length q > 200 \<or> \<not> tfrom < tto then Inl (Err ''invalid log query'')
     else query (\<lambda>d. map log_of_row (take (nat limit) (rev (sort_key (\<lambda>r. (text_key (lg_observed r), lg_id r))
       (filter (\<lambda>r. lg_post r = post \<and> text_le tfrom (lg_observed r) \<and> text_le (lg_observed r) tto \<and> like (search_pattern q) (lg_message r)) (logs d)))))) d)"

definition GetLog :: "nat \<Rightarrow> db \<Rightarrow> err + Log" where
  "GetLog i d = bindE (query (\<lambda>d. find (\<lambda>r. lg_id r = i) (logs d)) d) (\<lambda>r. case r of None \<Rightarrow> Inl ErrNoRows | Some x \<Rightarrow> Inr (log_of_row x))"

section \<open>Changes\<close>

definition change_of_row :: "change_row \<Rightarrow> Change" where
  "change_of_row r = \<lparr> ca_ID = ch_id r, ca_PostID = (case ch_post r of None \<Rightarrow> [] | Some p \<Rightarrow> p), ca_Kind = ch_kind r, ca_OccurredAt = ch_occurred r, ca_Actor = ch_actor r,
     ca_Summary = ch_summary r, ca_Detail = ch_detail r \<rparr>"

definition GetChange :: "nat \<Rightarrow> db \<Rightarrow> err + Change" where
  "GetChange i d = bindE (query (\<lambda>d. find (\<lambda>r. ch_id r = i) (changes d)) d) (\<lambda>r. case r of None \<Rightarrow> Inl ErrNoRows | Some x \<Rightarrow> Inr (change_of_row x))"

definition change_row_of :: "Change \<Rightarrow> db \<Rightarrow> change_row" where
  "change_row_of c d = \<lparr> ch_id = next_id (map ch_id (changes d)), ch_post = (if ca_PostID c = [] then None else Some (ca_PostID c)), ch_kind = ca_Kind c, ch_occurred = ca_OccurredAt c,
     ch_actor = ca_Actor c, ch_summary = ca_Summary c, ch_detail = ca_Detail c \<rparr>"

definition RecordChange :: "time \<Rightarrow> Change \<Rightarrow> db \<Rightarrow> db \<times> (err + Change)" where
  "RecordChange now c d = (if ca_Kind c = [] \<or> ca_Summary c = [] \<or> length (ca_Summary c) > 1000 then (d, Inl (Err ''invalid change''))
     else let c = (if ca_OccurredAt c = zero_time then c\<lparr> ca_OccurredAt := now \<rparr> else c) in
       case exec (\<lambda>d. d\<lparr> changes := changes d @ [change_row_of c d] \<rparr>) d of Inl e \<Rightarrow> (d, Inl e)
       | Inr d' \<Rightarrow> (d', Inr (c\<lparr> ca_ID := next_id (map ch_id (changes d)) \<rparr>)))"

section \<open>Pruned evidence\<close>

definition FindPurgedReference :: "string \<Rightarrow> nat \<Rightarrow> db \<Rightarrow> err + PurgedReference" where
  "FindPurgedReference kind i d =
     bindE (query (\<lambda>d. rev (sort_key (\<lambda>e. (text_key (ev_cited e), ev_id e)) (filter (\<lambda>e. ev_kind e = kind \<and> ev_evidence e = i) (conversation_evidence d)))) d) (\<lambda>es.
     case es of [] \<Rightarrow> Inl ErrNoRows
     | e # _ \<Rightarrow> Inr \<lparr> pr_Kind = ev_kind e, pr_ID = ev_evidence e, pr_Summary = ev_summary e, pr_CitedAt = ev_cited e,
         pr_Reason = ''raw evidence was pruned by retention; the immutable citation snapshot remains'' \<rparr>)"

section \<open>Lemmas on texts\<close>

lemma contains_iff: "contains s p \<longleftrightarrow> (\<exists>n\<le>length s. take (length p) (drop n s) = p)"
proof (induction s)
  case (Cons c s)
  have "(\<exists>n\<le>length (c # s). take (length p) (drop n (c # s)) = p) \<longleftrightarrow> take (length p) (c # s) = p \<or> (\<exists>n\<le>length s. take (length p) (drop n s) = p)"
    by (metis Suc_le_mono drop0 drop_Suc_Cons le0 length_Cons not0_implies_Suc)
  then show ?case
    using Cons by simp
qed auto

lemma contains_middle: "contains (a @ p @ b) p"
  by (auto simp: contains_iff intro!: exI [of _ "length a"])

lemma split_at_nonempty: "split_at c s \<noteq> []"
  by (induction s) (auto split: list.splits)

lemma split_at_append: "split_at c (a @ c # b) = split_at c a @ split_at c b"
proof (induction a)
  case (Cons x a)
  then show ?case
    using split_at_nonempty [of c a] by (auto split: list.splits)
qed simp

lemma split_at_plain: "c \<notin> set w \<Longrightarrow> split_at c w = [w]"
  by (induction w) auto

lemma Fields_append: "Fields (a @ '' '' @ b) = Fields a @ Fields b"
  by (simp add: Fields_def is_space_def split_at_append)

lemma Fields_word:
  assumes "w \<noteq> []" and "list_all (\<lambda>c. \<not> is_space c) w"
  shows "Fields w = [w]"
proof -
  have "map (\<lambda>c. if is_space c then CHR '' '' else c) w = w"
    using assms(2) by (intro map_idI) (auto simp: list_all_iff)
  moreover have "CHR '' '' \<notin> set w"
    using assms(2) by (auto simp: list_all_iff is_space_def)
  ultimately show ?thesis
    using assms(1) by (simp add: Fields_def split_at_plain)
qed

lemma ToLower_append: "ToLower (a @ b) = ToLower a @ ToLower b"
  by (simp add: ToLower_def nocase_def)

lemma hide_assignment:
  assumes "ToLower x = ''password'' \<or> ToLower x = ''token''"
  shows "hide_word (k @ x @ ''='' @ s) = takeWhile (\<lambda>c. c \<noteq> CHR ''='') (k @ x) @ ''=[REDACTED]''"
proof -
  have "ToLower (k @ x @ ''='' @ s) = ToLower k @ (ToLower x @ ''='') @ ToLower s"
    by (simp add: ToLower_append) (simp add: ToLower_def nocase_def)
  then have "secret_word (k @ x @ ''='' @ s)"
    using assms contains_middle [of "ToLower k" "ToLower x @ ''=''" "ToLower s"] by (auto simp: secret_word_def)
  moreover have "takeWhile (\<lambda>c. c \<noteq> CHR ''='') ((k @ x) @ CHR ''='' # s) = takeWhile (\<lambda>c. c \<noteq> CHR ''='') (k @ x)"
    by (rule takeWhile_tail) simp
  ultimately show ?thesis
    by (simp add: hide_word_def)
qed



text \<open>
  The credential of an authorization header is stored in the clear. Words are redacted one by one, the header name is one word and the credential another, so only the
  name is hidden.
\<close>

theorem authorization_value_leaks:
  assumes "s \<noteq> []" and "list_all (\<lambda>c. \<not> is_space c) s" and "\<not> secret_word s"
  shows "redact (''Authorization: Bearer '' @ s) = ''[REDACTED] Bearer '' @ s"
proof -
  have split: "''Authorization: Bearer '' @ s = ''Authorization:'' @ '' '' @ (''Bearer'' @ '' '' @ s)"
    by simp
  have "Fields (''Authorization: Bearer '' @ s) = [''Authorization:'', ''Bearer'', s]"
    unfolding split Fields_append using Fields_word [OF assms(1,2)] Fields_word [of "''Authorization:''"] Fields_word [of "''Bearer''"] by (simp add: is_space_def)
  moreover have "hide_word ''Authorization:'' = ''[REDACTED]''" "hide_word ''Bearer'' = ''Bearer''"
    by code_simp+
  moreover have "hide_word s = s"
    using assms(3) by (simp add: hide_word_def)
  ultimately show ?thesis
    by (simp add: redact_def)
qed

theorem authorization_value_leaks_witness: "redact (''Authorization: Bearer '' @ ''c2VjcmV0'') = ''[REDACTED] Bearer '' @ ''c2VjcmV0''"
proof (rule authorization_value_leaks)
  show "list_all (\<lambda>c. \<not> is_space c) ''c2VjcmV0''" "\<not> secret_word ''c2VjcmV0''"
    by code_simp+
qed simp

section \<open>Search\<close>

lemma like_any: "like ''%'' s"
  by (induction s) auto

lemma like_percent: "like (CHR ''%'' # ps) s \<longleftrightarrow> (\<exists>n\<le>length s. like ps (drop n s))"
proof (induction s)
  case (Cons c s)
  have "(\<exists>n\<le>length (c # s). like ps (drop n (c # s))) \<longleftrightarrow> like ps (c # s) \<or> (\<exists>n\<le>length s. like ps (drop n s))"
    by (metis Suc_le_mono drop0 drop_Suc_Cons le0 length_Cons not0_implies_Suc)
  then show ?case
    using Cons by simp
qed simp

definition plain :: "string \<Rightarrow> bool" where
  "plain q \<longleftrightarrow> CHR ''%'' \<notin> set q \<and> CHR ''_'' \<notin> set q"

lemma like_prefix: "plain q \<Longrightarrow> like (q @ ''%'') s \<longleftrightarrow> take (length q) (nocase s) = nocase q"
proof (induction q arbitrary: s)
  case (Cons c q)
  then show ?case
    by (cases s) (auto simp: plain_def nocase_def)
qed (simp add: like_any nocase_def)

lemma escape_plain: "CHR ''%'' \<notin> set q \<Longrightarrow> escape_percent q = q"
  by (induction q) (auto simp: escape_percent_def)

lemma length_nocase [simp]: "length (nocase s) = length s"
  by (simp add: nocase_def)

lemma search_plain:
  assumes "plain q"
  shows "like (search_pattern q) m \<longleftrightarrow> contains (nocase m) (nocase q)"
proof -
  have "nocase (drop n m) = drop n (nocase m)" for n
    by (simp add: nocase_def drop_map)
  then show ?thesis
    using assms by (simp add: search_pattern_def escape_plain plain_def [of q] like_percent like_prefix [OF assms] contains_iff)
qed

text \<open>A percent sign in a pattern that is preceded by a literal backslash needs that backslash in the text.\<close>

lemma like_literal: "like (p @ c # q) s \<Longrightarrow> c \<notin> {CHR ''%'', CHR ''_''} \<Longrightarrow> nocase [c] = [c] \<Longrightarrow> \<exists>x\<in>set s. nocase [x] = [c]"
proof (induction "p @ c # q" s arbitrary: p rule: like.induct)
  case (2 y ps)
  then show ?case
    by (cases p) auto
next
  case (3 y ps x cs)
  show ?case
  proof (cases p)
    case Nil
    then show ?thesis
      using 3 by auto
  next
    case (Cons z p')
    then show ?thesis
      using 3 by (auto split: if_splits)
  qed
qed auto

lemma escaped_percent:
  assumes "CHR ''%'' \<in> set q"
  shows "\<exists>a b. escape_percent q = a @ CHR 0x5C # b"
proof -
  obtain a b where "q = a @ CHR ''%'' # b"
    using assms by (meson split_list)
  then have "escape_percent q = escape_percent a @ CHR 0x5C # CHR ''%'' # escape_percent b"
    by (simp add: escape_percent_def)
  then show ?thesis
    by blast
qed

lemma nocase_backslash: "nocase [x] = [CHR 0x5C] \<Longrightarrow> x = CHR 0x5C"
proof (cases "CHR ''A'' \<le> x \<and> x \<le> CHR ''Z''")
  case True
  assume "nocase [x] = [CHR 0x5C]"
  then have "of_char (char_of (of_char x + 32 :: nat)) = (92 :: nat)"
    using True by (simp add: nocase_def)
  moreover have "65 \<le> (of_char x :: nat) \<and> (of_char x :: nat) \<le> 90"
    using True by (simp add: less_eq_char_def)
  ultimately show ?thesis
    by simp
qed (simp add: nocase_def)

text \<open>
  The search for a text finds exactly the logs of the post and window whose message contains it, whatever the case of its letters, when the text has no percent sign and
  no underscore. A text with a percent sign is found only in messages that hold a backslash: the query escapes the sign with one, and the statement names no escape character.
\<close>

theorem search_finds_text:
  assumes "1 \<le> limit" and "limit \<le> 1000" and "length q \<le> 200" and "tfrom < tto" and "\<not> io_fault d" and "length (logs d) \<le> nat limit"
  shows "\<exists>ls. SearchLogs post q tfrom tto limit d = Inr ls \<and>
    (plain q \<longrightarrow> set ls = log_of_row ` {r \<in> set (logs d). lg_post r = post \<and> text_le tfrom (lg_observed r) \<and> text_le (lg_observed r) tto \<and> contains (nocase (lg_message r)) (nocase q)}) \<and>
    (CHR ''%'' \<in> set q \<longrightarrow> (\<forall>l\<in>set ls. CHR 0x5C \<in> set (lo_Message l)))"
proof -
  let ?hits = "filter (\<lambda>r. lg_post r = post \<and> text_le tfrom (lg_observed r) \<and> text_le (lg_observed r) tto \<and> like (search_pattern q) (lg_message r)) (logs d)"
  let ?ls = "map log_of_row (rev (sort_key (\<lambda>r. (text_key (lg_observed r), lg_id r)) ?hits))"
  have "length ?hits \<le> nat limit"
    using assms(6) length_filter_le le_trans by blast
  then have "SearchLogs post q tfrom tto limit d = Inr ?ls"
    using assms by (simp add: SearchLogs_def)
  moreover have "set ?ls = log_of_row ` {r \<in> set (logs d). lg_post r = post \<and> text_le tfrom (lg_observed r) \<and> text_le (lg_observed r) tto \<and> contains (nocase (lg_message r)) (nocase q)}" if "plain q"
    using search_plain [OF that] by auto
  moreover have "CHR 0x5C \<in> set (lo_Message l)" if "CHR ''%'' \<in> set q" "l \<in> set ?ls" for l
  proof -
    obtain a b where e: "escape_percent q = a @ CHR 0x5C # b"
      using escaped_percent [OF \<open>CHR ''%'' \<in> set q\<close>] by blast
    obtain r where r: "like (search_pattern q) (lg_message r)" "l = log_of_row r"
      using \<open>l \<in> set ?ls\<close> by auto
    have "like ((''%'' @ a) @ CHR 0x5C # (b @ ''%'')) (lg_message r)"
      using r(1) by (simp add: search_pattern_def e)
    then have "\<exists>x\<in>set (lg_message r). nocase [x] = [CHR 0x5C]"
      by (rule like_literal) (simp_all add: nocase_def)
    then show ?thesis
      using nocase_backslash r(2) by (auto simp: log_of_row_def)
  qed
  ultimately show ?thesis
    by blast
qed

definition sample_log :: log_row where
  "sample_log = \<lparr> lg_id = 1, lg_post = ''a'', lg_source = ''syslog'', lg_observed = 5, lg_ingested = 6, lg_severity = ''info'', lg_message = ''Disk at 100% now'',
     lg_fields = LNull, lg_truncated = False \<rparr>"

definition sample_logs :: db where
  "sample_logs = sample_posts\<lparr> logs := [sample_log] \<rparr>"

theorem search_finds_text_witness:
  "(\<exists>ls. SearchLogs ''a'' ''disk'' 1 9 10 sample_logs = Inr ls \<and> ls \<noteq> []) \<and> SearchLogs ''a'' ''100%'' 1 9 10 sample_logs = Inr []"
proof -
  have log: "logs sample_logs = [sample_log]" and io: "\<not> io_fault sample_logs"
    by (simp_all add: sample_logs_def sample_posts_def empty_db_def)
  have hit: "lg_post sample_log = ''a'' \<and> text_le 1 (lg_observed sample_log) \<and> text_le (lg_observed sample_log) 9 \<and> contains (nocase (lg_message sample_log)) (nocase ''disk'')"
    and plain: "plain ''disk''"
    by code_simp+
  obtain ls where "SearchLogs ''a'' ''disk'' 1 9 10 sample_logs = Inr ls" "set ls = log_of_row ` {r \<in> set (logs sample_logs).
      lg_post r = ''a'' \<and> text_le 1 (lg_observed r) \<and> text_le (lg_observed r) 9 \<and> contains (nocase (lg_message r)) (nocase ''disk'')}"
    using search_finds_text [of 10 "''disk''" 1 9 sample_logs "''a''"] plain io log by auto
  then have "\<exists>ls. SearchLogs ''a'' ''disk'' 1 9 10 sample_logs = Inr ls \<and> ls \<noteq> []"
    using hit log by (intro exI [of _ ls]) auto
  moreover obtain ls where ls: "SearchLogs ''a'' ''100%'' 1 9 10 sample_logs = Inr ls" "\<forall>l\<in>set ls. CHR 0x5C \<in> set (lo_Message l)"
    using search_finds_text [of 10 "''100%''" 1 9 sample_logs "''a''"] io log by auto
  moreover have "l = log_of_row sample_log" if "l \<in> set ls" for l
    using ls(1) that io by (auto simp: SearchLogs_def log split: if_splits)
  then have "ls = []"
    using ls(2) by (cases ls) (force simp: sample_log_def log_of_row_def)+
  ultimately show ?thesis
    by simp
qed

end
