(* ===== verification/Propagation.thy ===== *)
theory Propagation
  imports Checks
begin

text \<open>
  Propagation of configuration between installations (\<open>internal/propagation\<close>): the export of checks, rules and routes as envelopes, their application on another node, the
  snapshot and restore that make an application reversible, the policy of the kinds, and the store of profiles and history. The engine that plans and drives propagation is
  gantry-core, which is not part of the sources: its validation of an envelope is the parameter \<open>core\<close>, which answers the validated envelope or an error; selectors are kept as
  JSON. \<open>gate\<close> is the process-wide switch of \<open>internal/replicated/gate.go\<close>. JSON numbers are given by their value.
\<close>

section \<open>Envelopes\<close>

record Actor =
  ac_Kind :: string
  ac_ID :: string
  ac_Permission :: string

record SecretRef =
  sf_Name :: string
  sf_Required :: bool

text \<open>A payload of no bytes is \<open>None\<close>.\<close>

record Envelope =
  ev_Kind :: string
  ev_ID :: id
  ev_SchemaVersion :: int
  ev_Revision :: int
  ev_SourceNode :: string
  ev_CreatedAt :: "time option"
  ev_Target :: string
  ev_Conflict :: string
  ev_Actor :: Actor
  ev_Payload :: "json option"
  ev_Secrets :: "SecretRef list"
  ev_Dependencies :: "string list"
  ev_Digest :: string

type_synonym core = "Envelope \<Rightarrow> err + Envelope"

record KindPolicy =
  kp_Kind :: string
  kp_Reversible :: bool
  kp_Mergeable :: bool
  kp_Permission :: string

definition policies :: "KindPolicy list" where
  "policies = [\<lparr> kp_Kind = ''monitor'', kp_Reversible = True, kp_Mergeable = False, kp_Permission = ''monitor.update'' \<rparr>,
     \<lparr> kp_Kind = ''alert-policy'', kp_Reversible = True, kp_Mergeable = False, kp_Permission = ''alert.update'' \<rparr>,
     \<lparr> kp_Kind = ''notification-config'', kp_Reversible = True, kp_Mergeable = False, kp_Permission = ''notification.update'' \<rparr>]"

definition kind_Policy :: "string \<Rightarrow> KindPolicy option" where
  "kind_Policy kind = find (\<lambda>p. kp_Kind p = kind) policies"

definition ValidateEnvelope :: "core \<Rightarrow> Envelope \<Rightarrow> err + Envelope" where
  "ValidateEnvelope core e = (case kind_Policy (ev_Kind e) of None \<Rightarrow> Inl (Err ''watchpost propagation kind is not supported'')
     | Some p \<Rightarrow> if ac_Permission (ev_Actor e) \<noteq> [] \<and> ac_Permission (ev_Actor e) \<noteq> kp_Permission p then Inl (Err ''permission does not match'') else core e)"

definition propagation_Kinds :: "string list" where
  "propagation_Kinds = [''alert-policy'', ''monitor'', ''notification-config'']"

section \<open>Payloads\<close>

text \<open>
  \<open>json.Unmarshal\<close> into a struct: null leaves the zero value, an object sets the fields its keys name regardless of case, the last one wins, a null member is skipped and a
  member of the wrong type is an error.
\<close>

definition members :: "string \<Rightarrow> (string \<times> json) list \<Rightarrow> json list" where
  "members name kvs = map snd (filter (\<lambda>(k, v). nocase k = name \<and> v \<noteq> JNull) kvs)"

definition read_field :: "(json \<Rightarrow> 'a option) \<Rightarrow> 'a \<Rightarrow> string \<Rightarrow> (string \<times> json) list \<Rightarrow> err + 'a" where
  "read_field conv zero name kvs = (let vs = map conv (members name kvs)
     in if None \<in> set vs then Inl (Err ''json: cannot unmarshal'') else Inr (last (zero # map the vs)))"

fun as_string :: "json \<Rightarrow> string option" where
  "as_string (JStr s) = Some s"
| "as_string _ = None"

fun as_bool :: "json \<Rightarrow> bool option" where
  "as_bool (JBool b) = Some b"
| "as_bool _ = None"

fun as_int :: "json \<Rightarrow> int option" where
  "as_int (JNum (Num q)) = (if of_int \<lfloor>q\<rfloor> = q \<and> - (2 ^ 63) \<le> \<lfloor>q\<rfloor> \<and> \<lfloor>q\<rfloor> < 2 ^ 63 then Some \<lfloor>q\<rfloor> else None)"
| "as_int _ = None"

fun as_float :: "json \<Rightarrow> f64 option" where
  "as_float (JNum f) = Some f"
| "as_float _ = None"

definition unmarshal_object :: "json option \<Rightarrow> err + (string \<times> json) list" where
  "unmarshal_object payload = (case payload of Some JNull \<Rightarrow> Inr [] | Some (JObj kvs) \<Rightarrow> Inr kvs | _ \<Rightarrow> Inl (Err ''json: cannot unmarshal''))"

record monitorPayload =
  mp_PostID :: id
  mp_Kind :: string
  mp_Address :: string
  mp_ServerName :: string
  mp_IntervalSeconds :: int
  mp_Enabled :: bool

record alertPayload =
  ap_PostID :: id
  ap_Signal :: string
  ap_Operator :: string
  ap_Threshold :: f64
  ap_DurationSeconds :: int
  ap_RecoveryThreshold :: "f64 option"
  ap_MissingPolicy :: string
  ap_Severity :: string
  ap_Enabled :: bool

record notificationPayload =
  np_Kind :: string
  np_Destination :: string
  np_Enabled :: bool

definition monitor_json :: "monitorPayload \<Rightarrow> err + json" where
  "monitor_json p = Inr (JObj ([(''post_id'', JStr (mp_PostID p)), (''kind'', JStr (mp_Kind p)), (''address'', JStr (mp_Address p))] @
     (if mp_ServerName p = [] then [] else [(''server_name'', JStr (mp_ServerName p))]) @
     [(''interval_seconds'', JNum (Num (of_int (mp_IntervalSeconds p)))), (''enabled'', JBool (mp_Enabled p))]))"

text \<open>A number that is not finite has no JSON.\<close>

definition alert_json :: "alertPayload \<Rightarrow> err + json" where
  "alert_json p = (if \<not> is_finite (ap_Threshold p) \<or> (case ap_RecoveryThreshold p of None \<Rightarrow> False | Some v \<Rightarrow> \<not> is_finite v) then Inl (Err ''json: unsupported value'')
     else Inr (JObj ([(''post_id'', JStr (ap_PostID p)), (''signal'', JStr (ap_Signal p)), (''operator'', JStr (ap_Operator p)), (''threshold'', JNum (ap_Threshold p)),
       (''duration_seconds'', JNum (Num (of_int (ap_DurationSeconds p))))] @
       (case ap_RecoveryThreshold p of None \<Rightarrow> [] | Some v \<Rightarrow> [(''recovery_threshold'', JNum v)]) @
       [(''missing_policy'', JStr (ap_MissingPolicy p)), (''severity'', JStr (ap_Severity p)), (''enabled'', JBool (ap_Enabled p))])))"

definition notification_json :: "notificationPayload \<Rightarrow> err + json" where
  "notification_json p = Inr (JObj [(''kind'', JStr (np_Kind p)), (''destination'', JStr (np_Destination p)), (''enabled'', JBool (np_Enabled p))])"

definition monitor_of_json :: "json option \<Rightarrow> err + monitorPayload" where
  "monitor_of_json payload = bindE (unmarshal_object payload) (\<lambda>kvs.
     bindE (read_field as_string [] ''post_id'' kvs) (\<lambda>post.
     bindE (read_field as_string [] ''kind'' kvs) (\<lambda>kind.
     bindE (read_field as_string [] ''address'' kvs) (\<lambda>address.
     bindE (read_field as_string [] ''server_name'' kvs) (\<lambda>server.
     bindE (read_field as_int 0 ''interval_seconds'' kvs) (\<lambda>interval.
     bindE (read_field as_bool False ''enabled'' kvs) (\<lambda>enabled.
     Inr \<lparr> mp_PostID = post, mp_Kind = kind, mp_Address = address, mp_ServerName = server, mp_IntervalSeconds = interval, mp_Enabled = enabled \<rparr>)))))))"

definition alert_of_json :: "json option \<Rightarrow> err + alertPayload" where
  "alert_of_json payload = bindE (unmarshal_object payload) (\<lambda>kvs.
     bindE (read_field as_string [] ''post_id'' kvs) (\<lambda>post.
     bindE (read_field as_string [] ''signal'' kvs) (\<lambda>signal.
     bindE (read_field as_string [] ''operator'' kvs) (\<lambda>oper.
     bindE (read_field as_float (Num 0) ''threshold'' kvs) (\<lambda>threshold.
     bindE (read_field as_int 0 ''duration_seconds'' kvs) (\<lambda>duration.
     bindE (read_field (\<lambda>j. map_option Some (as_float j)) None ''recovery_threshold'' kvs) (\<lambda>recovery.
     bindE (read_field as_string [] ''missing_policy'' kvs) (\<lambda>missing.
     bindE (read_field as_string [] ''severity'' kvs) (\<lambda>severity.
     bindE (read_field as_bool False ''enabled'' kvs) (\<lambda>enabled.
     Inr \<lparr> ap_PostID = post, ap_Signal = signal, ap_Operator = oper, ap_Threshold = threshold, ap_DurationSeconds = duration, ap_RecoveryThreshold = recovery,
           ap_MissingPolicy = missing, ap_Severity = severity, ap_Enabled = enabled \<rparr>))))))))))"

definition notification_of_json :: "json option \<Rightarrow> err + notificationPayload" where
  "notification_of_json payload = bindE (unmarshal_object payload) (\<lambda>kvs.
     bindE (read_field as_string [] ''kind'' kvs) (\<lambda>kind.
     bindE (read_field as_string [] ''destination'' kvs) (\<lambda>destination.
     bindE (read_field as_bool False ''enabled'' kvs) (\<lambda>enabled.
     Inr \<lparr> np_Kind = kind, np_Destination = destination, np_Enabled = enabled \<rparr>))))"

section \<open>Export\<close>

definition selected :: "string list \<Rightarrow> string \<Rightarrow> bool" where
  "selected ks kind \<longleftrightarrow> ks = [] \<or> kind \<in> set ks"

definition max1 :: "int \<Rightarrow> int" where
  "max1 v = (if v < 1 then 1 else v)"

definition envelope :: "core \<Rightarrow> time \<Rightarrow> string \<Rightarrow> id \<Rightarrow> int \<Rightarrow> string \<Rightarrow> string \<Rightarrow> Actor \<Rightarrow> err + json \<Rightarrow> SecretRef list \<Rightarrow> string list \<Rightarrow> err + Envelope" where
  "envelope core now kind i revision source target actor payload refs deps = bindE payload (\<lambda>b.
     core \<lparr> ev_Kind = kind, ev_ID = i, ev_SchemaVersion = 1, ev_Revision = revision, ev_SourceNode = source, ev_CreatedAt = Some now, ev_Target = target,
       ev_Conflict = ''source-wins'', ev_Actor = actor, ev_Payload = Some b, ev_Secrets = refs, ev_Dependencies = deps, ev_Digest = [] \<rparr>)"

definition monitor_payload :: "check_schedule \<Rightarrow> monitorPayload" where
  "monitor_payload s = \<lparr> mp_PostID = cs_post s, mp_Kind = cs_kind s, mp_Address = cs_address s, mp_ServerName = cs_server s, mp_IntervalSeconds = cs_interval s, mp_Enabled = cs_enabled s \<rparr>"

definition alert_payload :: "rule_row \<Rightarrow> alertPayload" where
  "alert_payload r = \<lparr> ap_PostID = ru_post r, ap_Signal = ru_signal r, ap_Operator = ru_operator r, ap_Threshold = ru_threshold r, ap_DurationSeconds = ru_duration r,
     ap_RecoveryThreshold = ru_recovery r, ap_MissingPolicy = ru_missing r, ap_Severity = ru_severity r, ap_Enabled = ru_enabled r \<rparr>"

definition route_payload :: "route_row \<Rightarrow> notificationPayload" where
  "route_payload r = \<lparr> np_Kind = rt_kind r, np_Destination = rt_destination r, np_Enabled = rt_enabled r \<rparr>"

definition monitor_envelope :: "core \<Rightarrow> time \<Rightarrow> Actor \<Rightarrow> string \<Rightarrow> check_schedule \<Rightarrow> err + Envelope" where
  "monitor_envelope core now actor target s = envelope core now ''monitor'' (cs_id s) 1 ''watchpost-local'' target (actor\<lparr> ac_Permission := ''monitor.update'' \<rparr>)
     (monitor_json (monitor_payload s)) [] [''post:'' @ cs_post s]"

definition alert_envelope :: "core \<Rightarrow> time \<Rightarrow> Actor \<Rightarrow> string \<Rightarrow> rule_row \<Rightarrow> err + Envelope" where
  "alert_envelope core now actor target r = envelope core now ''alert-policy'' (ru_id r) (max1 (ru_version r)) ''watchpost-local'' target (actor\<lparr> ac_Permission := ''alert.update'' \<rparr>)
     (alert_json (alert_payload r)) [] [''post:'' @ ru_post r]"

definition route_envelope :: "core \<Rightarrow> time \<Rightarrow> Actor \<Rightarrow> string \<Rightarrow> route_row \<Rightarrow> err + Envelope" where
  "route_envelope core now actor target r = envelope core now ''notification-config'' (rt_id r) 1 ''watchpost-local'' target (actor\<lparr> ac_Permission := ''notification.update'' \<rparr>)
     (notification_json (route_payload r)) (if rt_secret r \<noteq> [] then [\<lparr> sf_Name = ''watchpost.notification-route.'' @ rt_id r, sf_Required = True \<rparr>] else []) []"

definition traverse :: "('a \<Rightarrow> err + 'b) \<Rightarrow> 'a list \<Rightarrow> err + 'b list" where
  "traverse f xs = foldE (\<lambda>x ys. bindE (f x) (\<lambda>y. Inr (ys @ [y]))) xs []"

definition Export :: "core \<Rightarrow> time \<Rightarrow> string list \<Rightarrow> Actor \<Rightarrow> string \<Rightarrow> db \<Rightarrow> err + Envelope list" where
  "Export core now ks actor target d =
     bindE (if selected ks ''monitor'' then bindE (query (\<lambda>d. sort_key cs_id (check_schedules d)) d) (traverse (monitor_envelope core now actor target)) else Inr []) (\<lambda>ms.
     bindE (if selected ks ''alert-policy'' then bindE (query (\<lambda>d. sort_key ru_id (rules d)) d) (traverse (alert_envelope core now actor target)) else Inr []) (\<lambda>as.
     bindE (if selected ks ''notification-config'' then bindE (query (\<lambda>d. sort_key rt_id (notification_routes d)) d) (traverse (route_envelope core now actor target)) else Inr []) (\<lambda>ns.
     Inr (sort_key (\<lambda>e. (ev_Kind e, ev_ID e)) (ms @ as @ ns)))))"

section \<open>Snapshots and targets\<close>

record Existing =
  ex_Kind :: string
  ex_ID :: id
  ex_Digest :: string
  ex_Revision :: int

record ObjectState =
  os_Existing :: Existing
  os_Payload :: "json option"
  os_Reversible :: bool

definition object_state :: "Envelope \<Rightarrow> ObjectState" where
  "object_state e = \<lparr> os_Existing = \<lparr> ex_Kind = ev_Kind e, ex_ID = ev_ID e, ex_Digest = ev_Digest e, ex_Revision = ev_Revision e \<rparr>, os_Payload = ev_Payload e, os_Reversible = True \<rparr>"

definition no_actor :: Actor where
  "no_actor = \<lparr> ac_Kind = [], ac_ID = [], ac_Permission = [] \<rparr>"

definition propagation_Snapshot :: "core \<Rightarrow> time \<Rightarrow> string list \<Rightarrow> db \<Rightarrow> err + (string \<times> ObjectState) list" where
  "propagation_Snapshot core now ks d = bindE (Export core now ks no_actor ''local'' d) (\<lambda>es. Inr (map (\<lambda>e. (ev_Kind e @ ''/'' @ ev_ID e, object_state e)) es))"

record TargetState =
  ts_Existing :: "(string \<times> Existing) list"
  ts_Schemas :: "(string \<times> int) list"
  ts_Dependencies :: "string list"
  ts_Secrets :: "string list"
  ts_Permissions :: "string list"

definition target_secret :: "db \<Rightarrow> Envelope \<Rightarrow> string option" where
  "target_secret d e = (if ev_Kind e \<noteq> ''notification-config'' then None else case find (\<lambda>r. rt_id r = ev_ID e) (notification_routes d) of None \<Rightarrow> None
     | Some r \<Rightarrow> if rt_secret r \<noteq> [] then Some (''watchpost.notification-route.'' @ ev_ID e) else None)"

definition propagation_TargetState :: "core \<Rightarrow> time \<Rightarrow> Envelope list \<Rightarrow> db \<Rightarrow> err + TargetState" where
  "propagation_TargetState core now src d = bindE (propagation_Snapshot core now [] d) (\<lambda>snap.
     bindE (query (\<lambda>d. map po_id (posts d)) d) (\<lambda>ps.
     Inr \<lparr> ts_Existing = map (\<lambda>(k, s). (k, os_Existing s)) snap, ts_Schemas = [(''monitor'', 1), (''alert-policy'', 1), (''notification-config'', 1)],
       ts_Dependencies = map (\<lambda>i. ''post:'' @ i) ps, ts_Secrets = List.map_filter (target_secret d) src,
       ts_Permissions = filter (\<lambda>p. p \<noteq> []) (map (\<lambda>e. ac_Permission (ev_Actor e)) src) \<rparr>))"

section \<open>Application\<close>

record AppliedRevision =
  ar_Kind :: string
  ar_ID :: id
  ar_Before :: int
  ar_After :: int
  ar_Reversible :: bool

text \<open>\<open>INSERT .. ON CONFLICT(id) DO UPDATE\<close>: \<open>merge\<close> is what the update makes of the row that is there.\<close>

definition upsert :: "('a \<Rightarrow> id) \<Rightarrow> 'a \<Rightarrow> ('a \<Rightarrow> 'a) \<Rightarrow> 'a list \<Rightarrow> 'a list" where
  "upsert key row merge xs = (if key row \<in> key ` set xs then upd_where (\<lambda>x. key x = key row) merge xs else xs @ [row])"

definition schedule_row :: "time \<Rightarrow> id \<Rightarrow> monitorPayload \<Rightarrow> check_schedule" where
  "schedule_row now i p = \<lparr> cs_id = i, cs_post = mp_PostID p, cs_kind = mp_Kind p, cs_address = mp_Address p, cs_server = mp_ServerName p, cs_interval = mp_IntervalSeconds p,
     cs_enabled = mp_Enabled p, cs_next_run = now, cs_created = now \<rparr>"

definition merge_schedule :: "monitorPayload \<Rightarrow> check_schedule \<Rightarrow> check_schedule" where
  "merge_schedule p s = s\<lparr> cs_post := mp_PostID p, cs_kind := mp_Kind p, cs_address := mp_Address p, cs_server := mp_ServerName p, cs_interval := mp_IntervalSeconds p, cs_enabled := mp_Enabled p \<rparr>"

definition policy_row :: "id \<Rightarrow> int \<Rightarrow> alertPayload \<Rightarrow> rule_row" where
  "policy_row i revision p = \<lparr> ru_id = i, ru_post = ap_PostID p, ru_signal = ap_Signal p, ru_operator = ap_Operator p, ru_threshold = ap_Threshold p, ru_duration = ap_DurationSeconds p,
     ru_recovery = ap_RecoveryThreshold p, ru_missing = ap_MissingPolicy p, ru_severity = ap_Severity p, ru_enabled = ap_Enabled p, ru_version = revision \<rparr>"

definition merge_route :: "notificationPayload \<Rightarrow> route_row \<Rightarrow> route_row" where
  "merge_route p r = r\<lparr> rt_kind := np_Kind p, rt_destination := np_Destination p, rt_enabled := np_Enabled p \<rparr>"

definition applied :: "db \<Rightarrow> err + db \<Rightarrow> AppliedRevision \<Rightarrow> db \<times> (err + AppliedRevision)" where
  "applied d r a = (case r of Inl e \<Rightarrow> (d, Inl e) | Inr d' \<Rightarrow> (d', Inr a))"

definition apply_monitor :: "time \<Rightarrow> Envelope \<Rightarrow> db \<Rightarrow> db \<times> (err + AppliedRevision)" where
  "apply_monitor now e d = (case monitor_of_json (ev_Payload e) of Inl x \<Rightarrow> (d, Inl x)
     | Inr p \<Rightarrow> applied d (exec (\<lambda>d. d\<lparr> check_schedules := upsert cs_id (schedule_row now (ev_ID e) p) (merge_schedule p) (check_schedules d) \<rparr>) d)
         \<lparr> ar_Kind = ev_Kind e, ar_ID = ev_ID e, ar_Before = int (count_where (\<lambda>s. cs_id s = ev_ID e) (check_schedules d)), ar_After = ev_Revision e, ar_Reversible = True \<rparr>)"

definition apply_policy :: "Envelope \<Rightarrow> db \<Rightarrow> db \<times> (err + AppliedRevision)" where
  "apply_policy e d = (case alert_of_json (ev_Payload e) of Inl x \<Rightarrow> (d, Inl x)
     | Inr p \<Rightarrow> applied d (exec (\<lambda>d. d\<lparr> rules := upsert ru_id (policy_row (ev_ID e) (ev_Revision e) p) (\<lambda>_. policy_row (ev_ID e) (ev_Revision e) p) (rules d) \<rparr>) d)
         \<lparr> ar_Kind = ev_Kind e, ar_ID = ev_ID e, ar_Before = (case find (\<lambda>r. ru_id r = ev_ID e) (rules d) of None \<Rightarrow> 0 | Some r \<Rightarrow> ru_version r),
           ar_After = ev_Revision e, ar_Reversible = True \<rparr>)"

definition apply_route :: "Envelope \<Rightarrow> db \<Rightarrow> db \<times> (err + AppliedRevision)" where
  "apply_route e d = (case notification_of_json (ev_Payload e) of Inl x \<Rightarrow> (d, Inl x)
     | Inr p \<Rightarrow> case query (\<lambda>d. find (\<lambda>r. rt_id r = ev_ID e) (notification_routes d)) d of Inl x \<Rightarrow> (d, Inl x)
       | Inr found \<Rightarrow> if found = None \<and> ev_Secrets e \<noteq> [] then (d, Inl (Err ''notification route requires destination secret''))
           else let secret = (case found of None \<Rightarrow> [] | Some r \<Rightarrow> rt_secret r) in
             applied d (exec (\<lambda>d. d\<lparr> notification_routes := upsert rt_id \<lparr> rt_id = ev_ID e, rt_kind = np_Kind p, rt_destination = np_Destination p, rt_secret = secret, rt_enabled = np_Enabled p \<rparr>
                 (merge_route p) (notification_routes d) \<rparr>) d)
               \<lparr> ar_Kind = ev_Kind e, ar_ID = ev_ID e, ar_Before = 0, ar_After = ev_Revision e, ar_Reversible = True \<rparr>)"

definition propagation_Apply :: "core \<Rightarrow> bool \<Rightarrow> time \<Rightarrow> Envelope \<Rightarrow> db \<Rightarrow> db \<times> (err + AppliedRevision)" where
  "propagation_Apply core gate now e d = (case ValidateEnvelope core e of Inl x \<Rightarrow> (d, Inl x)
     | Inr _ \<Rightarrow> if gate then (d, Inl (Err ''propagation apply rejected: replicated state must be mutated through the replicated adapter''))
       else if ev_Kind e = ''monitor'' then apply_monitor now e d
       else if ev_Kind e = ''alert-policy'' then apply_policy e d
       else if ev_Kind e = ''notification-config'' then apply_route e d
       else (d, Inl (Err ''unsupported kind'')))"

definition delete_object :: "string \<Rightarrow> id \<Rightarrow> db \<Rightarrow> db" where
  "delete_object kind i d = (if kind = ''monitor'' then del_check_schedules (\<lambda>s. cs_id s = i) d
     else if kind = ''alert-policy'' then d\<lparr> rules := del_where (\<lambda>r. ru_id r = i) (rules d) \<rparr>
     else if kind = ''notification-config'' then d\<lparr> notification_routes := del_where (\<lambda>r. rt_id r = i) (notification_routes d) \<rparr>
     else d)"

definition restore_permission :: "string \<Rightarrow> string" where
  "restore_permission kind = (if kind = ''monitor'' then ''monitor.update'' else if kind = ''alert-policy'' then ''alert.update''
     else if kind = ''notification-config'' then ''notification.update'' else [])"

definition restore_envelope :: "ObjectState \<Rightarrow> Envelope" where
  "restore_envelope s = (let x = os_Existing s in \<lparr> ev_Kind = ex_Kind x, ev_ID = ex_ID x, ev_SchemaVersion = 1, ev_Revision = max1 (ex_Revision x), ev_SourceNode = ''rollback'',
     ev_CreatedAt = None, ev_Target = ''local'', ev_Conflict = ''source-wins'', ev_Actor = no_actor\<lparr> ac_Permission := restore_permission (ex_Kind x) \<rparr>, ev_Payload = os_Payload s,
     ev_Secrets = [], ev_Dependencies = [], ev_Digest = [] \<rparr>)"

definition propagation_Restore :: "core \<Rightarrow> bool \<Rightarrow> time \<Rightarrow> ObjectState \<Rightarrow> db \<Rightarrow> db \<times> (err + unit)" where
  "propagation_Restore core gate now s d = (if ex_Revision (os_Existing s) = 0 \<and> os_Payload s = None
     then (case exec (delete_object (ex_Kind (os_Existing s)) (ex_ID (os_Existing s))) d of Inl e \<Rightarrow> (d, Inl e) | Inr d' \<Rightarrow> (d', Inr ()))
     else case propagation_Apply core gate now (restore_envelope s) d of (d', r) \<Rightarrow> (d', map_sum id (\<lambda>_. ()) r))"

section \<open>Profiles and history\<close>

record core_profile =
  cr_ID :: id
  cr_Name :: string
  cr_Selector :: json
  cr_Kinds :: "string list"
  cr_Mode :: string
  cr_Schedule :: string
  cr_MaintenanceWindow :: string
  cr_Enabled :: bool
  cr_LastRunAt :: "time option"

definition profile_of :: "time \<Rightarrow> time \<Rightarrow> core_profile \<Rightarrow> propagation_profile" where
  "profile_of created now p = \<lparr> pp_id = cr_ID p, pp_name = cr_Name p, pp_selector = cr_Selector p, pp_kinds = JArr (map JStr (cr_Kinds p)), pp_mode = cr_Mode p, pp_schedule = cr_Schedule p,
     pp_window = cr_MaintenanceWindow p, pp_enabled = cr_Enabled p, pp_last_run = cr_LastRunAt p, pp_created = created, pp_updated = now \<rparr>"

definition SaveProfile :: "time \<Rightarrow> core_profile \<Rightarrow> db \<Rightarrow> err + db" where
  "SaveProfile now p = exec (\<lambda>d. d\<lparr> propagation_profiles := upsert propagation_profile.pp_id (profile_of now now p) (\<lambda>r. profile_of (propagation_profile.pp_created r) now p) (propagation_profiles d) \<rparr>)"

definition DeleteProfile :: "id \<Rightarrow> db \<Rightarrow> err + db" where
  "DeleteProfile i = exec (\<lambda>d. d\<lparr> propagation_profiles := del_where (\<lambda>p. pp_id p = i) (propagation_profiles d) \<rparr>)"

text \<open>A list column that is no list of strings leaves the list empty.\<close>

definition strings_of :: "json \<Rightarrow> string list" where
  "strings_of j = (case j of JArr js \<Rightarrow> if list_all (\<lambda>x. as_string x \<noteq> None) js then map (\<lambda>x. the (as_string x)) js else [] | _ \<Rightarrow> [])"

definition core_profile_of :: "propagation_profile \<Rightarrow> core_profile" where
  "core_profile_of r = \<lparr> cr_ID = pp_id r, cr_Name = propagation_profile.pp_name r, cr_Selector = pp_selector r, cr_Kinds = strings_of (pp_kinds r), cr_Mode = pp_mode r, cr_Schedule = pp_schedule r,
     cr_MaintenanceWindow = pp_window r, cr_Enabled = pp_enabled r, cr_LastRunAt = pp_last_run r \<rparr>"

definition propagation_ListProfiles :: "db \<Rightarrow> err + core_profile list" where
  "propagation_ListProfiles d = query (\<lambda>d. map core_profile_of (sort_key (\<lambda>r. (propagation_profile.pp_name r, pp_id r)) (propagation_profiles d))) d"

definition RecordHistory :: "propagation_record \<Rightarrow> db \<Rightarrow> err + db" where
  "RecordHistory h = exec (\<lambda>d. d\<lparr> propagation_history := del_where (\<lambda>r. ph_id r = ph_id h) (propagation_history d) @ [h] \<rparr>)"

definition ListHistory :: "int \<Rightarrow> db \<Rightarrow> err + propagation_record list" where
  "ListHistory limit d = query (\<lambda>d. let hs = rev (sort_key (\<lambda>r. text_key (ph_created r)) (rev (propagation_history d))) in if limit < 0 then hs else take (nat limit) hs) d"

section \<open>Round trips of payloads\<close>

lemma nocase_names:
  "nocase ''post_id'' = ''post_id''" "nocase ''kind'' = ''kind''" "nocase ''address'' = ''address''" "nocase ''server_name'' = ''server_name''"
  "nocase ''interval_seconds'' = ''interval_seconds''" "nocase ''enabled'' = ''enabled''" "nocase ''signal'' = ''signal''" "nocase ''operator'' = ''operator''"
  "nocase ''threshold'' = ''threshold''" "nocase ''duration_seconds'' = ''duration_seconds''" "nocase ''recovery_threshold'' = ''recovery_threshold''"
  "nocase ''missing_policy'' = ''missing_policy''" "nocase ''severity'' = ''severity''" "nocase ''destination'' = ''destination''"
  by code_simp+

lemma members_Cons: "members name ((k, v) # kvs) = (if nocase k = name \<and> v \<noteq> JNull then v # members name kvs else members name kvs)"
  and members_Nil: "members name [] = []"
  by (simp_all add: members_def)

lemma read_one: "members name kvs = [v] \<Longrightarrow> conv v = Some x \<Longrightarrow> read_field conv zero name kvs = Inr x"
  and read_none: "members name kvs = [] \<Longrightarrow> read_field conv zero name kvs = Inr zero"
  by (simp_all add: read_field_def)

definition alert_members :: "alertPayload \<Rightarrow> (string \<times> json) list" where
  "alert_members p = [(''post_id'', JStr (ap_PostID p)), (''signal'', JStr (ap_Signal p)), (''operator'', JStr (ap_Operator p)), (''threshold'', JNum (ap_Threshold p)),
       (''duration_seconds'', JNum (Num (of_int (ap_DurationSeconds p))))] @
       (case ap_RecoveryThreshold p of None \<Rightarrow> [] | Some v \<Rightarrow> [(''recovery_threshold'', JNum v)]) @
       [(''missing_policy'', JStr (ap_MissingPolicy p)), (''severity'', JStr (ap_Severity p)), (''enabled'', JBool (ap_Enabled p))]"

lemma alert_member:
  "members ''post_id'' (alert_members p) = [JStr (ap_PostID p)]" "members ''signal'' (alert_members p) = [JStr (ap_Signal p)]" "members ''operator'' (alert_members p) = [JStr (ap_Operator p)]"
  "members ''threshold'' (alert_members p) = [JNum (ap_Threshold p)]" "members ''duration_seconds'' (alert_members p) = [JNum (Num (of_int (ap_DurationSeconds p)))]"
  "members ''recovery_threshold'' (alert_members p) = (case ap_RecoveryThreshold p of None \<Rightarrow> [] | Some v \<Rightarrow> [JNum v])"
  "members ''missing_policy'' (alert_members p) = [JStr (ap_MissingPolicy p)]" "members ''severity'' (alert_members p) = [JStr (ap_Severity p)]" "members ''enabled'' (alert_members p) = [JBool (ap_Enabled p)]"
  by (simp_all add: alert_members_def members_Cons members_Nil nocase_names split: option.split)

lemma alert_roundtrip:
  assumes "alert_json p = Inr j" and "- (2 ^ 63) \<le> ap_DurationSeconds p" and "ap_DurationSeconds p < 2 ^ 63"
  shows "alert_of_json (Some j) = Inr p"
proof -
  have j: "j = JObj (alert_members p)"
    using assms(1) unfolding alert_json_def alert_members_def by (metis Inl_Inr_False Inr_inject)
  have rec: "read_field (\<lambda>j. map_option Some (as_float j)) None ''recovery_threshold'' (alert_members p) = Inr (ap_RecoveryThreshold p)"
    using alert_member(6) [of p] by (cases "ap_RecoveryThreshold p") (simp_all add: read_field_def)
  note read = alert_member(1-5,7-9) [THEN read_one]
  show ?thesis
    unfolding j alert_of_json_def unmarshal_object_def using assms(2,3) by (simp add: read rec)
qed

definition monitor_members :: "monitorPayload \<Rightarrow> (string \<times> json) list" where
  "monitor_members p = [(''post_id'', JStr (mp_PostID p)), (''kind'', JStr (mp_Kind p)), (''address'', JStr (mp_Address p))] @
     (if mp_ServerName p = [] then [] else [(''server_name'', JStr (mp_ServerName p))]) @
     [(''interval_seconds'', JNum (Num (of_int (mp_IntervalSeconds p)))), (''enabled'', JBool (mp_Enabled p))]"

lemma monitor_member:
  "members ''post_id'' (monitor_members p) = [JStr (mp_PostID p)]" "members ''kind'' (monitor_members p) = [JStr (mp_Kind p)]" "members ''address'' (monitor_members p) = [JStr (mp_Address p)]"
  "members ''server_name'' (monitor_members p) = (if mp_ServerName p = [] then [] else [JStr (mp_ServerName p)])"
  "members ''interval_seconds'' (monitor_members p) = [JNum (Num (of_int (mp_IntervalSeconds p)))]" "members ''enabled'' (monitor_members p) = [JBool (mp_Enabled p)]"
  by (simp_all add: monitor_members_def members_Cons members_Nil nocase_names)

lemma monitor_roundtrip:
  assumes "monitor_json p = Inr j" and "- (2 ^ 63) \<le> mp_IntervalSeconds p" and "mp_IntervalSeconds p < 2 ^ 63"
  shows "monitor_of_json (Some j) = Inr p"
proof -
  have j: "j = JObj (monitor_members p)"
    using assms(1) unfolding monitor_json_def monitor_members_def by (metis Inr_inject)
  have server: "read_field as_string [] ''server_name'' (monitor_members p) = Inr (mp_ServerName p)"
    using monitor_member(4) [of p] by (cases "mp_ServerName p = []") (simp_all add: read_field_def)
  note read = monitor_member(1-3,5,6) [THEN read_one]
  show ?thesis
    unfolding j monitor_of_json_def unmarshal_object_def using assms(2,3) by (simp add: read server)
qed

definition route_members :: "notificationPayload \<Rightarrow> (string \<times> json) list" where
  "route_members p = [(''kind'', JStr (np_Kind p)), (''destination'', JStr (np_Destination p)), (''enabled'', JBool (np_Enabled p))]"

lemma route_member:
  "members ''kind'' (route_members p) = [JStr (np_Kind p)]" "members ''destination'' (route_members p) = [JStr (np_Destination p)]" "members ''enabled'' (route_members p) = [JBool (np_Enabled p)]"
  by (simp_all add: route_members_def members_Cons members_Nil nocase_names)

lemma notification_roundtrip:
  assumes "notification_json p = Inr j"
  shows "notification_of_json (Some j) = Inr p"
proof -
  have j: "j = JObj (route_members p)"
    using assms unfolding notification_json_def route_members_def by (metis Inr_inject)
  show ?thesis
    unfolding j notification_of_json_def unmarshal_object_def by (simp add: route_member [THEN read_one])
qed

section \<open>Rows that are written and rows that are put back\<close>

lemma upsert_absent: "key row \<notin> key ` set xs \<Longrightarrow> del_where (\<lambda>x. key x = key row) (upsert key row merge xs) = xs"
  by (simp add: upsert_def del_where_def) (metis (mono_tags, lifting) filter_True image_eqI)

lemma upsert_present:
  assumes "r \<in> set xs" and "distinct (map key xs)" and "key row = key r" and "key row' = key r" and "\<And>x. key x = key r \<Longrightarrow> key (merge x) = key r" and "merge' (merge r) = r"
  shows "upsert key row' merge' (upsert key row merge xs) = xs"
proof -
  have one: "x = r" if "x \<in> set xs" "key x = key r" for x
    using that assms(1,2) by (metis distinct_map inj_onD)
  have "key r \<in> key ` set xs"
    using assms(1) by simp
  then have "upsert key row merge xs = upd_where (\<lambda>x. key x = key r) merge xs"
    using assms(3) by (simp add: upsert_def)
  moreover have "merge r \<in> set (upd_where (\<lambda>x. key x = key r) merge xs)"
    using assms(1) by (auto simp: set_upd_where intro: rev_image_eqI)
  then have "key r \<in> key ` set (upd_where (\<lambda>x. key x = key r) merge xs)"
    using assms(5) [of r] by (metis image_eqI)
  ultimately have "upsert key row' merge' (upsert key row merge xs) = upd_where (\<lambda>x. key x = key r) merge' (upd_where (\<lambda>x. key x = key r) merge xs)"
    using assms(4) by (simp add: upsert_def)
  also have "\<dots> = map (\<lambda>x. if key x = key r then merge' (merge x) else x) xs"
    using assms(5) by (simp add: upd_where_def)
  also have "\<dots> = xs"
    by (rule map_idI) (use one assms(6) in auto)
  finally show ?thesis .
qed

lemma upsert_find:
  assumes "key row = k" and "\<And>x. key x = k \<Longrightarrow> key (merge x) = k" and "\<And>x. x \<in> set xs \<Longrightarrow> key x = k \<Longrightarrow> merge x = row"
  shows "find (\<lambda>x. key x = k) (upsert key row merge xs) = Some row" and "filter (\<lambda>x. key x \<noteq> k) (upsert key row merge xs) = filter (\<lambda>x. key x \<noteq> k) xs"
proof -
  have "find (\<lambda>x. key x = k) (upd_where (\<lambda>x. key x = k) merge ys) = Some row" if "k \<in> key ` set ys" "set ys \<subseteq> set xs" for ys
    using that by (induction ys) (use assms in \<open>auto simp: upd_where_def\<close>)
  moreover have "find (\<lambda>x. key x = k) (ys @ [row]) = Some row" if "k \<notin> key ` set ys" for ys
    using that by (induction ys) (use assms(1) in auto)
  ultimately show "find (\<lambda>x. key x = k) (upsert key row merge xs) = Some row"
    using assms(1) by (simp add: upsert_def)
  have "filter (\<lambda>x. key x \<noteq> k) (upd_where (\<lambda>x. key x = k) merge ys) = filter (\<lambda>x. key x \<noteq> k) ys" for ys
    by (induction ys) (use assms in \<open>auto simp: upd_where_def\<close>)
  then show "filter (\<lambda>x. key x \<noteq> k) (upsert key row merge xs) = filter (\<lambda>x. key x \<noteq> k) xs"
    using assms(1) by (simp add: upsert_def)
qed

section \<open>What a snapshot holds\<close>

text \<open>What the code relies on of \<open>core\<close>: validation may complete an envelope, the fields the adapter reads stay.\<close>

definition core_keeps :: "core \<Rightarrow> bool" where
  "core_keeps core \<longleftrightarrow> (\<forall>e e'. core e = Inr e' \<longrightarrow> ev_Kind e' = ev_Kind e \<and> ev_ID e' = ev_ID e \<and> ev_Revision e' = ev_Revision e \<and> ev_Payload e' = ev_Payload e \<and> ev_Actor e' = ev_Actor e)"

lemma foldE_traverse: "foldE (\<lambda>x ys. bindE (f x) (\<lambda>y. Inr (ys @ [y]))) xs ys = Inr zs \<Longrightarrow> \<exists>us. zs = ys @ us \<and> list_all2 (\<lambda>x y. f x = Inr y) xs us"
proof (induction xs arbitrary: ys)
  case (Cons x xs)
  then obtain y where "f x = Inr y" and "foldE (\<lambda>x ys. bindE (f x) (\<lambda>y. Inr (ys @ [y]))) xs (ys @ [y]) = Inr zs"
    by (cases "f x") auto
  moreover then obtain us where "zs = (ys @ [y]) @ us" and "list_all2 (\<lambda>x y. f x = Inr y) xs us"
    using Cons.IH by blast
  ultimately show ?case
    by (intro exI [of _ "y # us"]) simp
qed simp

lemma traverse_set: "traverse f xs = Inr ys \<Longrightarrow> set ys = {y. \<exists>x\<in>set xs. f x = Inr y} \<and> (\<forall>x\<in>set xs. \<exists>y. f x = Inr y)"
  using foldE_traverse [of f xs "[]" ys] unfolding traverse_def list_all2_conv_all_nth set_conv_nth by fastforce

lemma envelope_fields:
  assumes "core_keeps core" and "envelope core now kind i revision source target actor payload refs deps = Inr e"
  shows "ev_Kind e = kind \<and> ev_ID e = i \<and> ev_Revision e = revision \<and> ev_Actor e = actor \<and> (\<exists>b. payload = Inr b \<and> ev_Payload e = Some b)"
  using assms unfolding core_keeps_def envelope_def by (cases payload) fastforce+

lemma Export_set:
  assumes "Export core now [] actor target d = Inr es"
  shows "set es = {e. (\<exists>s\<in>set (check_schedules d). monitor_envelope core now actor target s = Inr e) \<or> (\<exists>r\<in>set (rules d). alert_envelope core now actor target r = Inr e) \<or>
      (\<exists>r\<in>set (notification_routes d). route_envelope core now actor target r = Inr e)}" and
    "\<forall>s\<in>set (check_schedules d). \<exists>e. monitor_envelope core now actor target s = Inr e" and
    "\<forall>r\<in>set (rules d). \<exists>e. alert_envelope core now actor target r = Inr e" and
    "\<forall>r\<in>set (notification_routes d). \<exists>e. route_envelope core now actor target r = Inr e"
proof -
  have io: "\<not> io_fault d"
    using assms by (auto simp: Export_def selected_def query_def)
  then obtain ms as ns where ms: "traverse (monitor_envelope core now actor target) (sort_key cs_id (check_schedules d)) = Inr ms"
    and as: "traverse (alert_envelope core now actor target) (sort_key ru_id (rules d)) = Inr as"
    and ns: "traverse (route_envelope core now actor target) (sort_key rt_id (notification_routes d)) = Inr ns"
    and "es = sort_key (\<lambda>e. (ev_Kind e, ev_ID e)) (ms @ as @ ns)"
    using assms by (simp add: Export_def selected_def query_def bindE_eq_Inr) metis
  then have "set es = set ms \<union> set as \<union> set ns"
    by auto
  then show "set es = {e. (\<exists>s\<in>set (check_schedules d). monitor_envelope core now actor target s = Inr e) \<or> (\<exists>r\<in>set (rules d). alert_envelope core now actor target r = Inr e) \<or>
      (\<exists>r\<in>set (notification_routes d). route_envelope core now actor target r = Inr e)}"
    using traverse_set [OF ms] traverse_set [OF as] traverse_set [OF ns] by auto
  show "\<forall>s\<in>set (check_schedules d). \<exists>e. monitor_envelope core now actor target s = Inr e" "\<forall>r\<in>set (rules d). \<exists>e. alert_envelope core now actor target r = Inr e"
    "\<forall>r\<in>set (notification_routes d). \<exists>e. route_envelope core now actor target r = Inr e"
    using traverse_set [OF ms] traverse_set [OF as] traverse_set [OF ns] by auto
qed

lemma monitor_envelope_fields:
  assumes "core_keeps core" and "monitor_envelope core now actor target s = Inr e" and "- (2 ^ 63) \<le> cs_interval s" and "cs_interval s < 2 ^ 63"
  shows "ev_Kind e = ''monitor'' \<and> ev_ID e = cs_id s \<and> ev_Revision e = 1 \<and> monitor_of_json (ev_Payload e) = Inr (monitor_payload s)"
proof -
  have "- (2 ^ 63) \<le> mp_IntervalSeconds (monitor_payload s)" "mp_IntervalSeconds (monitor_payload s) < 2 ^ 63"
    using assms(3,4) by (simp_all add: monitor_payload_def)
  then show ?thesis
    using envelope_fields [OF assms(1) assms(2) [unfolded monitor_envelope_def]] monitor_roundtrip by metis
qed

lemma alert_envelope_fields:
  assumes "core_keeps core" and "alert_envelope core now actor target r = Inr e" and "- (2 ^ 63) \<le> ru_duration r" and "ru_duration r < 2 ^ 63"
  shows "ev_Kind e = ''alert-policy'' \<and> ev_ID e = ru_id r \<and> ev_Revision e = max1 (ru_version r) \<and> ac_Permission (ev_Actor e) = ''alert.update'' \<and>
    alert_of_json (ev_Payload e) = Inr (alert_payload r)"
proof -
  have "- (2 ^ 63) \<le> ap_DurationSeconds (alert_payload r)" "ap_DurationSeconds (alert_payload r) < 2 ^ 63"
    using assms(3,4) by (simp_all add: alert_payload_def)
  moreover note f = envelope_fields [OF assms(1) assms(2) [unfolded alert_envelope_def]]
  then obtain b where "alert_json (alert_payload r) = Inr b" and "ev_Payload e = Some b"
    by blast
  ultimately have "alert_of_json (ev_Payload e) = Inr (alert_payload r)"
    using alert_roundtrip by metis
  then show ?thesis
    using f by simp
qed

lemma route_envelope_fields:
  assumes "core_keeps core" and "route_envelope core now actor target r = Inr e"
  shows "ev_Kind e = ''notification-config'' \<and> ev_ID e = rt_id r \<and> ev_Revision e = 1 \<and> notification_of_json (ev_Payload e) = Inr (route_payload r)"
  using envelope_fields [OF assms(1) assms(2) [unfolded route_envelope_def]] notification_roundtrip by metis

text \<open>The state an application would be undone to: the entry of the snapshot, or the empty state of an object that is not there.\<close>

definition prior_state :: "core \<Rightarrow> time \<Rightarrow> Envelope \<Rightarrow> db \<Rightarrow> err + ObjectState" where
  "prior_state core now e d = bindE (propagation_Snapshot core now [] d) (\<lambda>snap. Inr (case map_of snap (ev_Kind e @ ''/'' @ ev_ID e) of Some s \<Rightarrow> s
     | None \<Rightarrow> \<lparr> os_Existing = \<lparr> ex_Kind = ev_Kind e, ex_ID = ev_ID e, ex_Digest = [], ex_Revision = 0 \<rparr>, os_Payload = None, os_Reversible = True \<rparr>))"

lemma slash_inj: "k @ ''/'' @ i = k' @ ''/'' @ i' \<Longrightarrow> CHR ''/'' \<notin> set k \<Longrightarrow> CHR ''/'' \<notin> set k' \<Longrightarrow> k = k' \<and> i = i'"
proof -
  have "takeWhile (\<lambda>c. c \<noteq> CHR ''/'') (k @ ''/'' @ i) = k" if "CHR ''/'' \<notin> set k" for k i
    using that by (subst takeWhile_append2) auto
  then show "k = k' \<and> i = i'" if "k @ ''/'' @ i = k' @ ''/'' @ i'" "CHR ''/'' \<notin> set k" "CHR ''/'' \<notin> set k'"
    using that by (metis append_Cons append_Nil append_same_eq list.inject same_append_eq)
qed

definition columns_ok :: "db \<Rightarrow> bool" where
  "columns_ok d \<longleftrightarrow> (\<forall>s\<in>set (check_schedules d). - (2 ^ 63) \<le> cs_interval s \<and> cs_interval s < 2 ^ 63) \<and>
     (\<forall>r\<in>set (rules d). - (2 ^ 63) \<le> ru_duration r \<and> ru_duration r < 2 ^ 63 \<and> 1 \<le> ru_version r)"

lemma exported_kind:
  assumes "core_keeps core" and "columns_ok d" and "Export core now [] actor target d = Inr es" and "e \<in> set es"
  shows "(\<exists>s\<in>set (check_schedules d). monitor_envelope core now actor target s = Inr e \<and> ev_Kind e = ''monitor'' \<and> ev_ID e = cs_id s) \<or>
    (\<exists>r\<in>set (rules d). alert_envelope core now actor target r = Inr e \<and> ev_Kind e = ''alert-policy'' \<and> ev_ID e = ru_id r) \<or>
    (\<exists>r\<in>set (notification_routes d). route_envelope core now actor target r = Inr e \<and> ev_Kind e = ''notification-config'' \<and> ev_ID e = rt_id r)"
  using assms(4) monitor_envelope_fields [OF assms(1)] alert_envelope_fields [OF assms(1)] route_envelope_fields [OF assms(1)] assms(2)
  unfolding Export_set(1) [OF assms(3)] columns_ok_def by blast

lemma exported_row:
  assumes "core_keeps core" and "columns_ok d" and "Export core now [] actor target d = Inr es"
  shows "s \<in> set (check_schedules d) \<Longrightarrow> \<exists>x\<in>set es. ev_Kind x = ''monitor'' \<and> ev_ID x = cs_id s"
    and "r \<in> set (rules d) \<Longrightarrow> \<exists>x\<in>set es. ev_Kind x = ''alert-policy'' \<and> ev_ID x = ru_id r"
    and "n \<in> set (notification_routes d) \<Longrightarrow> \<exists>x\<in>set es. ev_Kind x = ''notification-config'' \<and> ev_ID x = rt_id n"
proof -
  note es = Export_set [OF assms(3)]
  show "\<exists>x\<in>set es. ev_Kind x = ''monitor'' \<and> ev_ID x = cs_id s" if s: "s \<in> set (check_schedules d)"
  proof -
    obtain x where "monitor_envelope core now actor target s = Inr x"
      using es(2) s by blast
    then show ?thesis
      using monitor_envelope_fields [OF assms(1)] assms(2) s unfolding es(1) columns_ok_def by blast
  qed
  show "\<exists>x\<in>set es. ev_Kind x = ''alert-policy'' \<and> ev_ID x = ru_id r" if r: "r \<in> set (rules d)"
  proof -
    obtain x where "alert_envelope core now actor target r = Inr x"
      using es(3) r by blast
    then show ?thesis
      using alert_envelope_fields [OF assms(1)] assms(2) r unfolding es(1) columns_ok_def by blast
  qed
  show "\<exists>x\<in>set es. ev_Kind x = ''notification-config'' \<and> ev_ID x = rt_id n" if n: "n \<in> set (notification_routes d)"
  proof -
    obtain x where "route_envelope core now actor target n = Inr x"
      using es(4) n by blast
    then show ?thesis
      using route_envelope_fields [OF assms(1)] n unfolding es(1) by blast
  qed
qed

lemma prior_state_cases:
  assumes "core_keeps core" and "columns_ok d" and "prior_state core now e d = Inr s" and "CHR ''/'' \<notin> set (ev_Kind e)"
  obtains es where "Export core now [] no_actor ''local'' d = Inr es" and "\<forall>x\<in>set es. \<not> (ev_Kind x = ev_Kind e \<and> ev_ID x = ev_ID e)"
      and "ex_Revision (os_Existing s) = 0 \<and> os_Payload s = None \<and> ex_Kind (os_Existing s) = ev_Kind e \<and> ex_ID (os_Existing s) = ev_ID e"
  | es x where "Export core now [] no_actor ''local'' d = Inr es" and "x \<in> set es" and "ev_Kind x = ev_Kind e" and "ev_ID x = ev_ID e" and "s = object_state x"
proof -
  obtain es where es: "Export core now [] no_actor ''local'' d = Inr es"
    and s: "s = (case map_of (map (\<lambda>e. (ev_Kind e @ ''/'' @ ev_ID e, object_state e)) es) (ev_Kind e @ ''/'' @ ev_ID e) of Some s \<Rightarrow> s
      | None \<Rightarrow> \<lparr> os_Existing = \<lparr> ex_Kind = ev_Kind e, ex_ID = ev_ID e, ex_Digest = [], ex_Revision = 0 \<rparr>, os_Payload = None, os_Reversible = True \<rparr>)"
    using assms(3) by (auto simp: prior_state_def propagation_Snapshot_def bindE_eq_Inr)
  show thesis
  proof (cases "map_of (map (\<lambda>e. (ev_Kind e @ ''/'' @ ev_ID e, object_state e)) es) (ev_Kind e @ ''/'' @ ev_ID e)")
    case None
    then have "ev_Kind e @ ''/'' @ ev_ID e \<notin> (\<lambda>x. ev_Kind x @ ''/'' @ ev_ID x) ` set es"
      unfolding map_of_eq_None_iff set_map image_image fst_conv .
    then have "\<forall>x\<in>set es. \<not> (ev_Kind x = ev_Kind e \<and> ev_ID x = ev_ID e)"
      by (auto simp: image_iff simp del: append_Cons)
    then show thesis
      using that(1) [OF es] None s by simp
  next
    case (Some s')
    then obtain x where x: "x \<in> set es" "ev_Kind e @ ''/'' @ ev_ID e = ev_Kind x @ ''/'' @ ev_ID x" "s' = object_state x"
      by (auto dest!: map_of_SomeD)
    have "CHR ''/'' \<notin> set (ev_Kind x)"
      using exported_kind [OF assms(1,2) es x(1)] by auto
    then show thesis
      using that(2) [OF es x(1)] slash_inj [OF x(2) assms(4)] s Some x(3) by simp
  qed
qed

section \<open>Rollback\<close>

lemma applied_Inr: "applied d (exec f d) x = (d', Inr a) \<Longrightarrow> \<not> io_fault d \<and> d' = f d"
  by (auto simp: applied_def exec_def split: if_splits)

lemma put_back: "\<not> io_fault d \<Longrightarrow> constraints (f d) \<Longrightarrow> applied d (exec f d) x = (f d, Inr x)"
  by (simp add: applied_def exec_def)

lemma apply_policy_Inr:
  assumes "apply_policy e d = (d', Inr a)"
  obtains row where "ru_id row = ev_ID e" and "\<not> io_fault d" and "d' = d\<lparr> rules := upsert ru_id row (\<lambda>_. row) (rules d) \<rparr>"
proof -
  obtain p where "\<not> io_fault d \<and> d' = d\<lparr> rules := upsert ru_id (policy_row (ev_ID e) (ev_Revision e) p) (\<lambda>_. policy_row (ev_ID e) (ev_Revision e) p) (rules d) \<rparr>"
    using assms unfolding apply_policy_def by (auto split: sum.splits dest: applied_Inr)
  then show thesis
    by (intro that [of "policy_row (ev_ID e) (ev_Revision e) p"]) (simp_all add: policy_row_def)
qed

lemma apply_monitor_Inr:
  assumes "apply_monitor now e d = (d', Inr a)"
  obtains p where "\<not> io_fault d" and "d' = d\<lparr> check_schedules := upsert cs_id (schedule_row now (ev_ID e) p) (merge_schedule p) (check_schedules d) \<rparr>"
  using assms unfolding apply_monitor_def by (auto split: sum.splits dest: applied_Inr)

lemma apply_route_Inr:
  assumes "apply_route e d = (d', Inr a)"
  obtains row p where "rt_id row = ev_ID e" and "\<not> io_fault d" and "d' = d\<lparr> notification_routes := upsert rt_id row (merge_route p) (notification_routes d) \<rparr>"
proof -
  have io: "\<not> io_fault d"
    using assms by (auto simp: apply_route_def query_def split: sum.splits)
  obtain p where p: "notification_of_json (ev_Payload e) = Inr p"
    using assms by (auto simp: apply_route_def split: sum.splits)
  define row where "row = \<lparr> rt_id = ev_ID e, rt_kind = np_Kind p, rt_destination = np_Destination p,
    rt_secret = (case find (\<lambda>r. rt_id r = ev_ID e) (notification_routes d) of None \<Rightarrow> [] | Some r \<Rightarrow> rt_secret r), rt_enabled = np_Enabled p \<rparr>"
  have "applied d (exec (\<lambda>d. d\<lparr> notification_routes := upsert rt_id row (merge_route p) (notification_routes d) \<rparr>) d)
     \<lparr> ar_Kind = ev_Kind e, ar_ID = ev_ID e, ar_Before = 0, ar_After = ev_Revision e, ar_Reversible = True \<rparr> = (d', Inr a)"
    using assms io unfolding apply_route_def p row_def by (simp add: query_def Let_def split: if_splits)
  from applied_Inr [OF this] show thesis
    using that [of row p] by (simp add: row_def)
qed

lemma restore_fields [simp]:
  "ev_Kind (restore_envelope s) = ex_Kind (os_Existing s)" "ev_ID (restore_envelope s) = ex_ID (os_Existing s)" "ev_Revision (restore_envelope s) = max1 (ex_Revision (os_Existing s))"
  "ev_Payload (restore_envelope s) = os_Payload s" "ac_Permission (ev_Actor (restore_envelope s)) = restore_permission (ex_Kind (os_Existing s))" "ev_Secrets (restore_envelope s) = []"
  by (simp_all add: restore_envelope_def Let_def no_actor_def)

lemma object_state_fields [simp]:
  "ex_Kind (os_Existing (object_state x)) = ev_Kind x" "ex_ID (os_Existing (object_state x)) = ev_ID x" "ex_Revision (os_Existing (object_state x)) = ev_Revision x"
  "os_Payload (object_state x) = ev_Payload x"
  by (simp_all add: object_state_def)

lemma restore_applies:
  assumes "core (restore_envelope s) = Inr v" and "ex_Kind (os_Existing s) \<in> {''monitor'', ''alert-policy'', ''notification-config''}"
  shows "propagation_Apply core False now (restore_envelope s) d = (if ex_Kind (os_Existing s) = ''monitor'' then apply_monitor now (restore_envelope s) d
    else if ex_Kind (os_Existing s) = ''alert-policy'' then apply_policy (restore_envelope s) d else apply_route (restore_envelope s) d)"
  using assms by (auto simp: propagation_Apply_def ValidateEnvelope_def kind_Policy_def policies_def restore_permission_def)

lemma payload_there:
  "alert_of_json p = Inr x \<Longrightarrow> p \<noteq> None" "monitor_of_json p = Inr y \<Longrightarrow> p \<noteq> None" "notification_of_json p = Inr z \<Longrightarrow> p \<noteq> None"
  by (cases p; simp add: alert_of_json_def monitor_of_json_def notification_of_json_def unmarshal_object_def)+

lemma restored:
  assumes "propagation_Apply core False now (restore_envelope s) d' = (d, Inr a)" and "os_Payload s \<noteq> None"
  shows "propagation_Restore core False now s d' = (d, Inr ())"
  using assms by (auto simp: propagation_Restore_def)

lemma delete_absent:
  assumes "ex_Revision (os_Existing s) = 0 \<and> os_Payload s = None" and "\<not> io_fault d'" and "delete_object (ex_Kind (os_Existing s)) (ex_ID (os_Existing s)) d' = d" and "constraints d"
  shows "propagation_Restore core False now s d' = (d, Inr ())"
  using assms by (simp add: propagation_Restore_def exec_def)

lemma rollback_policy:
  assumes "core_keeps core" and "columns_ok d" and "constraints d" and "prior_state core now e d = Inr s" and "apply_policy e d = (d', Inr a)" and "ev_Kind e = ''alert-policy''"
    and "os_Payload s \<noteq> None \<Longrightarrow> core (restore_envelope s) = Inr v"
  shows "propagation_Restore core False now' s d' = (d, Inr ())"
proof -
  obtain row where row: "ru_id row = ev_ID e" "\<not> io_fault d" "d' = d\<lparr> rules := upsert ru_id row (\<lambda>_. row) (rules d) \<rparr>"
    using apply_policy_Inr [OF assms(5)] .
  have "CHR ''/'' \<notin> set (ev_Kind e)"
    by (simp add: assms(6))
  with assms(1,2,4) show ?thesis
  proof (cases rule: prior_state_cases)
    case (1 es)
    have "ev_ID e \<notin> ru_id ` set (rules d)"
      using 1(2) exported_row(2) [OF assms(1,2) 1(1)] unfolding assms(6) by (metis image_iff)
    then have "del_where (\<lambda>r. ru_id r = ev_ID e) (rules d') = rules d"
      using upsert_absent [of ru_id row "rules d"] by (simp add: row)
    then show ?thesis
      using 1(3) row(2) assms(3,6) by (intro delete_absent) (simp_all add: delete_object_def row(3))
  next
    case (2 es x)
    then obtain r where r: "r \<in> set (rules d)" "alert_envelope core now no_actor ''local'' r = Inr x" "ev_ID e = ru_id r"
      using exported_kind [OF assms(1,2) 2(1,2)] assms(6) by auto
    note f = alert_envelope_fields [OF assms(1) r(2)]
    have c: "- (2 ^ 63) \<le> ru_duration r" "ru_duration r < 2 ^ 63" "1 \<le> ru_version r"
      using assms(2) r(1) by (auto simp: columns_ok_def)
    then have same: "policy_row (ru_id r) (ru_version r) (alert_payload r) = r"
      by (simp add: policy_row_def alert_payload_def)
    have "upsert ru_id r (\<lambda>_. r) (rules d') = rules d"
      using upsert_present [of r "rules d" ru_id row r "\<lambda>_. row" "\<lambda>_. r"] r(1) assms(3) row r(3) by (simp add: constraints_def keys_ok_def)
    then have "d'\<lparr> rules := upsert ru_id r (\<lambda>_. r) (rules d') \<rparr> = d"
      by (simp add: row(3))
    then have "apply_policy (restore_envelope s) d' = (d, Inr \<lparr> ar_Kind = ''alert-policy'', ar_ID = ru_id r,
        ar_Before = (case find (\<lambda>q. ru_id q = ru_id r) (rules d') of None \<Rightarrow> 0 | Some q \<Rightarrow> ru_version q), ar_After = ru_version r, ar_Reversible = True \<rparr>)"
      using f [OF c(1,2)] c(3) assms(3) row(2) unfolding apply_policy_def by (simp add: 2(5) max1_def same applied_def exec_def row(3))
    moreover have "os_Payload s \<noteq> None"
      using f [OF c(1,2)] payload_there(1) by (simp add: 2(5))
    moreover then have "core (restore_envelope s) = Inr v"
      by (rule assms(7))
    from restore_applies [of core s v now' d', OF this] have "propagation_Apply core False now' (restore_envelope s) d' = apply_policy (restore_envelope s) d'"
      using 2(3) by (simp add: 2(5) assms(6))
    ultimately show ?thesis
      using restored by metis
  qed
qed

lemma delete_schedule:
  assumes "constraints d" and "i \<notin> cs_id ` set (check_schedules d)" and "del_where (\<lambda>s. cs_id s = i) ss = check_schedules d"
  shows "del_check_schedules (\<lambda>s. cs_id s = i) (d\<lparr> check_schedules := ss \<rparr>) = d"
proof -
  have "\<forall>r\<in>set (check_results d). cr_schedule r \<in> cs_id ` set (check_schedules d)"
    using assms(1) by (simp add: constraints_def other_refs_ok_def fk_def list_all_iff)
  then have "del_where (\<lambda>r. cr_schedule r \<in> set (map cs_id (filter (\<lambda>s. cs_id s = i) ss))) (check_results d) = check_results d"
    using assms(2) by (intro del_where_none) auto
  then show ?thesis
    using assms(3) unfolding del_check_schedules_def Let_def by simp
qed

lemma rollback_monitor:
  assumes "core_keeps core" and "columns_ok d" and "constraints d" and "prior_state core now e d = Inr s" and "apply_monitor now2 e d = (d', Inr a)" and "ev_Kind e = ''monitor''"
    and "os_Payload s \<noteq> None \<Longrightarrow> core (restore_envelope s) = Inr v"
  shows "propagation_Restore core False now' s d' = (d, Inr ())"
proof -
  obtain p where d': "\<not> io_fault d" "d' = d\<lparr> check_schedules := upsert cs_id (schedule_row now2 (ev_ID e) p) (merge_schedule p) (check_schedules d) \<rparr>"
    using apply_monitor_Inr [OF assms(5)] .
  have key: "cs_id (schedule_row now i q) = i" "cs_id (merge_schedule q s) = cs_id s" for i now s q
    by (simp_all add: schedule_row_def merge_schedule_def)
  have "CHR ''/'' \<notin> set (ev_Kind e)"
    by (simp add: assms(6))
  with assms(1,2,4) show ?thesis
  proof (cases rule: prior_state_cases)
    case (1 es)
    have new: "ev_ID e \<notin> cs_id ` set (check_schedules d)"
      using 1(2) exported_row(1) [OF assms(1,2) 1(1)] unfolding assms(6) by (metis image_iff)
    then have "delete_object (ex_Kind (os_Existing s)) (ex_ID (os_Existing s)) d' = d"
      using upsert_absent [of cs_id "schedule_row now2 (ev_ID e) p" "check_schedules d"] delete_schedule [OF assms(3) new] 1(3)
      by (simp add: delete_object_def assms(6) d'(2) key)
    then show ?thesis
      using 1(3) d'(1) assms(3) by (intro delete_absent) (simp_all add: d'(2))
  next
    case (2 es x)
    then obtain r where r: "r \<in> set (check_schedules d)" "monitor_envelope core now no_actor ''local'' r = Inr x" "ev_ID e = cs_id r"
      using exported_kind [OF assms(1,2) 2(1,2)] assms(6) by auto
    have f: "ev_ID x = cs_id r \<and> ev_Revision x = 1 \<and> monitor_of_json (ev_Payload x) = Inr (monitor_payload r)"
      using monitor_envelope_fields [OF assms(1) r(2)] assms(2) r(1) by (auto simp: columns_ok_def)
    have "merge_schedule (monitor_payload r) (merge_schedule p r) = r"
      by (simp add: merge_schedule_def monitor_payload_def)
    then have "upsert cs_id (schedule_row now' (cs_id r) (monitor_payload r)) (merge_schedule (monitor_payload r)) (check_schedules d') = check_schedules d"
      using upsert_present [of r "check_schedules d" cs_id] r(1,3) assms(3) by (simp add: constraints_def keys_ok_def d'(2) key)
    then have "d'\<lparr> check_schedules := upsert cs_id (schedule_row now' (cs_id r) (monitor_payload r)) (merge_schedule (monitor_payload r)) (check_schedules d') \<rparr> = d"
      by (simp add: d'(2))
    then have "\<exists>a. apply_monitor now' (restore_envelope s) d' = (d, Inr a)"
      using f assms(3) d'(1) unfolding apply_monitor_def by (simp add: 2(5) applied_def exec_def d'(2))
    moreover have "os_Payload s \<noteq> None"
      using f payload_there(2) by (simp add: 2(5))
    moreover then have "core (restore_envelope s) = Inr v"
      by (rule assms(7))
    from restore_applies [of core s v now' d', OF this] have "propagation_Apply core False now' (restore_envelope s) d' = apply_monitor now' (restore_envelope s) d'"
      using 2(3) by (simp add: 2(5) assms(6))
    ultimately show ?thesis
      using restored by metis
  qed
qed

lemma rollback_route:
  assumes "core_keeps core" and "columns_ok d" and "constraints d" and "prior_state core now e d = Inr s" and "apply_route e d = (d', Inr a)" and "ev_Kind e = ''notification-config''"
    and "os_Payload s \<noteq> None \<Longrightarrow> core (restore_envelope s) = Inr v"
  shows "propagation_Restore core False now' s d' = (d, Inr ())"
proof -
  obtain row p where row: "rt_id row = ev_ID e" "\<not> io_fault d" "d' = d\<lparr> notification_routes := upsert rt_id row (merge_route p) (notification_routes d) \<rparr>"
    using apply_route_Inr [OF assms(5)] .
  have key: "rt_id (merge_route q r) = rt_id r" for q r
    by (simp add: merge_route_def)
  have "CHR ''/'' \<notin> set (ev_Kind e)"
    by (simp add: assms(6))
  with assms(1,2,4) show ?thesis
  proof (cases rule: prior_state_cases)
    case (1 es)
    have "ev_ID e \<notin> rt_id ` set (notification_routes d)"
    proof
      assume "ev_ID e \<in> rt_id ` set (notification_routes d)"
      then obtain n where "n \<in> set (notification_routes d)" "ev_ID e = rt_id n"
        by blast
      with exported_row(3) [OF assms(1,2) 1(1)] obtain x where "x \<in> set es" "ev_Kind x = ev_Kind e" "ev_ID x = ev_ID e"
        unfolding assms(6) by force
      with 1(2) show False
        by blast
    qed
    then have "del_where (\<lambda>r. rt_id r = ev_ID e) (notification_routes d') = notification_routes d"
      using upsert_absent [of rt_id row "notification_routes d"] by (simp add: row)
    then show ?thesis
      using 1(3) row(2) assms(3,6) by (intro delete_absent) (simp_all add: delete_object_def row(3))
  next
    case (2 es x)
    then obtain r where r: "r \<in> set (notification_routes d)" "route_envelope core now no_actor ''local'' r = Inr x" "ev_ID e = rt_id r"
      using exported_kind [OF assms(1,2) 2(1,2)] assms(6) by auto
    note f = route_envelope_fields [OF assms(1) r(2)]
    have "merge_route (route_payload r) (merge_route p r) = r"
      by (simp add: merge_route_def route_payload_def)
    then have "upsert rt_id row' (merge_route (route_payload r)) (notification_routes d') = notification_routes d" if "rt_id row' = rt_id r" for row'
      using upsert_present [of r "notification_routes d" rt_id] that r(1,3) assms(3) row(1) by (simp add: constraints_def keys_ok_def row(3) key)
    then have "d'\<lparr> notification_routes := upsert rt_id row' (merge_route (route_payload r)) (notification_routes d') \<rparr> = d" if "rt_id row' = rt_id r" for row'
      using that by (simp add: row(3))
    then have "\<exists>a. apply_route (restore_envelope s) d' = (d, Inr a)"
      using f assms(3) row(2) unfolding apply_route_def by (simp add: 2(5) applied_def exec_def query_def Let_def row(3))
    moreover have "os_Payload s \<noteq> None"
      using f payload_there(3) by (simp add: 2(5))
    moreover then have "core (restore_envelope s) = Inr v"
      by (rule assms(7))
    from restore_applies [of core s v now' d', OF this] have "propagation_Apply core False now' (restore_envelope s) d' = apply_route (restore_envelope s) d'"
      using 2(3) by (simp add: 2(5) assms(6))
    ultimately show ?thesis
      using restored by metis
  qed
qed

lemma fk_more: "fk cs ps \<Longrightarrow> set ps \<subseteq> set qs \<Longrightarrow> fk cs qs"
  by (auto simp: fk_def list_all_iff)

lemma fk_insert: "fk cs ps \<Longrightarrow> set bs \<subseteq> insert p (set cs) \<Longrightarrow> p \<in> set ps \<Longrightarrow> fk bs ps"
  by (auto simp: fk_def list_all_iff)

lemma upsert_key:
  assumes "\<And>x. key (merge x) = key x"
  shows "key row \<in> key ` set (upsert key row merge xs)"
proof (cases "key row \<in> key ` set xs")
  case True
  have "map key (upd_where (\<lambda>x. key x = key row) merge xs) = map key xs"
    using assms by simp
  then show ?thesis
    using True by (metis list.set_map upsert_def)
qed (simp add: upsert_def)

section \<open>Theorems\<close>

text \<open>
  C32: Applying a propagated check, rule or route can be undone: restoring what the snapshot taken before held of that object (or the empty state, when it held nothing) leaves the
  database exactly as it was, whatever the envelope wrote. Versions of rules are at least one and durations and intervals fit 64 bits.
\<close>

theorem rollback_undoes_apply:
  assumes "core_keeps core" and "columns_ok d" and "constraints d" and "prior_state core now e d = Inr s" and "propagation_Apply core False now2 e d = (d', Inr a)"
    and "os_Payload s \<noteq> None \<Longrightarrow> core (restore_envelope s) = Inr v"
  shows "propagation_Restore core False now' s d' = (d, Inr ())"
proof -
  show ?thesis
  proof (cases "ev_Kind e = ''monitor''")
    case True
    then have "apply_monitor now2 e d = (d', Inr a)"
      using assms(5) by (simp add: propagation_Apply_def split: sum.splits)
    then show ?thesis
      by (rule rollback_monitor [of core d now e s now2 d' a v now', OF assms(1-4) _ True assms(6)])
  next
    case other: False
    show ?thesis
    proof (cases "ev_Kind e = ''alert-policy''")
      case True
      then have "apply_policy e d = (d', Inr a)"
        using assms(5) by (simp add: propagation_Apply_def split: sum.splits)
      then show ?thesis
        by (rule rollback_policy [of core d now e s d' a v now', OF assms(1-4) _ True assms(6)])
    next
      case False
      with other have k: "ev_Kind e = ''notification-config''" and "apply_route e d = (d', Inr a)"
        using assms(5) by (auto simp: propagation_Apply_def split: sum.splits if_splits)
      from this(2) show ?thesis
        by (rule rollback_route [of core d now e s d' a v now', OF assms(1-4) _ k assms(6)])
    qed
  qed
qed

text \<open>
  A rule that is exported and applied arrives as it was: on a target that has the post, the application succeeds, the target then holds exactly the source's row under that
  id, and every other rule and every other table is as before.
\<close>

theorem propagated_rule_arrives:
  assumes "core_keeps core" and "alert_envelope core now actor target r = Inr e" and "core e = Inr e'"
    and "- (2 ^ 63) \<le> ru_duration r" and "ru_duration r < 2 ^ 63" and "1 \<le> ru_version r" and "ru_operator r \<in> {''gt'', ''gte'', ''lt'', ''lte''}"
    and "constraints d" and "\<not> io_fault d" and "ru_post r \<in> po_id ` set (posts d)"
  shows "\<exists>a rs. propagation_Apply core False now2 e d = (d\<lparr> rules := rs \<rparr>, Inr a) \<and> ar_After a = ru_version r \<and>
    find (\<lambda>x. ru_id x = ru_id r) rs = Some r \<and> filter (\<lambda>x. ru_id x \<noteq> ru_id r) rs = filter (\<lambda>x. ru_id x \<noteq> ru_id r) (rules d)"
proof -
  define rs where "rs = upsert ru_id r (\<lambda>_. r) (rules d)"
  note f = alert_envelope_fields [OF assms(1,2,4,5)]
  have same: "policy_row (ru_id r) (max1 (ru_version r)) (alert_payload r) = r"
    using assms(6) by (simp add: policy_row_def alert_payload_def max1_def)
  have ids: "set (map ru_id (rules d)) \<subseteq> set (map ru_id rs)" "distinct (map ru_id (rules d)) \<Longrightarrow> distinct (map ru_id rs)" and rows: "set rs \<subseteq> insert r (set (rules d))"
    by (auto simp: rs_def upsert_def set_upd_where)
  have "fk (map ru_post (rules d)) (map po_id (posts d))" and "fk (map al_rule (alerts d)) (map ru_id (rules d))"
    and "list_all (\<lambda>r. ru_operator r \<in> {''gt'', ''gte'', ''lt'', ''lte''}) (rules d)"
    using assms(8) unfolding constraints_def post_refs_ok_def other_refs_ok_def checks_ok_def Let_def by blast+
  note old = this
  have new: "fk (map ru_post rs) (map po_id (posts d))" "fk (map al_rule (alerts d)) (map ru_id rs)" "list_all (\<lambda>r. ru_operator r \<in> {''gt'', ''gte'', ''lt'', ''lte''}) rs"
  proof -
    show "fk (map ru_post rs) (map po_id (posts d))"
      by (rule fk_insert [OF old(1), where p = "ru_post r"]) (use assms(10) rows in auto)
    show "fk (map al_rule (alerts d)) (map ru_id rs)"
      by (rule fk_more [OF old(2) ids(1)])
    show "list_all (\<lambda>r. ru_operator r \<in> {''gt'', ''gte'', ''lt'', ''lte''}) rs"
      using old(3) assms(7) rows unfolding list_all_iff by blast
  qed
  have "constraints (d\<lparr> rules := rs \<rparr>)"
    using assms(8) ids(2) new unfolding constraints_def keys_ok_def post_refs_ok_def other_refs_ok_def checks_ok_def Let_def by simp
  moreover define a where "a = \<lparr> ar_Kind = ''alert-policy'', ar_ID = ru_id r, ar_Before = (case find (\<lambda>q. ru_id q = ru_id r) (rules d) of None \<Rightarrow> 0 | Some q \<Rightarrow> ru_version q),
    ar_After = max1 (ru_version r), ar_Reversible = True \<rparr>"
  ultimately have "apply_policy e d = (d\<lparr> rules := rs \<rparr>, Inr a)"
    using f assms(9) by (simp add: apply_policy_def same applied_def exec_def rs_def)
  moreover have "propagation_Apply core False now2 e d = apply_policy e d"
    using f assms(3) by (simp add: propagation_Apply_def ValidateEnvelope_def kind_Policy_def policies_def)
  moreover have "max1 (ru_version r) = ru_version r"
    using assms(6) by (simp add: max1_def)
  ultimately show ?thesis
    using upsert_find [of ru_id r "ru_id r" "\<lambda>_. r" "rules d"] by (intro exI [of _ a] exI [of _ rs]) (simp add: rs_def a_def)
qed

text \<open>
  C33: A check that arrives by propagation never reports: applying it writes the schedule but, unlike saving a check on the node, not the source row its observations belong to, so
  ingesting any of its results ends with \<open>sql.ErrNoRows\<close> and changes nothing, although the check is scheduled and runs.
\<close>

theorem propagated_check_never_reports:
  assumes "propagation_Apply core False now e d = (d', Inr a)" and "ev_Kind e = ''monitor''" and "ev_ID e \<notin> ck_id ` set (collector_keys d)" and "sc_ID (du_Schedule due) = ev_ID e"
  shows "ev_ID e \<in> cs_id ` set (check_schedules d') \<and> ingestCheckResult due now' d' = (d', Inl ErrNoRows)"
proof -
  have "apply_monitor now e d = (d', Inr a)"
    using assms(1,2) by (simp add: propagation_Apply_def split: sum.splits)
  then obtain p where d': "\<not> io_fault d" "d' = d\<lparr> check_schedules := upsert cs_id (schedule_row now (ev_ID e) p) (merge_schedule p) (check_schedules d) \<rparr>"
    by (rule apply_monitor_Inr)
  have "find (\<lambda>k. ck_id k = ev_ID e) (collector_keys d') = None"
    using assms(3) by (simp add: d'(2) find_None_iff) (metis image_eqI)
  then have "ingestCheckResult due now' d' = (d', Inl ErrNoRows)"
    using d'(1) by (simp add: ingestCheckResult_def ingest_observations_def store_contract_def with_tx_def query_def assms(4) d'(2))
  moreover have "ev_ID e \<in> cs_id ` set (upsert cs_id (schedule_row now (ev_ID e) p) (merge_schedule p) (check_schedules d))"
    using upsert_key [of cs_id "merge_schedule p" "schedule_row now (ev_ID e) p"] by (simp add: schedule_row_def merge_schedule_def)
  ultimately show ?thesis
    by (simp add: d'(2))
qed

section \<open>Witnesses\<close>

definition sample_core :: core where
  "sample_core e = Inr (e\<lparr> ev_Digest := ''digest'' \<rparr>)"

lemma sample_core_keeps: "core_keeps sample_core"
  by (auto simp: core_keeps_def sample_core_def)

definition sample_target :: db where
  "sample_target = sample_posts\<lparr> rules := [sample_rule] \<rparr>"

lemma sample_target_ok: "constraints sample_target \<and> \<not> io_fault sample_target \<and> columns_ok sample_target \<and> ''a'' \<in> po_id ` set (posts sample_target)"
  by (simp add: sample_target_def sample_rule_def sample_posts_def empty_db_def new_post_def constraint_defs Let_def columns_ok_def)

definition sample_edit :: Envelope where
  "sample_edit = \<lparr> ev_Kind = ''alert-policy'', ev_ID = ''cpu'', ev_SchemaVersion = 1, ev_Revision = 7, ev_SourceNode = ''other'', ev_CreatedAt = Some 5, ev_Target = ''node'',
     ev_Conflict = ''source-wins'', ev_Actor = no_actor, ev_Payload = Some (JObj [(''post_id'', JStr ''a''), (''operator'', JStr ''lt''), (''threshold'', JNum (Num 5))]), ev_Secrets = [],
     ev_Dependencies = [], ev_Digest = [] \<rparr>"

definition sample_prior :: ObjectState where
  "sample_prior = object_state (projr (alert_envelope sample_core 1 no_actor ''local'' sample_rule))"

lemma sample_prior_state: "prior_state sample_core 1 sample_edit sample_target = Inr sample_prior"
  by (simp add: prior_state_def propagation_Snapshot_def Export_def selected_def query_def traverse_def sample_target_def sample_posts_def empty_db_def sample_edit_def sample_prior_def
      alert_envelope_def envelope_def sample_core_def sample_rule_def alert_json_def alert_payload_def is_finite_def object_state_def)

definition sample_edited :: "db \<times> (err + AppliedRevision)" where
  "sample_edited = propagation_Apply sample_core False 2 sample_edit sample_target"

lemma sample_edited_ok: "\<exists>d' a. sample_edited = (d', Inr a) \<and> map ru_threshold (rules d') = [Num 5]"
  by (simp add: sample_edited_def propagation_Apply_def ValidateEnvelope_def kind_Policy_def policies_def sample_edit_def no_actor_def sample_core_def apply_policy_def alert_of_json_def unmarshal_object_def
      read_field_def members_Cons members_Nil nocase_names applied_def exec_def policy_row_def upsert_def upd_where_def sample_target_def sample_rule_def sample_posts_def empty_db_def new_post_def constraint_defs Let_def)

theorem rollback_undoes_apply_witness:
  "fst sample_edited \<noteq> sample_target \<and> propagation_Restore sample_core False 3 sample_prior (fst sample_edited) = (sample_target, Inr ())"
proof -
  obtain d' a where e: "sample_edited = (d', Inr a)" and t: "map ru_threshold (rules d') = [Num 5]"
    using sample_edited_ok by (elim exE conjE)
  have "map ru_threshold (rules sample_target) = [Num 90]"
    by (simp add: sample_target_def sample_rule_def)
  with t have "d' \<noteq> sample_target"
    by force
  moreover have "sample_core (restore_envelope sample_prior) = Inr ((restore_envelope sample_prior)\<lparr> ev_Digest := ''digest'' \<rparr>)"
    by (simp add: sample_core_def)
  then have "propagation_Restore sample_core False 3 sample_prior d' = (sample_target, Inr ())"
    using rollback_undoes_apply [OF sample_core_keeps _ _ sample_prior_state e [unfolded sample_edited_def]] sample_target_ok by blast
  ultimately show ?thesis
    by (simp add: e)
qed

theorem propagated_rule_arrives_witness:
  "\<exists>e a rs. alert_envelope sample_core 1 no_actor ''node'' (sample_rule\<lparr> ru_version := 4 \<rparr>) = Inr e \<and> propagation_Apply sample_core False 2 e sample_target = (sample_target\<lparr> rules := rs \<rparr>, Inr a) \<and>
    ar_After a = 4 \<and> find (\<lambda>x. ru_id x = ''cpu'') rs = Some (sample_rule\<lparr> ru_version := 4 \<rparr>)"
proof -
  obtain e where e: "alert_envelope sample_core 1 no_actor ''node'' (sample_rule\<lparr> ru_version := 4 \<rparr>) = Inr e"
    by (simp add: alert_envelope_def envelope_def sample_core_def alert_json_def alert_payload_def sample_rule_def is_finite_def)
  have "sample_core e = Inr (e\<lparr> ev_Digest := ''digest'' \<rparr>)"
    by (simp add: sample_core_def)
  from propagated_rule_arrives [of sample_core 1 no_actor "''node''" "sample_rule\<lparr> ru_version := 4 \<rparr>" e, OF sample_core_keeps e this, of sample_target 2] sample_target_ok
  obtain a rs where "propagation_Apply sample_core False 2 e sample_target = (sample_target\<lparr> rules := rs \<rparr>, Inr a)" "ar_After a = 4" "find (\<lambda>x. ru_id x = ''cpu'') rs = Some (sample_rule\<lparr> ru_version := 4 \<rparr>)"
    by (auto simp: sample_rule_def)
  then show ?thesis
    using e by blast
qed

definition sample_monitor :: Envelope where
  "sample_monitor = sample_edit\<lparr> ev_Kind := ''monitor'', ev_ID := ''db-up'', ev_Payload := Some (JObj [(''post_id'', JStr ''a''), (''kind'', JStr ''tcp''), (''address'', JStr ''db:5432''),
     (''interval_seconds'', JNum (Num 60)), (''enabled'', JBool True)]) \<rparr>"

lemma sample_monitor_applied: "\<exists>d' a. propagation_Apply sample_core False 2 sample_monitor sample_target = (d', Inr a)"
  by (simp add: propagation_Apply_def ValidateEnvelope_def kind_Policy_def policies_def sample_monitor_def sample_edit_def no_actor_def sample_core_def apply_monitor_def monitor_of_json_def unmarshal_object_def
      read_field_def members_Cons members_Nil nocase_names applied_def exec_def schedule_row_def upsert_def sample_target_def sample_rule_def sample_posts_def empty_db_def new_post_def constraint_defs Let_def)

theorem propagated_check_never_reports_witness:
  "\<exists>d'. ''db-up'' \<in> cs_id ` set (check_schedules d') \<and> ingestCheckResult sample_due 9 d' = (d', Inl ErrNoRows)"
proof -
  obtain d' a where "propagation_Apply sample_core False 2 sample_monitor sample_target = (d', Inr a)"
    using sample_monitor_applied by blast
  moreover have "ev_Kind sample_monitor = ''monitor''" "ev_ID sample_monitor = ''db-up''" "collector_keys sample_target = []" "sc_ID (du_Schedule sample_due) = ''db-up''"
    by (simp_all add: sample_monitor_def sample_target_def sample_posts_def empty_db_def sample_due_def due_result_def sample_check_def schedule_of_row_def)
  ultimately show ?thesis
    using propagated_check_never_reports [of sample_core 2 sample_monitor sample_target d' a sample_due 9] by (intro exI [of _ d']) simp
qed

end
