(* ===== verification/Fleet.thy ===== *)
theory Fleet
  imports Retention Single_Use Audit_Log
begin

text \<open>
  Federation with peers (\<open>internal/fleet/fleet.go\<close>): enrolment and revocation of peers, signed envelopes and the inbox that refuses a repeated event, the outbox and the
  status of the peers. HMAC is the construction of RFC 2104 over SHA-256. The JSON text of an envelope depends on the spelling of its payload and of its time, so \<open>json.Marshal\<close> of
  one is the parameter \<open>encode\<close>; the clock does not move during one call. A pass of retention prunes the inbox, and the theorem on repeated events is about both together.
\<close>

section \<open>Data\<close>

record fleet_Envelope =
  fe_EventID :: id
  fe_Kind :: string
  fe_CreatedAt :: time
  fe_Payload :: string
  fe_Signature :: string

record PeerStatus =
  pt_ID :: id
  pt_State :: string
  pt_CreatedAt :: time
  pt_RevokedAt :: "time option"
  pt_Pending :: nat
  pt_Delivered :: nat
  pt_Received :: nat

type_synonym envelope_text = "fleet_Envelope \<Rightarrow> string"

section \<open>Signatures\<close>

definition xor_byte :: "nat \<Rightarrow> char \<Rightarrow> char" where
  "xor_byte n c = char_of (xor (of_char c :: nat) n)"

definition hmac_key :: "string \<Rightarrow> string" where
  "hmac_key key = (let k = (if length key > 64 then sha256 key else key) in k @ replicate (64 - length k) (char_of (0 :: nat)))"

definition hmac_sha256 :: "string \<Rightarrow> string \<Rightarrow> string" where
  "hmac_sha256 key m = sha256 (map (xor_byte 92) (hmac_key key) @ sha256 (map (xor_byte 54) (hmac_key key) @ m))"

definition signingBytes :: "envelope_text \<Rightarrow> fleet_Envelope \<Rightarrow> string" where
  "signingBytes encode e = encode (e\<lparr> fe_Signature := [] \<rparr>)"

definition Sign :: "envelope_text \<Rightarrow> string \<Rightarrow> fleet_Envelope \<Rightarrow> fleet_Envelope" where
  "Sign encode secret e = e\<lparr> fe_Signature := b64url (hmac_sha256 secret (signingBytes encode e)) \<rparr>"

section \<open>Peers\<close>

definition peer_entry :: "Entry \<Rightarrow> id \<Rightarrow> Entry" where
  "peer_entry e i = e\<lparr> en_ObjectType := ''peer'', en_ObjectID := i \<rparr>"

definition fleet_Enroll :: "time \<Rightarrow> string option \<Rightarrow> id \<Rightarrow> Entry \<Rightarrow> db \<Rightarrow> db \<times> (err + string)" where
  "fleet_Enroll now random i e d = (if i = [] then (d, Inl (Err ''peer ID required'')) else case random of None \<Rightarrow> (d, Inl (Err ''rand''))
     | Some bs \<Rightarrow> let secret = b64url bs in audited_tx now (peer_entry e i) (\<lambda>d.
         bindE (exec (\<lambda>d. d\<lparr> peers := peers d @ [\<lparr> pe_id = i, pe_secret = sha256 secret, pe_state = ''active'', pe_created = now, pe_revoked = None \<rparr>] \<rparr>) d) (\<lambda>d. Inr (d, secret))) d)"

definition fleet_Revoke :: "time \<Rightarrow> id \<Rightarrow> Entry \<Rightarrow> db \<Rightarrow> db \<times> (err + unit)" where
  "fleet_Revoke now i e = audited_tx now (peer_entry e i) (\<lambda>d. let hit = (\<lambda>p. pe_id p = i \<and> pe_state p = ''active'') in
     bindE (exec (\<lambda>d. d\<lparr> peers := upd_where hit (\<lambda>p. p\<lparr> pe_state := ''revoked'', pe_revoked := Some now \<rparr>) (peers d) \<rparr>) d) (\<lambda>d'.
     bindE (ensure (count_where hit (peers d) = 1) (Err ''active peer not found'')) (\<lambda>_. Inr (d', ()))))"

definition peer_status :: "db \<Rightarrow> peer_row \<Rightarrow> PeerStatus" where
  "peer_status d p = \<lparr> pt_ID = pe_id p, pt_State = pe_state p, pt_CreatedAt = pe_created p, pt_RevokedAt = pe_revoked p,
     pt_Pending = count_where (\<lambda>o'. ox_peer o' = pe_id p \<and> ox_delivered o' = None) (federation_outbox d),
     pt_Delivered = count_where (\<lambda>o'. ox_peer o' = pe_id p \<and> ox_delivered o' \<noteq> None) (federation_outbox d),
     pt_Received = count_where (\<lambda>i. ib_peer i = pe_id p) (federation_inbox d) \<rparr>"

definition fleet_List :: "db \<Rightarrow> err + PeerStatus list" where
  "fleet_List d = query (\<lambda>d. map (peer_status d) (sort_key pe_id (peers d))) d"

section \<open>Events\<close>

definition fleet_Receive :: "envelope_text \<Rightarrow> time \<Rightarrow> id \<Rightarrow> string \<Rightarrow> fleet_Envelope \<Rightarrow> db \<Rightarrow> db \<times> (err + unit)" where
  "fleet_Receive encode now peer secret e d =
     (case query (\<lambda>d. find (\<lambda>p. pe_id p = peer) (peers d)) d of Inl x \<Rightarrow> (d, Inl (Err ''peer unavailable'')) | Inr None \<Rightarrow> (d, Inl (Err ''peer unavailable''))
      | Inr (Some p) \<Rightarrow> if pe_state p \<noteq> ''active'' then (d, Inl (Err ''peer unavailable''))
          else if pe_secret p \<noteq> sha256 secret then (d, Inl (Err ''peer authentication failed''))
          else case b64_decode (fe_Signature e) of None \<Rightarrow> (d, Inl (Err ''invalid signature''))
          | Some signature \<Rightarrow> if signature \<noteq> hmac_sha256 secret (signingBytes encode e) then (d, Inl (Err ''invalid signature''))
              else if fe_EventID e = [] \<or> fe_CreatedAt e < now - 24 * hour \<or> fe_CreatedAt e > now + 5 * minute \<or> length (fe_Payload e) > 262144 then (d, Inl (Err ''invalid envelope''))
              else case exec (\<lambda>d. d\<lparr> federation_inbox := federation_inbox d @ [\<lparr> ib_peer = peer, ib_event = fe_EventID e, ib_received = now, ib_payload = sha256 (fe_Payload e) \<rparr>] \<rparr>) d of
                Inl x \<Rightarrow> (d, Inl (Err ''duplicate or invalid event'')) | Inr d' \<Rightarrow> (d', Inr ()))"

text \<open>The payload of \<open>Queue\<close> is its JSON text, \<open>None\<close> when it has none.\<close>

definition fleet_Queue :: "time \<Rightarrow> id \<Rightarrow> id \<Rightarrow> string \<Rightarrow> string option \<Rightarrow> db \<Rightarrow> db \<times> (err + unit)" where
  "fleet_Queue now peer event kind payload d = (case payload of None \<Rightarrow> (d, Inl (Err ''invalid payload''))
     | Some b \<Rightarrow> if length b > 262144 then (d, Inl (Err ''invalid payload''))
       else case exec (\<lambda>d. d\<lparr> federation_outbox := federation_outbox d @ [\<lparr> ox_id = next_id (map ox_id (federation_outbox d)), ox_peer = peer, ox_event = event, ox_kind = kind,
           ox_payload = b, ox_created = now, ox_delivered = None \<rparr>] \<rparr>) d of Inl x \<Rightarrow> (d, Inl x) | Inr d' \<Rightarrow> (d', Inr ()))"

section \<open>Events are taken once\<close>

text \<open>Everything that touches peers and their events: the operations above and the retention pass.\<close>

datatype fleet_op =
    FEnroll time "string option" id Entry
  | FRevoke time id Entry
  | FReceive time id string fleet_Envelope
  | FQueue time id id string "string option"
  | FRetention Retention time

fun fleet_step :: "envelope_text \<Rightarrow> fleet_op \<Rightarrow> db \<Rightarrow> db \<times> (err + unit)" where
  "fleet_step encode (FEnroll now random i e) d = (case fleet_Enroll now random i e d of (d', r) \<Rightarrow> (d', map_sum id (\<lambda>_. ()) r))"
| "fleet_step encode (FRevoke now i e) d = fleet_Revoke now i e d"
| "fleet_step encode (FReceive now peer secret e) d = fleet_Receive encode now peer secret e d"
| "fleet_step encode (FQueue now peer event kind payload) d = fleet_Queue now peer event kind payload d"
| "fleet_step encode (FRetention p now) d = (fst (RunOnce p now d), Inr ())"

definition keeps_inbox :: "Retention \<Rightarrow> bool" where
  "keeps_inbox p \<longleftrightarrow> rt_FederationInbox p \<le> 0 \<or> 24 * hour + 5 * minute + second \<le> rt_FederationInbox p"

fun until_expiry :: "time \<Rightarrow> fleet_op \<Rightarrow> bool" where
  "until_expiry created (FRetention p now) = (keeps_inbox p \<and> now \<le> created + 24 * hour)"
| "until_expiry created _ = True"

fun taken :: "time \<Rightarrow> fleet_op \<Rightarrow> unit \<Rightarrow> (id \<times> id) set" where
  "taken created (FReceive now peer secret e) _ = (if fe_CreatedAt e = created then {(peer, fe_EventID e)} else {})"
| "taken created _ _ = {}"

definition event_taken :: "time \<Rightarrow> id \<times> id \<Rightarrow> db \<Rightarrow> bool" where
  "event_taken created k d \<longleftrightarrow> (\<exists>r\<in>set (federation_inbox d). (ib_peer r, ib_event r) = k \<and> created - 5 * minute \<le> ib_received r)"

lemma del_first_keeps: "x \<in> set xs \<Longrightarrow> \<not> P x \<Longrightarrow> x \<in> set (del_first n P xs)"
  by (induction n P xs rule: del_first.induct) auto

lemma prune_keeps_inbox:
  assumes "legal_prune p now d d'" and "r \<in> set (federation_inbox d)" and "0 < rt_FederationInbox p \<Longrightarrow> \<not> text_less (ib_received r) (cutoff rt_FederationInbox p now)"
  shows "r \<in> set (federation_inbox d')"
  using assms by (auto simp: legal_prune_def del_conversations_def Let_def del_first_keeps elim!: pruned.cases)

lemma retention_keeps_event:
  assumes "keeps_inbox p" and "now \<le> created + 24 * hour" and "event_taken created k d"
  shows "event_taken created k (fst (RunOnce p now d))"
proof -
  obtain r where r: "r \<in> set (federation_inbox d)" "(ib_peer r, ib_event r) = k" "created - 5 * minute \<le> ib_received r"
    using assms(3) by (auto simp: event_taken_def)
  have young: "\<not> text_less (ib_received r) (cutoff rt_FederationInbox p now)" if "0 < rt_FederationInbox p"
  proof
    assume "text_less (ib_received r) (cutoff rt_FederationInbox p now)"
    from text_less_bound [OF this] show False
      using that assms(1,2) r(3) by (auto simp: keeps_inbox_def cutoff_def)
  qed
  have "(legal_prune p now)\<^sup>*\<^sup>* d d' \<Longrightarrow> r \<in> set (federation_inbox d')" for d'
    by (induction rule: rtranclp_induct) (use r(1) young prune_keeps_inbox in blast)+
  then show ?thesis
    using RunOnce_steps r(2,3) by (auto simp: event_taken_def)
qed

lemma RunOnce_constraints: "constraints d \<Longrightarrow> constraints (fst (RunOnce p now d))"
  using steps_protection [OF RunOnce_steps] by (simp add: protection_def)

lemma Receive_Inr:
  assumes "fleet_Receive encode now peer secret e d = (d', Inr u)"
  obtains "now \<le> fe_CreatedAt e + 24 * hour" and "fe_CreatedAt e - 5 * minute \<le> now" and "constraints d'" and "(peer, fe_EventID e) \<notin> (\<lambda>r. (ib_peer r, ib_event r)) ` set (federation_inbox d)"
    and "\<exists>p\<in>set (peers d). pe_id p = peer \<and> pe_state p = ''active'' \<and> pe_secret p = sha256 secret"
    and "d' = d\<lparr> federation_inbox := federation_inbox d @ [\<lparr> ib_peer = peer, ib_event = fe_EventID e, ib_received = now, ib_payload = sha256 (fe_Payload e) \<rparr>] \<rparr>"
proof -
  obtain p where p: "find (\<lambda>p. pe_id p = peer) (peers d) = Some p" and io: "\<not> io_fault d"
    using assms by (auto simp: fleet_Receive_def query_def split: if_splits option.splits)
  have a: "pe_state p = ''active''" "pe_secret p = sha256 secret" "now \<le> fe_CreatedAt e + 24 * hour" "fe_CreatedAt e - 5 * minute \<le> now"
    and x: "exec (\<lambda>d. d\<lparr> federation_inbox := federation_inbox d @ [\<lparr> ib_peer = peer, ib_event = fe_EventID e, ib_received = now, ib_payload = sha256 (fe_Payload e) \<rparr>] \<rparr>) d = Inr d'"
    using assms p io by (auto simp: fleet_Receive_def query_def split: if_splits option.splits sum.splits)
  have d': "d' = d\<lparr> federation_inbox := federation_inbox d @ [\<lparr> ib_peer = peer, ib_event = fe_EventID e, ib_received = now, ib_payload = sha256 (fe_Payload e) \<rparr>] \<rparr>" "constraints d'"
    using x unfolding exec_eq_Inr by blast+
  then have "distinct (map (\<lambda>x. (ib_peer x, ib_event x)) (federation_inbox d'))"
    by (simp add: constraints_def keys_ok_def)
  then have new: "(peer, fe_EventID e) \<notin> (\<lambda>r. (ib_peer r, ib_event r)) ` set (federation_inbox d)"
    by (simp add: d'(1))
  show thesis
    using find_set [OF p] a d' new p by (intro that) (auto simp: find_Some_iff)
qed

lemma Receive_Inl: "fleet_Receive encode now peer secret e d = (d', Inl x) \<Longrightarrow> d' = d"
  by (auto simp: fleet_Receive_def split: if_splits option.splits sum.splits)

lemma audited_frame: "audited_tx now e body d = (d', r) \<Longrightarrow> (\<And>d1 y. body d = Inr (d1, y) \<Longrightarrow> federation_inbox d1 = federation_inbox d) \<Longrightarrow> constraints d \<Longrightarrow>
    constraints d' \<and> federation_inbox d' = federation_inbox d"
  by (auto simp: audited_tx_def with_tx_def Insert_def bindE_def exec_def split: sum.splits if_splits prod.splits)

lemma event_taken_same: "federation_inbox d' = federation_inbox d \<Longrightarrow> event_taken created k d' = event_taken created k d"
  by (simp add: event_taken_def)

lemma fleet_law:
  assumes "constraints d" and "until_expiry created x" and "fleet_step encode x d = (d', r)"
  shows "constraints d' \<and> (event_taken created k d \<longrightarrow> event_taken created k d') \<and> (\<forall>y. r = Inr y \<longrightarrow> k \<in> taken created x y \<longrightarrow> \<not> event_taken created k d \<and> event_taken created k d')"
proof (cases x)
  case (FEnroll now random i e)
  obtain r' where "fleet_Enroll now random i e d = (d', r')"
    using assms(3) FEnroll by (auto split: prod.splits)
  then have "constraints d' \<and> federation_inbox d' = federation_inbox d"
    using assms(1) by (auto simp: fleet_Enroll_def Let_def exec_eq_Inr bindE_eq_Inr split: if_splits option.splits dest!: audited_frame)
  then show ?thesis
    using FEnroll by (simp add: event_taken_def)
next
  case (FRevoke now i e)
  then have "audited_tx now (peer_entry e i) (\<lambda>d. let hit = (\<lambda>p. pe_id p = i \<and> pe_state p = ''active'') in
     bindE (exec (\<lambda>d. d\<lparr> peers := upd_where hit (\<lambda>p. p\<lparr> pe_state := ''revoked'', pe_revoked := Some now \<rparr>) (peers d) \<rparr>) d) (\<lambda>d'.
     bindE (ensure (count_where hit (peers d) = 1) (Err ''active peer not found'')) (\<lambda>_. Inr (d', ())))) d = (d', r)"
    using assms(3) by (simp add: fleet_Revoke_def)
  from audited_frame [OF this _ assms(1)] have "constraints d' \<and> federation_inbox d' = federation_inbox d"
    by (auto simp: Let_def bindE_eq_Inr exec_eq_Inr)
  then show ?thesis
    using FRevoke by (simp add: event_taken_def)
next
  case (FReceive now peer secret e)
  then have recv: "fleet_Receive encode now peer secret e d = (d', r)"
    using assms(3) by simp
  show ?thesis
  proof (cases r)
    case (Inl err)
    then have "d' = d"
      using Receive_Inl recv by blast
    then show ?thesis
      using assms(1) Inl by simp
  next
    case (Inr u)
    from recv [unfolded Inr] show ?thesis
      by (rule Receive_Inr) (use FReceive in \<open>auto simp: event_taken_def image_iff split: if_splits\<close>)
  qed
next
  case (FQueue now peer event kind payload)
  then have "constraints d' \<and> federation_inbox d' = federation_inbox d"
    using assms(1,3) by (auto simp: fleet_Queue_def exec_def split: option.splits if_splits)
  then show ?thesis
    using FQueue by (simp add: event_taken_def)
next
  case (FRetention p now)
  then show ?thesis
    using assms RunOnce_constraints retention_keeps_event [of p now created k d] by auto
qed

interpretation fleet: single_use "fleet_step encode" constraints "until_expiry created" "taken created" "event_taken created" for encode created
  by unfold_locales (use fleet_law in blast)+

section \<open>Revocation\<close>

definition peer_revoked :: "id \<Rightarrow> db \<Rightarrow> bool" where
  "peer_revoked i d \<longleftrightarrow> (\<exists>p\<in>set (peers d). pe_id p = i \<and> pe_state p = ''revoked'')"

lemma revoked_not_found:
  assumes "constraints d" and "peer_revoked i d" and "find (\<lambda>p. pe_id p = i) (peers d) = Some p"
  shows "pe_state p = ''revoked''"
proof -
  have "distinct (map pe_id (peers d))"
    using assms(1) by (simp add: constraints_def keys_ok_def)
  moreover obtain q where "q \<in> set (peers d)" "pe_id q = i" "pe_state q = ''revoked''"
    using assms(2) by (auto simp: peer_revoked_def)
  moreover have "p \<in> set (peers d)" "pe_id p = i"
    using find_set [OF assms(3)] assms(3) by (auto simp: find_Some_iff)
  ultimately show ?thesis
    by (metis distinct_map inj_onD)
qed

lemma audited_peers: "audited_tx now e body d = (d', r) \<Longrightarrow> (\<And>d1 y. body d = Inr (d1, y) \<Longrightarrow> peer_revoked i d1) \<Longrightarrow> constraints d \<Longrightarrow> peer_revoked i d \<Longrightarrow>
    constraints d' \<and> peer_revoked i d'"
  by (auto simp: audited_tx_def with_tx_def Insert_def bindE_def exec_def peer_revoked_def split: sum.splits if_splits prod.splits)

lemma prune_peers: "legal_prune p now d d' \<Longrightarrow> peers d' = peers d"
  by (auto simp: legal_prune_def del_conversations_def Let_def elim!: pruned.cases)

lemma RunOnce_peers: "peers (fst (RunOnce p now d)) = peers d"
proof -
  have "(legal_prune p now)\<^sup>*\<^sup>* d d' \<Longrightarrow> peers d' = peers d" for d'
    by (induction rule: rtranclp_induct) (simp_all add: prune_peers)
  then show ?thesis
    using RunOnce_steps by blast
qed

lemma revoked_step:
  assumes "constraints d \<and> peer_revoked i d"
  shows "constraints (fst (fleet_step encode x d)) \<and> peer_revoked i (fst (fleet_step encode x d))"
proof (cases x)
  case (FEnroll now random j e)
  obtain d' r where en: "fleet_Enroll now random j e d = (d', r)"
    by fastforce
  then have "constraints d' \<and> peer_revoked i d'"
    using assms by (auto simp: fleet_Enroll_def Let_def split: if_splits option.splits dest!: audited_peers [where i = i]) (auto simp: bindE_eq_Inr exec_eq_Inr peer_revoked_def)
  then show ?thesis
    using FEnroll en by simp
next
  case (FRevoke now j e)
  obtain d' r where re: "fleet_Revoke now j e d = (d', r)"
    by fastforce
  from re [unfolded fleet_Revoke_def] have "constraints d' \<and> peer_revoked i d'"
  proof (rule audited_peers)
    fix d1 y
    assume "(let hit = \<lambda>p. pe_id p = j \<and> pe_state p = ''active'' in
       bindE (exec (\<lambda>d. d\<lparr> peers := upd_where hit (\<lambda>p. p\<lparr> pe_state := ''revoked'', pe_revoked := Some now \<rparr>) (peers d) \<rparr>) d) (\<lambda>d'.
       bindE (ensure (count_where hit (peers d) = 1) (Err ''active peer not found'')) (\<lambda>_. Inr (d', ())))) = Inr (d1, y)"
    then have "peers d1 = upd_where (\<lambda>p. pe_id p = j \<and> pe_state p = ''active'') (\<lambda>p. p\<lparr> pe_state := ''revoked'', pe_revoked := Some now \<rparr>) (peers d)"
      by (auto simp: Let_def bindE_eq_Inr exec_eq_Inr)
    moreover obtain q where "q \<in> set (peers d)" "pe_id q = i" "pe_state q = ''revoked''"
      using assms by (auto simp: peer_revoked_def)
    ultimately show "peer_revoked i d1"
      unfolding peer_revoked_def by (intro bexI [of _ q]) (auto simp: upd_where_def intro: rev_image_eqI)
  qed (use assms in auto)
  then show ?thesis
    using FRevoke re by simp
next
  case (FReceive now peer secret e)
  obtain d' r where "fleet_Receive encode now peer secret e d = (d', r)"
    by fastforce
  then show ?thesis
    using FReceive assms Receive_Inl [of encode now peer secret e d d'] by (cases r) (auto simp: peer_revoked_def elim!: Receive_Inr)
next
  case (FQueue now peer event kind payload)
  then show ?thesis
    using assms by (auto simp: fleet_Queue_def exec_def peer_revoked_def split: option.splits if_splits)
next
  case (FRetention p now)
  then show ?thesis
    using assms RunOnce_constraints [of d p now] by (simp add: peer_revoked_def RunOnce_peers)
qed

interpretation fleet: machine "fleet_step encode" "\<lambda>d. constraints d \<and> peer_revoked i d" for encode i
  by unfold_locales (rule revoked_step)

section \<open>Theorems\<close>

text \<open>
  C36: An event of a peer is taken at most once: over any enrolments, revocations, deliveries, queued messages and retention passes up to the moment it expires, an envelope is accepted
  at most once, provided the inbox is kept at least as long as an envelope is acceptable (24 hours back and five minutes ahead, and a second because times are compared as text);
  and once it has expired it is refused.
\<close>

theorem peer_event_taken_once:
  assumes "constraints d" and "list_all (until_expiry created) xs"
  shows "redemptions (taken created) (peer, event) xs (snd (run (fleet_step encode) xs d)) \<le> 1 \<and>
    (\<forall>now secret e d. now > fe_CreatedAt e + 24 * hour \<longrightarrow> isl (snd (fleet_Receive encode now peer secret e d)))"
proof -
  have "isl (snd (fleet_Receive encode now peer secret e d))" if "now > fe_CreatedAt e + 24 * hour" for now secret e d
  proof (cases "fleet_Receive encode now peer secret e d")
    case (Pair d' r)
    then show ?thesis
      using that by (cases r) (auto elim!: Receive_Inr)
  qed
  then show ?thesis
    using fleet.run_once [OF assms] by blast
qed

text \<open>C37: A revoked peer stays out: after its revocation and whatever happens then, an enrolment under the same id included, none of its events is accepted.\<close>

theorem revoked_peer_stays_out:
  assumes "constraints d" and "fleet_Revoke now i entry d = (d1, Inr u)"
  shows "snd (fleet_Receive encode now2 i secret e (fst (run (fleet_step encode) xs d1))) = Inl (Err ''peer unavailable'')"
proof -
  have d1: "constraints d1" "\<exists>p\<in>set (peers d). pe_id p = i \<and> pe_state p = ''active''"
    "peers d1 = upd_where (\<lambda>p. pe_id p = i \<and> pe_state p = ''active'') (\<lambda>p. p\<lparr> pe_state := ''revoked'', pe_revoked := Some now \<rparr>) (peers d)"
    using assms(2) count_where_pos [of "\<lambda>p. pe_id p = i \<and> pe_state p = ''active''" "peers d"]
    by (auto simp: fleet_Revoke_def audited_tx_def with_tx_commit bindE_eq_Inr exec_eq_Inr Insert_def Let_def ensure_eq_Inr)
  obtain p where p: "p \<in> set (peers d)" "pe_id p = i" "pe_state p = ''active''"
    using d1(2) by blast
  then have "p\<lparr> pe_state := ''revoked'', pe_revoked := Some now \<rparr> \<in> set (peers d1)"
    unfolding d1(3) upd_where_def set_map by (intro image_eqI [of _ _ p]) simp_all
  then have "peer_revoked i d1"
    unfolding peer_revoked_def by (rule bexI [rotated]) (simp add: p(2))
  then have inv: "constraints (fst (run (fleet_step encode) xs d1)) \<and> peer_revoked i (fst (run (fleet_step encode) xs d1))"
    using fleet.run_inv [of d1 i encode xs] d1(1) by blast
  show ?thesis
    using revoked_not_found [of "fst (run (fleet_step encode) xs d1)" i] inv
    by (auto simp: fleet_Receive_def query_def split: option.split)
qed

text \<open>
  A signed event arrives: what an enrolled peer signs with its secret is accepted when it is recent and its id is new, whatever the JSON text of an envelope is, and leaves one row in
  the inbox with the digest of its payload.
\<close>

theorem signed_event_arrives:
  assumes "constraints d" and "\<not> io_fault d" and "find (\<lambda>p. pe_id p = peer) (peers d) = Some p" and "pe_state p = ''active''" and "pe_secret p = sha256 secret"
    and "fe_EventID e \<noteq> []" and "now - 24 * hour \<le> fe_CreatedAt e" and "fe_CreatedAt e \<le> now + 5 * minute" and "length (fe_Payload e) \<le> 262144"
    and "(peer, fe_EventID e) \<notin> (\<lambda>r. (ib_peer r, ib_event r)) ` set (federation_inbox d)"
  shows "fleet_Receive encode now peer secret (Sign encode secret e) d =
    (d\<lparr> federation_inbox := federation_inbox d @ [\<lparr> ib_peer = peer, ib_event = fe_EventID e, ib_received = now, ib_payload = sha256 (fe_Payload e) \<rparr>] \<rparr>, Inr ())"
proof -
  have "peer \<in> pe_id ` set (peers d)"
    using find_set [OF assms(3)] assms(3) by (auto simp: find_Some_iff)
  then have "constraints (d\<lparr> federation_inbox := federation_inbox d @ [\<lparr> ib_peer = peer, ib_event = fe_EventID e, ib_received = now, ib_payload = sha256 (fe_Payload e) \<rparr>] \<rparr>)"
    using assms(1,10) by (simp add: constraint_defs Let_def)
  moreover have "signingBytes encode (Sign encode secret e) = signingBytes encode e"
    by (simp add: signingBytes_def Sign_def)
  ultimately show ?thesis
    using assms(2-9) by (simp add: fleet_Receive_def query_def) (simp add: Sign_def exec_def)
qed

section \<open>Witnesses\<close>

definition sample_fleet :: db where
  "sample_fleet = empty_db\<lparr> peers := [\<lparr> pe_id = ''east'', pe_secret = sha256 ''key'', pe_state = ''active'', pe_created = 0, pe_revoked = None \<rparr>] \<rparr>"

definition week_policy :: Retention where
  "week_policy = Retention.sample_policy\<lparr> rt_FederationInbox := 168 * hour \<rparr>"

definition sample_event :: fleet_Envelope where
  "sample_event = \<lparr> fe_EventID = ''e1'', fe_Kind = ''alert'', fe_CreatedAt = 100, fe_Payload = ''{}'', fe_Signature = [] \<rparr>"

definition no_entry :: Entry where
  "no_entry = \<lparr> en_ActorID = 0, en_Action = [], en_ObjectType = [], en_ObjectID = [], en_Detail = [] \<rparr>"

lemma sample_fleet_ok: "constraints sample_fleet" "\<not> io_fault sample_fleet"
  by (simp_all add: sample_fleet_def empty_db_def constraint_defs Let_def)

theorem peer_event_taken_once_witness:
  "redemptions (taken 100) (''east'', ''e1'')
     [FReceive 200 ''east'' ''key'' (Sign fe_Payload ''key'' sample_event), FRetention week_policy (3 * hour), FReceive (3 * hour) ''east'' ''key'' (Sign fe_Payload ''key'' sample_event)]
     (snd (run (fleet_step fe_Payload)
       [FReceive 200 ''east'' ''key'' (Sign fe_Payload ''key'' sample_event), FRetention week_policy (3 * hour), FReceive (3 * hour) ''east'' ''key'' (Sign fe_Payload ''key'' sample_event)] sample_fleet)) \<le> 1"
  by (rule peer_event_taken_once [THEN conjunct1]) (simp_all add: sample_fleet_ok keeps_inbox_def week_policy_def time_units)

theorem revoked_peer_stays_out_witness:
  "\<exists>d1. fleet_Revoke 5 ''east'' no_entry sample_fleet = (d1, Inr ()) \<and>
     snd (fleet_Receive fe_Payload 200 ''east'' ''key'' (Sign fe_Payload ''key'' sample_event) (fst (run (fleet_step fe_Payload) [FEnroll 6 (Some ''abc'') ''east'' no_entry] d1))) = Inl (Err ''peer unavailable'')"
proof -
  obtain d1 where "fleet_Revoke 5 ''east'' no_entry sample_fleet = (d1, Inr ())"
    by (simp add: fleet_Revoke_def audited_tx_def with_tx_def Insert_def audit_row_of_def exec_def no_entry_def peer_entry_def sample_fleet_def empty_db_def constraint_defs Let_def)
  then show ?thesis
    using revoked_peer_stays_out [OF sample_fleet_ok(1)] by blast
qed

theorem signed_event_arrives_witness:
  "snd (fleet_Receive fe_Payload 200 ''east'' ''key'' (Sign fe_Payload ''key'' sample_event) sample_fleet) = Inr ()"
proof -
  have "find (\<lambda>p. pe_id p = ''east'') (peers sample_fleet) = Some \<lparr> pe_id = ''east'', pe_secret = sha256 ''key'', pe_state = ''active'', pe_created = 0, pe_revoked = None \<rparr>"
    and "federation_inbox sample_fleet = []"
    by (simp_all add: sample_fleet_def empty_db_def)
  then show ?thesis
    using signed_event_arrives [OF sample_fleet_ok, of "''east''" _ "''key''" sample_event 200 fe_Payload] by (simp add: sample_event_def time_units)
qed

end
