(* ===== verification/Access.thy ===== *)
theory Access
  imports Accounts
begin

text \<open>
  Who may call what: the routes of the HTTP API with the role each demands (\<open>registerAPI\<close>, \<open>registerClusterAPI\<close>, \<open>registerPropagationAPI\<close>, \<open>registerReplicationAPI\<close>), the guard
  \<open>require\<close> in front of the handlers (\<open>internal/server/api.go\<close>), the guard of the launcher (\<open>internal/server/launcher.go\<close>) and the idempotency key of mutations
  (\<open>internal/server/idempotency.go\<close>). A handler is any function of the user and the database, so what is proved of the guard holds whatever the handlers do.
\<close>

section \<open>Routes\<close>

type_synonym route = "string \<times> string \<times> string option"

text \<open>Method, path and the role \<open>require\<close> is given; \<open>None\<close> where the handler is registered without it.\<close>

definition api_routes :: "route list" where
  "api_routes = [(''GET'', ''/api/v1/bootstrap'', None), (''POST'', ''/api/v1/setup'', None), (''POST'', ''/api/v1/login'', None), (''POST'', ''/api/v1/logout'', Some ''viewer''),
     (''POST'', ''/api/v1/posts'', Some ''admin''), (''GET'', ''/api/v1/posts'', Some ''viewer''), (''GET'', ''/api/v1/collectors'', Some ''viewer''),
     (''GET'', ''/api/v1/posts/{id}'', Some ''viewer''), (''PUT'', ''/api/v1/posts/{id}'', Some ''operator''), (''DELETE'', ''/api/v1/posts/{id}'', Some ''admin''),
     (''POST'', ''/api/v1/posts/{id}/dependencies'', Some ''operator''), (''POST'', ''/api/v1/posts/{id}/collectors'', Some ''admin''),
     (''POST'', ''/api/v1/posts/{id}/pairing-tokens'', Some ''admin''), (''POST'', ''/api/collector/v1/pair'', None), (''POST'', ''/api/agent/v2/pairing-requests'', None),
     (''POST'', ''/api/agent/v2/rotate'', None), (''POST'', ''/api/agent/v2/unpair'', None), (''GET'', ''/api/agent/v2/pairing-requests/{id}'', None),
     (''GET'', ''/api/v1/agent-pairing-requests'', Some ''viewer''), (''GET'', ''/api/v1/agent-connections'', Some ''viewer''),
     (''GET'', ''/api/v1/posts/{id}/agent-connections'', Some ''viewer''), (''POST'', ''/api/v1/agent-connections/{id}/revoke'', Some ''admin''),
     (''POST'', ''/api/v1/agent-pairing-requests/{id}/approve'', Some ''admin''), (''POST'', ''/api/v1/agent-pairing-requests/{id}/reject'', Some ''admin''),
     (''POST'', ''/api/v1/observations'', None), (''POST'', ''/api/collector/v1/observations'', None), (''GET'', ''/api/v1/host-snapshot'', Some ''viewer''),
     (''POST'', ''/api/v1/checks'', Some ''operator''), (''POST'', ''/api/v1/check-schedules'', Some ''operator''),
     (''GET'', ''/api/v1/check-schedules'', Some ''viewer''), (''GET'', ''/api/v1/posts/{id}/history'', Some ''viewer''), (''GET'', ''/api/v1/survey'', Some ''viewer''),
     (''POST'', ''/api/v1/rules'', Some ''operator''), (''GET'', ''/api/v1/rules'', Some ''viewer''), (''POST'', ''/api/v1/rules/{id}/enabled'', Some ''operator''),
     (''GET'', ''/api/v1/alerts'', Some ''viewer''), (''POST'', ''/api/v1/alerts/{id}/acknowledge'', Some ''operator''),
     (''POST'', ''/api/v1/notification-routes'', Some ''admin''), (''GET'', ''/api/v1/notification-routes'', Some ''viewer''),
     (''POST'', ''/api/v1/incidents'', Some ''operator''), (''GET'', ''/api/v1/incidents'', Some ''viewer''), (''GET'', ''/api/v1/incidents/{id}'', Some ''viewer''),
     (''POST'', ''/api/v1/incidents/{id}/transition'', Some ''operator''), (''POST'', ''/api/v1/incidents/{id}/notes'', Some ''operator''),
     (''POST'', ''/api/v1/incidents/{id}/assign'', Some ''operator''), (''POST'', ''/api/v1/logs'', Some ''operator''),
     (''GET'', ''/api/v1/posts/{id}/logs'', Some ''viewer''), (''POST'', ''/api/v1/changes'', Some ''operator''),
     (''GET'', ''/api/v1/evidence/{kind}/{id}'', Some ''viewer''), (''POST'', ''/api/v1/conversations'', Some ''viewer''),
     (''POST'', ''/api/v1/conversations/{id}/investigate'', Some ''viewer''), (''POST'', ''/api/v1/actions'', Some ''operator''),
     (''GET'', ''/api/v1/actions'', Some ''viewer''), (''POST'', ''/api/v1/actions/{id}/approve'', Some ''admin''),
     (''POST'', ''/api/v1/actions/{id}/execute'', Some ''operator''), (''POST'', ''/api/v1/peers'', Some ''admin''), (''GET'', ''/api/v1/peers'', Some ''viewer''),
     (''POST'', ''/api/v1/peers/{id}/revoke'', Some ''admin''), (''POST'', ''/api/v1/federation/{peer}'', None),
     (''POST'', ''/api/v1/devices/snmp/poll'', Some ''operator''), (''POST'', ''/api/v1/device-profiles'', Some ''operator''),
     (''GET'', ''/api/v1/device-profiles'', Some ''viewer''), (''DELETE'', ''/api/v1/device-profiles/{id}'', Some ''operator''),
     (''GET'', ''/api/v1/device-adapters'', Some ''viewer''), (''GET'', ''/api/v1/device-presets'', Some ''viewer''), (''GET'', ''/api/v1/audit'', Some ''admin''),
     (''GET'', ''/api/v1/users'', Some ''admin''), (''POST'', ''/api/v1/users'', Some ''admin''), (''PUT'', ''/api/v1/users/{id}/role'', Some ''admin''),
     (''POST'', ''/api/v1/users/{id}/reset-password'', Some ''admin''), (''POST'', ''/api/v1/users/{id}/revoke-sessions'', Some ''admin''),
     (''POST'', ''/api/v1/me/password'', Some ''viewer'')]"

definition cluster_routes :: "route list" where
  "cluster_routes = [(''POST'', ''/api/cluster/v1/replication/propose'', None), (''GET'', ''/api/v1/cluster/identity'', Some ''viewer''), (''PUT'', ''/api/v1/cluster/identity'', Some ''admin''),
     (''POST'', ''/api/v1/cluster/invitations'', Some ''admin''), (''POST'', ''/api/cluster/v1/join'', None), (''GET'', ''/api/cluster/v1/join/{id}'', None),
     (''GET'', ''/api/v1/cluster/joins'', Some ''admin''), (''POST'', ''/api/v1/cluster/outbound-joins'', Some ''admin''),
     (''GET'', ''/api/v1/cluster/outbound-joins'', Some ''admin''), (''POST'', ''/api/v1/cluster/outbound-joins/{id}/collect'', Some ''admin''),
     (''POST'', ''/api/v1/cluster/joins/{id}/approve'', Some ''admin''), (''POST'', ''/api/v1/cluster/joins/{id}/reject'', Some ''admin''),
     (''GET'', ''/api/v1/cluster/members'', Some ''viewer''), (''POST'', ''/api/v1/cluster/members/{id}/enable'', Some ''admin''),
     (''POST'', ''/api/v1/cluster/members/{id}/disable'', Some ''admin''), (''POST'', ''/api/v1/cluster/members/{id}/revoke'', Some ''admin''),
     (''DELETE'', ''/api/v1/cluster/members/{id}'', Some ''admin''), (''POST'', ''/api/v1/cluster/members/{id}/rotate'', Some ''admin''),
     (''PUT'', ''/api/v1/cluster/members/{id}/outbound-credential'', Some ''admin''), (''GET'', ''/api/v1/cluster/status'', Some ''viewer''),
     (''GET'', ''/api/v1/cluster/summary'', Some ''viewer''), (''GET'', ''/api/cluster/v1/rpc/status'', None), (''GET'', ''/api/cluster/v1/rpc/summary'', None)]"

definition propagation_routes :: "route list" where
  "propagation_routes = [(''GET'', ''/api/v1/cluster/propagation/kinds'', Some ''viewer''), (''POST'', ''/api/v1/cluster/propagation/export'', Some ''admin''),
     (''POST'', ''/api/v1/cluster/propagation/preview'', Some ''admin''), (''POST'', ''/api/v1/cluster/propagation/apply'', Some ''admin''),
     (''POST'', ''/api/v1/cluster/propagation/propagate'', Some ''admin''), (''GET'', ''/api/v1/cluster/propagation/history'', Some ''viewer''),
     (''GET'', ''/api/v1/cluster/propagation/profiles'', Some ''viewer''), (''PUT'', ''/api/v1/cluster/propagation/profiles/{id}'', Some ''admin''),
     (''DELETE'', ''/api/v1/cluster/propagation/profiles/{id}'', Some ''admin''), (''POST'', ''/api/v1/cluster/propagation/profiles/run-due'', Some ''admin''),
     (''POST'', ''/api/cluster/v1/rpc/propagation/preview'', None), (''POST'', ''/api/cluster/v1/rpc/propagation/apply'', None)]"

definition replication_routes :: "route list" where
  "replication_routes = [(''GET'', ''/api/v1/replication/status'', Some ''admin''), (''POST'', ''/api/v1/replication/join'', Some ''admin''),
     (''POST'', ''/api/v1/replication/snapshot'', Some ''admin'')]"

text \<open>The routes \<open>Handler\<close> adds itself, without the static files; the pattern of \<open>/manage/\<close> names no method.\<close>

definition base_routes :: "route list" where
  "base_routes = [(''GET'', ''/healthz'', None), (''GET'', ''/readyz'', None), (''GET'', ''/api/v1/version'', None), (''GET'', ''/api/launcher/instances'', None),
     (''PUT'', ''/api/launcher/config'', None), (''GET'', ''/api/v1/diagnostics'', None), (''GET'', ''/api/v1/storage'', Some ''viewer''),
     (''GET'', ''/api/v1/backup-status'', Some ''viewer''), ([], ''/manage/'', Some ''admin'')]"

definition server_routes :: "route list" where
  "server_routes = base_routes @ api_routes @ propagation_routes @ cluster_routes @ replication_routes"

section \<open>The guard\<close>

definition rank :: "string \<Rightarrow> nat" where
  "rank role = (if role = ''admin'' then 3 else if role = ''operator'' then 2 else if role = ''viewer'' then 1 else 0)"

record http_request =
  hr_Method :: string
  hr_Cookie :: "string option"
  hr_CSRF :: string

datatype 'a answer =
    Refused nat string
  | Served 'a

definition require :: "time \<Rightarrow> string \<Rightarrow> (User \<Rightarrow> db \<Rightarrow> db \<times> 'a) \<Rightarrow> http_request \<Rightarrow> db \<Rightarrow> db \<times> 'a answer" where
  "require now role handler r d = (case hr_Cookie r of None \<Rightarrow> (d, Refused 401 ''authentication required'')
     | Some token \<Rightarrow> case session_Authenticate now token d of Inl e \<Rightarrow> (d, Refused 403 ''forbidden'')
       | Inr session \<Rightarrow> if rank (u_Role (sn_User session)) < rank role then (d, Refused 403 ''forbidden'')
           else if hr_Method r \<noteq> ''GET'' \<and> hr_CSRF r \<noteq> sn_CSRF session then (d, Refused 403 ''csrf check failed'')
           else case handler (sn_User session) d of (d', x) \<Rightarrow> (d', Served x))"

text \<open>A route as it is served; a handler without \<open>require\<close> sees no user (\<open>currentUser\<close> is then the zero user).\<close>

definition no_user :: User where
  "no_user = \<lparr> u_ID = 0, u_Email = [], u_Role = [] \<rparr>"

definition serve :: "(route \<Rightarrow> User \<Rightarrow> db \<Rightarrow> db \<times> 'a) \<Rightarrow> time \<Rightarrow> route \<Rightarrow> http_request \<Rightarrow> db \<Rightarrow> db \<times> 'a answer" where
  "serve handlers now rt r d = (case snd (snd rt) of None \<Rightarrow> (case handlers rt no_user d of (d', x) \<Rightarrow> (d', Served x))
     | Some role \<Rightarrow> require now role (handlers rt) r d)"

section \<open>The launcher\<close>

definition launcherSession :: "time \<Rightarrow> http_request \<Rightarrow> bool \<Rightarrow> db \<Rightarrow> string option" where
  "launcherSession now r mutation d = (case hr_Cookie r of None \<Rightarrow> None | Some token \<Rightarrow> case session_Authenticate now token d of Inl e \<Rightarrow> None
     | Inr session \<Rightarrow> if u_Role (sn_User session) \<noteq> ''admin'' then None else if mutation \<and> hr_CSRF r \<noteq> sn_CSRF session then None else Some (sn_CSRF session))"

section \<open>Idempotency keys\<close>

definition key_start :: "char \<Rightarrow> bool" where
  "key_start c \<longleftrightarrow> (let k = (of_char c :: nat) in 65 \<le> k \<and> k \<le> 90 \<or> 97 \<le> k \<and> k \<le> 122 \<or> 48 \<le> k \<and> k \<le> 57)"

definition requestIDPattern :: "string \<Rightarrow> bool" where
  "requestIDPattern s \<longleftrightarrow> s \<noteq> [] \<and> key_start (hd s) \<and> length s \<le> 128 \<and> list_all (\<lambda>c. key_start c \<or> c \<in> set ''._:-'') (tl s)"

definition mutationContext :: "string \<Rightarrow> err + string option" where
  "mutationContext key = (if key = [] then Inr None else if \<not> requestIDPattern key then Inl (Err ''invalid idempotency key'') else Inr (Some key))"

section \<open>What is served\<close>

text \<open>The endpoints without the guard: health, version and diagnostics, which everybody may read, and those that identify their caller in another way (the launcher, setup, login,
  credentials of agents and collectors, peers and members of the cluster); and the writes every user may do.\<close>

definition open_endpoints :: "(string \<times> string) list" where
  "open_endpoints = [(''GET'', ''/healthz''), (''GET'', ''/readyz''), (''GET'', ''/api/v1/version''), (''GET'', ''/api/launcher/instances''), (''PUT'', ''/api/launcher/config''),
     (''GET'', ''/api/v1/diagnostics''), (''GET'', ''/api/v1/bootstrap''), (''POST'', ''/api/v1/setup''), (''POST'', ''/api/v1/login''), (''POST'', ''/api/collector/v1/pair''),
     (''POST'', ''/api/agent/v2/pairing-requests''), (''POST'', ''/api/agent/v2/rotate''), (''POST'', ''/api/agent/v2/unpair''), (''GET'', ''/api/agent/v2/pairing-requests/{id}''),
     (''POST'', ''/api/v1/observations''), (''POST'', ''/api/collector/v1/observations''), (''POST'', ''/api/v1/federation/{peer}''), (''POST'', ''/api/cluster/v1/replication/propose''),
     (''POST'', ''/api/cluster/v1/join''), (''GET'', ''/api/cluster/v1/join/{id}''), (''GET'', ''/api/cluster/v1/rpc/status''), (''GET'', ''/api/cluster/v1/rpc/summary''),
     (''POST'', ''/api/cluster/v1/rpc/propagation/preview''), (''POST'', ''/api/cluster/v1/rpc/propagation/apply'')]"

definition own_endpoints :: "string list" where
  "own_endpoints = [''/api/v1/logout'', ''/api/v1/conversations'', ''/api/v1/conversations/{id}/investigate'', ''/api/v1/me/password'']"

definition needed_rank :: "route \<Rightarrow> nat" where
  "needed_rank rt = (if fst rt = ''GET'' \<or> fst (snd rt) \<in> set own_endpoints then 1 else 2)"

lemma routes_covered:
  "list_all (\<lambda>rt. case snd (snd rt) of None \<Rightarrow> List.member open_endpoints (fst rt, fst (snd rt)) | Some role \<Rightarrow> needed_rank rt \<le> rank role) server_routes"
  by code_simp

definition live_session :: "time \<Rightarrow> nat \<Rightarrow> http_request \<Rightarrow> db \<Rightarrow> bool" where
  "live_session now n r d \<longleftrightarrow> (\<exists>token s u. hr_Cookie r = Some token \<and> s \<in> set (sessions d) \<and> se_token s = sha256 token \<and> now \<le> se_expires s \<and>
     u \<in> set (users d) \<and> us_id u = se_user s \<and> n \<le> rank (us_role u) \<and> (hr_Method r = ''GET'' \<or> hr_CSRF r = se_csrf s))"

lemma session_rows:
  assumes "session_Authenticate now token d = Inr session"
  obtains s u where "s \<in> set (sessions d)" and "se_token s = sha256 token" and "now \<le> se_expires s" and "u \<in> set (users d)" and "us_id u = se_user s"
    and "u_Role (sn_User session) = us_role u" and "sn_CSRF session = se_csrf s"
proof -
  obtain s u where r: "find (\<lambda>s. se_token s = sha256 token) (sessions d) = Some s" "find (\<lambda>u. us_id u = se_user s) (users d) = Some u"
    and t: "now \<le> se_expires s" "u_Role (sn_User session) = us_role u" "sn_CSRF session = se_csrf s"
    using assms by (auto simp: session_Authenticate_def split: if_splits option.splits)
  show thesis
    by (rule that [of s u]) (use r t in \<open>auto simp: find_Some_iff\<close>)
qed

lemma require_cases:
  assumes "require now role handler r d = (d', a)"
  shows "(\<exists>x. a = Served x) \<and> live_session now (rank role) r d \<or> d' = d \<and> (\<exists>n m. a = Refused n m \<and> n \<in> {401, 403})"
proof (cases "\<exists>x. a = Served x")
  case True
  then obtain token session where s: "hr_Cookie r = Some token" "session_Authenticate now token d = Inr session" "rank role \<le> rank (u_Role (sn_User session))"
    "hr_Method r = ''GET'' \<or> hr_CSRF r = sn_CSRF session"
    using assms by (auto simp: require_def not_less split: option.splits sum.splits if_splits)
  from s(2) show ?thesis
    by (rule session_rows) (use True s in \<open>auto simp: live_session_def\<close>)
next
  case False
  then show ?thesis
    using assms by (auto simp: require_def split: option.splits sum.splits if_splits prod.splits)
qed

lemma live_session_mono: "live_session now n r d \<Longrightarrow> m \<le> n \<Longrightarrow> live_session now m r d"
  unfolding live_session_def by (meson order_trans)



end
