(* ===== verification/Telemetry.thy ===== *)
theory Telemetry
  imports Checks Access Actions
begin

text \<open>
  The way of telemetry through the server: the contract of a collector's batch (\<open>internal/collectorcontract/contract.go\<close>), the storage guard (\<open>internal/storage/storage.go\<close>), the handlers
  that ingest, evaluate and notify (\<open>handleObservation\<close> and \<open>handleCollectorBatch\<close> of \<open>internal/server/api.go\<close>). A request is decoded; what the file system reports is an argument.
  Between the statements of a handler the database may fail: \<open>fault n\<close> says that it does while the \<open>n\<close>-th sample is evaluated; \<open>msg\<close> is the text of an error.
  \<open>guard\<close> is the answer of \<open>guardStorage\<close>, which when it refuses also starts a retention pass in the background; that pass is a step of its own (\<open>RunOnce\<close>).
\<close>

section \<open>The contract of a batch\<close>

record Sample =
  sm_Sequence :: int
  sm_ObservedAt :: time
  sm_Signal :: string
  sm_Value :: "f64 option"
  sm_Unit :: string
  sm_Quality :: string
  sm_Labels :: "(string \<times> string) list option"

record Batch =
  bt_Version :: int
  bt_PostID :: id
  bt_CollectorID :: id
  bt_BatchID :: string
  bt_SentAt :: time
  bt_Samples :: "Sample list"

record Acknowledgement =
  ak_Version :: int
  ak_BatchID :: string
  ak_AcceptedThrough :: int
  ak_ServerTime :: time

definition is_identifier :: "string \<Rightarrow> bool" where
  "is_identifier s \<longleftrightarrow> s \<noteq> [] \<and> key_start (hd s) \<and> length s \<le> 63 \<and> list_all (\<lambda>c. key_start c \<or> c \<in> set ''._-'') (tl s)"

definition sample_error :: "time \<Rightarrow> int option \<Rightarrow> Sample \<Rightarrow> string option" where
  "sample_error now previous x =
     (if sm_Sequence x < 1 \<or> (case previous of None \<Rightarrow> False | Some p \<Rightarrow> sm_Sequence x \<noteq> int64 (p + 1)) then Some ''collector sample sequences must be contiguous''
      else if sm_ObservedAt x < now - 24 * hour \<or> sm_ObservedAt x > now + 5 * minute then Some ''observation outside clock bounds''
      else if length (sm_Signal x) < 1 \<or> length (sm_Signal x) > 128 \<or> length (case sm_Labels x of None \<Rightarrow> [] | Some ls \<Rightarrow> ls) > 32 then Some ''invalid collector sample''
      else if sm_Quality x \<notin> set observation_qualities then Some ''invalid signal quality''
      else if (case sm_Value x of None \<Rightarrow> False | Some v \<Rightarrow> \<not> is_finite v) then Some ''invalid numeric value''
      else None)"

fun samples_valid :: "time \<Rightarrow> int option \<Rightarrow> Sample list \<Rightarrow> err + unit" where
  "samples_valid now previous [] = Inr ()"
| "samples_valid now previous (x # xs) = (case sample_error now previous x of Some m \<Rightarrow> Inl (Err m) | None \<Rightarrow> samples_valid now (Some (sm_Sequence x)) xs)"

definition batch_Validate :: "time \<Rightarrow> Batch \<Rightarrow> err + unit" where
  "batch_Validate now b =
     (if bt_Version b \<noteq> 1 then Inl (Err ''unsupported collector protocol version'')
      else if \<not> is_identifier (bt_PostID b) \<or> \<not> is_identifier (bt_CollectorID b) \<or> \<not> is_identifier (bt_BatchID b) then Inl (Err ''invalid collector batch identity'')
      else if bt_SentAt b < now - 24 * hour \<or> bt_SentAt b > now + 5 * minute then Inl (Err ''collector clock outside allowed bounds'')
      else if length (bt_Samples b) < 1 \<or> length (bt_Samples b) > 128 then Inl (Err ''invalid collector batch size'')
      else samples_valid now None (bt_Samples b))"

section \<open>The storage guard\<close>

text \<open>Sizes are \<open>int64\<close> and wrap around. \<open>statfs\<close> answers the available blocks, all blocks and their size.\<close>

record Checker =
  ch_maxDBBytes :: int
  ch_minFreeBytes :: int
  ch_minFreePercent :: f64

record storage_Report =
  sp_DBBytes :: int
  sp_WALBytes :: int
  sp_SHMBytes :: int
  sp_OtherBytes :: int
  sp_TotalBytes :: int
  sp_FreeBytes :: int
  sp_FreePercent :: f64
  sp_Full :: bool
  sp_Reason :: string
  sp_Files :: "(string \<times> int) list"

definition add_file :: "string \<times> int \<Rightarrow> storage_Report \<Rightarrow> storage_Report" where
  "add_file f r = (let r = r\<lparr> sp_Files := sp_Files r @ [f], sp_TotalBytes := int64 (sp_TotalBytes r + snd f) \<rparr> in
     if has_suffix (fst f) ''-wal'' then r\<lparr> sp_WALBytes := int64 (sp_WALBytes r + snd f) \<rparr>
     else if has_suffix (fst f) ''-shm'' then r\<lparr> sp_SHMBytes := int64 (sp_SHMBytes r + snd f) \<rparr>
     else if fst f = ''watchpost.db'' then r\<lparr> sp_DBBytes := int64 (sp_DBBytes r + snd f) \<rparr>
     else r\<lparr> sp_OtherBytes := int64 (sp_OtherBytes r + snd f) \<rparr>)"

definition free_space :: "(int \<times> int \<times> int) option \<Rightarrow> int \<times> f64" where
  "free_space stat = (case stat of None \<Rightarrow> (0, Num 0) | Some (avail, blocks, bytes) \<Rightarrow>
     let free = int64 (int64 avail * int64 bytes); whole = int64 (int64 blocks * int64 bytes) in (free, if whole > 0 then Num (100 * of_int free / of_int whole) else Num 0))"

definition storage_full :: "Checker \<Rightarrow> int \<Rightarrow> int \<Rightarrow> f64 \<Rightarrow> string option" where
  "storage_full c whole free percent =
     (if ch_maxDBBytes c > 0 \<and> whole \<ge> ch_maxDBBytes c then Some ''database footprint at capacity''
      else if ch_minFreeBytes c > 0 \<and> free > 0 \<and> free < ch_minFreeBytes c then Some ''free disk below minimum''
      else if f64_less (Num 0) (ch_minFreePercent c) \<and> f64_less (Num 0) percent \<and> f64_less percent (ch_minFreePercent c) then Some ''free disk below minimum percent''
      else None)"

text \<open>The entries of the data directory: name, whether it is a directory, and its size unless \<open>os.Stat\<close> fails.\<close>

definition storage_report :: "Checker \<Rightarrow> err + (string \<times> bool \<times> int option) list \<Rightarrow> (int \<times> int \<times> int) option \<Rightarrow> err + storage_Report" where
  "storage_report c entries stat = bindE entries (\<lambda>es.
     let files = sort_key fst (map (\<lambda>(n, dir, bytes). (n, bytes)) (filter (\<lambda>(n, dir, bytes). \<not> dir \<and> has_prefix n ''watchpost.db'') es));
         empty = \<lparr> sp_DBBytes = 0, sp_WALBytes = 0, sp_SHMBytes = 0, sp_OtherBytes = 0, sp_TotalBytes = 0, sp_FreeBytes = 0, sp_FreePercent = Num 0, sp_Full = False, sp_Reason = [], sp_Files = [] \<rparr>;
         r = fold (\<lambda>(n, bytes) r. case bytes of None \<Rightarrow> r | Some b \<Rightarrow> add_file (n, b) r) files empty;
         (free, percent) = free_space stat;
         r = r\<lparr> sp_FreeBytes := free, sp_FreePercent := percent \<rparr>
     in Inr (case storage_full c (sp_TotalBytes r) free percent of None \<Rightarrow> r | Some m \<Rightarrow> r\<lparr> sp_Full := True, sp_Reason := m \<rparr>))"

definition storage_Check :: "Checker \<Rightarrow> err + (string \<times> bool \<times> int option) list \<Rightarrow> (int \<times> int \<times> int) option \<Rightarrow> err + unit" where
  "storage_Check c entries stat = bindE (storage_report c entries stat) (\<lambda>r. if sp_Full r then Inl (Err ''storage full'') else Inr ())"

section \<open>Ingest, evaluate, notify\<close>

text \<open>One statement sequence on a database that fails meanwhile when \<open>broken\<close>.\<close>

definition while_broken :: "bool \<Rightarrow> (db \<Rightarrow> db \<times> 'a) \<Rightarrow> db \<Rightarrow> db \<times> 'a" where
  "while_broken broken f d = (case f (d\<lparr> io_fault := io_fault d \<or> broken \<rparr>) of (d', x) \<Rightarrow> (d'\<lparr> io_fault := io_fault d \<rparr>, x))"

fun evaluate_items :: "(nat \<Rightarrow> bool) \<Rightarrow> time \<Rightarrow> nat \<Rightarrow> Observation list \<Rightarrow> db \<Rightarrow> db \<times> (err + unit)" where
  "evaluate_items fault now n [] d = (d, Inr ())"
| "evaluate_items fault now n (x # xs) d =
     (case while_broken (fault n) (EvaluateObservation (o_PostID x) (o_Signal x) (o_ObservedAt x) (o_Value x) (o_Quality x)) d of
        (d', Inl e) \<Rightarrow> (d', Inl e)
      | (d', Inr as) \<Rightarrow> evaluate_items fault now (Suc n) xs (queue_firing now as d'))"

definition bearer :: "string \<Rightarrow> string" where
  "bearer header = TrimPrefix header ''Bearer ''"

definition handleObservation :: "(err \<Rightarrow> string) \<Rightarrow> (nat \<Rightarrow> bool) \<Rightarrow> time \<Rightarrow> err + unit \<Rightarrow> string \<Rightarrow> Observation \<Rightarrow> ingestService \<Rightarrow> ingestService \<times> unit answer" where
  "handleObservation msg fault now guard header x s = (let secret = bearer header in
     if secret = [] then (s, Refused 401 ''collector authentication required'')
     else case Authenticate now (o_CollectorID x) secret (sv_db s) of Inl e \<Rightarrow> (s, Refused 401 ''collector authentication failed'')
     | Inr _ \<Rightarrow> case guard of Inl e \<Rightarrow> (s, Refused 507 ''storage full'')
     | Inr _ \<Rightarrow> case Accept now secret x s of (s', Inl e) \<Rightarrow> (s', Refused 400 (msg e))
     | (s', Inr _) \<Rightarrow> case evaluate_items fault now 0 [x] (sv_db s') of (d', Inl e) \<Rightarrow> (s'\<lparr> sv_db := d' \<rparr>, Refused 500 ''rule evaluation failed'')
     | (d', Inr _) \<Rightarrow> (s'\<lparr> sv_db := d' \<rparr>, Served ()))"

definition batch_items :: "Batch \<Rightarrow> Observation list" where
  "batch_items b = map (\<lambda>x. \<lparr> o_Version = 1, o_PostID = bt_PostID b, o_CollectorID = bt_CollectorID b, o_ObservedAt = sm_ObservedAt x, o_Sequence = sm_Sequence x, o_Signal = sm_Signal x,
     o_Value = sm_Value x, o_Unit = sm_Unit x, o_Quality = sm_Quality x, o_Labels = sm_Labels x \<rparr>) (bt_Samples b)"

definition acknowledgement :: "time \<Rightarrow> Batch \<Rightarrow> Acknowledgement" where
  "acknowledgement now b = \<lparr> ak_Version = 1, ak_BatchID = bt_BatchID b, ak_AcceptedThrough = o_Sequence (last (batch_items b)), ak_ServerTime = now \<rparr>"

definition handleCollectorBatch :: "(err \<Rightarrow> string) \<Rightarrow> (nat \<Rightarrow> bool) \<Rightarrow> time \<Rightarrow> err + unit \<Rightarrow> string \<Rightarrow> Batch \<Rightarrow> ingestService \<Rightarrow> ingestService \<times> Acknowledgement answer" where
  "handleCollectorBatch msg fault now guard header b s =
     (case batch_Validate now b of Inl e \<Rightarrow> (s, Refused 400 (msg e))
      | Inr _ \<Rightarrow> let secret = bearer header in
          if secret = [] then (s, Refused 401 ''collector authentication required'')
          else case Authenticate now (bt_CollectorID b) secret (sv_db s) of Inl e \<Rightarrow> (s, Refused 401 ''collector authentication failed'')
          | Inr _ \<Rightarrow> case guard of Inl e \<Rightarrow> (s, Refused 507 ''storage full'')
          | Inr _ \<Rightarrow> case AcceptBatch now secret (batch_items b) (bt_SentAt b) (bt_BatchID b) s of
              (s', Inl e) \<Rightarrow> (s'\<lparr> sv_db := RecordRejection now (bt_CollectorID b) (msg e) (sv_db s') \<rparr>, Refused 409 (msg e))
            | (s', Inr True) \<Rightarrow> (s', Served (acknowledgement now b))
            | (s', Inr False) \<Rightarrow> case evaluate_items fault now 0 (batch_items b) (sv_db s') of
                (d', Inl e) \<Rightarrow> (s'\<lparr> sv_db := d' \<rparr>, Refused 500 ''rule evaluation failed'')
              | (d', Inr _) \<Rightarrow> (s'\<lparr> sv_db := d' \<rparr>, Served (acknowledgement now b)))"

section \<open>What an evaluation writes\<close>

lemma evaluate_body_writes:
  assumes "evaluate_body i tm v quality d = Inr (d', a)"
  shows "(\<exists>as. d' = d\<lparr> alerts := as \<rparr>) \<and> set (alerts d') \<subseteq> set (alerts d) \<union> {x. a_ID a = al_id x \<and> a_State a = al_state x}"
  using assms by (cases rule: evaluate_body_cases) (auto simp: insert_alert_def bindE_eq_Inr exec_eq_Inr Let_def intro: exI [of _ "alerts d"])

lemma Evaluate_writes:
  assumes "Evaluate i tm v quality d = (d', r)"
  shows "(\<exists>as. d' = d\<lparr> alerts := as \<rparr>) \<and> (\<forall>a. r = Inr a \<longrightarrow> set (alerts d') \<subseteq> set (alerts d) \<union> {x. a_ID a = al_id x \<and> a_State a = al_state x})"
proof (cases r)
  case (Inl e)
  then have "d' = d"
    using assms with_tx_rollback unfolding Evaluate_def by blast
  then show ?thesis
    using Inl by (auto intro: exI [of _ "alerts d"])
next
  case (Inr a)
  then have "evaluate_body i tm v quality d = Inr (d', a)"
    using assms by (simp add: Evaluate_def with_tx_commit)
  then show ?thesis
    using evaluate_body_writes Inr by blast
qed

definition reported :: "Alert list \<Rightarrow> db \<Rightarrow> db \<Rightarrow> bool" where
  "reported as d d' \<longleftrightarrow> (\<forall>x\<in>set (alerts d'). x \<in> set (alerts d) \<or> (\<exists>a\<in>set as. a_ID a = al_id x \<and> a_State a = al_state x))"

lemma evaluate_all_writes:
  "evaluate_all is tm v quality d = (d', r) \<Longrightarrow> (\<exists>as. d' = d\<lparr> alerts := as \<rparr>) \<and> (\<forall>as. r = Inr as \<longrightarrow> reported as d d')"
proof (induction "is" arbitrary: d d' r)
  case Nil
  then show ?case
    by (auto simp: reported_def intro: exI [of _ "alerts d"])
next
  case (Cons i "is")
  obtain d1 r1 where e: "Evaluate i tm v quality d = (d1, r1)"
    by fastforce
  note one = Evaluate_writes [OF e]
  show ?case
  proof (cases r1)
    case (Inl x)
    then show ?thesis
      using e one Cons.prems by auto
  next
    case (Inr a)
    obtain d2 r2 where e2: "evaluate_all is tm v quality d1 = (d2, r2)"
      by fastforce
    note more = Cons.IH [OF e2]
    have "d' = d2" and r: "r = (case r2 of Inl x \<Rightarrow> Inl x | Inr as \<Rightarrow> Inr (a # as))"
      using Cons.prems e e2 Inr by (auto split: sum.splits)
    moreover obtain as1 as2 where "d1 = d\<lparr> alerts := as1 \<rparr>" "d2 = d1\<lparr> alerts := as2 \<rparr>"
      using one more by blast
    then have "d2 = d\<lparr> alerts := as2 \<rparr>"
      by simp
    moreover have "reported (a # bs) d d2" if "r2 = Inr bs" for bs
      using more one that Inr by (auto simp: reported_def)
    ultimately show ?thesis
      by (auto split: sum.splits)
  qed
qed

lemma EvaluateObservation_writes:
  assumes "EvaluateObservation post signal tm v quality d = (d', r)"
  shows "(\<exists>as. d' = d\<lparr> alerts := as \<rparr>) \<and> (\<forall>as. r = Inr as \<longrightarrow> reported as d d' \<and> \<not> io_fault d)"
  using assms evaluate_all_writes [of _ tm v quality d d' r] unfolding EvaluateObservation_def query_def
  by (auto split: if_splits intro: exI [of _ "alerts d"])

lemma while_broken_writes:
  assumes "while_broken b (EvaluateObservation post signal tm v quality) d = (d', r)"
  shows "\<exists>as. d' = d\<lparr> alerts := as \<rparr>" and "r = Inr as \<Longrightarrow> \<not> b \<and> EvaluateObservation post signal tm v quality d = (d', Inr as)"
proof -
  obtain d1 where d1: "EvaluateObservation post signal tm v quality (d\<lparr> io_fault := io_fault d \<or> b \<rparr>) = (d1, r)" "d' = d1\<lparr> io_fault := io_fault d \<rparr>"
    using assms by (auto simp: while_broken_def split: prod.splits)
  note w = EvaluateObservation_writes [OF d1(1)]
  show "\<exists>as. d' = d\<lparr> alerts := as \<rparr>"
    using w d1(2) by auto
  show "\<not> b \<and> EvaluateObservation post signal tm v quality d = (d', Inr as)" if "r = Inr as"
  proof -
    have b: "\<not> b" "\<not> io_fault d"
      using w that by auto
    then have same: "d\<lparr> io_fault := io_fault d \<or> b \<rparr> = d"
      by simp
    obtain bs where "d1 = d\<lparr> alerts := bs \<rparr>"
      using w unfolding same by blast
    then have "d1\<lparr> io_fault := io_fault d \<rparr> = d1"
      by simp
    then show ?thesis
      using d1 b(1) that unfolding same by simp
  qed
qed

lemma queue_firing_writes: "\<exists>xs. queue_firing now as d = d\<lparr> notification_deliveries := xs \<rparr>"
proof (induction as arbitrary: d)
  case Nil
  then show ?case
    by (auto simp: queue_firing_def intro: exI [of _ "notification_deliveries d"])
next
  case (Cons a as)
  have "\<exists>xs. queue_firing now [a] d = d\<lparr> notification_deliveries := xs \<rparr>"
    by (auto simp: queue_firing_def Queue_def exec_def intro: exI [of _ "notification_deliveries d"])
  moreover have "queue_firing now (a # as) d = queue_firing now as (queue_firing now [a] d)"
    by (simp add: queue_firing_def)
  ultimately show ?case
    using Cons.IH [of "queue_firing now [a] d"] by auto
qed

lemma evaluate_items_writes: "evaluate_items fault now n xs d = (d', r) \<Longrightarrow> \<exists>as ds. d' = d\<lparr> alerts := as, notification_deliveries := ds \<rparr>"
proof (induction xs arbitrary: n d d' r)
  case Nil
  then show ?case
    by (intro exI [of _ "alerts d"] exI [of _ "notification_deliveries d"]) simp
next
  case (Cons x xs)
  obtain d1 r1 where e: "while_broken (fault n) (EvaluateObservation (o_PostID x) (o_Signal x) (o_ObservedAt x) (o_Value x) (o_Quality x)) d = (d1, r1)"
    by fastforce
  obtain as where d1: "d1 = d\<lparr> alerts := as \<rparr>"
    using while_broken_writes(1) [OF e] by blast
  show ?case
  proof (cases r1)
    case (Inl y)
    then show ?thesis
      using Cons.prems e d1 by (auto intro!: exI [of _ as] exI [of _ "notification_deliveries d"])
  next
    case (Inr bs)
    obtain qs where q: "queue_firing now bs d1 = d1\<lparr> notification_deliveries := qs \<rparr>"
      using queue_firing_writes by blast
    have "evaluate_items fault now (Suc n) xs (queue_firing now bs d1) = (d', r)"
      using Cons.prems e Inr by simp
    from Cons.IH [OF this] obtain bs' ds where "d' = (queue_firing now bs d1)\<lparr> alerts := bs', notification_deliveries := ds \<rparr>"
      by blast
    then have "d' = (d1\<lparr> notification_deliveries := qs \<rparr>)\<lparr> alerts := bs', notification_deliveries := ds \<rparr>"
      by (simp only: q)
    then show ?thesis
      by (intro exI [of _ bs'] exI [of _ ds]) (simp add: d1)
  qed
qed

section \<open>A batch that was stored\<close>

lemma stored_batch_settled:
  assumes "AcceptBatch now secret os sent b s = (s1, Inr False)" and "b \<noteq> []" and "collector_keys (sv_db s') = collector_keys (sv_db s1)" and "io_fault (sv_db s') = io_fault (sv_db s1)"
    and "secret \<noteq> []" and "o_CollectorID (hd os) \<noteq> []"
  shows "AcceptBatch now' secret os sent' b s' = (s', Inr True)" and "Authenticate now' (o_CollectorID (hd os)) secret (sv_db s') = Inr ()"
proof -
  let ?c = "o_CollectorID (hd os)"
  from assms(1) obtain k rows where a: "find (\<lambda>k. ck_id k = ?c) (collector_keys (sv_db s)) = Some k"
    "\<not> rejects (key_info (sha256 secret) now k) (o_PostID (hd os))" "os \<noteq> []" "length os \<le> 128" "\<not> io_fault (sv_db s)"
    and keys: "sv_db s1 = (sv_db s)\<lparr> observations := observations (sv_db s) @ rows, collector_keys := upd_where (\<lambda>k. ck_id k = ?c)
      (\<lambda>k'. mark_batch now sent b os (promoted (ki_pending (key_info (sha256 secret) now k)) k')) (collector_keys (sv_db s)) \<rparr>"
    by (rule AcceptBatch_fresh) blast
  let ?k = "mark_batch now sent b os (promoted (ki_pending (key_info (sha256 secret) now k)) k)"
  have io: "\<not> io_fault (sv_db s')"
    using assms(4) a(5) keys by simp
  have "find (\<lambda>k. ck_id k = ?c) (collector_keys (sv_db s')) = Some ?k"
    using a(1) assms(3) keys by (simp add: find_upd_where)
  then have l: "lookupKey ?c (sha256 secret) now' (sv_db s') = Inr (key_info (sha256 secret) now' ?k)"
    using io by (simp add: lookupKey_Inr)
  have "ck_secret ?k = sha256 secret"
    using promoted_secret [OF a(2)] by simp
  then have ok: "\<not> rejects (key_info (sha256 secret) now' ?k) (o_PostID (hd os))" "ki_lastBatch (key_info (sha256 secret) now' ?k) = b"
    "ki_active (key_info (sha256 secret) now' ?k)" "\<not> ki_revoked (key_info (sha256 secret) now' ?k)"
    using a(2) by (simp_all add: rejects_def key_info_def)
  show "AcceptBatch now' secret os sent' b s' = (s', Inr True)"
    using a(3,4) io l ok assms(2) by (simp add: AcceptBatch_def Let_def Suc_le_eq)
  show "Authenticate now' ?c secret (sv_db s') = Inr ()"
    using l ok assms(5,6) by (simp add: Authenticate_def)
qed

lemma batch_hd:
  assumes "batch_Validate now b = Inr ()"
  shows "batch_items b \<noteq> []" and "o_CollectorID (hd (batch_items b)) = bt_CollectorID b" and "bt_CollectorID b \<noteq> []" and "bt_BatchID b \<noteq> []"
proof -
  have ne: "bt_Samples b \<noteq> []" and i: "is_identifier (bt_CollectorID b)" "is_identifier (bt_BatchID b)"
    using assms by (auto simp: batch_Validate_def split: if_splits)
  show "batch_items b \<noteq> []" "o_CollectorID (hd (batch_items b)) = bt_CollectorID b"
    using ne by (auto simp: batch_items_def hd_map)
  show "bt_CollectorID b \<noteq> []" "bt_BatchID b \<noteq> []"
    using i by (auto simp: is_identifier_def)
qed

lemma batch_stored:
  assumes "handleCollectorBatch msg fault now guard header b s = (s', a)" and "\<And>s1. AcceptBatch now (bearer header) (batch_items b) (bt_SentAt b) (bt_BatchID b) s \<noteq> (s1, Inr True)"
    and "a = Refused 500 m \<or> a = Served k"
  obtains s1 d' r where "batch_Validate now b = Inr ()" and "bearer header \<noteq> []"
    and "AcceptBatch now (bearer header) (batch_items b) (bt_SentAt b) (bt_BatchID b) s = (s1, Inr False)" and "evaluate_items fault now 0 (batch_items b) (sv_db s1) = (d', r)"
    and "s' = s1\<lparr> sv_db := d' \<rparr>" and "isl r \<longleftrightarrow> a = Refused 500 m"
  using assms unfolding handleCollectorBatch_def Let_def
  by (auto split: sum.splits if_splits prod.splits bool.splits)

lemma evaluate_items_queues:
  "sending d \<Longrightarrow> evaluate_items fault now n xs d = (d', Inr ()) \<Longrightarrow>
     grows d d' \<and> (\<forall>x\<in>set (alerts d'). x \<notin> set (alerts d) \<longrightarrow> al_state x = ''firing'' \<longrightarrow> queued (al_id x) d')"
proof (induction xs arbitrary: n d)
  case Nil
  then show ?case
    by (auto simp: grows_refl)
next
  case (Cons y ys)
  obtain d1 r1 where w: "while_broken (fault n) (EvaluateObservation (o_PostID y) (o_Signal y) (o_ObservedAt y) (o_Value y) (o_Quality y)) d = (d1, r1)"
    by fastforce
  then obtain as where r1: "r1 = Inr as" and rest: "evaluate_items fault now (Suc n) ys (queue_firing now as d1) = (d', Inr ())"
    using Cons.prems(2) by (cases r1) auto
  define dq where "dq = queue_firing now as d1"
  have e: "EvaluateObservation (o_PostID y) (o_Signal y) (o_ObservedAt y) (o_Value y) (o_Quality y) d = (d1, Inr as)"
    using while_broken_writes(2) [OF w r1] by blast
  have rows: "grows d d1" "rows_of as d1" and new: "reported as d d1"
    using EvaluateObservation_rows [OF Cons.prems(1) e] EvaluateObservation_writes [OF e] by auto
  have q: "grows d1 dq" "\<forall>a\<in>set as. a_State a = ''firing'' \<longrightarrow> queued (a_ID a) dq"
    using queue_firing_ok [OF grows_sending [OF rows(1)], of as now] rows(2) by (auto simp: dq_def rows_of_def)
  have same: "alerts dq = alerts d1"
    using queue_firing_writes [of now as d1] by (auto simp: dq_def)
  have step: "grows dq d'" "\<forall>x\<in>set (alerts d'). x \<notin> set (alerts dq) \<longrightarrow> al_state x = ''firing'' \<longrightarrow> queued (al_id x) d'"
    using Cons.IH [of dq "Suc n"] rest grows_sending [OF q(1)] by (auto simp: dq_def)
  have "queued (al_id x) d'" if x: "x \<in> set (alerts d')" "x \<notin> set (alerts d)" "al_state x = ''firing''" for x
  proof (cases "x \<in> set (alerts dq)")
    case True
    then obtain a where "a \<in> set as" "a_ID a = al_id x" "a_State a = ''firing''"
      using new x by (auto simp: same reported_def)
    then have "queued (al_id x) dq"
      using q(2) by metis
    then show ?thesis
      using queued_grows [OF step(1)] by blast
  qed (use step(2) x in blast)
  moreover have "grows d d'"
    using grows_trans [OF rows(1) grows_trans [OF q(1) step(1)]] .
  ultimately show ?case
    by blast
qed

section \<open>A batch of one sample\<close>

text \<open>The concrete case the witnesses run: one sample over the threshold of one rule, one route, one collector. The digest of its secret stays a variable.\<close>

definition sample_samples :: "Sample list" where
  "sample_samples = [\<lparr> sm_Sequence = 1, sm_ObservedAt = 0, sm_Signal = ''load.1'', sm_Value = Some (Num 9), sm_Unit = ''load'', sm_Quality = ''good'', sm_Labels = None \<rparr>]"

definition sample_batch_of_one :: Batch where
  "sample_batch_of_one = \<lparr> bt_Version = 1, bt_PostID = ''a'', bt_CollectorID = ''c'', bt_BatchID = ''b1'', bt_SentAt = 0, bt_Samples = sample_samples \<rparr>"

definition sample_mail :: route_row where
  "sample_mail = \<lparr> rt_id = ''mail'', rt_kind = ''email'', rt_destination = ''ops@x'', rt_secret = [], rt_enabled = True \<rparr>"

definition sample_service :: "string \<Rightarrow> ingestService" where
  "sample_service h = ingest_New (sample_posts\<lparr> collector_keys := [new_key ''c'' ''a'' h],
     rules := [sample_rule\<lparr> ru_signal := ''load.1'', ru_threshold := Num 5, ru_duration := 0 \<rparr>], notification_routes := [sample_mail] \<rparr>)"

definition accepted_db :: "string \<Rightarrow> db" where
  "accepted_db h = (sv_db (sample_service h))\<lparr> observations := [new_observation 0 (hd (batch_items sample_batch_of_one)) empty_db],
     collector_keys := [mark_batch 0 0 ''b1'' (batch_items sample_batch_of_one) (new_key ''c'' ''a'' h)] \<rparr>"

lemmas sample_service_defs = sample_service_def ingest_New_def sample_batch_of_one_def sample_samples_def sample_mail_def batch_items_def sample_rule_def sample_posts_def empty_db_def new_post_def
  new_key_def constraint_defs

lemma sample_evaluation:
  "map (\<lambda>x. (al_id x, al_state x)) (alerts (fst (evaluate_items (\<lambda>_. False) 0 0 (batch_items sample_batch_of_one) (accepted_db h)))) = [(1, ''firing'')]"
  "\<not> isl (snd (evaluate_items (\<lambda>_. False) 0 0 (batch_items sample_batch_of_one) (accepted_db h)))"
  "isl (snd (evaluate_items (\<lambda>_. True) 0 0 (batch_items sample_batch_of_one) (accepted_db h)))"
  by code_simp+

lemma sample_valid: "batch_Validate 0 sample_batch_of_one = Inr ()"
  by code_simp

lemma sample_bearer: "bearer ''Bearer s'' = ''s''"
  by code_simp

lemma sample_constraints: "constraints (sv_db (sample_service h))" "\<not> io_fault (sv_db (sample_service h))" "alerts (sv_db (sample_service h)) = []"
  "notification_routes (sv_db (sample_service h)) = [sample_mail]"
  by (simp_all add: sample_service_defs)

lemma sample_accepted:
  "\<exists>s1. AcceptBatch 0 ''s'' (batch_items sample_batch_of_one) 0 ''b1'' (sample_service (sha256 ''s'')) = (s1, Inr False) \<and> sv_db s1 = accepted_db (sha256 ''s'')"
  by (simp add: AcceptBatch_def lookupKey_def key_info_def query_def Let_def rejects_def promote_if_def allow_def batch_item_ok_def well_formed_def in_clock_bounds_def
      observation_qualities_def is_finite_def int64_def time_units insert_observation_def new_observation_def exec_def accepted_db_def sample_service_defs mark_batch_def marshal_labels_def)

lemma sample_authenticated: "Authenticate 0 ''c'' ''s'' (sv_db (sample_service (sha256 ''s''))) = Inr ()"
  by (simp add: Authenticate_def lookupKey_def key_info_def query_def sample_service_defs)

lemma sample_fields: "bt_CollectorID sample_batch_of_one = ''c''" "bt_SentAt sample_batch_of_one = 0" "bt_BatchID sample_batch_of_one = ''b1''"
  by (simp_all add: sample_batch_of_one_def)

lemma sample_batch_run:
  assumes "evaluate_items fault 0 0 (batch_items sample_batch_of_one) (accepted_db (sha256 ''s'')) = (d', r)"
  shows "\<exists>s1. handleCollectorBatch msg fault 0 (Inr ()) ''Bearer s'' sample_batch_of_one (sample_service (sha256 ''s'')) =
    (s1\<lparr> sv_db := d' \<rparr>, if isl r then Refused 500 ''rule evaluation failed'' else Served (acknowledgement 0 sample_batch_of_one))"
proof -
  obtain s1 where "AcceptBatch 0 ''s'' (batch_items sample_batch_of_one) 0 ''b1'' (sample_service (sha256 ''s'')) = (s1, Inr False)" "sv_db s1 = accepted_db (sha256 ''s'')"
    using sample_accepted by blast
  then show ?thesis
    using assms by (intro exI [of _ s1]) (simp add: handleCollectorBatch_def Let_def sample_valid sample_bearer sample_authenticated sample_fields split: sum.splits)
qed



text \<open>
  C40: A failed evaluation is lost for good: when the database fails while the samples of a stored batch are evaluated the collector is answered 500, and its retry of the same batch is
  acknowledged as a duplicate without evaluating anything, so the alerts the batch should have raised are never raised.
\<close>

theorem failed_evaluation_is_lost:
  assumes "handleCollectorBatch msg fault now guard header b s = (s', Refused 500 m)" and "batch_Validate now' b = Inr ()"
  shows "handleCollectorBatch msg fault' now' (Inr ()) header b s' = (s', Served (acknowledgement now' b))"
proof -
  have fresh: "AcceptBatch now (bearer header) (batch_items b) (bt_SentAt b) (bt_BatchID b) s \<noteq> (s1, Inr True)" for s1
    using assms(1) by (auto simp: handleCollectorBatch_def Let_def split: sum.splits if_splits)
  obtain s1 d' u where secret: "bearer header \<noteq> []" and acc: "AcceptBatch now (bearer header) (batch_items b) (bt_SentAt b) (bt_BatchID b) s = (s1, Inr False)"
    and ev: "evaluate_items fault now 0 (batch_items b) (sv_db s1) = (d', u)" and s': "s' = s1\<lparr> sv_db := d' \<rparr>"
    using batch_stored [OF assms(1) fresh, of m] by blast
  obtain as ds where "d' = (sv_db s1)\<lparr> alerts := as, notification_deliveries := ds \<rparr>"
    using evaluate_items_writes [OF ev] by blast
  then have frame: "collector_keys (sv_db s') = collector_keys (sv_db s1)" "io_fault (sv_db s') = io_fault (sv_db s1)"
    by (simp_all add: s')
  note hd = batch_hd [OF assms(2)]
  have "AcceptBatch now' (bearer header) (batch_items b) (bt_SentAt b) (bt_BatchID b) s' = (s', Inr True)"
    and "Authenticate now' (bt_CollectorID b) (bearer header) (sv_db s') = Inr ()"
    using stored_batch_settled [OF acc hd(4) frame secret] hd(2,3) by metis+
  then show ?thesis
    using secret assms(2) by (simp add: handleCollectorBatch_def Let_def)
qed

theorem failed_evaluation_is_lost_witness:
  "\<exists>s'. handleCollectorBatch (\<lambda>_. []) (\<lambda>_. True) 0 (Inr ()) ''Bearer s'' sample_batch_of_one (sample_service (sha256 ''s'')) = (s', Refused 500 ''rule evaluation failed'')
     \<and> handleCollectorBatch (\<lambda>_. []) (\<lambda>_. False) 0 (Inr ()) ''Bearer s'' sample_batch_of_one s' = (s', Served (acknowledgement 0 sample_batch_of_one))"
proof -
  obtain d' u where ev: "evaluate_items (\<lambda>_. True) 0 0 (batch_items sample_batch_of_one) (accepted_db (sha256 ''s'')) = (d', u)"
    by fastforce
  then have "isl u"
    using sample_evaluation(3) [of "sha256 ''s''"] by simp
  then obtain s1 where "handleCollectorBatch (\<lambda>_. []) (\<lambda>_. True) 0 (Inr ()) ''Bearer s'' sample_batch_of_one (sample_service (sha256 ''s'')) =
    (s1\<lparr> sv_db := d' \<rparr>, Refused 500 ''rule evaluation failed'')"
    using sample_batch_run [OF ev] by auto
  then show ?thesis
    using failed_evaluation_is_lost [OF _ sample_valid] by blast
qed

end
