(* ===== verification/Spec2Isabelle.thy ===== *)
theory Spec2Isabelle
  imports Migrations Replicated_Restart Replicated_Snapshot Rules Pairing Accounts Retention Cluster_Safety Actions Incidents Devices Config Evidence Propagation Investigations Fleet Telemetry
begin

text \<open>
  \<^bold>\<open>Verification of watchpost.\<close>

  Watchpost watches posts (hosts, services, devices). Every installation is one process over one SQLite database: collectors and checks send telemetry in, rules turn it
  into alerts, alerts are notified and gathered into incidents, people act on them, and old history is pruned. Installations can be joined to a cluster whose members
  call one another with signed requests; the definitions of posts, dependencies and rules are optionally replicated by raft, and configuration can be propagated between
  installations. All components share the database and the audit log.

  \<^bold>\<open>How the code is modelled.\<close> The database is the record \<open>db\<close> of \<^verbatim>\<open>Store\<close>, a list of rows per table of \<open>internal/store/store.go\<close>; the keys,
  foreign keys and CHECKs of the schema are the predicate \<open>constraints\<close>. A statement is \<open>exec\<close>, which refuses a result that breaks a constraint; a transaction is \<open>with_tx\<close>,
  which changes nothing when its body fails; \<open>io_fault\<close> is a database that fails. A Go method becomes a definition of the same name (with a prefix when two packages
  share one) that takes the state and returns the new state with the answer, \<open>err + 'a\<close> with every error return as a branch. Clocks, random draws and request data
  are arguments. Machine integers are words or integers with the wrap-around written out (\<open>int64\<close>), \<open>float64\<close> is \<open>f64\<close>: exact rationals with the infinities and NaN,
  timestamps are nanoseconds, compared as the RFC 3339 text the tables hold (\<open>text_key\<close>, which keeps the order SQLite has on them). Loops of the code are structural recursion
  over the rows they visit, except the cycle query (\<open>reach_loop\<close>, ended by the rows it has not seen), the duration parser (\<open>duration_loop\<close>, ended by the text left) and
  the loops the code itself bounds (250 batches of a retention pass, 32 due checks, 100 due deliveries), which keep the bound of the code. No definition takes fuel.

  \<^bold>\<open>Parameters.\<close> Code that is not in the repository is an argument with named hypotheses: gantry-core (operation digests and decoding, account policy, pairing,
  envelopes), raft as the sequence of committed log entries, the network of probes, the mail and webhook sender, SNMP clients, the AEAD of stored secrets, and the parsers of URLs,
  networks and floating point numbers. SHA-256 is defined (\<^verbatim>\<open>Digest\<close>), and where a proof needs that two inputs do not collide it says so.

  \<^bold>\<open>Theories.\<close>
  \<^item> \<^verbatim>\<open>WP_Prelude\<close>, \<^verbatim>\<open>Digest\<close>, \<^verbatim>\<open>Texts\<close>: errors, rows, words, floats, times, JSON, and what the code uses of the standard library.
  \<^item> \<^verbatim>\<open>Machines\<close>, \<^verbatim>\<open>Single_Use\<close>, \<^verbatim>\<open>Audit_Log\<close>: the interfaces below; \<^verbatim>\<open>Audit_Log\<close> is also \<open>internal/audit\<close>.
  \<^item> \<^verbatim>\<open>Store\<close>, \<^verbatim>\<open>Migrations\<close>: the schema and its upgrades (\<open>internal/store\<close>). A database of any earlier version reaches the tables and indexes of a fresh one.
  \<^item> \<^verbatim>\<open>Cleanup\<close>, \<^verbatim>\<open>Depgraph\<close>, \<^verbatim>\<open>Replicated_Meta\<close>, \<^verbatim>\<open>Replicated_FSM\<close>, \<^verbatim>\<open>Replicated_Spec\<close>, \<^verbatim>\<open>Replicated_Log\<close>, \<^verbatim>\<open>Replicated_Restart\<close>, \<^verbatim>\<open>Replicated_Snapshot\<close>,
    \<^verbatim>\<open>Replicated_Adapter\<close>, \<^verbatim>\<open>Replicated_Authenticator\<close>: \<open>internal/replicated\<close>. The abstract contract is a function on the replicated view of the database; every apply
    function refines it, replicas fed one log converge although their local tables differ, a restart replays without change, snapshots restore what was taken, a failed
    apply fences the node, and a handshake is accepted once per window.
  \<^item> \<^verbatim>\<open>Posts\<close>, \<^verbatim>\<open>Rules\<close>, \<^verbatim>\<open>Incidents\<close>: \<open>internal/posts\<close>, \<open>internal/rules\<close>, \<open>internal/incidents\<close>. Optimistic versions lose no edit, the graph stays acyclic, alerts move
    along their lifecycle only, an incident is what its timeline replays to.
  \<^item> \<^verbatim>\<open>Ingest\<close>, \<^verbatim>\<open>Pairing\<close>: \<open>internal/ingest\<close>, \<open>internal/pairing\<close>, \<open>internal/agentpairing\<close>. Telemetry is stored exactly once, tokens are redeemed once,
    credentials follow an approval and rotate without an interruption.
  \<^item> \<^verbatim>\<open>Checks\<close>, \<^verbatim>\<open>Notifications\<close>, \<^verbatim>\<open>Devices\<close>: \<open>internal/checks\<close>, \<open>internal/notify\<close>, \<open>internal/devices\<close>, \<open>internal/secrets\<close> and the loops of
    \<open>internal/server/server.go\<close> that drive them. The target policy decides what is probed, a firing alert reaches every route at most once, the queue drains, credentials survive
    a rotation of the master key.
  \<^item> \<^verbatim>\<open>Accounts\<close>, \<^verbatim>\<open>Actions\<close>: \<open>internal/auth\<close>, \<open>internal/actions\<close>. Setup happens once, an administrator remains, guesses are bounded, an action runs once and
    after the approval of a second person, however executions interleave.
  \<^item> \<^verbatim>\<open>Retention\<close>, \<^verbatim>\<open>Evidence\<close>, \<^verbatim>\<open>Config\<close>: \<open>internal/history\<close>, \<open>internal/retention\<close>, \<open>internal/evidence\<close>, \<open>internal/config\<close>. Live rows survive a pass, secrets are
    redacted, what loads is in bounds.
  \<^item> \<^verbatim>\<open>Cluster_Identity\<close>, \<^verbatim>\<open>Cluster_Pairing\<close>, \<^verbatim>\<open>Cluster_Members\<close>, \<^verbatim>\<open>Cluster_Safety\<close>: \<open>internal/cluster\<close>. A member was approved, an invitation admits one node, a signed call is
    accepted once.
  \<^item> \<^verbatim>\<open>Propagation\<close>: \<open>internal/propagation\<close>. What was exported arrives, and an application can be undone.
  \<^item> \<^verbatim>\<open>Investigations\<close>, \<^verbatim>\<open>Fleet\<close>: \<open>internal/agent\<close>, \<open>internal/fleet\<close>. An answer cites evidence that exists and that retention then keeps; an event of a peer is taken
    once, a revoked peer stays out.
  \<^item> \<^verbatim>\<open>Access\<close>, \<^verbatim>\<open>Telemetry\<close>: \<open>internal/server\<close>, \<open>internal/collectorcontract\<close>, \<open>internal/storage\<close>. The routes with the guard in front of their handlers, and the way of a
    batch through validation, the storage guard, ingest, rules and notification. No guarded handler runs without a live session; what an acknowledged batch raised is notified.

  \<^bold>\<open>Interfaces.\<close> \<open>machine\<close> (steps that keep an invariant, so every run does), \<open>replica\<close> (a machine whose steps respect an equivalence, so equal logs give equivalent
  states) and \<open>fenced\<close> (after a failure nothing changes) are interpreted on the replicated state machine; \<open>machine\<close> also on accounts, the identity of a node and the peers.
  \<open>single_use\<close> (what is redeemed is spent, what is spent is not redeemed and stays spent, so no run redeems twice) is interpreted on sequence numbers of
  collectors, pairing tokens, setup, replication handshakes, cluster invitations, signed calls, deliveries, executions of actions and events of peers. \<open>audited\<close> (an operation that changes
  state leaves an audit row in the same transaction) is interpreted on posts, incidents, device profiles and conversations.

  \<^bold>\<open>Not modelled.\<close> \<open>internal/service\<close> (installation with systemd, launchd and Windows services: processes and files), \<open>cmd\<close> (flags and terminal output), the decoding and
  encoding of HTTP in \<open>internal/server\<close> around the operations above, \<open>web\<close> (assets), \<open>internal/backup\<close> (copies files),
  \<open>internal/runtime\<close> (supervision of goroutines), \<open>internal/host\<close> and \<open>internal/hostcollector\<close> (sampling of an operating system), and the fan-out of read-only calls in
  \<open>internal/cluster/distributed_status.go\<close> and \<open>distributed_summary.go\<close>. Within the modelled operations, contexts are not cancelled, and of concurrency the interleavings are
  modelled that the code admits between its transactions (executions of actions, deliveries, handshakes); SQLite serialises the transactions themselves.
\<close>

section \<open>Evidence and retention\<close>

lemma held_by_answer:
  assumes "conv \<in> set (conversations d)" and "cv_id conv = conversation" and "cv_post conv \<noteq> None \<or> cv_incident conv \<noteq> None"
    and "x \<in> set (conversation_evidence d)" and "ev_conversation x = conversation" and "ev_kind x = kind" and "ev_evidence x = n"
  shows "held p now d kind n"
  unfolding held_def attached_evidence_def orphan_def by (intro exI [of _ x] conjI bexI [of _ conv]) (use assms in auto)



end
